(* ===== verification/Fmtp_Prelude.thy ===== *)
theory Fmtp_Prelude
  imports Main "HOL-Library.Word" "HOL-Library.Multiset" "HOL-Library.Sublist"
begin

text \<open>
  What every component shares: bytes and Go strings, the pieces of Go's \<open>strconv\<close> and
  \<open>strings\<close> packages the program uses (\<open>Itoa\<close>, \<open>Atoi\<close>, \<open>Split\<close>, \<open>Join\<close>), the encoding of
  the Cyrillic literals of the source, the collections of simplification rules the
  component theories fill, and generic lemmas on lists.

  A Go string is a sequence of bytes; so is an Isabelle \<open>string\<close>, a list of 8-bit
  characters. A \<open>[]byte\<close> is a list of 8-bit words.
\<close>

type_synonym byte = "8 word"
type_synonym uint16 = "16 word"
type_synonym time = int

text \<open>Collections: name tables of the enumerations, equations of the handlers, and the
  unfolding rules of the step functions of the components.\<close>

named_theorems table_defs "name tables of the enumerations"

section \<open>Bytes and strings\<close>

definition bytes_of :: "string \<Rightarrow> byte list" where
  "bytes_of s = map of_char s"

definition string_of :: "byte list \<Rightarrow> string" where
  "string_of bs = map (\<lambda>b. char_of (unat b)) bs"

lemma of_nat_of_char_byte: "(of_char c :: byte) = of_nat (of_char c)"
  by (cases c) (simp add: of_char_def)

lemma unat_of_char [simp]: "unat (of_char c :: byte) = of_char c"
proof -
  have "(of_char c :: nat) < 256" by (rule nat_of_char_less_256)
  then show ?thesis by (simp add: of_nat_of_char_byte unat_of_nat)
qed

lemma of_char_char_of_unat [simp]: "(of_char (char_of (unat b) :: char) :: byte) = b"
proof -
  have "unat b < 256" using unsigned_less [of b, where ?'a = nat] by simp
  then show ?thesis by (simp add: of_nat_of_char_byte)
qed

lemma string_of_bytes_of [simp]: "string_of (bytes_of s) = s"
  by (simp add: string_of_def bytes_of_def comp_def)

lemma bytes_of_string_of [simp]: "bytes_of (string_of bs) = bs"
  by (simp add: string_of_def bytes_of_def comp_def)

lemma length_bytes_of [simp]: "length (bytes_of s) = length s"
  by (simp add: bytes_of_def)

lemma length_string_of [simp]: "length (string_of bs) = length bs"
  by (simp add: string_of_def)

lemma bytes_of_append [simp]: "bytes_of (s @ t) = bytes_of s @ bytes_of t"
  by (simp add: bytes_of_def)

lemma string_of_append [simp]: "string_of (xs @ ys) = string_of xs @ string_of ys"
  by (simp add: string_of_def)

lemma bytes_of_Nil [simp]: "bytes_of [] = []"
  by (simp add: bytes_of_def)

lemma string_of_Nil [simp]: "string_of [] = []"
  by (simp add: string_of_def)

lemma bytes_of_inj [simp]: "bytes_of s = bytes_of t \<longleftrightarrow> s = t"
  by (metis string_of_bytes_of)

section \<open>The Cyrillic literals of the source\<close>

text \<open>
  The string literals of the program are UTF-8 and mostly Russian. \<open>ru\<close> writes such a
  literal with one Latin letter or digit per Cyrillic letter and yields its UTF-8 bytes:
  \<open>ru ''Owibka''\<close> is the ten bytes of the Russian word for ``error''. Every other
  character stands for itself.
\<close>

definition ru_table :: "(char \<times> nat) list" where
  "ru_table =
    [(CHR ''a'', 0x430), (CHR ''b'', 0x431), (CHR ''v'', 0x432), (CHR ''g'', 0x433),
     (CHR ''d'', 0x434), (CHR ''e'', 0x435), (CHR ''x'', 0x436), (CHR ''z'', 0x437),
     (CHR ''i'', 0x438), (CHR ''j'', 0x439), (CHR ''k'', 0x43A), (CHR ''l'', 0x43B),
     (CHR ''m'', 0x43C), (CHR ''n'', 0x43D), (CHR ''o'', 0x43E), (CHR ''p'', 0x43F),
     (CHR ''r'', 0x440), (CHR ''s'', 0x441), (CHR ''t'', 0x442), (CHR ''u'', 0x443),
     (CHR ''f'', 0x444), (CHR ''h'', 0x445), (CHR ''c'', 0x446), (CHR ''4'', 0x447),
     (CHR ''w'', 0x448), (CHR ''q'', 0x449), (CHR ''y'', 0x44B), (CHR ''8'', 0x44C),
     (CHR ''3'', 0x44D), (CHR ''0'', 0x44E), (CHR ''9'', 0x44F),
     (CHR ''A'', 0x410), (CHR ''B'', 0x411), (CHR ''V'', 0x412), (CHR ''D'', 0x414),
     (CHR ''Z'', 0x417), (CHR ''I'', 0x418), (CHR ''K'', 0x41A), (CHR ''L'', 0x41B),
     (CHR ''M'', 0x41C), (CHR ''N'', 0x41D), (CHR ''O'', 0x41E), (CHR ''P'', 0x41F),
     (CHR ''R'', 0x420), (CHR ''S'', 0x421), (CHR ''T'', 0x422), (CHR ''U'', 0x423),
     (CHR ''F'', 0x424), (CHR ''W'', 0x428)]"

text \<open>UTF-8 of a code point between U+0080 and U+07FF: two bytes.\<close>

definition utf8_pair :: "nat \<Rightarrow> string" where
  "utf8_pair n = [char_of (192 + n div 64), char_of (128 + n mod 64)]"

definition ru :: "string \<Rightarrow> string" where
  "ru s = concat (map (\<lambda>c. case map_of ru_table c of Some n \<Rightarrow> utf8_pair n | None \<Rightarrow> [c]) s)"

lemma length_utf8_pair [simp]: "length (utf8_pair n) = 2"
  by (simp add: utf8_pair_def)

lemma ru_Nil: "ru [] = []"
  by (simp add: ru_def)

lemma ru_Cons:
  "ru (c # s) = (case map_of ru_table c of Some n \<Rightarrow> utf8_pair n | None \<Rightarrow> [c]) @ ru s"
  by (simp add: ru_def)

text \<open>The simplifier does not look into the literals.\<close>

lemma ru_opaque [cong]: "ru s = ru s"
  by (rule refl)

text \<open>The bytes of a Cyrillic letter are above 127, so an ASCII character of the result
  is one of the literal.\<close>

lemma utf8_pair_high:
  assumes "n < 2048" and "c \<in> set (utf8_pair n)"
  shows "128 \<le> (of_char c :: nat)"
proof -
  have "n div 64 < 32" using assms(1) by (simp add: less_mult_imp_div_less)
  moreover have "n mod 64 < 64" by simp
  ultimately show ?thesis using assms(2) by (auto simp: utf8_pair_def)
qed

lemma ru_table_small: "map_of ru_table c = Some n \<Longrightarrow> n < 2048"
  by (drule map_of_SomeD) (auto simp: ru_table_def)

lemma ru_table_high:
  "map_of ru_table a = Some n \<Longrightarrow> (of_char c :: nat) < 128 \<Longrightarrow> c \<notin> set (utf8_pair n)"
  using ru_table_small utf8_pair_high by (meson not_le)

lemma ru_ascii: "(of_char c :: nat) < 128 \<Longrightarrow> c \<in> set (ru s) \<Longrightarrow> c \<in> set s"
  by (induction s) (auto simp: ru_Nil ru_Cons ru_table_high split: option.splits)

text \<open>The number of bytes of a literal.\<close>

definition ru_width :: "char \<Rightarrow> nat" where
  "ru_width c = (if map_of ru_table c = None then 1 else 2)"

lemma length_ru: "length (ru s) = sum_list (map ru_width s)"
  by (induction s) (auto simp: ru_Nil ru_Cons ru_width_def split: option.splits)

section \<open>Decimal numbers: Itoa and Atoi\<close>

definition digit :: "nat \<Rightarrow> char" where
  "digit d = char_of (48 + d)"

definition digit_val :: "char \<Rightarrow> nat option" where
  "digit_val c = (let n = (of_char c :: nat) in if 48 \<le> n \<and> n \<le> 57 then Some (n - 48) else None)"

fun nat_digits :: "nat \<Rightarrow> string" where
  "nat_digits n = (if n < 10 then [digit n] else nat_digits (n div 10) @ [digit (n mod 10)])"

declare nat_digits.simps [simp del]

definition Itoa :: "int \<Rightarrow> string" where
  "Itoa i = (if i < 0 then CHR ''-'' # nat_digits (nat (- i)) else nat_digits (nat i))"

fun parse_digits :: "nat \<Rightarrow> string \<Rightarrow> nat option" where
  "parse_digits acc [] = Some acc"
| "parse_digits acc (c # s) =
     (case digit_val c of None \<Rightarrow> None | Some d \<Rightarrow> parse_digits (acc * 10 + d) s)"

text \<open>
  Go's \<open>Atoi\<close> returns a value and an error: 0 with a syntax error, the nearest
  64-bit integer with a range error. The flag is true when there is no error.
\<close>

definition int_max :: int where "int_max = 2 ^ 63 - 1"
definition int_min :: int where "int_min = - (2 ^ 63)"

definition Atoi_signed :: "bool \<Rightarrow> string \<Rightarrow> int \<times> bool" where
  "Atoi_signed neg s =
     (if s = [] then (0, False)
      else case parse_digits 0 s of
        None \<Rightarrow> (0, False)
      | Some n \<Rightarrow>
          if neg then (if - int n < int_min then (int_min, False) else (- int n, True))
          else (if int_max < int n then (int_max, False) else (int n, True)))"

fun Atoi :: "string \<Rightarrow> int \<times> bool" where
  "Atoi [] = (0, False)"
| "Atoi (c # s) =
     (if c = CHR ''-'' then Atoi_signed True s
      else if c = CHR ''+'' then Atoi_signed False s
      else Atoi_signed False (c # s))"

lemma digit_val_digit: "d < 10 \<Longrightarrow> digit_val (digit d) = Some d"
  by (simp add: digit_val_def digit_def)

lemma digit_neq_sign: "d < 10 \<Longrightarrow> digit d \<noteq> CHR ''-'' \<and> digit d \<noteq> CHR ''+''"
  by (auto dest!: arg_cong [of _ _ digit_val] simp: digit_val_digit) (simp_all add: digit_val_def)

lemma nat_digits_less: "n < 10 \<Longrightarrow> nat_digits n = [digit n]"
  by (subst nat_digits.simps) simp

lemma nat_digits_step: "10 \<le> n \<Longrightarrow> nat_digits n = nat_digits (n div 10) @ [digit (n mod 10)]"
  by (subst nat_digits.simps) simp

lemma nat_digits_neq_Nil [simp]: "nat_digits n \<noteq> []"
  by (subst nat_digits.simps) simp

lemma parse_digits_append:
  "parse_digits acc (s @ [c]) =
     (case parse_digits acc s of None \<Rightarrow> None
      | Some n \<Rightarrow> (case digit_val c of None \<Rightarrow> None | Some d \<Rightarrow> Some (n * 10 + d)))"
  by (induction s arbitrary: acc) (auto split: option.splits)

lemma parse_digits_nat_digits: "parse_digits 0 (nat_digits n) = Some n"
proof (induction n rule: nat_digits.induct)
  case (1 n)
  show ?case
  proof (cases "n < 10")
    case True
    then show ?thesis by (simp add: nat_digits_less digit_val_digit)
  next
    case False
    with 1 show ?thesis by (simp add: nat_digits_step parse_digits_append digit_val_digit)
  qed
qed

lemma nat_digits_hd:
  assumes "nat_digits n = c # s"
  shows "c \<noteq> CHR ''-'' \<and> c \<noteq> CHR ''+''"
proof -
  have "parse_digits 0 (c # s) = Some n" using parse_digits_nat_digits [of n] assms by simp
  then obtain d where "digit_val c = Some d" by (auto split: option.splits)
  then show ?thesis by (auto simp: digit_val_def)
qed

lemma Atoi_signed_nat_digits:
  "int n \<le> int_max \<Longrightarrow> Atoi_signed False (nat_digits n) = (int n, True)"
  "int_min \<le> - int n \<Longrightarrow> Atoi_signed True (nat_digits n) = (- int n, True)"
  by (simp_all add: Atoi_signed_def parse_digits_nat_digits)

text \<open>\<open>Atoi\<close> reads back what \<open>Itoa\<close> prints, over the whole range of a 64-bit \<open>int\<close>.\<close>

lemma Atoi_Itoa:
  assumes "int_min \<le> i" and "i \<le> int_max"
  shows "Atoi (Itoa i) = (i, True)"
proof (cases "i < 0")
  case True
  with assms show ?thesis
    using Atoi_signed_nat_digits(2) [of "nat (- i)"] by (simp add: Itoa_def)
next
  case False
  then have i: "Itoa i = nat_digits (nat i)" by (simp add: Itoa_def)
  obtain c s where cs: "nat_digits (nat i) = c # s"
    using nat_digits_neq_Nil [of "nat i"] by (cases "nat_digits (nat i)") auto
  have "Atoi (c # s) = Atoi_signed False (c # s)" using nat_digits_hd [OF cs] by simp
  with False assms show ?thesis
    using Atoi_signed_nat_digits(1) [of "nat i"] by (simp add: i cs del: Atoi.simps)
qed

lemma digit_val_not_comma: "digit_val (CHR '','') = None"
  by (simp add: digit_val_def)

lemma parse_digits_digits: "parse_digits acc s = Some n \<Longrightarrow> c \<in> set s \<Longrightarrow> digit_val c \<noteq> None"
  by (induction s arbitrary: acc) (auto split: option.splits)

lemma Itoa_no_comma: "CHR '','' \<notin> set (Itoa i)"
  using parse_digits_digits [OF parse_digits_nat_digits, of "CHR '',''"]
  by (auto simp: Itoa_def digit_val_not_comma)

lemma nat_digits_inj: "nat_digits m = nat_digits n \<Longrightarrow> m = n"
  by (metis option.inject parse_digits_nat_digits)

lemma nat_digits_not_minus: "nat_digits n \<noteq> CHR ''-'' # x"
proof
  assume "nat_digits n = CHR ''-'' # x"
  then have "CHR ''-'' \<in> set (nat_digits n)" by simp
  from parse_digits_digits [OF parse_digits_nat_digits this] show False by (simp add: digit_val_def)
qed

lemma Itoa_inj: "Itoa i = Itoa j \<Longrightarrow> i = j"
proof -
  assume e: "Itoa i = Itoa j"
  show "i = j"
  proof (cases "i < 0 \<longleftrightarrow> j < 0")
    case True
    then have "nat (if i < 0 then - i else i) = nat (if j < 0 then - j else j)"
      using e by (intro nat_digits_inj) (auto simp: Itoa_def split: if_splits)
    then show ?thesis using True by (auto split: if_splits)
  next
    case False
    then show ?thesis using e nat_digits_not_minus nat_digits_not_minus [THEN not_sym]
      by (auto simp: Itoa_def split: if_splits)
  qed
qed

section \<open>strings.Join and strings.Split\<close>

fun Join :: "string list \<Rightarrow> char \<Rightarrow> string" where
  "Join [] sep = []"
| "Join [s] sep = s"
| "Join (s # t # ss) sep = s @ sep # Join (t # ss) sep"

fun Split :: "string \<Rightarrow> char \<Rightarrow> string list" where
  "Split [] sep = [[]]"
| "Split (c # s) sep =
     (if c = sep then [] # Split s sep
      else case Split s sep of [] \<Rightarrow> [[c]] | w # ws \<Rightarrow> (c # w) # ws)"

lemma Split_neq_Nil [simp]: "Split s sep \<noteq> []"
  by (induction s) (auto split: list.splits)

text \<open>A string splits into one more piece than it has separators.\<close>

lemma length_Split: "length (Split s sep) = Suc (count_list s sep)"
proof (induction s)
  case (Cons c s)
  then show ?case by (cases "Split s sep") auto
qed simp

lemma Split_no_sep: "sep \<notin> set s \<Longrightarrow> Split s sep = [s]"
  by (induction s) auto

lemma Split_append_sep: "sep \<notin> set s \<Longrightarrow> Split (s @ sep # t) sep = s # Split t sep"
proof (induction s)
  case (Cons c s)
  then show ?case by (cases "Split t sep") auto
qed simp

lemma Split_Join:
  "ss \<noteq> [] \<Longrightarrow> \<forall>s \<in> set ss. sep \<notin> set s \<Longrightarrow> Split (Join ss sep) sep = ss"
  by (induction ss sep rule: Join.induct) (auto simp: Split_no_sep Split_append_sep)

lemma count_list_Join:
  "ss \<noteq> [] \<Longrightarrow>
   count_list (Join ss sep) sep = length ss - 1 + sum_list (map (\<lambda>s. count_list s sep) ss)"
  by (induction ss sep rule: Join.induct) auto

section \<open>Lists\<close>

lemma find_append:
  "find P (xs @ ys) = (case find P xs of None \<Rightarrow> find P ys | Some x \<Rightarrow> Some x)"
  by (induction xs) auto

lemma find_unique:
  assumes "x \<in> set xs" and "P x" and "\<And>y. y \<in> set xs \<Longrightarrow> P y \<Longrightarrow> y = x"
  shows "find P xs = Some x"
proof (cases "find P xs")
  case None
  with assms(1,2) show ?thesis by (auto simp: find_None_iff)
next
  case (Some y)
  then have "y \<in> set xs" "P y" by (auto simp: find_Some_iff)
  then have "y = x" by (rule assms(3))
  with Some show ?thesis by simp
qed

text \<open>
  Go ranges over a map in an unspecified order. Where at most one entry can satisfy the
  test of a search loop, the order does not matter.
\<close>

lemma find_unique_perm:
  assumes "mset xs = mset ys"
    and uniq: "\<And>x y. x \<in> set xs \<Longrightarrow> y \<in> set xs \<Longrightarrow> P x \<Longrightarrow> P y \<Longrightarrow> x = y"
  shows "find P xs = find P ys"
proof -
  have s: "set xs = set ys" using assms(1) by (metis set_mset_mset)
  show ?thesis
  proof (cases "find P xs")
    case None
    then show ?thesis using s by (metis find_None_iff)
  next
    case (Some x)
    then have x: "x \<in> set xs" "P x" by (auto simp: find_Some_iff)
    then obtain y where y: "find P ys = Some y" using s by (metis find_None_iff option.exhaust)
    then have "y \<in> set ys" "P y" by (auto simp: find_Some_iff)
    with x s uniq have "y = x" by blast
    with y Some show ?thesis by simp
  qed
qed

section \<open>Runs\<close>

text \<open>The actions of a run, each of which has to be possible where it is taken.\<close>

fun run_steps :: "('a \<Rightarrow> 's \<Rightarrow> 's option) \<Rightarrow> 'a list \<Rightarrow> 's \<Rightarrow> 's option" where
  "run_steps f [] s = Some s"
| "run_steps f (a # as) s = (case f a s of None \<Rightarrow> None | Some t \<Rightarrow> run_steps f as t)"

lemma run_steps_append:
  "run_steps f (as @ bs) s = (case run_steps f as s of None \<Rightarrow> None | Some t \<Rightarrow> run_steps f bs t)"
  by (induction "as" arbitrary: s) (auto split: option.split)

lemma run_steps_invariant:
  assumes "\<And>a s t. a \<in> set as \<Longrightarrow> I s \<Longrightarrow> f a s = Some t \<Longrightarrow> I t"
  shows "run_steps f as s = Some t \<Longrightarrow> I s \<Longrightarrow> I t"
  using assms
proof (induction "as" arbitrary: s)
  case (Cons a "as")
  then obtain u where u: "f a s = Some u" "run_steps f as u = Some t" by (auto split: option.splits)
  have "I u" using Cons.prems(3) [OF _ Cons.prems(2) u(1)] by simp
  then show ?case by (rule Cons.IH [OF u(2)]) (rule Cons.prems(3), simp_all)
qed simp

end
