(* ===== verification/Fmtp_Messages.thy ===== *)
theory Fmtp_Messages
  imports Fmtp_Prelude
begin

text \<open>
  The enumerations of the package \<open>fmtp\<close> and the messages: \<open>fmtp/fmtp_event.go\<close>,
  \<open>fmtp/fmtp_state.go\<close> and \<open>fmtp/fmtp_messages.go\<close>. Each enumeration has a name table
  (a Go map literal), a \<open>ToString\<close> that looks a value up in it and a \<open>FromString\<close> that
  ranges over it. Go ranges over a map in an order of its own choice, so \<open>FromString\<close>
  takes the table in the order of the iteration; the locale \<open>name_table\<close> shows that
  the order never matters and that the two functions are inverse to each other.
\<close>

section \<open>Events\<close>

text \<open>The constant \<open>None = -1\<close> of the source is \<open>NoneEvent\<close> here.\<close>

datatype FmtpEvent =
  LSetup | RSetup | TcSetup | LDisconnect | RDisconnect | TcDisconnect | LData | LShutdown
| LStartup | RData | RAccept | RReject | RIdValid | RIdInvalid | RHeartbeat | RShutdown
| RStartup | TsTimeout | TrTimeout | TiTimeout | Disable | Enable | NoneEvent

definition fmtpEventMap :: "(FmtpEvent \<times> string) list" where
  "fmtpEventMap =
    [(LSetup, ''l_setup''), (RSetup, ''r_setup''), (TcSetup, ''tc_setup''),
     (LDisconnect, ''l_disconnect''), (RDisconnect, ''r_disconnect''),
     (TcDisconnect, ''tc_disconnect''), (LData, ''l_data''), (LShutdown, ''l_shutdown''),
     (LStartup, ''l_startup''), (RData, ''r_data''), (RAccept, ''r_accept''),
     (RReject, ''r_reject''), (RIdValid, ''r_id_valid''), (RIdInvalid, ''r_id_invalid''),
     (RHeartbeat, ''r_heartbeat''), (RShutdown, ''r_shutdown''), (RStartup, ''r_startup''),
     (TsTimeout, ''ts_timeout''), (TrTimeout, ''tr_timeout''), (TiTimeout, ''ti_timeout''),
     (Disable, ''disable''), (Enable, ''enable'')]"

definition FmtpEvent_ToString :: "FmtpEvent \<Rightarrow> string" where
  "FmtpEvent_ToString fe =
     (case map_of fmtpEventMap fe of Some curEventString \<Rightarrow> curEventString | None \<Rightarrow> ''none'')"

fun FmtpEvent_FromString :: "(FmtpEvent \<times> string) list \<Rightarrow> string \<Rightarrow> FmtpEvent" where
  "FmtpEvent_FromString [] curEventString = NoneEvent"
| "FmtpEvent_FromString ((curKey, curEvent) # iter) curEventString =
     (if curEvent = curEventString then curKey else FmtpEvent_FromString iter curEventString)"

section \<open>States\<close>

datatype FmtpState =
  Idle | ConPending | SysIdPending | IdPending | Ready | AssPending | DataReady | Disabled
| Empt

definition fmtpStateMap :: "(FmtpState \<times> string) list" where
  "fmtpStateMap =
    [(Idle, ''idle''), (ConPending, ''connection_pending''),
     (SysIdPending, ''system_id_pending''), (IdPending, ''id_pending''), (Ready, ''ready''),
     (AssPending, ''ass_pending''), (DataReady, ''data_ready''), (Disabled, ''disabled''),
     (Empt, ''empt'')]"

definition FmtpState_ToString :: "FmtpState \<Rightarrow> string" where
  "FmtpState_ToString fs =
     (case map_of fmtpStateMap fs of Some curStateString \<Rightarrow> curStateString | None \<Rightarrow> [])"

fun FmtpState_FromString :: "(FmtpState \<times> string) list \<Rightarrow> string \<Rightarrow> FmtpState" where
  "FmtpState_FromString [] curStateString = Empt"
| "FmtpState_FromString ((curKey, curState) # iter) curStateString =
     (if curState = curStateString then curKey else FmtpState_FromString iter curStateString)"

section \<open>Packet types and messages\<close>

text \<open>
  A packet type is the fifth byte of a header, so every byte is one: \<open>PacketType\<close> is an
  8-bit word with the named values as constants.
\<close>

type_synonym PacketType = byte

definition Operational :: PacketType where "Operational = 1"
definition Operator :: PacketType where "Operator = 2"
definition Identification :: PacketType where "Identification = 3"
definition System :: PacketType where "System = 4"
definition Status :: PacketType where "Status = 5"
definition Unknown :: PacketType where "Unknown = 6"

lemmas packet_type_defs =
  Operational_def Operator_def Identification_def System_def Status_def Unknown_def

definition UnknwnFmtpPacketType :: string where
  "UnknwnFmtpPacketType = ''Unknown Typ''"

definition packetTypeMap :: "(PacketType \<times> string) list" where
  "packetTypeMap =
    [(Operational, ''operational''), (Operator, ''operator''),
     (Identification, ''identification''), (System, ''system''), (Status, ''status''),
     (Unknown, UnknwnFmtpPacketType)]"

definition PacketType_ToString :: "PacketType \<Rightarrow> string" where
  "PacketType_ToString pt =
     (case map_of packetTypeMap pt of
        Some curTypeString \<Rightarrow> curTypeString | None \<Rightarrow> UnknwnFmtpPacketType)"

fun PacketType_FromString :: "(PacketType \<times> string) list \<Rightarrow> string \<Rightarrow> PacketType" where
  "PacketType_FromString [] packetTypeString = Unknown"
| "PacketType_FromString ((curKey, curType) # iter) packetTypeString =
     (if curType = packetTypeString then curKey else PacketType_FromString iter packetTypeString)"

record FmtpMessage =
  msgType :: PacketType
  msgText :: string

definition StartupMessage :: FmtpMessage where
  "StartupMessage = \<lparr>msgType = System, msgText = ''01''\<rparr>"
definition ShutdownMessage :: FmtpMessage where
  "ShutdownMessage = \<lparr>msgType = System, msgText = ''00''\<rparr>"
definition HeartbeatMessage :: FmtpMessage where
  "HeartbeatMessage = \<lparr>msgType = System, msgText = ''03''\<rparr>"
definition RejectMessage :: FmtpMessage where
  "RejectMessage = \<lparr>msgType = Identification, msgText = ''REJECT''\<rparr>"
definition AcceptMessage :: FmtpMessage where
  "AcceptMessage = \<lparr>msgType = Identification, msgText = ''ACCEPT''\<rparr>"

lemmas message_defs =
  StartupMessage_def ShutdownMessage_def HeartbeatMessage_def RejectMessage_def AcceptMessage_def

definition CreateIdentificationMessage :: "string \<Rightarrow> string \<Rightarrow> bool \<Rightarrow> FmtpMessage" where
  "CreateIdentificationMessage localName remoteName ownMsg =
     (if ownMsg then \<lparr>msgType = Identification, msgText = localName @ ''-'' @ remoteName\<rparr>
      else \<lparr>msgType = Identification, msgText = remoteName @ ''-'' @ localName\<rparr>)"

section \<open>The interface of the name tables\<close>

declare FmtpEvent_ToString_def [table_defs] fmtpEventMap_def [table_defs]
  FmtpState_ToString_def [table_defs] fmtpStateMap_def [table_defs]
  PacketType_ToString_def [table_defs] packetTypeMap_def [table_defs] UnknwnFmtpPacketType_def [table_defs]

locale name_table =
  fixes table :: "('k \<times> string) list"
    and to_string :: "'k \<Rightarrow> string"
    and from_string :: "('k \<times> string) list \<Rightarrow> string \<Rightarrow> 'k"
    and default_name :: string
    and default_key :: 'k
  assumes to_string_def: "to_string k = (case map_of table k of Some s \<Rightarrow> s | None \<Rightarrow> default_name)"
    and from_string_Nil: "from_string [] s = default_key"
    and from_string_Cons: "from_string ((k, n) # iter) s = (if n = s then k else from_string iter s)"
    and distinct_keys: "distinct (map fst table)"
    and distinct_names: "distinct (map snd table)"
begin

lemma from_string_find:
  "from_string iter s = (case find (\<lambda>p. snd p = s) iter of Some p \<Rightarrow> fst p | None \<Rightarrow> default_key)"
  by (induction iter) (auto simp: from_string_Nil from_string_Cons)

text \<open>The order in which Go ranges over the table does not change the result.\<close>

lemma from_string_order:
  assumes "mset iter = mset table"
  shows "from_string iter s = from_string table s"
proof -
  have "find (\<lambda>p. snd p = s) table = find (\<lambda>p. snd p = s) iter"
  proof (rule find_unique_perm)
    show "mset table = mset iter" using assms by simp
    fix x y assume "x \<in> set table" "y \<in> set table" "snd x = s" "snd y = s"
    then show "x = y" using distinct_names by (metis distinct_map inj_onD)
  qed
  then show ?thesis by (simp add: from_string_find)
qed

lemma to_string_table: "(k, s) \<in> set table \<Longrightarrow> to_string k = s"
  using distinct_keys by (simp add: to_string_def)

lemma from_string_table: "(k, s) \<in> set table \<Longrightarrow> from_string table s = k"
proof -
  assume "(k, s) \<in> set table"
  then have "find (\<lambda>p. snd p = s) table = Some (k, s)"
    using distinct_names by (intro find_unique) (auto simp: distinct_map inj_on_def)
  then show ?thesis by (simp add: from_string_find)
qed

text \<open>Round trip: a value of the table is read back from its own name, in any order.\<close>

lemma from_to_string:
  assumes "k \<in> fst ` set table" and "mset iter = mset table"
  shows "from_string iter (to_string k) = k"
proof -
  from assms(1) obtain s where "(k, s) \<in> set table" by force
  then show ?thesis
    by (simp add: from_string_order [OF assms(2)] to_string_table from_string_table)
qed

text \<open>A name outside the table reads as the default.\<close>

lemma from_string_unknown:
  assumes "s \<notin> snd ` set table" and "mset iter = mset table"
  shows "from_string iter s = default_key"
proof -
  have "find (\<lambda>p. snd p = s) table = None" using assms(1) by (force simp: find_None_iff)
  then show ?thesis by (simp only: from_string_order [OF assms(2)]) (simp add: from_string_find)
qed

end

interpretation events: name_table fmtpEventMap FmtpEvent_ToString FmtpEvent_FromString "''none''" NoneEvent
  by unfold_locales (simp_all add: table_defs)

interpretation states: name_table fmtpStateMap FmtpState_ToString FmtpState_FromString "[]" Empt
  by unfold_locales (simp_all add: table_defs)

interpretation packets: name_table packetTypeMap PacketType_ToString PacketType_FromString
    UnknwnFmtpPacketType Unknown
  by unfold_locales
    (simp_all add: table_defs packet_type_defs)

section \<open>Finite enumerations\<close>

text \<open>
  Events and states are finite, so statements over all of them are decided by evaluation.
\<close>

instantiation FmtpEvent :: enum
begin

definition enum_FmtpEvent :: "FmtpEvent list" where
  "enum_FmtpEvent = map fst fmtpEventMap @ [NoneEvent]"
definition enum_all_FmtpEvent :: "(FmtpEvent \<Rightarrow> bool) \<Rightarrow> bool" where
  "enum_all_FmtpEvent P \<longleftrightarrow> list_all P (map fst fmtpEventMap @ [NoneEvent])"
definition enum_ex_FmtpEvent :: "(FmtpEvent \<Rightarrow> bool) \<Rightarrow> bool" where
  "enum_ex_FmtpEvent P \<longleftrightarrow> list_ex P (map fst fmtpEventMap @ [NoneEvent])"

instance
proof
  have all: "set (map fst fmtpEventMap @ [NoneEvent]) = UNIV"
  proof (rule UNIV_eq_I [symmetric])
    fix e :: FmtpEvent
    show "e \<in> set (map fst fmtpEventMap @ [NoneEvent])"
      by (cases e) (simp_all add: fmtpEventMap_def)
  qed
  then show "(UNIV :: FmtpEvent set) = set enum_class.enum" by (simp add: enum_FmtpEvent_def)
  show "distinct (enum_class.enum :: FmtpEvent list)"
    by (simp add: enum_FmtpEvent_def fmtpEventMap_def)
  fix P :: "FmtpEvent \<Rightarrow> bool"
  show "enum_class.enum_all P \<longleftrightarrow> Ball UNIV P"
    unfolding enum_all_FmtpEvent_def list_all_iff all ..
  show "enum_class.enum_ex P \<longleftrightarrow> Bex UNIV P"
    unfolding enum_ex_FmtpEvent_def list_ex_iff all ..
qed

end

instantiation FmtpState :: enum
begin

definition enum_FmtpState :: "FmtpState list" where
  "enum_FmtpState = map fst fmtpStateMap"
definition enum_all_FmtpState :: "(FmtpState \<Rightarrow> bool) \<Rightarrow> bool" where
  "enum_all_FmtpState P \<longleftrightarrow> list_all P (map fst fmtpStateMap)"
definition enum_ex_FmtpState :: "(FmtpState \<Rightarrow> bool) \<Rightarrow> bool" where
  "enum_ex_FmtpState P \<longleftrightarrow> list_ex P (map fst fmtpStateMap)"

instance
proof
  have all: "set (map fst fmtpStateMap) = UNIV"
  proof (rule UNIV_eq_I [symmetric])
    fix s :: FmtpState
    show "s \<in> set (map fst fmtpStateMap)" by (cases s) (simp_all add: fmtpStateMap_def)
  qed
  then show "(UNIV :: FmtpState set) = set enum_class.enum" by (simp add: enum_FmtpState_def)
  show "distinct (enum_class.enum :: FmtpState list)"
    by (simp add: enum_FmtpState_def fmtpStateMap_def)
  fix P :: "FmtpState \<Rightarrow> bool"
  show "enum_class.enum_all P \<longleftrightarrow> Ball UNIV P"
    unfolding enum_all_FmtpState_def list_all_iff all ..
  show "enum_class.enum_ex P \<longleftrightarrow> Bex UNIV P"
    unfolding enum_ex_FmtpState_def list_ex_iff all ..
qed

end

section \<open>Properties\<close>

text \<open>The text of an event, of a state and of a named packet type is read back as
  the value it is the text of, in whatever order Go goes through the table.\<close>

theorem names_round_trip:
  assumes "mset evIter = mset fmtpEventMap" and "mset stIter = mset fmtpStateMap"
    and "mset ptIter = mset packetTypeMap"
  shows "FmtpEvent_FromString evIter (FmtpEvent_ToString e) = e \<and>
    FmtpState_FromString stIter (FmtpState_ToString s) = s \<and>
    (PacketType_ToString pt \<noteq> UnknwnFmtpPacketType \<longrightarrow>
       PacketType_FromString ptIter (PacketType_ToString pt) = pt)"
proof (intro conjI impI)
  show "FmtpEvent_FromString evIter (FmtpEvent_ToString e) = e"
  proof (cases "e = NoneEvent")
    case True
    have "FmtpEvent_FromString evIter ''none'' = NoneEvent"
      by (rule events.from_string_unknown [OF _ assms(1)]) (simp add: fmtpEventMap_def)
    then show ?thesis by (simp add: True FmtpEvent_ToString_def fmtpEventMap_def)
  next
    case False
    then show ?thesis
      by (intro events.from_to_string assms(1)) (cases e; simp add: fmtpEventMap_def)
  qed
  show "FmtpState_FromString stIter (FmtpState_ToString s) = s"
    by (intro states.from_to_string assms(2)) (cases s; simp add: fmtpStateMap_def)
  assume "PacketType_ToString pt \<noteq> UnknwnFmtpPacketType"
  then have "map_of packetTypeMap pt \<noteq> None" by (simp add: PacketType_ToString_def split: option.splits)
  then have "pt \<in> fst ` set packetTypeMap" by (simp add: map_of_eq_None_iff)
  then show "PacketType_FromString ptIter (PacketType_ToString pt) = pt"
    by (rule packets.from_to_string [OF _ assms(3)])
qed

theorem names_round_trip_witness:
  "FmtpEvent_FromString (rev fmtpEventMap) (FmtpEvent_ToString TsTimeout) = TsTimeout \<and>
   FmtpState_FromString (rev fmtpStateMap) (FmtpState_ToString AssPending) = AssPending \<and>
   (PacketType_ToString Status \<noteq> UnknwnFmtpPacketType \<longrightarrow>
      PacketType_FromString (rev packetTypeMap) (PacketType_ToString Status) = Status)"
  by (rule names_round_trip) simp_all

end
