(* ===== verification/Fmtp_Machine.thy ===== *)
theory Fmtp_Machine
  imports Fmtp_Messages "HOL-Library.AList"
begin

text \<open>
  The transition table of a channel, \<open>fmtp/fmtp_state_machine.go\<close>. The table is a Go map
  from a state to a map from the next state to the events that lead there. The outer map
  is only looked up: a HOL map. The inner one is ranged over, so it is an association list
  and the lookup takes the order of the iteration as a parameter, a function that
  permutes the entries.
\<close>

section \<open>The code\<close>

type_synonym FmtpStateMachine = "FmtpState \<rightharpoonup> (FmtpState \<times> FmtpEvent list) list"

text \<open>\<open>curMachine[s][n] = evs\<close>, for an entry \<open>s\<close> that exists.\<close>

definition put_events :: "FmtpStateMachine \<Rightarrow> FmtpState \<Rightarrow> FmtpState \<Rightarrow> FmtpEvent list \<Rightarrow> FmtpStateMachine" where
  "put_events m s n evs =
     (case m s of None \<Rightarrow> m | Some row \<Rightarrow> m(s \<mapsto> AList.update n evs row))"

definition commonStateMachine :: "FmtpStateMachine \<Rightarrow> FmtpStateMachine" where
  "commonStateMachine m0 =
    (let m1 = m0(Ready \<mapsto> [(AssPending, [LStartup])]);
         m2 = put_events m1 Ready Idle [LDisconnect, RDisconnect];
         m3 = put_events m2 Ready Ready [LShutdown];
         m4 = m3(AssPending \<mapsto> [(Ready, [LShutdown])]);
         m5 = put_events m4 AssPending DataReady [RStartup];
         m6 = put_events m5 AssPending Idle [LDisconnect, RDisconnect];
         m7 = put_events m6 AssPending AssPending [TiTimeout];
         m8 = m7(DataReady \<mapsto> [(AssPending, [RShutdown])]);
         m9 = put_events m8 DataReady Ready [LShutdown];
         m10 = put_events m9 DataReady Idle [LDisconnect, RDisconnect, TrTimeout];
         m11 = put_events m10 DataReady DataReady [LData, RData, RHeartbeat, TsTimeout]
     in m11)"

definition InitStateMachine :: "string \<Rightarrow> FmtpStateMachine" where
  "InitStateMachine tcpRole =
    (let retValue = Map.empty;
         retValue =
           (if tcpRole = ''client'' then
              let m1 = retValue(Idle \<mapsto> [(ConPending, [LSetup])]);
                  m2 = put_events m1 Idle Idle [LDisconnect, RDisconnect];
                  m3 = m2(ConPending \<mapsto> [(IdPending, [RSetup])]);
                  m4 = put_events m3 ConPending Idle [LDisconnect, RDisconnect,
                         LData, LShutdown, LStartup, RData, RAccept, RReject, RHeartbeat,
                         RShutdown, RStartup, TiTimeout];
                  m5 = m4(IdPending \<mapsto> [(Ready, [RIdValid])]);
                  m6 = put_events m5 IdPending Idle [LDisconnect, RDisconnect, RReject, RAccept,
                         RIdInvalid, RData, RHeartbeat, RShutdown, RStartup, TiTimeout,
                         LData, LShutdown, LStartup]
              in m6
            else
              let m1 = retValue(Idle \<mapsto> [(SysIdPending, [RSetup])]);
                  m2 = put_events m1 Idle Idle [LDisconnect, RDisconnect];
                  m3 = m2(SysIdPending \<mapsto> [(IdPending, [RIdValid])]);
                  m4 = put_events m3 SysIdPending Idle [LDisconnect, RDisconnect, RAccept,
                         RReject, TiTimeout, RData, RIdInvalid, RHeartbeat, RShutdown, RStartup];
                  m5 = put_events m4 SysIdPending SysIdPending [RSetup];
                  m6 = m5(IdPending \<mapsto> [(Ready, [RAccept])]);
                  m7 = put_events m6 IdPending Idle [LDisconnect, RDisconnect, RData, RReject,
                         RHeartbeat, RShutdown, RStartup, TiTimeout]
              in m7)
     in commonStateMachine retValue)"

text \<open>The inner loop over the events of one entry.\<close>

fun has_event :: "FmtpEvent list \<Rightarrow> FmtpEvent \<Rightarrow> bool" where
  "has_event [] curEvent = False"
| "has_event (eventIt # evs) curEvent = (if eventIt = curEvent then True else has_event evs curEvent)"

fun search_row :: "(FmtpState \<times> FmtpEvent list) list \<Rightarrow> FmtpEvent \<Rightarrow> FmtpState" where
  "search_row [] curEvent = Empt"
| "search_row ((nextStateIt, evs) # row) curEvent =
     (if has_event evs curEvent then nextStateIt else search_row row curEvent)"

type_synonym iteration = "(FmtpState \<times> FmtpEvent list) list \<Rightarrow> (FmtpState \<times> FmtpEvent list) list"

definition GetNextState :: "iteration \<Rightarrow> FmtpStateMachine \<Rightarrow> FmtpState \<Rightarrow> FmtpEvent \<Rightarrow> FmtpState" where
  "GetNextState order sfm curState curEvent =
     (case sfm curState of Some curStateVal \<Rightarrow> search_row (order curStateVal) curEvent | None \<Rightarrow> Empt)"

section \<open>The tables, row by row\<close>

lemma client_rows:
  "InitStateMachine ''client'' Idle = Some [(ConPending, [LSetup]), (Idle, [LDisconnect, RDisconnect])]"
  "InitStateMachine ''client'' ConPending = Some [(IdPending, [RSetup]),
     (Idle, [LDisconnect, RDisconnect, LData, LShutdown, LStartup, RData, RAccept, RReject,
             RHeartbeat, RShutdown, RStartup, TiTimeout])]"
  "InitStateMachine ''client'' SysIdPending = None"
  "InitStateMachine ''client'' IdPending = Some [(Ready, [RIdValid]),
     (Idle, [LDisconnect, RDisconnect, RReject, RAccept, RIdInvalid, RData, RHeartbeat,
             RShutdown, RStartup, TiTimeout, LData, LShutdown, LStartup])]"
  by (simp_all add: InitStateMachine_def commonStateMachine_def put_events_def)

lemma server_rows:
  assumes "role \<noteq> ''client''"
  shows
  "InitStateMachine role Idle = Some [(SysIdPending, [RSetup]), (Idle, [LDisconnect, RDisconnect])]"
  "InitStateMachine role ConPending = None"
  "InitStateMachine role SysIdPending = Some [(IdPending, [RIdValid]),
     (Idle, [LDisconnect, RDisconnect, RAccept, RReject, TiTimeout, RData, RIdInvalid,
             RHeartbeat, RShutdown, RStartup]), (SysIdPending, [RSetup])]"
  "InitStateMachine role IdPending = Some [(Ready, [RAccept]),
     (Idle, [LDisconnect, RDisconnect, RData, RReject, RHeartbeat, RShutdown, RStartup, TiTimeout])]"
  using assms by (simp_all add: InitStateMachine_def commonStateMachine_def put_events_def)

lemma common_rows:
  "InitStateMachine role Ready = Some [(AssPending, [LStartup]), (Idle, [LDisconnect, RDisconnect]),
     (Ready, [LShutdown])]"
  "InitStateMachine role AssPending = Some [(Ready, [LShutdown]), (DataReady, [RStartup]),
     (Idle, [LDisconnect, RDisconnect]), (AssPending, [TiTimeout])]"
  "InitStateMachine role DataReady = Some [(AssPending, [RShutdown]), (Ready, [LShutdown]),
     (Idle, [LDisconnect, RDisconnect, TrTimeout]),
     (DataReady, [LData, RData, RHeartbeat, TsTimeout])]"
  "InitStateMachine role Disabled = None"
  "InitStateMachine role Empt = None"
  by (simp_all add: InitStateMachine_def commonStateMachine_def put_events_def Let_def)

lemmas machine_rows = client_rows server_rows common_rows

section \<open>The table as a function of state and event\<close>

lemma has_event_iff [simp]: "has_event evs e \<longleftrightarrow> e \<in> set evs"
  by (induction evs) auto

lemma search_row_find:
  "search_row row e = (case find (\<lambda>p. e \<in> set (snd p)) row of None \<Rightarrow> Empt | Some p \<Rightarrow> fst p)"
  by (induction row) auto

text \<open>What the lookup of a channel of either role yields, whatever the order.\<close>

definition nextState :: "string \<Rightarrow> FmtpState \<Rightarrow> FmtpEvent \<Rightarrow> FmtpState" where
  "nextState tcpRole s e = GetNextState id (InitStateMachine tcpRole) s e"

text \<open>The abstract protocol: the part both roles share and the set-up of each.\<close>

fun protocol_common :: "FmtpState \<Rightarrow> FmtpEvent \<Rightarrow> FmtpState" where
  "protocol_common Ready e =
     (if e = LStartup then AssPending else if e = LShutdown then Ready
      else if e \<in> {LDisconnect, RDisconnect} then Idle else Empt)"
| "protocol_common AssPending e =
     (if e = RStartup then DataReady else if e = LShutdown then Ready
      else if e = TiTimeout then AssPending
      else if e \<in> {LDisconnect, RDisconnect} then Idle else Empt)"
| "protocol_common DataReady e =
     (if e = RShutdown then AssPending else if e = LShutdown then Ready
      else if e \<in> {LData, RData, RHeartbeat, TsTimeout} then DataReady
      else if e \<in> {LDisconnect, RDisconnect, TrTimeout} then Idle else Empt)"
| "protocol_common _ e = Empt"

fun protocol :: "bool \<Rightarrow> FmtpState \<Rightarrow> FmtpEvent \<Rightarrow> FmtpState" where
  "protocol client Idle e =
     (if e \<in> {LDisconnect, RDisconnect} then Idle
      else if client \<and> e = LSetup then ConPending
      else if \<not> client \<and> e = RSetup then SysIdPending else Empt)"
| "protocol client ConPending e =
     (if \<not> client then Empt else if e = RSetup then IdPending
      else if e \<in> {LSetup, TcSetup, TcDisconnect, RIdValid, RIdInvalid, TsTimeout, TrTimeout,
                   Disable, Enable, NoneEvent} then Empt else Idle)"
| "protocol client SysIdPending e =
     (if client then Empt else if e = RIdValid then IdPending
      else if e = RSetup then SysIdPending
      else if e \<in> {LDisconnect, RDisconnect, RAccept, RReject, TiTimeout, RData, RIdInvalid,
                   RHeartbeat, RShutdown, RStartup} then Idle else Empt)"
| "protocol client IdPending e =
     (if e = (if client then RIdValid else RAccept) then Ready
      else if e \<in> {LDisconnect, RDisconnect, RData, RReject, RHeartbeat, RShutdown, RStartup,
                   TiTimeout} then Idle
      else if client \<and> e \<in> {RAccept, RIdInvalid, LData, LShutdown, LStartup} then Idle else Empt)"
| "protocol client s e = protocol_common s e"

lemma search_row_perm:
  assumes "mset row' = mset row"
    and "\<And>p q. p \<in> set row \<Longrightarrow> q \<in> set row \<Longrightarrow> e \<in> set (snd p) \<Longrightarrow> e \<in> set (snd q) \<Longrightarrow> p = q"
  shows "search_row row' e = search_row row e"
proof -
  have "find (\<lambda>p. e \<in> set (snd p)) row = find (\<lambda>p. e \<in> set (snd p)) row'"
    by (rule find_unique_perm) (use assms in auto)
  then show ?thesis by (simp add: search_row_find)
qed

text \<open>No event stands in two lists of one row: the property the lookup relies on.\<close>

definition row_functional :: "(FmtpState \<times> FmtpEvent list) list \<Rightarrow> bool" where
  "row_functional row \<longleftrightarrow> distinct (concat (map snd row))"

lemma row_functional_unique:
  assumes "row_functional row" "p \<in> set row" "q \<in> set row" "e \<in> set (snd p)" "e \<in> set (snd q)"
  shows "p = q"
  using assms
proof (induction row)
  case (Cons r row)
  have disj: "set (snd r) \<inter> set (concat (map snd row)) = {}" and d: "row_functional row"
    using Cons.prems(1) by (auto simp: row_functional_def)
  have out: "e \<notin> set (snd x)" if "x \<in> set row" "e \<in> set (snd r)" for x
    using disj that by auto
  show ?case
  proof (cases "p = r \<or> q = r")
    case True
    with Cons.prems out [of p] out [of q] show ?thesis by auto
  next
    case False
    with Cons.prems have "p \<in> set row" "q \<in> set row" by auto
    with Cons.IH d Cons.prems(4,5) show ?thesis by blast
  qed
qed simp

lemma machine_row_functional:
  "InitStateMachine role s = Some row \<Longrightarrow> row_functional row"
  by (cases s; cases "role = ''client''") (auto simp: machine_rows row_functional_def)

lemma GetNextState_any_order:
  assumes "\<And>row. mset (order row) = mset row"
  shows "GetNextState order (InitStateMachine role) s e = nextState role s e"
proof (cases "InitStateMachine role s")
  case None
  then show ?thesis by (simp add: nextState_def GetNextState_def)
next
  case (Some row)
  have "search_row (order row) e = search_row row e"
    using assms row_functional_unique [OF machine_row_functional [OF Some]]
    by (intro search_row_perm) auto
  with Some show ?thesis by (simp add: nextState_def GetNextState_def)
qed

lemma nextState_protocol: "nextState role s e = protocol (role = ''client'') s e"
  by (cases "role = ''client''"; cases s; cases e) (simp_all add: nextState_def GetNextState_def machine_rows)

text \<open>
  From here on the lookup is used through \<open>nextState_protocol\<close>: a step is decided by case
  analysis on the state and the event.
\<close>

section \<open>Runs of the machine\<close>

text \<open>The controller ignores an event with no entry (\<open>Empt\<close>) and keeps its state.\<close>

definition move :: "string \<Rightarrow> FmtpState \<Rightarrow> FmtpEvent \<Rightarrow> FmtpState" where
  "move role s e = (if nextState role s e = Empt then s else nextState role s e)"

fun run_events :: "(FmtpState \<Rightarrow> FmtpEvent \<Rightarrow> FmtpState) \<Rightarrow> FmtpState \<Rightarrow> FmtpEvent list \<Rightarrow> FmtpState" where
  "run_events f s [] = s"
| "run_events f s (e # es) = run_events f (f s e) es"

lemma run_events_append: "run_events f s (es @ fs) = run_events f (run_events f s es) fs"
  by (induction es arbitrary: s) auto

text \<open>
  A machine whose states carry a rank, where the rank rises by one at a time and only on
  the key event of that rank, performs every key between two states it passes.
\<close>

locale staged_machine =
  fixes step :: "FmtpState \<Rightarrow> FmtpEvent \<Rightarrow> FmtpState"
    and rank :: "FmtpState \<Rightarrow> nat"
    and keys :: "FmtpEvent list"
  assumes climb: "rank s < rank (step s e) \<Longrightarrow>
      rank (step s e) = Suc (rank s) \<and> rank s < length keys \<and> e = keys ! rank s"
begin

lemma run_climbs:
  "subseq (take (rank (run_events step s es) - rank s) (drop (rank s) keys)) es"
proof (induction es arbitrary: s)
  case Nil
  then show ?case by simp
next
  case (Cons e es)
  let ?t = "step s e" and ?r = "rank (run_events step (step s e) es)"
  have IH: "subseq (take (?r - rank ?t) (drop (rank ?t) keys)) es" by (rule Cons.IH)
  show ?case
  proof (cases "rank s < rank ?t")
    case True
    then have c: "rank ?t = Suc (rank s)" "rank s < length keys" "e = keys ! rank s"
      using climb by blast+
    show ?thesis
    proof (cases "?r \<le> rank s")
      case False
      then have "?r - rank s = Suc (?r - rank ?t)" using c(1) by arith
      then have "take (?r - rank s) (drop (rank s) keys) =
          e # take (?r - rank ?t) (drop (rank ?t) keys)"
        using c by (simp add: Cons_nth_drop_Suc [symmetric])
      then show ?thesis using IH by simp
    qed simp
  next
    case False
    then have "take (?r - rank s) (drop (rank s) keys) =
        drop (rank s - rank ?t) (take (?r - rank ?t) (drop (rank ?t) keys))"
      by (simp add: drop_take)
    then have "subseq (take (?r - rank s) (drop (rank s) keys))
        (take (?r - rank ?t) (drop (rank ?t) keys))" by (metis suffix_drop suffix_imp_subseq)
    then have "subseq (take (?r - rank s) (drop (rank s) keys)) es"
      using IH by (rule subseq_order.order_trans)
    then show ?thesis by auto
  qed
qed

corollary run_passes_keys:
  assumes "rank s = 0" and "rank (run_events step s es) = length keys"
  shows "subseq keys es"
  using run_climbs [of s es] assms by simp

end

fun stage :: "FmtpState \<Rightarrow> nat" where
  "stage ConPending = 1" | "stage SysIdPending = 1" | "stage IdPending = 2" | "stage Ready = 3"
| "stage AssPending = 4" | "stage DataReady = 5" | "stage _ = 0"

interpretation client_machine: staged_machine "move ''client''" stage
    "[LSetup, RSetup, RIdValid, LStartup, RStartup]"
proof
  fix s e
  assume "stage s < stage (move ''client'' s e)"
  then show "stage (move ''client'' s e) = Suc (stage s) \<and>
      stage s < length [LSetup, RSetup, RIdValid, LStartup, RStartup] \<and>
      e = [LSetup, RSetup, RIdValid, LStartup, RStartup] ! stage s"
    by (cases s; cases e) (simp_all add: move_def nextState_protocol)
qed

interpretation server_machine: staged_machine "move ''server''" stage
    "[RSetup, RIdValid, RAccept, LStartup, RStartup]"
proof
  fix s e
  assume "stage s < stage (move ''server'' s e)"
  then show "stage (move ''server'' s e) = Suc (stage s) \<and>
      stage s < length [RSetup, RIdValid, RAccept, LStartup, RStartup] \<and>
      e = [RSetup, RIdValid, RAccept, LStartup, RStartup] ! stage s"
    by (cases s; cases e) (simp_all add: move_def nextState_protocol)
qed

text \<open>The states each role can be in.\<close>

definition role_states :: "string \<Rightarrow> FmtpState set" where
  "role_states role =
     {Idle, IdPending, Ready, AssPending, DataReady} \<union>
     (if role = ''client'' then {ConPending} else {SysIdPending})"

lemma move_role_states: "s \<in> role_states role \<Longrightarrow> move role s e \<in> role_states role"
  by (cases s; cases e) (auto simp: role_states_def move_def nextState_protocol split: if_splits)

lemma run_role_states: "s \<in> role_states role \<Longrightarrow> run_events (move role) s es \<in> role_states role"
  by (induction es arbitrary: s) (auto intro: move_role_states)

lemma move_disconnect:
  "s \<in> role_states role \<Longrightarrow> e \<in> {LDisconnect, RDisconnect} \<Longrightarrow> move role s e = Idle"
  by (cases s) (auto simp: role_states_def move_def nextState_protocol split: if_splits)

section \<open>Properties\<close>

text \<open>C31: The lookup in the table built for a role yields what the protocol
  prescribes for the role, the state and the event, in whatever order Go goes through the rows.\<close>

theorem lookup_is_protocol:
  assumes "\<And>row. mset (order row) = mset row"
  shows "GetNextState order (InitStateMachine role) s e = protocol (role = ''client'') s e"
  using GetNextState_any_order [OF assms] nextState_protocol by simp

theorem lookup_is_protocol_witness:
  "GetNextState rev (InitStateMachine ''server'') SysIdPending RIdValid =
     protocol (''server'' = ''client'') SysIdPending RIdValid"
  by (rule lookup_is_protocol) simp

end
