(* ===== verification/Fmtp_Package.thy ===== *)
theory Fmtp_Package
  imports Fmtp_Messages
begin

text \<open>
  The FMTP packet, \<open>fmtp/fmtp_package.go\<close>: a header of five bytes (version, reserved,
  16-bit big-endian length of the whole packet, type) and the text. The lemmas say what
  the parser reads from a packet the maker built, for every message, with the 16-bit
  wrap-around of the length and the bounds the parser checks.
\<close>

unbundle bit_operations_syntax

section \<open>The code\<close>

definition FmtpVersion :: nat where "FmtpVersion = 2"
definition FmtpReserved :: nat where "FmtpReserved = 0"
definition FmtpHeaderLen :: nat where "FmtpHeaderLen = 5"
definition FmtpPackageMaxLength :: nat where "FmtpPackageMaxLength = push_bit 15 2 - 1"
definition FmtpPackageBodyMaxLen :: nat where
  "FmtpPackageBodyMaxLen = FmtpPackageMaxLength - FmtpHeaderLen"

lemmas package_consts =
  FmtpVersion_def FmtpReserved_def FmtpHeaderLen_def FmtpPackageMaxLength_def
  FmtpPackageBodyMaxLen_def

record FmtpPacketTCPHeader =
  Version :: byte
  Reserved :: byte
  PkgLen :: uint16
  PkgType :: PacketType
  IsValid :: bool

text \<open>\<open>binary.BigEndian\<close> of the standard library.\<close>

definition PutUint16 :: "uint16 \<Rightarrow> byte list" where
  "PutUint16 v = [ucast (drop_bit 8 v), ucast v]"

definition Uint16 :: "byte \<Rightarrow> byte \<Rightarrow> uint16" where
  "Uint16 b0 b1 = ucast b1 OR push_bit 8 (ucast b0)"

definition marshalFmtpHeader :: "FmtpPacketTCPHeader \<Rightarrow> string + byte list" where
  "marshalFmtpHeader fph =
     (let lenBuf = PutUint16 (PkgLen fph);
          out = [Version fph, Reserved fph, lenBuf ! 0, lenBuf ! 1, PkgType fph]
      in Inr out)"

definition MakeFmtpPacket :: "FmtpMessage \<Rightarrow> byte list" where
  "MakeFmtpPacket msg =
     (let curFmtpHeader =
            \<lparr>Version = 2, Reserved = 0,
             PkgLen = of_nat (length (msgText msg)) + of_nat FmtpHeaderLen,
             PkgType = msgType msg, IsValid = False\<rparr>;
          retValue = (case marshalFmtpHeader curFmtpHeader of Inl _ \<Rightarrow> [] | Inr out \<Rightarrow> out)
      in retValue @ bytes_of (msgText msg))"

text \<open>
  The parser indexes the first five bytes of its argument: a shorter slice is a panic,
  here \<open>None\<close>.
\<close>

definition ParceFmtpPacketHeader :: "byte list \<Rightarrow> FmtpPacketTCPHeader option" where
  "ParceFmtpPacketHeader data =
     (if length data < FmtpHeaderLen then None
      else
        let len = Uint16 (data ! 2) (data ! 3);
            valid = (unat (data ! 0) = FmtpVersion \<and> unat (data ! 1) = FmtpReserved \<and>
                     PacketType_ToString (data ! 4) \<noteq> UnknwnFmtpPacketType \<and>
                     unat len < FmtpPackageBodyMaxLen \<and> unat len > FmtpHeaderLen)
        in Some \<lparr>Version = data ! 0, Reserved = data ! 1, PkgLen = len,
                 PkgType = data ! 4, IsValid = valid\<rparr>)"

definition BodyLen :: "FmtpPacketTCPHeader \<Rightarrow> int" where
  "BodyLen fph = (if PkgLen fph = 0 then 0 else int (unat (PkgLen fph)) - int FmtpHeaderLen)"

section \<open>Big-endian length\<close>

lemma Uint16_PutUint16 [simp]: "Uint16 (PutUint16 v ! 0) (PutUint16 v ! Suc 0) = v"
  unfolding Uint16_def PutUint16_def
  by (rule bit_eqI) (auto simp: bit_simps not_less)

lemma PutUint16_Uint16 [simp]: "PutUint16 (Uint16 b0 b1) = [b0, b1]"
proof -
  have "ucast (drop_bit 8 (ucast b1 OR push_bit 8 (ucast b0 :: uint16))) = b0"
    by (rule bit_eqI) (auto simp: bit_simps dest: bit_imp_le_length)
  moreover have "ucast (ucast b1 OR push_bit 8 (ucast b0 :: uint16)) = b1"
    by (rule bit_eqI) (auto simp: bit_simps dest: bit_imp_le_length)
  ultimately show ?thesis by (simp add: Uint16_def PutUint16_def)
qed

lemma length_PutUint16 [simp]: "length (PutUint16 v) = 2"
  by (simp add: PutUint16_def)

section \<open>What the parser accepts\<close>

definition known_type :: "PacketType \<Rightarrow> bool" where
  "known_type pt \<longleftrightarrow> pt \<in> set [Operational, Operator, Identification, System, Status]"

lemma known_type_iff: "PacketType_ToString pt \<noteq> UnknwnFmtpPacketType \<longleftrightarrow> known_type pt"
  by (simp add: PacketType_ToString_def packetTypeMap_def UnknwnFmtpPacketType_def
      packet_type_defs known_type_def)

lemma known_types [simp]:
  "known_type Operational" "known_type Operator" "known_type Identification"
  "known_type System" "known_type Status" "\<not> known_type Unknown" "\<not> known_type 0"
  by (simp_all add: known_type_def packet_type_defs)

text \<open>The messages whose packet the parser reads back: a named type and a text of 1 to
  65524 bytes.\<close>

definition sendable :: "FmtpMessage \<Rightarrow> bool" where
  "sendable m \<longleftrightarrow> known_type (msgType m) \<and> 0 < length (msgText m) \<and> length (msgText m) \<le> 65524"

text \<open>The header the maker writes in front of the text.\<close>

definition header_of :: "FmtpMessage \<Rightarrow> FmtpPacketTCPHeader" where
  "header_of m =
     \<lparr>Version = 2, Reserved = 0, PkgLen = of_nat (length (msgText m)) + 5,
      PkgType = msgType m,
      IsValid = (known_type (msgType m) \<and>
                 5 < (length (msgText m) + 5) mod 65536 \<and>
                 (length (msgText m) + 5) mod 65536 < 65530)\<rparr>"

lemma unat_pkg_len:
  "unat (of_nat n + 5 :: uint16) = (n + 5) mod 65536"
proof -
  have "(of_nat n + 5 :: uint16) = of_nat (n + 5)" by simp
  then show ?thesis by (simp only: unat_of_nat) simp
qed

lemma MakeFmtpPacket_eq:
  "MakeFmtpPacket m =
     [2, 0, PutUint16 (of_nat (length (msgText m)) + 5) ! 0,
      PutUint16 (of_nat (length (msgText m)) + 5) ! 1, msgType m] @ bytes_of (msgText m)"
  by (simp add: MakeFmtpPacket_def marshalFmtpHeader_def FmtpHeaderLen_def Let_def)

lemma length_MakeFmtpPacket [simp]: "length (MakeFmtpPacket m) = 5 + length (msgText m)"
  by (simp add: MakeFmtpPacket_eq)

lemma parse_made:
  "ParceFmtpPacketHeader (take 5 (MakeFmtpPacket m @ rest)) = Some (header_of m)"
proof -
  have t: "take 5 (MakeFmtpPacket m @ rest) =
    [2, 0, PutUint16 (of_nat (length (msgText m)) + 5) ! 0,
     PutUint16 (of_nat (length (msgText m)) + 5) ! 1, msgType m]"
    by (simp add: MakeFmtpPacket_eq)
  show ?thesis
    unfolding t ParceFmtpPacketHeader_def header_of_def
    by (auto simp: package_consts Let_def known_type_iff unat_pkg_len simp del: Suc_eq_plus1)
qed

lemma valid_header_of: "sendable m \<Longrightarrow> IsValid (header_of m)"
  by (simp add: sendable_def header_of_def)

lemma BodyLen_header_of: "sendable m \<Longrightarrow> BodyLen (header_of m) = int (length (msgText m))"
proof -
  assume "sendable m"
  then have n: "(length (msgText m) + 5) mod 65536 = length (msgText m) + 5"
    by (simp add: sendable_def)
  have u: "unat (of_nat (length (msgText m)) + 5 :: uint16) = length (msgText m) + 5"
    using unat_pkg_len [of "length (msgText m)"] n by simp
  then have "(of_nat (length (msgText m)) + 5 :: uint16) \<noteq> 0" by (metis add_is_0 unat_0 zero_neq_numeral)
  with u show ?thesis by (simp add: BodyLen_def header_of_def FmtpHeaderLen_def)
qed

lemma parsed_valid_bounds:
  assumes "ParceFmtpPacketHeader data = Some h" and "IsValid h"
  shows "1 \<le> BodyLen h" and "BodyLen h \<le> 65524" and "known_type (PkgType h)"
  using assms
  by (auto simp: ParceFmtpPacketHeader_def BodyLen_def package_consts Let_def known_type_iff
      unat_eq_0 simp del: of_nat_unat split: if_splits)

section \<open>Properties\<close>

text \<open>The header at the front of a packet made from a message is parsed, whatever bytes
  follow; it carries the type of the message and the length of the text plus five modulo 65536, and it
  is valid exactly when the type is a named one and that length lies between 6 and 65529.\<close>

theorem made_header:
  "\<exists>h. ParceFmtpPacketHeader (take FmtpHeaderLen (MakeFmtpPacket m @ rest)) = Some h \<and>
     PkgType h = msgType m \<and> unat (PkgLen h) = (length (msgText m) + 5) mod 65536 \<and>
     (IsValid h \<longleftrightarrow> known_type (msgType m) \<and> 5 < (length (msgText m) + 5) mod 65536 \<and>
        (length (msgText m) + 5) mod 65536 < 65530)"
proof (intro exI conjI)
  show "ParceFmtpPacketHeader (take FmtpHeaderLen (MakeFmtpPacket m @ rest)) = Some (header_of m)"
    using parse_made [of m rest] by (simp only: FmtpHeaderLen_def)
qed (simp_all add: header_of_def unat_pkg_len)

text \<open>A header the parser calls valid, from whatever five bytes, announces a text of
  1 to 65524 bytes and a named type: the slice the controller makes for the text is never empty nor of
  negative length, and never longer than the limit.\<close>

theorem parsed_bounds:
  assumes "ParceFmtpPacketHeader data = Some h" and "IsValid h"
  shows "1 \<le> BodyLen h \<and> BodyLen h \<le> 65524 \<and> known_type (PkgType h)"
  using parsed_valid_bounds [OF assms] by blast

theorem parsed_bounds_witness:
  "let h = \<lparr>Version = 2, Reserved = 0, PkgLen = 7, PkgType = System, IsValid = True\<rparr>
   in 1 \<le> BodyLen h \<and> BodyLen h \<le> 65524 \<and> known_type (PkgType h)"
proof -
  have "ParceFmtpPacketHeader [2, 0, 0, 7, 4] =
      Some \<lparr>Version = 2, Reserved = 0, PkgLen = 7, PkgType = System, IsValid = True\<rparr>"
    by (simp add: ParceFmtpPacketHeader_def package_consts Let_def known_type_iff Uint16_def
        packet_type_defs [symmetric]) (simp add: packet_type_defs known_type_def)
  from parsed_bounds [OF this] show ?thesis by (simp add: Let_def)
qed

end
