(* ===== verification/Channel_Settings.thy ===== *)
theory Channel_Settings
  imports Fmtp_Messages
begin

text \<open>
  The settings of one channel and their check, \<open>channel/channel_settings/channel_settings.go\<close>,
  and the state a channel reports, \<open>channel/channel_state/channel_state.go\<close>. Go's 64-bit
  \<open>int\<close> fields are integers: nothing here computes with them, they are compared and printed.
\<close>

section \<open>Settings\<close>

definition TcpServerText :: string where "TcpServerText = ''server''"
definition TcpClientText :: string where "TcpClientText = ''client''"
definition Encode1251 :: string where "Encode1251 = ''Windows-1251''"
definition EncodeUtf :: string where "EncodeUtf = ''UTF-8''"

lemmas role_texts = TcpServerText_def TcpClientText_def

record ChannelSettings =
  csId :: int
  csVersion :: string
  csDataType :: string
  NetRole :: string
  csLocalName :: string
  LocalATC :: string
  csRemoteName :: string
  RemoteATC :: string
  IntervalTs :: int
  IntervalTr :: int
  IntervalTi :: int
  ReconnectTimeout :: int
  FmtpInitStateStr :: string
  FmtpInitState :: FmtpState
  RemoteAddress :: string
  RemotePort :: int
  csLocalPort :: int
  DataEncoding :: string
  LogDebug :: bool
  IsWorking :: bool
  URLAddress :: string
  URLPath :: string
  URLPort :: int

text \<open>Go's zero value of the structure.\<close>

definition zeroChannelSettings :: ChannelSettings where
  "zeroChannelSettings =
     \<lparr>csId = 0, csVersion = [], csDataType = [], NetRole = [], csLocalName = [], LocalATC = [],
      csRemoteName = [], RemoteATC = [], IntervalTs = 0, IntervalTr = 0, IntervalTi = 0,
      ReconnectTimeout = 0, FmtpInitStateStr = [], FmtpInitState = Idle, RemoteAddress = [],
      RemotePort = 0, csLocalPort = 0, DataEncoding = [], LogDebug = False, IsWorking = False,
      URLAddress = [], URLPath = [], URLPort = 0\<rparr>"

definition ToLogMessage :: "ChannelSettings \<Rightarrow> string" where
  "ToLogMessage s = concat
     [(ru ''Versi9: ''), csVersion s, '','',
      (ru ''Tip kanala: ''), csDataType s, '','',
      (ru ''Tip '' @ ''TCP: ''), NetRole s, '','',
      (ru ''Lokal8noe im9: ''), csLocalName s, '' ,'',
      (ru ''Lokal8nyj '' @ ''ATC: ''), LocalATC s, '' ,'',
      (ru ''Udalennoe im9: ''), csRemoteName s, '' ,'',
      (ru ''Udalennyj ATS: ''), RemoteATC s, '' ,'',
      (ru ''Interval '' @ ''Ts: ''), Itoa (IntervalTs s), '' ,'',
      (ru ''Interval '' @ ''Tr: ''), Itoa (IntervalTr s), '' ,'',
      (ru ''Interval '' @ ''Ti: ''), Itoa (IntervalTi s), '' ,'',
      (ru ''Na4al8noe sosto9nie: ''), FmtpState_ToString (FmtpInitState s), '' ,'',
      (ru ''Udalennyj adres: ''), RemoteAddress s, '' '',
      (if NetRole s = TcpClientText
       then concat [(ru ''Udalennyj port: ''), Itoa (RemotePort s), '' ''] else []),
      (if NetRole s = TcpClientText
       then concat [(ru ''Interval podkl04eni9: ''), Itoa (ReconnectTimeout s), '' ,'',
                    (ru ''Lokal8nyj port: ''), Itoa (csLocalPort s), '' ''] else []),
      (ru ''Kodirovka: ''), DataEncoding s, '' '',
      (ru ''Otladka: ''),
      (if LogDebug s then ('' '' @ ru ''da. '') else ('' '' @ ru ''net. '')),
      (ru ''Rabotosposobnost8: ''),
      (if IsWorking s then ('' '' @ ru ''da. '') else ('' '' @ ru ''net. ''))]"

text \<open>
  The check returns the error, if any, and the settings: the check itself fills
  \<open>FmtpInitState\<close> in, from the text, when nothing is wrong.
\<close>

definition CheckSettings ::
  "(FmtpState \<times> string) list \<Rightarrow> ChannelSettings \<Rightarrow> string option \<times> ChannelSettings" where
  "CheckSettings iter s =
    (if csDataType s = [] then (Some (ru ''Ne zadan tip kanala.''), s)
     else if NetRole s \<noteq> TcpServerText \<and> NetRole s \<noteq> TcpClientText then
       (Some (ru ''Ne zadan tip '' @ ''TCP '' @ ru ''soedineni9.''), s)
     else if csLocalName s = [] then (Some (ru ''Ne zadano lokal8noe im9 kanala.''), s)
     else if LocalATC s = [] then (Some (ru ''Ne zadano nazvani9 lokal8nogo '' @ ''ATC '' @ ru ''im9 kanala.''), s)
     else if csRemoteName s = [] then (Some (ru ''Ne zadano udalennoe im9 kanala.''), s)
     else if RemoteATC s = [] then (Some (ru ''Ne zadano nazvani9 udalennogo '' @ ''ATC '' @ ru ''im9 kanala.''), s)
     else if IntervalTs s \<ge> IntervalTr s then
       (Some (ru ''Zna4enie '' @ ''Ts '' @ ru ''dolxno byt8 men8we zna4eni9 '' @ ''Tr''), s)
     else if NetRole s = TcpServerText \<and> (csLocalPort s \<le> 2000 \<or> csLocalPort s \<ge> 65535) then
       (Some (ru ''Nekorrektnoe zna4enie lokal8nogo porta.''), s)
     else if NetRole s = TcpClientText \<and> RemoteAddress s = [] then
       (Some (ru ''Ne ukazan adres udalennogo ARM.''), s)
     else if NetRole s = TcpClientText \<and> (RemotePort s \<le> 2000 \<or> RemotePort s \<ge> 65535) then
       (Some (ru ''Nekorrektnoe zna4enie porta udalennnogo ARM.''), s)
     else if DataEncoding s = [] then (Some (ru ''Ne zadana kodirovka soobqenij.''), s)
     else (None, s\<lparr>FmtpInitState := FmtpState_FromString iter (FmtpInitStateStr s)\<rparr>))"

text \<open>What the check guarantees to the rest of the channel.\<close>

definition settings_ok :: "ChannelSettings \<Rightarrow> bool" where
  "settings_ok s \<longleftrightarrow>
     csDataType s \<noteq> [] \<and> csLocalName s \<noteq> [] \<and> LocalATC s \<noteq> [] \<and> csRemoteName s \<noteq> [] \<and>
     RemoteATC s \<noteq> [] \<and> DataEncoding s \<noteq> [] \<and> IntervalTs s < IntervalTr s \<and>
     (NetRole s = TcpServerText \<and> 2000 < csLocalPort s \<and> csLocalPort s < 65535 \<or>
      NetRole s = TcpClientText \<and> RemoteAddress s \<noteq> [] \<and> 2000 < RemotePort s \<and> RemotePort s < 65535)"

lemma roles_distinct [simp]: "TcpServerText \<noteq> TcpClientText" "TcpClientText \<noteq> TcpServerText"
  by (simp_all add: role_texts)

lemma CheckSettings_ok:
  assumes "settings_ok s"
  shows "CheckSettings iter s =
    (None, s\<lparr>FmtpInitState := FmtpState_FromString iter (FmtpInitStateStr s)\<rparr>)"
proof (cases "NetRole s = TcpServerText")
  case True
  with assms show ?thesis by (simp add: settings_ok_def CheckSettings_def)
next
  case False
  with assms have "NetRole s = TcpClientText" by (simp add: settings_ok_def)
  with assms show ?thesis by (simp add: settings_ok_def CheckSettings_def)
qed

text \<open>One check of the chain: it returns, or the rest decides.\<close>

lemma check_passed: "fst (if b then (Some e, s) else r) = None \<longleftrightarrow> \<not> b \<and> fst r = None"
  by simp

lemma check_keeps:
  "fst r = None \<or> snd r = s \<Longrightarrow>
   fst (if b then (Some e, s) else r) = None \<or> snd (if b then (Some e, s) else r) = s"
  by simp

lemma CheckSettings_None: "fst (CheckSettings iter s) = None \<Longrightarrow> settings_ok s"
  unfolding CheckSettings_def check_passed by (auto simp: settings_ok_def)

lemma CheckSettings_Some: "fst (CheckSettings iter s) = Some e \<Longrightarrow> snd (CheckSettings iter s) = s"
proof -
  have "fst (CheckSettings iter s) = None \<or> snd (CheckSettings iter s) = s"
    unfolding CheckSettings_def by (intro check_keeps) simp
  then show "fst (CheckSettings iter s) = Some e \<Longrightarrow> snd (CheckSettings iter s) = s" by simp
qed

lemma CheckSettings_not_ok:
  assumes "\<not> settings_ok s"
  obtains e where "CheckSettings iter s = (Some e, s)"
  using assms CheckSettings_None [of iter s] CheckSettings_Some [of iter s]
  by (metis option.exhaust prod.collapse)

text \<open>The record with the settings of all channels and the port the channels connect to.\<close>

record ChannelSettingsWithPort =
  ChSettings :: "ChannelSettings list"
  ChPort :: int

section \<open>Reported states\<close>

definition ChannelStateOk :: string where "ChannelStateOk = ''ok''"
definition ChannelStateStopped :: string where "ChannelStateStopped = ''stopped''"
definition ChannelStateError :: string where "ChannelStateError = ''error''"

lemmas channel_state_texts = ChannelStateOk_def ChannelStateStopped_def ChannelStateError_def

definition WebOkColor :: string where "WebOkColor = ''#DFF7DE''"
definition WebErrorColor :: string where "WebErrorColor = ''#F2C4CA''"
definition WebStopColor :: string where "WebStopColor = ''#F4EDBA''"
definition WebDefaultColor :: string where "WebDefaultColor = ''#EAECEE''"

text \<open>One second, in nanoseconds as Go counts durations.\<close>

definition StateSendInterval :: time where "StateSendInterval = 1000000000"

record ChannelState =
  ChannelID :: int
  stLocalName :: string
  stRemoteName :: string
  DaemonState :: string
  stFmtpState :: string
  ChannelURL :: string
  StateColor :: string

text \<open>The inner loop: the first state of the second list with the same identifier.\<close>

fun find_channel :: "int \<Rightarrow> ChannelState list \<Rightarrow> ChannelState option" where
  "find_channel i [] = None"
| "find_channel i (sV # second) = (if ChannelID sV = i then Some sV else find_channel i second)"

fun states_found :: "ChannelState list \<Rightarrow> ChannelState list \<Rightarrow> bool" where
  "states_found [] second = True"
| "states_found (fV # first) second =
     (case find_channel (ChannelID fV) second of
        None \<Rightarrow> False
      | Some sV \<Rightarrow> if sV = fV then states_found first second else False)"

text \<open>A nil slice differs from an empty one: \<open>None\<close> is nil.\<close>

definition ChannelStatesEqual :: "ChannelState list option \<Rightarrow> ChannelState list option \<Rightarrow> bool" where
  "ChannelStatesEqual first second =
     (if first = None \<and> second \<noteq> None then False
      else if first \<noteq> None \<and> second = None then False
      else
        let f = (case first of None \<Rightarrow> [] | Some xs \<Rightarrow> xs);
            s = (case second of None \<Rightarrow> [] | Some xs \<Rightarrow> xs)
        in if length f \<noteq> length s then False else states_found f s)"

lemma find_channel_Some: "find_channel i xs = Some x \<Longrightarrow> x \<in> set xs \<and> ChannelID x = i"
  by (induction xs) (auto split: if_splits)

lemma find_channel_member:
  "distinct (map ChannelID xs) \<Longrightarrow> x \<in> set xs \<Longrightarrow> find_channel (ChannelID x) xs = Some x"
  by (induction xs) (auto simp: rev_image_eqI)

lemma states_found_iff:
  "states_found xs ys \<longleftrightarrow> (\<forall>x \<in> set xs. find_channel (ChannelID x) ys = Some x)"
  by (induction xs) (auto split: option.splits)

lemma distinct_ids_distinct: "distinct (map ChannelID xs) \<Longrightarrow> distinct xs"
  by (simp add: distinct_map)

lemma states_equal_mset:
  assumes "distinct (map ChannelID xs)" and "distinct (map ChannelID ys)"
  shows "ChannelStatesEqual (Some xs) (Some ys) \<longleftrightarrow> mset xs = mset ys"
proof
  assume "ChannelStatesEqual (Some xs) (Some ys)"
  then have len: "length xs = length ys" and f: "states_found xs ys"
    by (auto simp: ChannelStatesEqual_def split: if_splits)
  then have "set xs \<subseteq> set ys" by (auto simp: states_found_iff dest: find_channel_Some)
  moreover have "card (set ys) \<le> card (set xs)"
    using len assms by (simp add: distinct_ids_distinct distinct_card)
  ultimately have "set xs = set ys" by (simp add: card_seteq)
  then show "mset xs = mset ys"
    using assms by (simp add: distinct_ids_distinct set_eq_iff_mset_eq_distinct)
next
  assume m: "mset xs = mset ys"
  then have "length xs = length ys" "set xs = set ys" by (metis size_mset, metis set_mset_mset)
  then show "ChannelStatesEqual (Some xs) (Some ys)"
    using assms(2) by (simp add: ChannelStatesEqual_def states_found_iff find_channel_member)
qed

section \<open>Two channels made for each other\<close>

definition example_client :: ChannelSettings where
  "example_client = zeroChannelSettings
     \<lparr>csId := 1, csVersion := ''1.0'', csDataType := ''OLDI'', NetRole := ''client'',
      csLocalName := ''Local'', LocalATC := ''UUWV'', csRemoteName := ''Remote'', RemoteATC := ''ULLL'',
      IntervalTs := 10, IntervalTr := 30, IntervalTi := 20, ReconnectTimeout := 5,
      FmtpInitStateStr := ''data_ready'', RemoteAddress := ''10.0.0.2'', RemotePort := 8500,
      DataEncoding := ''UTF-8'', IsWorking := True, URLAddress := ''10.0.0.1'', URLPath := ''channel'',
      URLPort := 13001\<rparr>"

definition example_server :: ChannelSettings where
  "example_server = zeroChannelSettings
     \<lparr>csId := 2, csVersion := ''1.0'', csDataType := ''OLDI'', NetRole := ''server'',
      csLocalName := ''Remote'', LocalATC := ''ULLL'', csRemoteName := ''Local'', RemoteATC := ''UUWV'',
      IntervalTs := 10, IntervalTr := 30, IntervalTi := 20, csLocalPort := 8500,
      FmtpInitStateStr := ''data_ready'', DataEncoding := ''UTF-8'', IsWorking := True,
      URLAddress := ''10.0.0.2'', URLPath := ''channel'', URLPort := 13002\<rparr>"

lemmas example_defs = example_client_def example_server_def zeroChannelSettings_def

lemma examples_ok: "settings_ok example_client" "settings_ok example_server"
  by (simp_all add: settings_ok_def example_defs role_texts)

section \<open>Properties\<close>

text \<open>The check of a channel's settings accepts exactly the settings a channel can
  work with (\<open>settings_ok\<close>). On acceptance it fills the initial state in from its text and changes
  nothing else; on rejection it returns an error and the settings as they were.\<close>

theorem check_settings:
  "CheckSettings iter s =
     (if settings_ok s then (None, s\<lparr>FmtpInitState := FmtpState_FromString iter (FmtpInitStateStr s)\<rparr>)
      else (fst (CheckSettings iter s), s)) \<and>
   (fst (CheckSettings iter s) = None \<longleftrightarrow> settings_ok s)"
proof (cases "settings_ok s")
  case True
  then show ?thesis by (simp add: CheckSettings_ok)
next
  case False
  then obtain e where "CheckSettings iter s = (Some e, s)" by (rule CheckSettings_not_ok)
  with False show ?thesis by simp
qed

text \<open>Two lists of reported states, in each of which no channel comes twice, count as
  equal exactly when they hold the same states, in whatever order.\<close>

theorem states_equal:
  assumes "distinct (map ChannelID xs)" and "distinct (map ChannelID ys)"
  shows "ChannelStatesEqual (Some xs) (Some ys) \<longleftrightarrow> mset xs = mset ys"
  by (rule states_equal_mset [OF assms])

theorem states_equal_witness:
  "let a = \<lparr>ChannelID = 1, stLocalName = ''UUWV'', stRemoteName = ''ULLL'', DaemonState = ''ok'',
            stFmtpState = ''data_ready'', ChannelURL = ''u'', StateColor = []\<rparr>;
       b = a\<lparr>ChannelID := 2\<rparr>
   in ChannelStatesEqual (Some [a, b]) (Some [b, a])"
proof -
  let ?a = "\<lparr>ChannelID = 1, stLocalName = ''UUWV'', stRemoteName = ''ULLL'', DaemonState = ''ok'',
            stFmtpState = ''data_ready'', ChannelURL = ''u'', StateColor = []\<rparr>"
  let ?b = "?a\<lparr>ChannelID := 2\<rparr>"
  have "ChannelStatesEqual (Some [?a, ?b]) (Some [?b, ?a]) \<longleftrightarrow> mset [?a, ?b] = mset [?b, ?a]"
    by (rule states_equal) simp_all
  moreover have "mset [?a, ?b] = mset [?b, ?a]" by (simp add: add_mset_commute)
  ultimately show ?thesis by (simp add: Let_def)
qed

end
