(* ===== verification/Timer.thy ===== *)
theory Timer
  imports Fmtp_Messages
begin

text \<open>
  The timers of a channel, \<open>channel/fmtp_states/timer.go\<close>, twice. The record \<open>Timer\<close> with
  \<open>startTimer\<close>, \<open>stopTimer\<close> and \<open>restartTimer\<close> is what the state controller works with: a
  timer runs or it does not, and firing ends it. The second model has the goroutines the
  operations spawn, the contexts they create and the shared field that names the current
  context; an action is one goroutine making one move. Where every operation's goroutines
  finish before the next operation, the second model implements the first
  (\<open>sync_timer\<close>); without that, a stop can be overtaken by the start before it.
\<close>

section \<open>The timer as the controller sees it\<close>

record Timer =
  duration :: time
  fmtpEvent :: FmtpEvent
  running :: bool

definition newFmtpTimer :: "time \<Rightarrow> FmtpEvent \<Rightarrow> Timer" where
  "newFmtpTimer curDuration curFmtpEvent =
     \<lparr>duration = curDuration, fmtpEvent = curFmtpEvent, running = False\<rparr>"

definition startTimer :: "Timer \<Rightarrow> Timer" where
  "startTimer ft = ft\<lparr>running := True\<rparr>"

definition stopTimer :: "Timer \<Rightarrow> Timer" where
  "stopTimer ft = ft\<lparr>running := False\<rparr>"

definition restartTimer :: "Timer \<Rightarrow> Timer" where
  "restartTimer ft = startTimer (stopTimer ft)"

text \<open>The deadline passes: the event goes into the channel and the context is over.\<close>

definition fireTimer :: "Timer \<Rightarrow> (FmtpEvent \<times> Timer) option" where
  "fireTimer ft = (if running ft then Some (fmtpEvent ft, ft\<lparr>running := False\<rparr>) else None)"

locale timer_contract =
  fixes restart :: "'t \<Rightarrow> 't"
    and stop :: "'t \<Rightarrow> 't"
    and fire :: "'t \<Rightarrow> (FmtpEvent \<times> 't) option"
    and is_running :: "'t \<Rightarrow> bool"
    and event :: "'t \<Rightarrow> FmtpEvent"
    and ok :: "'t \<Rightarrow> bool"
  assumes restart_runs: "ok t \<Longrightarrow> is_running (restart t)"
    and stop_ends: "ok t \<Longrightarrow> \<not> is_running (stop t)"
    and fire_iff: "ok t \<Longrightarrow> fire t \<noteq> None \<longleftrightarrow> is_running t"
    and fire_ends: "ok t \<Longrightarrow> fire t = Some (e, u) \<Longrightarrow> e = event t \<and> \<not> is_running u"
    and restart_ok: "ok t \<Longrightarrow> ok (restart t) \<and> event (restart t) = event t"
    and stop_ok: "ok t \<Longrightarrow> ok (stop t) \<and> event (stop t) = event t"
    and fire_ok: "ok t \<Longrightarrow> fire t = Some (e, u) \<Longrightarrow> ok u \<and> event u = event t"
begin

text \<open>A stopped timer does not fire; a restarted one fires its event, once.\<close>

lemma stopped_silent: "ok t \<Longrightarrow> fire (stop t) = None"
  using fire_iff stop_ends stop_ok by blast

lemma fires_once:
  assumes "ok t"
  shows "\<exists>u. fire (restart t) = Some (event t, u) \<and> fire u = None"
proof -
  have r: "ok (restart t)" "is_running (restart t)" "event (restart t) = event t"
    using assms restart_ok restart_runs by blast+
  then obtain e u where f: "fire (restart t) = Some (e, u)"
    using fire_iff by (metis option.exhaust surj_pair)
  have "e = event t" "\<not> is_running u" "ok u" using fire_ends [OF r(1) f] fire_ok [OF r(1) f] r(3) by auto
  then show ?thesis using f fire_iff by blast
qed

end

interpretation simple_timer: timer_contract restartTimer stopTimer fireTimer running fmtpEvent "\<lambda>_. True"
  by unfold_locales
    (auto simp: restartTimer_def startTimer_def stopTimer_def fireTimer_def split: if_splits)

section \<open>The timer as its goroutines run\<close>

text \<open>
  A context is live, cancelled or past its deadline. The goroutine of \<open>startTimer\<close> makes
  a context and stores it and its cancel function in the fields (\<open>GStart\<close>), asks the field
  for the channel to wait on (\<open>GDone\<close>), waits for that context to end (\<open>GWait\<close>), asks
  the field for the reason (\<open>GErr\<close>) and, where it is the deadline, sends the event
  (\<open>GSend\<close>). The goroutine of \<open>stopTimer\<close> cancels the context of the field (\<open>GStop\<close>).
\<close>

datatype CtxStatus = Live | Cancelled | Expired

datatype goroutine = GStart | GDone | GWait nat | GErr | GSend | GStop

record timer_sys =
  ctxs :: "CtxStatus list"
  timerCtx :: "nat option"
  gors :: "goroutine list"
  sysEvent :: FmtpEvent

definition new_sys :: "FmtpEvent \<Rightarrow> timer_sys" where
  "new_sys e = \<lparr>ctxs = [], timerCtx = None, gors = [], sysEvent = e\<rparr>"

definition cancel_current :: "timer_sys \<Rightarrow> timer_sys" where
  "cancel_current s =
     (case timerCtx s of
        None \<Rightarrow> s
      | Some k \<Rightarrow> if k < length (ctxs s) \<and> ctxs s ! k = Live then s\<lparr>ctxs := (ctxs s)[k := Cancelled]\<rparr> else s)"

text \<open>The calls of the controller.\<close>

definition call_start :: "timer_sys \<Rightarrow> timer_sys" where
  "call_start s = s\<lparr>gors := gors s @ [GStart]\<rparr>"

definition call_stop :: "timer_sys \<Rightarrow> timer_sys" where
  "call_stop s = s\<lparr>gors := gors s @ [GStop]\<rparr>"

text \<open>\<open>restartTimer\<close> waits for the goroutine that cancels, then starts.\<close>

definition call_restart :: "timer_sys \<Rightarrow> timer_sys" where
  "call_restart s = call_start (cancel_current s)"

definition remove_nth :: "nat \<Rightarrow> 'a list \<Rightarrow> 'a list" where
  "remove_nth i xs = take i xs @ drop (Suc i) xs"

text \<open>One move of the \<open>i\<close>-th goroutine; \<open>None\<close> where it is blocked. The flag says that
  the event was handed to the controller.\<close>

definition gor_move :: "nat \<Rightarrow> timer_sys \<Rightarrow> (timer_sys \<times> bool) option" where
  "gor_move i s =
    (if length (gors s) \<le> i then None
     else case gors s ! i of
       GStart \<Rightarrow> Some (s\<lparr>ctxs := ctxs s @ [Live], timerCtx := Some (length (ctxs s)),
                       gors := (gors s)[i := GDone]\<rparr>, False)
     | GDone \<Rightarrow> (case timerCtx s of
                  None \<Rightarrow> None
                | Some k \<Rightarrow> Some (s\<lparr>gors := (gors s)[i := GWait k]\<rparr>, False))
     | GWait k \<Rightarrow> if k < length (ctxs s) \<and> ctxs s ! k \<noteq> Live
                  then Some (s\<lparr>gors := (gors s)[i := GErr]\<rparr>, False) else None
     | GErr \<Rightarrow> (case timerCtx s of
                  None \<Rightarrow> None
                | Some k \<Rightarrow> if k < length (ctxs s) \<and> ctxs s ! k = Expired
                            then Some (s\<lparr>gors := (gors s)[i := GSend]\<rparr>, False)
                            else Some (s\<lparr>gors := remove_nth i (gors s)\<rparr>, False))
     | GSend \<Rightarrow> Some (s\<lparr>gors := remove_nth i (gors s)\<rparr>, True)
     | GStop \<Rightarrow> Some ((cancel_current s)\<lparr>gors := remove_nth i (gors s)\<rparr>, False))"

text \<open>A schedule: the calls, the passing of deadlines and the moves, in their order; the
  result also counts the events handed over.\<close>

datatype timer_action = CallStart | CallStop | CallRestart | Deadline nat | Move nat

fun timer_step :: "timer_action \<Rightarrow> timer_sys \<times> nat \<Rightarrow> (timer_sys \<times> nat) option" where
  "timer_step CallStart (s, n) = Some (call_start s, n)"
| "timer_step CallStop (s, n) = Some (call_stop s, n)"
| "timer_step CallRestart (s, n) = Some (call_restart s, n)"
| "timer_step (Deadline k) (s, n) =
     (if k < length (ctxs s) \<and> ctxs s ! k = Live
      then Some (s\<lparr>ctxs := (ctxs s)[k := Expired]\<rparr>, n) else None)"
| "timer_step (Move i) (s, n) =
     (case gor_move i s of None \<Rightarrow> None
      | Some (t, sent) \<Rightarrow> Some (t, if sent then Suc n else n))"

fun timer_run :: "timer_action list \<Rightarrow> timer_sys \<times> nat \<Rightarrow> (timer_sys \<times> nat) option" where
  "timer_run [] sn = Some sn"
| "timer_run (a # as) sn = (case timer_step a sn of None \<Rightarrow> None | Some sn' \<Rightarrow> timer_run as sn')"

section \<open>One operation at a time\<close>

text \<open>
  Between operations every goroutine has finished or waits for the one live context, the
  current one.
\<close>

definition settled :: "timer_sys \<Rightarrow> bool" where
  "settled s \<longleftrightarrow>
     (\<exists>k. timerCtx s = Some k \<and> k < length (ctxs s) \<and> ctxs s ! k = Live \<and> gors s = [GWait k] \<and>
          (\<forall>j < length (ctxs s). j \<noteq> k \<longrightarrow> ctxs s ! j \<noteq> Live)) \<or>
     (gors s = [] \<and> (\<forall>j < length (ctxs s). ctxs s ! j \<noteq> Live) \<and>
          (\<forall>k. timerCtx s = Some k \<longrightarrow> k < length (ctxs s)))"

definition some_live :: "timer_sys \<Rightarrow> bool" where
  "some_live s \<longleftrightarrow> Live \<in> set (ctxs s)"

definition finish :: "timer_action list \<Rightarrow> timer_sys \<Rightarrow> timer_sys" where
  "finish as s = (case timer_run as (s, 0) of None \<Rightarrow> s | Some (t, _) \<Rightarrow> t)"

text \<open>The operations with all the moves they cause: the goroutine that waited, if any, wakes
  and ends, and the new one comes to wait.\<close>

definition sync_stop :: "timer_sys \<Rightarrow> timer_sys" where
  "sync_stop s =
     (if gors s = [] then finish [CallStop, Move 0] s
      else finish [CallStop, Move 1, Move 0, Move 0] s)"

definition sync_restart :: "timer_sys \<Rightarrow> timer_sys" where
  "sync_restart s =
     (if gors s = [] then finish [CallRestart, Move 0, Move 0] s
      else finish [CallRestart, Move 0, Move 0, Move 0, Move 0] s)"

definition sync_fire :: "timer_sys \<Rightarrow> (FmtpEvent \<times> timer_sys) option" where
  "sync_fire s =
     (case timerCtx s of
        None \<Rightarrow> None
      | Some k \<Rightarrow>
          (case timer_run [Deadline k, Move 0, Move 0, Move 0] (s, 0) of
             None \<Rightarrow> None
           | Some (t, n) \<Rightarrow> if n = 1 then Some (sysEvent s, t) else None))"

lemma settled_cases:
  assumes "settled s"
  obtains (waiting) k where "timerCtx s = Some k" "k < length (ctxs s)" "ctxs s ! k = Live"
      "gors s = [GWait k]" "\<forall>j < length (ctxs s). j \<noteq> k \<longrightarrow> ctxs s ! j \<noteq> Live"
  | (idle) "gors s = []" "\<forall>j < length (ctxs s). ctxs s ! j \<noteq> Live"
      "\<forall>k. timerCtx s = Some k \<longrightarrow> k < length (ctxs s)"
  using assms unfolding settled_def by blast

lemmas timer_moves =
  finish_def call_start_def call_stop_def call_restart_def cancel_current_def gor_move_def
  remove_nth_def

text \<open>The moves of the first goroutine, one by one.\<close>

lemma first_moves:
  "gors s = GStart # gs \<Longrightarrow> timer_step (Move 0) (s, n) =
     Some (s\<lparr>ctxs := ctxs s @ [Live], timerCtx := Some (length (ctxs s)), gors := GDone # gs\<rparr>, n)"
  "gors s = GDone # gs \<Longrightarrow> timerCtx s = Some k \<Longrightarrow> timer_step (Move 0) (s, n) =
     Some (s\<lparr>gors := GWait k # gs\<rparr>, n)"
  "gors s = GWait k # gs \<Longrightarrow> k < length (ctxs s) \<Longrightarrow> ctxs s ! k \<noteq> Live \<Longrightarrow>
     timer_step (Move 0) (s, n) = Some (s\<lparr>gors := GErr # gs\<rparr>, n)"
  "gors s = GErr # gs \<Longrightarrow> timerCtx s = Some k \<Longrightarrow> k < length (ctxs s) \<Longrightarrow> ctxs s ! k = Cancelled \<Longrightarrow>
     timer_step (Move 0) (s, n) = Some (s\<lparr>gors := gs\<rparr>, n)"
  "gors s = GErr # gs \<Longrightarrow> timerCtx s = Some k \<Longrightarrow> k < length (ctxs s) \<Longrightarrow> ctxs s ! k = Expired \<Longrightarrow>
     timer_step (Move 0) (s, n) = Some (s\<lparr>gors := GSend # gs\<rparr>, n)"
  "gors s = GSend # gs \<Longrightarrow> timer_step (Move 0) (s, n) = Some (s\<lparr>gors := gs\<rparr>, Suc n)"
  by (simp_all add: gor_move_def remove_nth_def)

lemma cancel_current_live:
  "timerCtx s = Some k \<Longrightarrow> k < length (ctxs s) \<Longrightarrow> ctxs s ! k = Live \<Longrightarrow>
   cancel_current s = s\<lparr>ctxs := (ctxs s)[k := Cancelled]\<rparr>"
  by (simp add: cancel_current_def)

lemma cancel_current_dead:
  "\<forall>j < length (ctxs s). ctxs s ! j \<noteq> Live \<Longrightarrow> cancel_current s = s"
  by (auto simp: cancel_current_def split: option.split)

lemma sync_stop_waiting:
  "timerCtx s = Some k \<Longrightarrow> k < length (ctxs s) \<Longrightarrow> ctxs s ! k = Live \<Longrightarrow> gors s = [GWait k] \<Longrightarrow>
   sync_stop s = s\<lparr>ctxs := (ctxs s)[k := Cancelled], gors := []\<rparr>"
  by (simp add: sync_stop_def timer_moves)

lemma sync_stop_idle:
  "gors s = [] \<Longrightarrow> \<forall>j < length (ctxs s). ctxs s ! j \<noteq> Live \<Longrightarrow> sync_stop s = s"
  by (simp add: sync_stop_def finish_def call_stop_def gor_move_def remove_nth_def cancel_current_dead)

lemma sync_restart_waiting:
  "timerCtx s = Some k \<Longrightarrow> k < length (ctxs s) \<Longrightarrow> ctxs s ! k = Live \<Longrightarrow> gors s = [GWait k] \<Longrightarrow>
   sync_restart s = s\<lparr>ctxs := (ctxs s)[k := Cancelled] @ [Live], timerCtx := Some (length (ctxs s)),
     gors := [GWait (length (ctxs s))]\<rparr>"
  by (simp add: sync_restart_def finish_def call_restart_def call_start_def cancel_current_live
      first_moves del: timer_step.simps(5))

lemma sync_restart_idle:
  "gors s = [] \<Longrightarrow> \<forall>j < length (ctxs s). ctxs s ! j \<noteq> Live \<Longrightarrow>
   sync_restart s = s\<lparr>ctxs := ctxs s @ [Live], timerCtx := Some (length (ctxs s)),
     gors := [GWait (length (ctxs s))]\<rparr>"
  by (simp add: sync_restart_def finish_def call_restart_def call_start_def cancel_current_dead
      first_moves del: timer_step.simps(5))

lemma sync_fire_waiting:
  "timerCtx s = Some k \<Longrightarrow> k < length (ctxs s) \<Longrightarrow> ctxs s ! k = Live \<Longrightarrow> gors s = [GWait k] \<Longrightarrow>
   sync_fire s = Some (sysEvent s, s\<lparr>ctxs := (ctxs s)[k := Expired], gors := []\<rparr>)"
  by (simp add: sync_fire_def first_moves del: timer_step.simps(5))

lemma sync_fire_idle:
  "\<forall>j < length (ctxs s). ctxs s ! j \<noteq> Live \<Longrightarrow> sync_fire s = None"
  by (auto simp: sync_fire_def split: option.splits)

lemmas sync_ops =
  sync_stop_waiting sync_stop_idle sync_restart_waiting sync_restart_idle sync_fire_waiting
  sync_fire_idle

lemma settledI_waiting:
  "timerCtx s = Some k \<Longrightarrow> k < length (ctxs s) \<Longrightarrow> ctxs s ! k = Live \<Longrightarrow> gors s = [GWait k] \<Longrightarrow>
   \<forall>j < length (ctxs s). j \<noteq> k \<longrightarrow> ctxs s ! j \<noteq> Live \<Longrightarrow> settled s"
  unfolding settled_def by blast

lemma settledI_idle:
  "gors s = [] \<Longrightarrow> \<forall>j < length (ctxs s). ctxs s ! j \<noteq> Live \<Longrightarrow>
   \<forall>k. timerCtx s = Some k \<longrightarrow> k < length (ctxs s) \<Longrightarrow> settled s"
  unfolding settled_def by blast

lemma some_live_idle: "\<forall>j < length (ctxs s). ctxs s ! j \<noteq> Live \<Longrightarrow> \<not> some_live s"
  by (auto simp: some_live_def in_set_conv_nth)

lemma some_live_waiting: "k < length (ctxs s) \<Longrightarrow> ctxs s ! k = Live \<Longrightarrow> some_live s"
  unfolding some_live_def by (metis nth_mem)

lemma sync_stop_settled:
  assumes "settled s"
  shows "settled (sync_stop s) \<and> \<not> some_live (sync_stop s) \<and> sysEvent (sync_stop s) = sysEvent s"
  using assms
proof (cases rule: settled_cases)
  case (waiting k)
  then have "\<forall>j < length (ctxs (sync_stop s)). ctxs (sync_stop s) ! j \<noteq> Live"
    by (simp add: sync_ops nth_list_update)
  with waiting show ?thesis by (auto simp: sync_ops intro!: settledI_idle some_live_idle)
next
  case idle
  then show ?thesis using assms by (auto simp: sync_ops intro!: some_live_idle)
qed

lemma sync_restart_settled:
  assumes "settled s"
  shows "settled (sync_restart s) \<and> some_live (sync_restart s) \<and> sysEvent (sync_restart s) = sysEvent s"
  using assms
proof (cases rule: settled_cases)
  case (waiting k)
  let ?t = "s\<lparr>ctxs := (ctxs s)[k := Cancelled] @ [Live], timerCtx := Some (length (ctxs s)),
     gors := [GWait (length (ctxs s))]\<rparr>"
  have t: "sync_restart s = ?t" using waiting by (simp add: sync_ops)
  have "settled ?t" using waiting
    by (intro settledI_waiting [where k = "length (ctxs s)"]) (auto simp: nth_append nth_list_update)
  moreover have "some_live ?t" by (simp add: some_live_def)
  ultimately show ?thesis by (simp add: t)
next
  case idle
  let ?t = "s\<lparr>ctxs := ctxs s @ [Live], timerCtx := Some (length (ctxs s)),
     gors := [GWait (length (ctxs s))]\<rparr>"
  have t: "sync_restart s = ?t" using idle by (simp add: sync_ops)
  have "settled ?t" using idle
    by (intro settledI_waiting [where k = "length (ctxs s)"]) (auto simp: nth_append)
  moreover have "some_live ?t" by (simp add: some_live_def)
  ultimately show ?thesis by (simp add: t)
qed

lemma sync_fire_settled:
  assumes "settled s"
  shows "sync_fire s =
     (if some_live s then Some (sysEvent s, s\<lparr>ctxs := (ctxs s)[the (timerCtx s) := Expired], gors := []\<rparr>)
      else None)"
    and "sync_fire s = Some (e, u) \<Longrightarrow> settled u \<and> \<not> some_live u \<and> sysEvent u = sysEvent s"
proof -
  show fire: "sync_fire s =
     (if some_live s then Some (sysEvent s, s\<lparr>ctxs := (ctxs s)[the (timerCtx s) := Expired], gors := []\<rparr>)
      else None)"
    using assms
  proof (cases rule: settled_cases)
    case (waiting k)
    then have "some_live s" by (intro some_live_waiting)
    with waiting(1-4) show ?thesis by (simp add: sync_fire_waiting)
  next
    case idle
    then show ?thesis by (simp add: some_live_idle sync_fire_idle)
  qed
  assume f: "sync_fire s = Some (e, u)"
  with fire have l: "some_live s"
    and u: "u = s\<lparr>ctxs := (ctxs s)[the (timerCtx s) := Expired], gors := []\<rparr>"
    by (auto split: if_splits)
  show "settled u \<and> \<not> some_live u \<and> sysEvent u = sysEvent s"
    using assms
  proof (cases rule: settled_cases)
    case (waiting k)
    then have "\<forall>j < length (ctxs u). ctxs u ! j \<noteq> Live" by (simp add: u nth_list_update)
    then show ?thesis using waiting by (auto simp: u intro!: settledI_idle some_live_idle)
  next
    case idle
    with l show ?thesis by (simp add: some_live_idle)
  qed
qed

interpretation sync_timer: timer_contract sync_restart sync_stop sync_fire some_live sysEvent settled
proof
  fix t :: timer_sys and e u
  assume t: "settled t"
  show "some_live (sync_restart t)" using sync_restart_settled [OF t] by blast
  show "\<not> some_live (sync_stop t)" using sync_stop_settled [OF t] by blast
  show "sync_fire t \<noteq> None \<longleftrightarrow> some_live t" by (simp add: sync_fire_settled(1) [OF t])
  show "settled (sync_restart t) \<and> sysEvent (sync_restart t) = sysEvent t"
    using sync_restart_settled [OF t] by blast
  show "settled (sync_stop t) \<and> sysEvent (sync_stop t) = sysEvent t"
    using sync_stop_settled [OF t] by blast
  show "e = sysEvent t \<and> \<not> some_live u" if f: "sync_fire t = Some (e, u)"
  proof
    show "e = sysEvent t" using f unfolding sync_fire_settled(1) [OF t] by (auto split: if_splits)
    show "\<not> some_live u" using sync_fire_settled(2) [OF t f] by blast
  qed
  show "settled u \<and> sysEvent u = sysEvent t" if "sync_fire t = Some (e, u)"
    using sync_fire_settled(2) [OF t that] by blast
qed

lemma settled_new: "settled (new_sys e)"
  by (simp add: settled_def new_sys_def)

section \<open>Refinement of the simple timer\<close>

definition abs_timer :: "time \<Rightarrow> timer_sys \<Rightarrow> Timer" where
  "abs_timer d s = \<lparr>duration = d, fmtpEvent = sysEvent s, running = some_live s\<rparr>"

lemma abs_restart: "settled s \<Longrightarrow> abs_timer d (sync_restart s) = restartTimer (abs_timer d s)"
  using sync_restart_settled [of s] by (simp add: abs_timer_def restartTimer_def startTimer_def stopTimer_def)

lemma abs_stop: "settled s \<Longrightarrow> abs_timer d (sync_stop s) = stopTimer (abs_timer d s)"
  using sync_stop_settled [of s] by (simp add: abs_timer_def stopTimer_def)

lemma abs_fire:
  assumes "settled s"
  shows "map_option (\<lambda>(e, u). (e, abs_timer d u)) (sync_fire s) = fireTimer (abs_timer d s)"
proof (cases "some_live s")
  case True
  then obtain u where f: "sync_fire s = Some (sysEvent s, u)"
    using sync_fire_settled(1) [OF assms] by auto
  with sync_fire_settled(2) [OF assms f] True show ?thesis
    by (simp add: fireTimer_def abs_timer_def)
next
  case False
  then show ?thesis using sync_fire_settled(1) [OF assms] by (simp add: fireTimer_def abs_timer_def)
qed

section \<open>Sequences of operations\<close>

datatype timer_op = RestartOp | StopOp | DeadlineOp

text \<open>The events handed over, in their order.\<close>

fun timer_ops :: "('t \<Rightarrow> 't) \<Rightarrow> ('t \<Rightarrow> 't) \<Rightarrow> ('t \<Rightarrow> (FmtpEvent \<times> 't) option) \<Rightarrow> timer_op list \<Rightarrow> 't \<Rightarrow> FmtpEvent list" where
  "timer_ops restart stop fire [] t = []"
| "timer_ops restart stop fire (RestartOp # ops) t = timer_ops restart stop fire ops (restart t)"
| "timer_ops restart stop fire (StopOp # ops) t = timer_ops restart stop fire ops (stop t)"
| "timer_ops restart stop fire (DeadlineOp # ops) t =
     (case fire t of None \<Rightarrow> timer_ops restart stop fire ops t
      | Some (e, u) \<Rightarrow> e # timer_ops restart stop fire ops u)"

abbreviation simple_ops :: "timer_op list \<Rightarrow> Timer \<Rightarrow> FmtpEvent list" where
  "simple_ops \<equiv> timer_ops restartTimer stopTimer fireTimer"

abbreviation sync_ops_events :: "timer_op list \<Rightarrow> timer_sys \<Rightarrow> FmtpEvent list" where
  "sync_ops_events \<equiv> timer_ops sync_restart sync_stop sync_fire"

lemma ops_refine: "settled s \<Longrightarrow> sync_ops_events ops s = simple_ops ops (abs_timer d s)"
proof (induction ops arbitrary: s)
  case (Cons p ops)
  show ?case
  proof (cases p)
    case RestartOp
    then show ?thesis using Cons sync_timer.restart_ok abs_restart by simp
  next
    case StopOp
    then show ?thesis using Cons sync_timer.stop_ok abs_stop by simp
  next
    case DeadlineOp
    show ?thesis
    proof (cases "sync_fire s")
      case None
      then have "fireTimer (abs_timer d s) = None" using abs_fire [OF Cons.prems, of d] by simp
      then show ?thesis using None Cons by (simp add: DeadlineOp)
    next
      case (Some eu)
      obtain e u where eu: "eu = (e, u)" by fastforce
      then have f: "sync_fire s = Some (e, u)" using Some by simp
      then have "fireTimer (abs_timer d s) = Some (e, abs_timer d u)"
        using abs_fire [OF Cons.prems, of d] by simp
      then show ?thesis using f Cons.IH sync_timer.fire_ok [OF Cons.prems f] by (simp add: DeadlineOp)
    qed
  qed
qed simp

section \<open>Properties\<close>



end
