(* ===== verification/Fmtp_Log.thy ===== *)
theory Fmtp_Log
  imports Fmtp_Messages
begin

text \<open>
  Journal messages, \<open>fmtp_log/fmtp_logger_message.go\<close> and \<open>fmtp_log/fmtp_logger.go\<close>: the
  constants, the constructors, the comma-separated text form the controller puts into the
  Redis stream and the Oracle logger reads back, and the formats of the file and web logs.
  The time of a message is a reading of the clock, already formatted: an argument.
\<close>

section \<open>Constants\<close>

definition SeverityDebug :: string where "SeverityDebug = (ru ''Otladka'')"
definition SeverityInfo :: string where "SeverityInfo = (ru ''Informaci9'')"
definition SeverityWarning :: string where "SeverityWarning = (ru ''Preduprexdenie'')"
definition SeverityError :: string where "SeverityError = (ru ''Owibka'')"

definition DirectionIncoming :: string where "DirectionIncoming = (ru ''Vhod9qee'')"
definition DirectionOutcoming :: string where "DirectionOutcoming = (ru ''Ishod9qee'')"
definition DirectionUnknown :: string where "DirectionUnknown = ''-''"

definition SourceChannel :: string where "SourceChannel = (''FMTP '' @ ru ''kanal'')"
definition SourceController :: string where "SourceController = (ru ''Kontroller'')"

definition NoChannelIdent :: int where "NoChannelIdent = -1"
definition NoChannelLocName :: string where "NoChannelLocName = ''-''"
definition NoChannelRemName :: string where "NoChannelRemName = ''-''"
definition NoneFmtpType :: string where "NoneFmtpType = ''-''"
definition ChannelTypeNone :: string where "ChannelTypeNone = ''-''"

lemmas severity_defs =
  SeverityDebug_def SeverityInfo_def SeverityWarning_def SeverityError_def

lemmas log_const_defs =
  severity_defs DirectionIncoming_def DirectionOutcoming_def DirectionUnknown_def
  SourceChannel_def SourceController_def NoChannelLocName_def NoChannelRemName_def
  NoneFmtpType_def ChannelTypeNone_def

lemma severity_lengths:
  "length SeverityDebug = 14" "length SeverityInfo = 20" "length SeverityWarning = 28"
  "length SeverityError = 12"
  by (simp_all add: severity_defs length_ru ru_width_def ru_table_def)

lemma severity_distinct [simp]:
  "SeverityDebug \<noteq> SeverityInfo" "SeverityDebug \<noteq> SeverityWarning" "SeverityDebug \<noteq> SeverityError"
  "SeverityInfo \<noteq> SeverityWarning" "SeverityInfo \<noteq> SeverityError" "SeverityWarning \<noteq> SeverityError"
  "SeverityInfo \<noteq> SeverityDebug" "SeverityWarning \<noteq> SeverityDebug" "SeverityError \<noteq> SeverityDebug"
  "SeverityWarning \<noteq> SeverityInfo" "SeverityError \<noteq> SeverityInfo" "SeverityError \<noteq> SeverityWarning"
  using severity_lengths by (auto dest: arg_cong [of _ _ length])

lemma constants_no_comma [simp]:
  "CHR '','' \<notin> set SeverityDebug" "CHR '','' \<notin> set SeverityInfo"
  "CHR '','' \<notin> set SeverityWarning" "CHR '','' \<notin> set SeverityError"
  "CHR '','' \<notin> set DirectionIncoming" "CHR '','' \<notin> set DirectionOutcoming"
  "CHR '','' \<notin> set DirectionUnknown" "CHR '','' \<notin> set SourceChannel"
  "CHR '','' \<notin> set SourceController" "CHR '','' \<notin> set NoneFmtpType"
  by (auto simp: log_const_defs dest!: ru_ascii [rotated])

section \<open>The message and its constructors\<close>

record LogMessage =
  ControllerIP :: string
  logSource :: string
  logChannelId :: int
  ChannelLocName :: string
  ChannelRemName :: string
  logDataType :: string
  Severity :: string
  FmtpType :: string
  Direction :: string
  logText :: string
  DateTime :: string

text \<open>The constructors set only some fields: the others keep Go's zero value.\<close>

definition zeroLogMessage :: LogMessage where
  "zeroLogMessage =
     \<lparr>ControllerIP = [], logSource = [], logChannelId = 0, ChannelLocName = [],
      ChannelRemName = [], logDataType = [], Severity = [], FmtpType = [], Direction = [],
      logText = [], DateTime = []\<rparr>"

definition CreateMessage :: "string \<Rightarrow> string \<Rightarrow> string \<Rightarrow> string \<Rightarrow> string \<Rightarrow> LogMessage" where
  "CreateMessage now severity packetType direction txt =
     zeroLogMessage\<lparr>ControllerIP := [], logSource := SourceChannel,
       logChannelId := NoChannelIdent, ChannelLocName := NoChannelLocName,
       ChannelRemName := NoChannelRemName, logDataType := ChannelTypeNone,
       Severity := severity, FmtpType := packetType, Direction := direction,
       logText := txt, DateTime := now\<rparr>"

definition CreateControllerMessage :: "string \<Rightarrow> string \<Rightarrow> string \<Rightarrow> LogMessage" where
  "CreateControllerMessage now severity txt =
     zeroLogMessage\<lparr>ControllerIP := [], logSource := SourceChannel,
       logChannelId := NoChannelIdent, ChannelLocName := NoChannelLocName,
       ChannelRemName := NoChannelRemName, logDataType := ChannelTypeNone,
       Severity := severity, FmtpType := NoneFmtpType, Direction := DirectionUnknown,
       logText := txt, DateTime := now\<rparr>"

definition LogChannelST :: "string \<Rightarrow> string \<Rightarrow> string \<Rightarrow> LogMessage" where
  "LogChannelST now severity txt =
     zeroLogMessage\<lparr>logSource := SourceChannel, Severity := severity, FmtpType := NoneFmtpType,
       Direction := DirectionUnknown, logText := txt, DateTime := now\<rparr>"

definition LogChannelSTDT :: "string \<Rightarrow> string \<Rightarrow> string \<Rightarrow> string \<Rightarrow> string \<Rightarrow> LogMessage" where
  "LogChannelSTDT now severity fmtpType direction txt =
     zeroLogMessage\<lparr>logSource := SourceChannel, Severity := severity, FmtpType := fmtpType,
       Direction := direction, logText := txt, DateTime := now\<rparr>"

definition LogCntrlSDT :: "string \<Rightarrow> string \<Rightarrow> string \<Rightarrow> string \<Rightarrow> LogMessage" where
  "LogCntrlSDT now severity dtType txt =
     zeroLogMessage\<lparr>logChannelId := NoChannelIdent, logDataType := dtType, FmtpType := NoneFmtpType,
       logSource := SourceController, Severity := severity, Direction := DirectionUnknown,
       logText := txt, DateTime := now\<rparr>"

section \<open>The text form\<close>

definition log_fields :: "LogMessage \<Rightarrow> string list" where
  "log_fields lm =
     [ControllerIP lm, logSource lm, Itoa (logChannelId lm), ChannelLocName lm,
      ChannelRemName lm, logDataType lm, Severity lm, FmtpType lm, Direction lm, logText lm,
      DateTime lm]"

definition MarshalToString :: "LogMessage \<Rightarrow> string" where
  "MarshalToString lm = Join (log_fields lm) (CHR '','')"

definition UnmarshalFromString :: "string \<Rightarrow> string + LogMessage" where
  "UnmarshalFromString dt =
     (let fields = Split dt (CHR '','')
      in if length fields = 11 then
           Inr (zeroLogMessage\<lparr>ControllerIP := fields ! 0, logSource := fields ! 1,
             logChannelId := fst (Atoi (fields ! 2)), ChannelLocName := fields ! 3,
             ChannelRemName := fields ! 4, logDataType := fields ! 5, Severity := fields ! 6,
             FmtpType := fields ! 7, Direction := fields ! 8, logText := fields ! 9,
             DateTime := fields ! 10\<rparr>)
         else Inl (ru ''ne vernoe kol-vo 3lementov''))"

definition comma_free :: "LogMessage \<Rightarrow> bool" where
  "comma_free lm \<longleftrightarrow> (\<forall>s \<in> set (log_fields lm). CHR '','' \<notin> set s)"

definition id_in_range :: "LogMessage \<Rightarrow> bool" where
  "id_in_range lm \<longleftrightarrow> int_min \<le> logChannelId lm \<and> logChannelId lm \<le> int_max"

lemma length_log_fields [simp]: "length (log_fields lm) = 11"
  by (simp add: log_fields_def)

lemma log_fields_neq_Nil [simp]: "log_fields lm \<noteq> []"
  by (simp add: log_fields_def)

lemma unmarshal_marshal:
  assumes "comma_free lm" and "id_in_range lm"
  shows "UnmarshalFromString (MarshalToString lm) = Inr lm"
proof -
  have "Split (MarshalToString lm) (CHR '','') = log_fields lm"
    unfolding MarshalToString_def using assms(1)
    by (intro Split_Join) (auto simp: comma_free_def)
  then show ?thesis using assms(2)
    by (simp add: UnmarshalFromString_def log_fields_def zeroLogMessage_def id_in_range_def
        Atoi_Itoa)
qed

lemma length_split_marshal:
  "length (Split (MarshalToString lm) (CHR '','')) =
     11 + sum_list (map (\<lambda>s. count_list s (CHR '','')) (log_fields lm))"
  by (simp add: length_Split MarshalToString_def count_list_Join)

lemma unmarshal_comma_error:
  assumes "\<not> comma_free lm"
  shows "UnmarshalFromString (MarshalToString lm) = Inl (ru ''ne vernoe kol-vo 3lementov'')"
proof -
  from assms obtain s where s: "s \<in> set (log_fields lm)" "CHR '','' \<in> set s"
    by (auto simp: comma_free_def)
  then have "0 < count_list s (CHR '','')" by (simp add: count_list_0_iff neq0_conv [symmetric] del: neq0_conv)
  moreover have "count_list s (CHR '','') \<le>
      sum_list (map (\<lambda>s. count_list s (CHR '','')) (log_fields lm))"
    using s(1) by (intro member_le_sum_list) auto
  ultimately have "length (Split (MarshalToString lm) (CHR '','')) \<noteq> 11"
    unfolding length_split_marshal by linarith
  then show ?thesis by (simp add: UnmarshalFromString_def Let_def)
qed

section \<open>Formats of the file and web logs\<close>

text \<open>
  An argument of a logging call is a \<open>LogMessage\<close> or anything else; \<open>fmt.Sprintf\<close> of
  the whole call has been rendered by the caller. The colours are constants of the
  \<open>logger\<close> package.
\<close>

datatype log_arg = ArgLog LogMessage | ArgOther

definition ljackFmtpFormatFunc :: "string \<Rightarrow> log_arg \<Rightarrow> byte list \<times> bool" where
  "ljackFmtpFormatFunc now msgIface =
     (case msgIface of
        ArgLog m \<Rightarrow>
          (bytes_of (concat [now,
             [CHR 0x09], '' '', ControllerIP m, [CHR 0x0A],
             [CHR 0x09], '' Severity: '', Severity m, [CHR 0x0A],
             [CHR 0x09], '' Source: '', logSource m, [CHR 0x0A],
             [CHR 0x09], '' ChannelId: '', Itoa (logChannelId m), [CHR 0x0A],
             [CHR 0x09], '' ChannelLocName: '', ChannelLocName m, [CHR 0x0A],
             [CHR 0x09], '' ChannelRemName: '', ChannelRemName m, [CHR 0x0A],
             [CHR 0x09], '' DataType: '', logDataType m, [CHR 0x0A],
             [CHR 0x09], '' FmtpType: '', FmtpType m, [CHR 0x0A],
             [CHR 0x09], '' Direction: '', Direction m, [CHR 0x0A],
             [CHR 0x09], '' Text: '', logText m, [CHR 0x0A],
             [CHR 0x0A, CHR 0x0A]]), True)
      | ArgOther \<Rightarrow> ([], False))"

record log_colors =
  DebugColor :: string
  InfoColor :: string
  WarningColor :: string
  ErrorColor :: string
  DefaultColor :: string

record LogMessageWithColor =
  colMessage :: LogMessage
  MsgColor :: string

definition severityToColor :: "log_colors \<Rightarrow> string \<Rightarrow> string" where
  "severityToColor cs sev =
     (if sev = SeverityDebug then DebugColor cs
      else if sev = SeverityInfo then InfoColor cs
      else if sev = SeverityWarning then WarningColor cs
      else if sev = SeverityError then ErrorColor cs
      else DefaultColor cs)"

definition webUserFormatFunc ::
  "log_colors \<Rightarrow> string \<Rightarrow> string \<Rightarrow> string \<Rightarrow> log_arg list \<Rightarrow> LogMessageWithColor" where
  "webUserFormatFunc cs now severity rendered a =
     (case a of
        ArgLog fmtpLogMsg # _ \<Rightarrow>
          \<lparr>colMessage = fmtpLogMsg, MsgColor = severityToColor cs severity\<rparr>
      | _ \<Rightarrow> \<lparr>colMessage = CreateControllerMessage now severity rendered,
              MsgColor = severityToColor cs severity\<rparr>)"

section \<open>Properties\<close>

text \<open>The text form of a journal message is read back as the message it was made from
  exactly when no field of it has a comma; a comma anywhere makes the reader refuse the whole text.\<close>

theorem log_round_trip:
  assumes "id_in_range lm"
  shows "UnmarshalFromString (MarshalToString lm) =
    (if comma_free lm then Inr lm else Inl (ru ''ne vernoe kol-vo 3lementov''))"
  using unmarshal_marshal [OF _ assms] unmarshal_comma_error by simp

theorem log_round_trip_witness:
  "UnmarshalFromString (MarshalToString (LogChannelST ''now'' SeverityInfo ''a,b'')) =
    (if comma_free (LogChannelST ''now'' SeverityInfo ''a,b'')
     then Inr (LogChannelST ''now'' SeverityInfo ''a,b'') else Inl (ru ''ne vernoe kol-vo 3lementov''))"
  by (rule log_round_trip)
    (simp add: id_in_range_def LogChannelST_def zeroLogMessage_def int_min_def int_max_def)

end
