(* ===== verification/Tcp_Transport.thy ===== *)
theory Tcp_Transport
  imports Fmtp_Log
begin

text \<open>
  The TCP transport of a channel, \<open>channel/tcp_transport/\<close>: the client and the server. Each
  has a goroutine that runs \<open>Work\<close> and, while a connection lasts, one that receives and
  one that sends; they meet on the unbuffered channels \<open>errorChan\<close> and \<open>cancelWorkChan\<close>.
  A state lists where each goroutine is, and an action is one of them making a move, or two
  of them meeting; \<open>None\<close> is an action that is not possible. What goes to the controller
  (journal messages, connection states, events, received data) and to the network is
  appended to \<open>trOut\<close> in its order.

  The results of the network calls are parts of the actions: an error is its text, the end
  of the stream is \<open>None\<close> among the errors of a read. \<open>clk\<close> is the clock, read at the
  length of \<open>trOut\<close>.
\<close>

section \<open>The data the interface exchanges\<close>

record DataAndEvent =
  DataToSend :: "byte list"
  EventAfterSend :: FmtpEvent

record TcpTransportSettings =
  ServerAddr :: string
  ServerPort :: int
  ClientAddr :: string
  tsLocalPort :: int

section \<open>State\<close>

datatype tcp_effect =
  Written "byte list"
| Received "byte list"
| TrEvent FmtpEvent
| ConnState bool
| TrLog LogMessage
| Closed

text \<open>Where the goroutine of \<open>Work\<close> is: at its \<open>select\<close>, or in \<open>stopClient\<close>, waiting for a
  loop to take the signal to stop.\<close>

datatype work_pc = WorkSelect | WorkCancel

text \<open>Where a loop is: at its \<open>select\<close>, in the call of \<open>Read\<close>, or waiting for \<open>Work\<close> to take
  its error.\<close>

datatype loop_pc = RecvSelect | RecvRead | RecvError | SendSelect | SendError

record transport =
  trCurSett :: TcpTransportSettings
  tcpOpen :: bool
  toSendData :: "DataAndEvent list"
  workPc :: work_pc
  loops :: "loop_pc list"
  panicked :: bool
  trOut :: "tcp_effect list"

record TcpTransportClient = transport +
  lastConnectError :: string
  lastKeepaliveError :: string

text \<open>A goroutine of \<open>startServer\<close>, by the settings it listens with: not yet listening, or
  waiting for a connection.\<close>

datatype listener_pc = Opening | Accepting | ListenFailed

record TcpTransportServer = transport +
  listeners :: "listener_pc list"

definition zeroTcpSettings :: TcpTransportSettings where
  "zeroTcpSettings = \<lparr>ServerAddr = [], ServerPort = 0, ClientAddr = [], tsLocalPort = 0\<rparr>"

definition NewFmtpTcpClient :: TcpTransportClient where
  "NewFmtpTcpClient =
     \<lparr>trCurSett = zeroTcpSettings, tcpOpen = False, toSendData = [], workPc = WorkSelect,
      loops = [], panicked = False, trOut = [], lastConnectError = [], lastKeepaliveError = []\<rparr>"

definition NewFmtpTcpServer :: TcpTransportServer where
  "NewFmtpTcpServer =
     \<lparr>trCurSett = zeroTcpSettings, tcpOpen = False, toSendData = [], workPc = WorkSelect,
      loops = [], panicked = False, trOut = [], listeners = []\<rparr>"

definition tr_emit :: "tcp_effect \<Rightarrow> 'a transport_scheme \<Rightarrow> 'a transport_scheme" where
  "tr_emit e s = s\<lparr>trOut := trOut s @ [e]\<rparr>"

definition tr_log :: "(nat \<Rightarrow> string) \<Rightarrow> string \<Rightarrow> string \<Rightarrow> 'a transport_scheme \<Rightarrow> 'a transport_scheme" where
  "tr_log clk severity txt s = tr_emit (TrLog (LogChannelST (clk (length (trOut s))) severity txt)) s"

definition tr_log_in :: "(nat \<Rightarrow> string) \<Rightarrow> string \<Rightarrow> 'a transport_scheme \<Rightarrow> 'a transport_scheme" where
  "tr_log_in clk txt s =
     tr_emit (TrLog (LogChannelSTDT (clk (length (trOut s))) SeverityError NoneFmtpType
                       DirectionIncoming txt)) s"

definition loop_at :: "nat \<Rightarrow> loop_pc \<Rightarrow> 'a transport_scheme \<Rightarrow> bool" where
  "loop_at i pc s \<longleftrightarrow> i < length (loops s) \<and> loops s ! i = pc"

definition set_loop :: "nat \<Rightarrow> loop_pc \<Rightarrow> 'a transport_scheme \<Rightarrow> 'a transport_scheme" where
  "set_loop i pc s = s\<lparr>loops := (loops s)[i := pc]\<rparr>"

definition end_loop :: "nat \<Rightarrow> 'a transport_scheme \<Rightarrow> 'a transport_scheme" where
  "end_loop i s = s\<lparr>loops := take i (loops s) @ drop (Suc i) (loops s)\<rparr>"

lemmas tr_defs = tr_emit_def tr_log_def tr_log_in_def set_loop_def end_loop_def

section \<open>The loops\<close>

text \<open>
  \<open>receiveLoop\<close>. Its \<open>select\<close> has a default: the signal to stop is taken when \<open>stopClient\<close>
  is waiting to send it, else the loop goes on to read. The loop of the server does not
  read where there is no connection (\<open>nilCheck\<close>) and comes back to its \<open>select\<close>; the one of the
  client would call a method of a nil interface.
\<close>

definition recv_poll :: "bool \<Rightarrow> nat \<Rightarrow> 'a transport_scheme \<Rightarrow> 'a transport_scheme option" where
  "recv_poll nilCheck i s =
     (if \<not> loop_at i RecvSelect s \<or> workPc s = WorkCancel then None
      else if nilCheck \<and> \<not> tcpOpen s then Some s
      else Some (set_loop i RecvRead s))"

definition recv_read ::
  "(nat \<Rightarrow> string) \<Rightarrow> nat \<Rightarrow> nat \<Rightarrow> string option + byte list \<Rightarrow> 'a transport_scheme \<Rightarrow> 'a transport_scheme option" where
  "recv_read clk bufLen i result s =
     (if \<not> loop_at i RecvRead s then None
      else if \<not> tcpOpen s then Some (s\<lparr>panicked := True\<rparr>)
      else case result of
        Inl err \<Rightarrow>
          (let s = (case err of None \<Rightarrow> s
                    | Some e \<Rightarrow> tr_log_in clk
                        ((ru ''Owibka 4teni9 dannyh iz '') @ ''FMTP '' @ (ru ''kanala. Owibka: '' @ ''<'') @ e @ ''>.'') s)
           in Some (set_loop i RecvError s))
      | Inr readBytes \<Rightarrow>
          if readBytes = [] \<or> bufLen < length readBytes then None
          else Some (set_loop i RecvSelect (tr_emit (Received readBytes) s)))"

text \<open>\<open>sendLoop\<close>: the next data of its channel, or nothing where it is empty.\<close>

definition send_next ::
  "(nat \<Rightarrow> string) \<Rightarrow> nat \<Rightarrow> string option \<Rightarrow> 'a transport_scheme \<Rightarrow> 'a transport_scheme option" where
  "send_next clk i err s =
     (if \<not> loop_at i SendSelect s then None
      else case toSendData s of
        [] \<Rightarrow> None
      | curData # rest \<Rightarrow>
          (let s = s\<lparr>toSendData := rest\<rparr>
           in if \<not> tcpOpen s then Some (s\<lparr>panicked := True\<rparr>)
              else case err of
                Some e \<Rightarrow>
                  Some (set_loop i SendError (tr_log_in clk
                    ((ru ''Owibka otpravki dannyh v '') @ ''FMTP '' @ (ru ''kanala. Owibka: '' @ ''<'') @ e @ ''>.'') s))
              | None \<Rightarrow>
                  (let s = tr_emit (Written (DataToSend curData)) s
                   in Some (if EventAfterSend curData \<noteq> NoneEvent
                            then tr_emit (TrEvent (EventAfterSend curData)) s else s))))"

text \<open>\<open>Work\<close> takes the error of a loop, which ends, and enters \<open>stopClient\<close>.\<close>

definition take_error :: "nat \<Rightarrow> 'a transport_scheme \<Rightarrow> 'a transport_scheme option" where
  "take_error i s =
     (if workPc s = WorkSelect \<and> (loop_at i RecvError s \<or> loop_at i SendError s)
      then Some ((end_loop i s)\<lparr>workPc := WorkCancel\<rparr>) else None)"

text \<open>A loop at its \<open>select\<close> takes the signal of \<open>stopClient\<close> and ends.\<close>

definition take_cancel :: "nat \<Rightarrow> 'a transport_scheme \<Rightarrow> 'a transport_scheme option" where
  "take_cancel i s =
     (if workPc s = WorkCancel \<and> (loop_at i RecvSelect s \<or> loop_at i SendSelect s)
      then Some ((end_loop i s)\<lparr>workPc := WorkSelect\<rparr>) else None)"

definition push_data :: "DataAndEvent \<Rightarrow> 'a transport_scheme \<Rightarrow> 'a transport_scheme" where
  "push_data d s = s\<lparr>toSendData := toSendData s @ [d]\<rparr>"

section \<open>The client\<close>

definition startClient ::
  "(nat \<Rightarrow> string) \<Rightarrow> string option \<Rightarrow> string option \<Rightarrow> TcpTransportClient \<Rightarrow> TcpTransportClient" where
  "startClient clk dialErr keepErr s =
     (case dialErr of
        Some err \<Rightarrow>
          (let s = s\<lparr>tcpOpen := False\<rparr>;
               s = (if err \<noteq> lastConnectError s then
                      tr_log clk SeverityError
                        ((ru ''Pri ustanovke '') @ ''TCP '' @ (ru ''soedineni9 voznikla owibka. Owibka:'' @ ''<'') @ err @ ''>'')
                        (s\<lparr>lastConnectError := err\<rparr>)
                    else s)
           in tr_emit (ConnState False) s)
      | None \<Rightarrow>
          (let s = s\<lparr>tcpOpen := True\<rparr>;
               s = tr_log clk SeverityDebug ((ru ''Ustanovleno '') @ ''TCP '' @ (ru ''soedinenie '') @ ''FMTP '' @ (ru ''kanala.'')) s;
               s = tr_emit (ConnState True) s
           in case keepErr of
                Some err \<Rightarrow>
                  (let s = (if err \<noteq> lastKeepaliveError s then
                              tr_log clk SeverityError
                                ((ru ''Pri ustanovke flaga '') @ ''keep_alive TCP '' @
                                 (ru ''soedineni9 voznikla owibka. Owibka:'' @ ''<'') @ err @ ''>'')
                                (s\<lparr>lastKeepaliveError := err\<rparr>)
                            else s)
                   in tr_emit (ConnState False) s)
              | None \<Rightarrow> s\<lparr>loops := loops s @ [RecvSelect, SendSelect]\<rparr>))"

text \<open>The rest of \<open>stopClient\<close>, once a loop has taken the signal.\<close>

definition client_stopped ::
  "(nat \<Rightarrow> string) \<Rightarrow> string option \<Rightarrow> TcpTransportClient \<Rightarrow> TcpTransportClient" where
  "client_stopped clk closeErr s =
     (let s = tr_emit (ConnState False) s
      in if \<not> tcpOpen s then s\<lparr>panicked := True\<rparr>
         else case closeErr of
           Some err \<Rightarrow>
             tr_log clk SeverityError
               ((ru ''Owibka pri zakrytii '') @ ''TCP '' @ (ru ''soedinenie '') @ ''FMTP '' @ (ru ''kanala. Owibka: '' @ ''<'') @ err @ ''>.'') s
         | None \<Rightarrow>
             tr_log clk SeverityError ((ru ''Zakryto '') @ ''TCP '' @ (ru ''soedinenie '') @ ''FMTP '' @ (ru ''kanala.''))
               (tr_emit Closed s))"

datatype client_action =
  CSettings TcpTransportSettings "string option" "string option"
| CReconnect "string option" "string option"
| CTakeError nat
| CTakeCancel nat "string option"
| CPoll nat
| CRead nat "string option + byte list"
| CSend nat "string option"
| CPush DataAndEvent

fun client_move ::
  "(nat \<Rightarrow> string) \<Rightarrow> client_action \<Rightarrow> TcpTransportClient \<Rightarrow> TcpTransportClient option" where
  "client_move clk (CSettings newSettings dialErr keepErr) s =
     (if workPc s \<noteq> WorkSelect then None
      else if trCurSett s \<noteq> newSettings then
        Some (startClient clk dialErr keepErr (s\<lparr>trCurSett := newSettings\<rparr>))
      else Some s)"
| "client_move clk (CReconnect dialErr keepErr) s =
     (if workPc s \<noteq> WorkSelect then None else Some (startClient clk dialErr keepErr s))"
| "client_move clk (CTakeError i) s = take_error i s"
| "client_move clk (CTakeCancel i closeErr) s =
     (case take_cancel i s of None \<Rightarrow> None | Some s \<Rightarrow> Some (client_stopped clk closeErr s))"
| "client_move clk (CPoll i) s = recv_poll False i s"
| "client_move clk (CRead i result) s = recv_read clk 1024 i result s"
| "client_move clk (CSend i err) s = send_next clk i err s"
| "client_move clk (CPush d) s = Some (push_data d s)"

definition client_step ::
  "(nat \<Rightarrow> string) \<Rightarrow> client_action \<Rightarrow> TcpTransportClient \<Rightarrow> TcpTransportClient option" where
  "client_step clk a s = (if panicked s then None else client_move clk a s)"

section \<open>The server\<close>

definition listener_at :: "nat \<Rightarrow> listener_pc \<Rightarrow> TcpTransportServer \<Rightarrow> bool" where
  "listener_at j pc s \<longleftrightarrow> j < length (listeners s) \<and> listeners s ! j = pc"

text \<open>\<open>startServer\<close> up to its loop.\<close>

definition server_listen ::
  "(nat \<Rightarrow> string) \<Rightarrow> nat \<Rightarrow> string option \<Rightarrow> TcpTransportServer \<Rightarrow> TcpTransportServer option" where
  "server_listen clk j err s =
     (if \<not> listener_at j Opening s then None
      else case err of
        Some e \<Rightarrow>
          Some (tr_emit (ConnState False)
            (tr_log clk SeverityError
              ((ru ''Owibka zapuska '') @ ''TCP '' @ (ru ''servera '') @ ''FMTP '' @ (ru ''kanala. Owibka: '' @ ''<'') @ e @ ''>.'')
              (s\<lparr>listeners := (listeners s)[j := ListenFailed]\<rparr>)))
      | None \<Rightarrow>
          Some (tr_log clk SeverityInfo ((ru ''Zapuqen '') @ ''TCP '' @ (ru ''server '') @ ''FMTP '' @ (ru ''kanala.''))
            (tr_emit (ConnState True) (s\<lparr>listeners := (listeners s)[j := Accepting]\<rparr>))))"

text \<open>One iteration of its loop: an error of \<open>Accept\<close>, or the address of a client.\<close>

definition server_accept ::
  "(nat \<Rightarrow> string) \<Rightarrow> nat \<Rightarrow> string + string \<Rightarrow> TcpTransportServer \<Rightarrow> TcpTransportServer option" where
  "server_accept clk j conn s =
     (if \<not> listener_at j Accepting s then None
      else case conn of
        Inl e \<Rightarrow>
          Some (tr_log clk SeverityError
            ((ru ''Owibka podkl04eni9 klienta k '') @ ''TCP '' @ (ru ''serveru '') @ ''FMTP '' @ (ru ''kanala. Owibka: '' @ ''<'') @ e @ ''>.'') s)
      | Inr remoteAddr \<Rightarrow>
          if tcpOpen s then
            Some (tr_log clk SeverityWarning
              ((ru ''Otkloneno vhod9qee podkl04enie k '') @ ''TCP '' @ (ru ''serveru '') @ ''FMTP '' @ (ru ''kanala. '') @
               (ru ''Klient uxe podkl04en. Adres otklonennogo klienta: '' @ ''<'') @ remoteAddr @ ''>'') s)
          else if ClientAddr (trCurSett s) \<noteq> [] \<and> remoteAddr \<noteq> ClientAddr (trCurSett s) then
            Some (tr_log clk SeverityWarning
              ((ru ''Otkloneno vhod9qee podkl04enie k '') @ ''TCP '' @ (ru ''serveru '') @ ''FMTP '' @ (ru ''kanala. '') @
               (ru ''Adres klienta ne sootvetstvuet. Adres otklonennogo klienta: '' @ ''<'') @ remoteAddr @ ''>'') s)
          else
            (let s = tr_log clk SeverityInfo
                       ((ru ''Uspewnoe podkl04enie klienta k '') @ ''TCP '' @ (ru ''serveru '') @ ''FMTP '' @ (ru ''kanala. '') @
                        (ru ''Adres podkl04ennogo klienta: '' @ ''<'') @ remoteAddr @ ''>'') s;
                 s = tr_emit (TrEvent RSetup) (tr_emit (ConnState True) (s\<lparr>tcpOpen := True\<rparr>))
             in Some (s\<lparr>loops := loops s @ [RecvSelect, SendSelect]\<rparr>)))"

definition server_stopped ::
  "(nat \<Rightarrow> string) \<Rightarrow> string option \<Rightarrow> TcpTransportServer \<Rightarrow> TcpTransportServer" where
  "server_stopped clk closeErr s =
     (let s = tr_emit (ConnState False) s
      in if tcpOpen s then
           (case closeErr of
              Some err \<Rightarrow>
                tr_log clk SeverityError
                  ((ru ''Owibka pri zakrytii klientskogo '') @ ''TCP '' @ (ru ''podkl04eni9 '') @ ''FMTP '' @
                   (ru ''kanala. Owibka: '' @ ''<'') @ err @ ''>.'') s
            | None \<Rightarrow>
                (tr_log clk SeverityInfo ((ru ''Zakryto klientskoe '') @ ''TCP '' @ (ru ''soedinenie '') @ ''FMTP '' @ (ru ''kanala.''))
                  (tr_emit Closed s))\<lparr>tcpOpen := False\<rparr>)
         else s)"

datatype server_action =
  SSettings TcpTransportSettings
| SReconnect
| SListen nat "string option"
| SAccept nat "string + string"
| STakeError nat
| STakeCancel nat "string option"
| SPoll nat
| SRead nat "string option + byte list"
| SSend nat "string option"
| SPush DataAndEvent

fun server_move ::
  "(nat \<Rightarrow> string) \<Rightarrow> server_action \<Rightarrow> TcpTransportServer \<Rightarrow> TcpTransportServer option" where
  "server_move clk (SSettings newSettings) s =
     (if workPc s \<noteq> WorkSelect then None
      else if trCurSett s \<noteq> newSettings then
        Some (s\<lparr>trCurSett := newSettings, listeners := listeners s @ [Opening]\<rparr>)
      else Some s)"
| "server_move clk SReconnect s = (if workPc s \<noteq> WorkSelect then None else Some s)"
| "server_move clk (SListen j err) s = server_listen clk j err s"
| "server_move clk (SAccept j conn) s = server_accept clk j conn s"
| "server_move clk (STakeError i) s = take_error i s"
| "server_move clk (STakeCancel i closeErr) s =
     (case take_cancel i s of None \<Rightarrow> None | Some s \<Rightarrow> Some (server_stopped clk closeErr s))"
| "server_move clk (SPoll i) s = recv_poll True i s"
| "server_move clk (SRead i result) s = recv_read clk 8192 i result s"
| "server_move clk (SSend i err) s = send_next clk i err s"
| "server_move clk (SPush d) s = Some (push_data d s)"

definition server_step ::
  "(nat \<Rightarrow> string) \<Rightarrow> server_action \<Rightarrow> TcpTransportServer \<Rightarrow> TcpTransportServer option" where
  "server_step clk a s = (if panicked s then None else server_move clk a s)"

end
