(* ===== verification/State_Controller.thy ===== *)
theory State_Controller
  imports Fmtp_Machine Fmtp_Package Channel_Settings Timer Tcp_Transport
begin

text \<open>
  The state controller of a channel: \<open>channel/fmtp_states/state_controller.go\<close>,
  \<open>states_transition_funcs.go\<close> and \<open>states_transition_func_map.go\<close>.

  The record \<open>StateController\<close> holds the fields of the Go structure that hold data. What a
  handler sends to a channel (TCP data, journal messages, received data, its state), shows
  on the web page or schedules is appended to \<open>out\<close> in the order it happens; the queue of
  one Go channel is the part of \<open>out\<close> with its constructor. One iteration of the \<open>select\<close>
  loop of \<open>Work\<close> is \<open>sc_step\<close>, over the input its case received.

  The environment \<open>env\<close> is what the handlers call outside the repository: the two
  conversions of \<open>utils\<close> between UTF-8 and Windows-1251, and the formatted clock, which
  may differ at every reading (it is read at the length of \<open>out\<close>).
\<close>

section \<open>State\<close>

record sc_env =
  Utf8toWin1251 :: "byte list \<Rightarrow> byte list"
  Win1251toUtf8 :: "byte list \<Rightarrow> byte list"
  clock :: "nat \<Rightarrow> string"

datatype effect =
  SendData DataAndEvent
| SendLog LogMessage
| ReceiveData FmtpMessage
| SendState ChannelState
| WebParam string string string
| ReconnectAfter time

record StateController =
  tiTimer :: Timer
  tsTimer :: Timer
  trTimer :: Timer
  currentState :: FmtpState
  curSet :: ChannelSettings
  stateMachine :: FmtpStateMachine
  ownIdentificationMsg :: FmtpMessage
  remoteIdentificationMsg :: FmtpMessage
  receivedBuffer :: "byte list"
  out :: "effect list"

definition NewStateController :: StateController where
  "NewStateController =
     \<lparr>tiTimer = newFmtpTimer 0 NoneEvent, tsTimer = newFmtpTimer 0 NoneEvent,
      trTimer = newFmtpTimer 0 NoneEvent, currentState = Idle, curSet = zeroChannelSettings,
      stateMachine = Map.empty, ownIdentificationMsg = \<lparr>msgType = 0, msgText = []\<rparr>,
      remoteIdentificationMsg = \<lparr>msgType = 0, msgText = []\<rparr>, receivedBuffer = [], out = []\<rparr>"

definition emit :: "effect \<Rightarrow> StateController \<Rightarrow> StateController" where
  "emit e c = c\<lparr>out := out c @ [e]\<rparr>"

definition now :: "sc_env \<Rightarrow> StateController \<Rightarrow> string" where
  "now env c = clock env (length (out c))"

definition log_ST :: "sc_env \<Rightarrow> string \<Rightarrow> string \<Rightarrow> StateController \<Rightarrow> StateController" where
  "log_ST env severity txt c = emit (SendLog (LogChannelST (now env c) severity txt)) c"

definition log_STDT ::
  "sc_env \<Rightarrow> string \<Rightarrow> string \<Rightarrow> string \<Rightarrow> string \<Rightarrow> StateController \<Rightarrow> StateController" where
  "log_STDT env severity fmtpType direction txt c =
     emit (SendLog (LogChannelSTDT (now env c) severity fmtpType direction txt)) c"

text \<open>\<open>time.Duration(n) * time.Second\<close>: 64-bit arithmetic.\<close>

definition seconds :: "int \<Rightarrow> time" where
  "seconds n = sint (word_of_int (n * 1000000000) :: 64 word)"

section \<open>Sending\<close>

definition debug_logged :: "string \<Rightarrow> StateController \<Rightarrow> bool" where
  "debug_logged logSeverity c \<longleftrightarrow>
     (logSeverity = SeverityDebug \<and> LogDebug (curSet c)) \<or> logSeverity \<noteq> SeverityDebug"

definition sendPacket ::
  "sc_env \<Rightarrow> FmtpMessage \<Rightarrow> FmtpEvent \<Rightarrow> string \<Rightarrow> StateController \<Rightarrow> StateController" where
  "sendPacket env messageToSend evt logSeverity c =
     (let utfTextToLog = msgText messageToSend;
          messageToSend =
            (if DataEncoding (curSet c) = Encode1251 then
               messageToSend\<lparr>msgText := string_of (Utf8toWin1251 env (bytes_of (msgText messageToSend)))\<rparr>
             else messageToSend);
          c = emit (SendData \<lparr>DataToSend = MakeFmtpPacket messageToSend, EventAfterSend = evt\<rparr>) c
      in if debug_logged logSeverity c then
           log_STDT env logSeverity (PacketType_ToString (msgType messageToSend)) DirectionOutcoming
             ((ru ''Soderxanie: '' @ ''<'') @ utfTextToLog @ ''>.'') c
         else c)"

section \<open>Functions of the transitions\<close>

type_synonym transition_fun = "sc_env \<Rightarrow> FmtpEvent \<Rightarrow> StateController \<Rightarrow> StateController"

definition restartTi :: "StateController \<Rightarrow> StateController" where
  "restartTi c = c\<lparr>tiTimer := restartTimer (tiTimer c)\<rparr>"
definition stopTi :: "StateController \<Rightarrow> StateController" where
  "stopTi c = c\<lparr>tiTimer := stopTimer (tiTimer c)\<rparr>"
definition restartTs :: "StateController \<Rightarrow> StateController" where
  "restartTs c = c\<lparr>tsTimer := restartTimer (tsTimer c)\<rparr>"
definition stopTs :: "StateController \<Rightarrow> StateController" where
  "stopTs c = c\<lparr>tsTimer := stopTimer (tsTimer c)\<rparr>"
definition restartTr :: "StateController \<Rightarrow> StateController" where
  "restartTr c = c\<lparr>trTimer := restartTimer (trTimer c)\<rparr>"
definition stopTr :: "StateController \<Rightarrow> StateController" where
  "stopTr c = c\<lparr>trTimer := stopTimer (trTimer c)\<rparr>"

lemmas timer_calls =
  restartTi_def stopTi_def restartTs_def stopTs_def restartTr_def stopTr_def

definition IdleStateEnter :: transition_fun where
  "IdleStateEnter env eventType c =
     emit (ReconnectAfter (seconds (ReconnectTimeout (curSet c)))) c"

definition IdleStateExit :: transition_fun where
  "IdleStateExit env eventType c = c"

definition SystemIdPendingStateEnter :: transition_fun where
  "SystemIdPendingStateEnter env eventType c = restartTi c"

definition SystemIdPendingStateExit :: transition_fun where
  "SystemIdPendingStateExit env eventType c =
     (if eventType = RIdValid then
        let c = (if NetRole (curSet c) = TcpServerText
                 then sendPacket env (ownIdentificationMsg c) NoneEvent SeverityInfo c else c)
        in restartTi c
      else stopTi c)"

definition ConnectionPendingStateEnter :: transition_fun where
  "ConnectionPendingStateEnter env eventType c =
     sendPacket env (ownIdentificationMsg c) RSetup SeverityInfo c"

definition IdPendingStateEnter :: transition_fun where
  "IdPendingStateEnter env eventType c = restartTi c"

definition IdPendingStateExit :: transition_fun where
  "IdPendingStateExit env eventType c =
     (let c = (if eventType = RIdValid then sendPacket env AcceptMessage NoneEvent SeverityInfo c
               else if eventType = RIdInvalid then sendPacket env RejectMessage NoneEvent SeverityInfo c
               else c)
      in stopTi c)"

definition ReadyStateEnter :: transition_fun where
  "ReadyStateEnter env eventType c = sendPacket env StartupMessage LStartup SeverityInfo c"

definition ReadyStateExit :: transition_fun where
  "ReadyStateExit env eventType c = (if eventType = LStartup then restartTr c else c)"

definition AssosiationPendingStateExit :: transition_fun where
  "AssosiationPendingStateExit env eventType c =
     (if eventType = LDisconnect \<or> eventType = LShutdown then
        stopTr (sendPacket env ShutdownMessage NoneEvent SeverityInfo c)
      else if eventType = TrTimeout then
        restartTr (sendPacket env StartupMessage LStartup SeverityInfo c)
      else if eventType = RStartup then
        restartTs (restartTr (sendPacket env StartupMessage LStartup SeverityInfo c))
      else stopTr c)"

definition DataReadyStateExit :: transition_fun where
  "DataReadyStateExit env eventType c =
     (if eventType = LDisconnect \<or> eventType = LShutdown then
        stopTs (stopTr (sendPacket env ShutdownMessage NoneEvent SeverityInfo c))
      else if eventType = RDisconnect \<or> eventType = TrTimeout then stopTs (stopTr c)
      else if eventType = LData then restartTs c
      else if eventType = TsTimeout then
        restartTs (sendPacket env HeartbeatMessage NoneEvent SeverityDebug c)
      else if eventType = RData \<or> eventType = RHeartbeat then restartTr c
      else if eventType = RShutdown then restartTr (stopTs c)
      else c)"

definition DisabledStateEnter :: transition_fun where
  "DisabledStateEnter env eventType c = stopTs (stopTr (stopTi c))"

definition initEnterTransFuncMap :: "string \<Rightarrow> (FmtpState \<rightharpoonup> transition_fun)" where
  "initEnterTransFuncMap tcpRole =
     (let retValue = [Idle \<mapsto> IdleStateEnter, IdPending \<mapsto> IdPendingStateEnter,
                      Ready \<mapsto> ReadyStateEnter, Disabled \<mapsto> DisabledStateEnter]
      in if tcpRole = TcpClientText then retValue(ConPending \<mapsto> ConnectionPendingStateEnter)
         else retValue(SysIdPending \<mapsto> SystemIdPendingStateEnter))"

definition initExitTransFuncMap :: "string \<Rightarrow> (FmtpState \<rightharpoonup> transition_fun)" where
  "initExitTransFuncMap tcpRole =
     (let retValue = [Idle \<mapsto> IdleStateExit, IdPending \<mapsto> IdPendingStateExit,
                      Ready \<mapsto> ReadyStateExit, AssPending \<mapsto> AssosiationPendingStateExit,
                      DataReady \<mapsto> DataReadyStateExit]
      in if tcpRole = TcpServerText then retValue(SysIdPending \<mapsto> SystemIdPendingStateExit)
         else retValue)"

section \<open>Events\<close>

text \<open>
  The maps of functions are made once, in \<open>Work\<close>, from the role of the settings; they are
  made here where they are looked up. The table is searched in the order it was written:
  any order gives the same state (\<open>GetNextState_any_order\<close>).
\<close>

definition run_func :: "(FmtpState \<rightharpoonup> transition_fun) \<Rightarrow> transition_fun" where
  "run_func m env curEvent c =
     (case m (currentState c) of Some f \<Rightarrow> f env curEvent c | None \<Rightarrow> c)"

definition forceNewEvent :: "sc_env \<Rightarrow> FmtpEvent \<Rightarrow> StateController \<Rightarrow> StateController" where
  "forceNewEvent env curEvent c =
     (let nextState = GetNextState id (stateMachine c) (currentState c) curEvent
      in if nextState \<noteq> Empt then
           let c = (if currentState c \<noteq> nextState then
                      log_ST env SeverityInfo
                        ((ru ''Smena '' @ ''FMTP '' @ ru ''sosto9ni9: '' @ ''<'') @ FmtpState_ToString (currentState c) @
                         ''> -> <'' @ FmtpState_ToString nextState @ (''> '' @ ru ''po sobyti0 '' @ ''<'') @
                         FmtpEvent_ToString curEvent @ ''>.'') c
                    else c);
               c = run_func (initExitTransFuncMap (NetRole (curSet c))) env curEvent c;
               c = c\<lparr>currentState := nextState\<rparr>
           in run_func (initEnterTransFuncMap (NetRole (curSet c))) env curEvent c
         else c)"

definition processEventMessage ::
  "sc_env \<Rightarrow> FmtpEvent \<Rightarrow> FmtpMessage \<Rightarrow> string \<Rightarrow> StateController \<Rightarrow> StateController" where
  "processEventMessage env curEvent fmtpMsg logSeverity c =
     (let c = (if debug_logged logSeverity c then
                 let txt = (if DataEncoding (curSet c) = Encode1251 \<and> curEvent = RData
                            then string_of (Win1251toUtf8 env (bytes_of (msgText fmtpMsg)))
                            else msgText fmtpMsg)
                 in log_STDT env logSeverity (PacketType_ToString (msgType fmtpMsg)) DirectionIncoming
                      ((ru ''Soderxanie: '' @ ''<'') @ txt @ (''>. '' @ ru ''Ukazanie obrabotat8 sobytie '' @ ''<'') @
                       FmtpEvent_ToString curEvent @ ''>'') c
               else c)
      in forceNewEvent env curEvent c)"

definition processDataMessage :: "sc_env \<Rightarrow> FmtpMessage \<Rightarrow> StateController \<Rightarrow> StateController" where
  "processDataMessage env fmtpMsg c =
     (let fmtpMsg = (if DataEncoding (curSet c) = Encode1251
                     then fmtpMsg\<lparr>msgText := string_of (Win1251toUtf8 env (bytes_of (msgText fmtpMsg)))\<rparr>
                     else fmtpMsg);
          c = log_STDT env SeverityInfo (PacketType_ToString (msgType fmtpMsg)) DirectionIncoming
                ((ru ''Soderxanie: '' @ ''<'') @ msgText fmtpMsg @ ''>.'') c
      in emit (ReceiveData fmtpMsg) c)"

definition processFmtpMessage :: "sc_env \<Rightarrow> FmtpMessage \<Rightarrow> StateController \<Rightarrow> StateController" where
  "processFmtpMessage env fmtpMsg c =
    (if msgType fmtpMsg = Identification then
       (if msgText fmtpMsg = msgText RejectMessage then
          processEventMessage env RReject fmtpMsg SeverityInfo c
        else if msgText fmtpMsg = msgText AcceptMessage then
          processEventMessage env RAccept fmtpMsg SeverityInfo c
        else if msgText fmtpMsg = msgText (remoteIdentificationMsg c) then
          processEventMessage env RIdValid fmtpMsg SeverityInfo c
        else
          processEventMessage env RIdInvalid fmtpMsg SeverityInfo
            (log_STDT env SeverityWarning (PacketType_ToString (msgType fmtpMsg)) DirectionIncoming
               ((ru ''Nesovpadenie identifikacionnyh soobqenij. Oxidaemyj identifikator - '' @ ''<'') @
                msgText (remoteIdentificationMsg c) @ (''>, '' @ ru ''polu4ennyj - '' @ ''<'') @ msgText fmtpMsg @
                ''>.'') c))
     else if msgType fmtpMsg = System then
       (if msgText fmtpMsg = msgText StartupMessage then
          processEventMessage env RStartup fmtpMsg SeverityInfo c
        else if msgText fmtpMsg = msgText ShutdownMessage then
          processEventMessage env RShutdown fmtpMsg SeverityInfo c
        else if msgText fmtpMsg = msgText HeartbeatMessage then
          (if LogDebug (curSet c) then processEventMessage env RHeartbeat fmtpMsg SeverityInfo c
           else processEventMessage env RHeartbeat fmtpMsg SeverityDebug c)
        else c)
     else if msgType fmtpMsg = Operational then
       processDataMessage env fmtpMsg (processEventMessage env RData fmtpMsg SeverityDebug c)
     else processDataMessage env fmtpMsg c)"

section \<open>The buffer of received data\<close>

text \<open>
  \<open>bytes.Buffer.Read\<close> into a slice of \<open>n\<close> zero bytes: end of file when the buffer is empty
  and \<open>n\<close> is not 0; otherwise as many bytes as there are, the rest of the slice keeping its
  zeros. It reports no other error, and \<open>Write\<close> reports none.
\<close>

definition buf_read :: "nat \<Rightarrow> byte list \<Rightarrow> (byte list \<times> byte list) option" where
  "buf_read n buf =
     (if buf = [] \<and> n \<noteq> 0 then None
      else Some (take n buf @ replicate (n - length buf) 0, drop n buf))"

lemma buf_read_shorter:
  "buf_read n buf = Some (p, rest) \<Longrightarrow> n \<noteq> 0 \<Longrightarrow> length rest < length buf"
  by (auto simp: buf_read_def split: if_splits)

lemma buf_read_length: "buf_read n buf = Some (p, rest) \<Longrightarrow> length p = n"
  by (auto simp: buf_read_def split: if_splits)

section \<open>What the functions leave alone\<close>

lemma emit_frame [simp]:
  "currentState (emit e c) = currentState c" "curSet (emit e c) = curSet c"
  "stateMachine (emit e c) = stateMachine c" "receivedBuffer (emit e c) = receivedBuffer c"
  "ownIdentificationMsg (emit e c) = ownIdentificationMsg c"
  "remoteIdentificationMsg (emit e c) = remoteIdentificationMsg c"
  "tiTimer (emit e c) = tiTimer c" "tsTimer (emit e c) = tsTimer c" "trTimer (emit e c) = trTimer c"
  "out (emit e c) = out c @ [e]"
  by (simp_all add: emit_def)

lemma log_frame [simp]:
  "currentState (log_ST env sv t c) = currentState c" "curSet (log_ST env sv t c) = curSet c"
  "stateMachine (log_ST env sv t c) = stateMachine c"
  "receivedBuffer (log_ST env sv t c) = receivedBuffer c"
  "ownIdentificationMsg (log_ST env sv t c) = ownIdentificationMsg c"
  "remoteIdentificationMsg (log_ST env sv t c) = remoteIdentificationMsg c"
  "tiTimer (log_ST env sv t c) = tiTimer c" "tsTimer (log_ST env sv t c) = tsTimer c"
  "trTimer (log_ST env sv t c) = trTimer c"
  "currentState (log_STDT env sv f d t c) = currentState c"
  "curSet (log_STDT env sv f d t c) = curSet c"
  "stateMachine (log_STDT env sv f d t c) = stateMachine c"
  "receivedBuffer (log_STDT env sv f d t c) = receivedBuffer c"
  "ownIdentificationMsg (log_STDT env sv f d t c) = ownIdentificationMsg c"
  "remoteIdentificationMsg (log_STDT env sv f d t c) = remoteIdentificationMsg c"
  "tiTimer (log_STDT env sv f d t c) = tiTimer c" "tsTimer (log_STDT env sv f d t c) = tsTimer c"
  "trTimer (log_STDT env sv f d t c) = trTimer c"
  by (simp_all add: log_ST_def log_STDT_def)

lemma sendPacket_frame [simp]:
  "currentState (sendPacket env m e sv c) = currentState c"
  "curSet (sendPacket env m e sv c) = curSet c"
  "stateMachine (sendPacket env m e sv c) = stateMachine c"
  "receivedBuffer (sendPacket env m e sv c) = receivedBuffer c"
  "ownIdentificationMsg (sendPacket env m e sv c) = ownIdentificationMsg c"
  "remoteIdentificationMsg (sendPacket env m e sv c) = remoteIdentificationMsg c"
  "tiTimer (sendPacket env m e sv c) = tiTimer c" "tsTimer (sendPacket env m e sv c) = tsTimer c"
  "trTimer (sendPacket env m e sv c) = trTimer c"
  by (simp_all add: sendPacket_def Let_def)

lemma timer_calls_frame [simp]:
  "currentState (restartTi c) = currentState c" "currentState (stopTi c) = currentState c"
  "currentState (restartTs c) = currentState c" "currentState (stopTs c) = currentState c"
  "currentState (restartTr c) = currentState c" "currentState (stopTr c) = currentState c"
  "curSet (restartTi c) = curSet c" "curSet (stopTi c) = curSet c"
  "curSet (restartTs c) = curSet c" "curSet (stopTs c) = curSet c"
  "curSet (restartTr c) = curSet c" "curSet (stopTr c) = curSet c"
  "stateMachine (restartTi c) = stateMachine c" "stateMachine (stopTi c) = stateMachine c"
  "stateMachine (restartTs c) = stateMachine c" "stateMachine (stopTs c) = stateMachine c"
  "stateMachine (restartTr c) = stateMachine c" "stateMachine (stopTr c) = stateMachine c"
  "receivedBuffer (restartTi c) = receivedBuffer c" "receivedBuffer (stopTi c) = receivedBuffer c"
  "receivedBuffer (restartTs c) = receivedBuffer c" "receivedBuffer (stopTs c) = receivedBuffer c"
  "receivedBuffer (restartTr c) = receivedBuffer c" "receivedBuffer (stopTr c) = receivedBuffer c"
  "ownIdentificationMsg (restartTi c) = ownIdentificationMsg c"
  "ownIdentificationMsg (stopTi c) = ownIdentificationMsg c"
  "ownIdentificationMsg (restartTs c) = ownIdentificationMsg c"
  "ownIdentificationMsg (stopTs c) = ownIdentificationMsg c"
  "ownIdentificationMsg (restartTr c) = ownIdentificationMsg c"
  "ownIdentificationMsg (stopTr c) = ownIdentificationMsg c"
  "remoteIdentificationMsg (restartTi c) = remoteIdentificationMsg c"
  "remoteIdentificationMsg (stopTi c) = remoteIdentificationMsg c"
  "remoteIdentificationMsg (restartTs c) = remoteIdentificationMsg c"
  "remoteIdentificationMsg (stopTs c) = remoteIdentificationMsg c"
  "remoteIdentificationMsg (restartTr c) = remoteIdentificationMsg c"
  "remoteIdentificationMsg (stopTr c) = remoteIdentificationMsg c"
  "out (restartTi c) = out c" "out (stopTi c) = out c" "out (restartTs c) = out c"
  "out (stopTs c) = out c" "out (restartTr c) = out c" "out (stopTr c) = out c"
  by (simp_all add: timer_calls)

lemmas transition_defs =
  IdleStateEnter_def IdleStateExit_def SystemIdPendingStateEnter_def SystemIdPendingStateExit_def
  ConnectionPendingStateEnter_def IdPendingStateEnter_def IdPendingStateExit_def
  ReadyStateEnter_def ReadyStateExit_def AssosiationPendingStateExit_def DataReadyStateExit_def
  DisabledStateEnter_def

text \<open>A transition function changes timers and output only.\<close>

definition keeps_data :: "transition_fun \<Rightarrow> bool" where
  "keeps_data f \<longleftrightarrow> (\<forall>env e c.
     currentState (f env e c) = currentState c \<and> curSet (f env e c) = curSet c \<and>
     stateMachine (f env e c) = stateMachine c \<and> receivedBuffer (f env e c) = receivedBuffer c \<and>
     ownIdentificationMsg (f env e c) = ownIdentificationMsg c \<and>
     remoteIdentificationMsg (f env e c) = remoteIdentificationMsg c)"

lemma transitions_keep_data:
  "keeps_data IdleStateEnter" "keeps_data IdleStateExit" "keeps_data SystemIdPendingStateEnter"
  "keeps_data SystemIdPendingStateExit" "keeps_data ConnectionPendingStateEnter"
  "keeps_data IdPendingStateEnter" "keeps_data IdPendingStateExit" "keeps_data ReadyStateEnter"
  "keeps_data ReadyStateExit" "keeps_data AssosiationPendingStateExit"
  "keeps_data DataReadyStateExit" "keeps_data DisabledStateEnter"
  by (simp_all add: keeps_data_def transition_defs Let_def)

text \<open>What holds of every transition function holds of every entry of the two maps.\<close>

definition all_funcs :: "(transition_fun \<Rightarrow> bool) \<Rightarrow> (FmtpState \<rightharpoonup> transition_fun) \<Rightarrow> bool" where
  "all_funcs P m \<longleftrightarrow> (\<forall>s f. m s = Some f \<longrightarrow> P f)"

lemma all_funcs_empty: "all_funcs P Map.empty"
  by (simp add: all_funcs_def)

lemma all_funcs_upd: "all_funcs P m \<Longrightarrow> P f \<Longrightarrow> all_funcs P (m(s \<mapsto> f))"
  by (simp add: all_funcs_def)

lemma func_maps_all:
  assumes "P IdleStateEnter" "P IdleStateExit" "P SystemIdPendingStateEnter"
    "P SystemIdPendingStateExit" "P ConnectionPendingStateEnter" "P IdPendingStateEnter"
    "P IdPendingStateExit" "P ReadyStateEnter" "P ReadyStateExit" "P AssosiationPendingStateExit"
    "P DataReadyStateExit" "P DisabledStateEnter"
  shows "all_funcs P (initEnterTransFuncMap role)" "all_funcs P (initExitTransFuncMap role)"
  unfolding initEnterTransFuncMap_def initExitTransFuncMap_def Let_def
  by (simp_all only: all_funcs_upd all_funcs_empty assms split: if_split) simp_all

lemma run_func_all: "all_funcs P m \<Longrightarrow> m (currentState c) = Some f \<Longrightarrow> P f"
  by (simp add: all_funcs_def)

lemma run_func_keeps:
  assumes "all_funcs keeps_data m"
  shows "keeps_data (run_func m)"
  unfolding keeps_data_def
proof (intro allI)
  fix env e c
  show "currentState (run_func m env e c) = currentState c \<and> curSet (run_func m env e c) = curSet c \<and>
     stateMachine (run_func m env e c) = stateMachine c \<and>
     receivedBuffer (run_func m env e c) = receivedBuffer c \<and>
     ownIdentificationMsg (run_func m env e c) = ownIdentificationMsg c \<and>
     remoteIdentificationMsg (run_func m env e c) = remoteIdentificationMsg c"
  proof (cases "m (currentState c)")
    case None
    then show ?thesis by (simp add: run_func_def)
  next
    case (Some f)
    with assms have "keeps_data f" by (rule run_func_all)
    with Some show ?thesis by (simp add: run_func_def keeps_data_def)
  qed
qed

lemmas run_func_keeps_data = func_maps_all [OF transitions_keep_data, THEN run_func_keeps]

lemmas run_func_frame [simp] = run_func_keeps_data [unfolded keeps_data_def, rule_format]

lemma forceNewEvent_frame [simp]:
  "curSet (forceNewEvent env e c) = curSet c" "stateMachine (forceNewEvent env e c) = stateMachine c"
  "receivedBuffer (forceNewEvent env e c) = receivedBuffer c"
  "ownIdentificationMsg (forceNewEvent env e c) = ownIdentificationMsg c"
  "remoteIdentificationMsg (forceNewEvent env e c) = remoteIdentificationMsg c"
  by (simp_all add: forceNewEvent_def Let_def)

lemma process_frame [simp]:
  "curSet (processEventMessage env e m sv c) = curSet c"
  "stateMachine (processEventMessage env e m sv c) = stateMachine c"
  "receivedBuffer (processEventMessage env e m sv c) = receivedBuffer c"
  "ownIdentificationMsg (processEventMessage env e m sv c) = ownIdentificationMsg c"
  "remoteIdentificationMsg (processEventMessage env e m sv c) = remoteIdentificationMsg c"
  "curSet (processDataMessage env m c) = curSet c"
  "currentState (processDataMessage env m c) = currentState c"
  "stateMachine (processDataMessage env m c) = stateMachine c"
  "receivedBuffer (processDataMessage env m c) = receivedBuffer c"
  "ownIdentificationMsg (processDataMessage env m c) = ownIdentificationMsg c"
  "remoteIdentificationMsg (processDataMessage env m c) = remoteIdentificationMsg c"
  "tiTimer (processDataMessage env m c) = tiTimer c" "tsTimer (processDataMessage env m c) = tsTimer c"
  "trTimer (processDataMessage env m c) = trTimer c"
  by (simp_all add: processEventMessage_def processDataMessage_def Let_def)

text \<open>The fields no message changes.\<close>

definition same_conf :: "StateController \<Rightarrow> StateController \<Rightarrow> bool" where
  "same_conf c d \<longleftrightarrow> curSet d = curSet c \<and> stateMachine d = stateMachine c \<and>
     receivedBuffer d = receivedBuffer c \<and> ownIdentificationMsg d = ownIdentificationMsg c \<and>
     remoteIdentificationMsg d = remoteIdentificationMsg c"

lemma same_conf_if: "same_conf c x \<Longrightarrow> same_conf c y \<Longrightarrow> same_conf c (if b then x else y)"
  by simp

lemma same_conf_steps:
  "same_conf c c" "same_conf c (processEventMessage env e m sv c)"
  "same_conf c (processDataMessage env m c)"
  "same_conf c (processDataMessage env m (processEventMessage env e m sv c))"
  "same_conf c (processEventMessage env e m sv (log_STDT env sv' f d t c))"
  by (simp_all add: same_conf_def)

lemma processFmtpMessage_same_conf: "same_conf c (processFmtpMessage env m c)"
  unfolding processFmtpMessage_def by (intro same_conf_if same_conf_steps)

lemmas processFmtpMessage_frame [simp] =
  processFmtpMessage_same_conf [unfolded same_conf_def, THEN conjunct1]
  processFmtpMessage_same_conf [unfolded same_conf_def, THEN conjunct2, THEN conjunct1]
  processFmtpMessage_same_conf [unfolded same_conf_def, THEN conjunct2, THEN conjunct2, THEN conjunct1]
  processFmtpMessage_same_conf
    [unfolded same_conf_def, THEN conjunct2, THEN conjunct2, THEN conjunct2, THEN conjunct1]
  processFmtpMessage_same_conf
    [unfolded same_conf_def, THEN conjunct2, THEN conjunct2, THEN conjunct2, THEN conjunct2]

section \<open>The loop over the received data\<close>

text \<open>
  The loop of the case \<open>ReceivedChan\<close>: read a header, skip it where it is not valid, read
  the body and process the message; an empty buffer ends the loop.
\<close>

function read_packets :: "sc_env \<Rightarrow> StateController \<Rightarrow> StateController" where
  "read_packets env c =
    (case buf_read FmtpHeaderLen (receivedBuffer c) of
       None \<Rightarrow> c
     | Some (headerBytes, rest) \<Rightarrow>
         (let c = c\<lparr>receivedBuffer := rest\<rparr>
          in case ParceFmtpPacketHeader headerBytes of
               None \<Rightarrow> c
             | Some curHeader \<Rightarrow>
                 if IsValid curHeader then
                   (case buf_read (nat (BodyLen curHeader)) rest of
                      None \<Rightarrow> c
                    | Some (bodyBytes, rest') \<Rightarrow>
                        read_packets env
                          (processFmtpMessage env
                             \<lparr>msgType = PkgType curHeader, msgText = string_of bodyBytes\<rparr>
                             (c\<lparr>receivedBuffer := rest'\<rparr>)))
                 else read_packets env c))"
  by pat_completeness auto
termination
proof (relation "measure (\<lambda>(env, c). length (receivedBuffer c))", goal_cases)
  case 1
  show ?case by simp
next
  case (2 env c x headerBytes rest c' h y bodyBytes rest')
  then have "length rest < length (receivedBuffer c)"
    by (auto intro: buf_read_shorter simp: FmtpHeaderLen_def)
  moreover have "length rest' \<le> length rest"
    using 2 by (auto simp: buf_read_def split: if_splits)
  ultimately show ?case by simp
next
  case (3 env c x headerBytes rest c' h)
  then show ?case by (auto intro: buf_read_shorter simp: FmtpHeaderLen_def)
qed

declare read_packets.simps [simp del]

section \<open>An environment\<close>

text \<open>Conversions that change nothing and a clock that shows nothing, for examples.\<close>

definition example_env :: sc_env where
  "example_env = \<lparr>Utf8toWin1251 = id, Win1251toUtf8 = id, clock = (\<lambda>n. [])\<rparr>"

end
