(* ===== verification/Packet_Stream.thy ===== *)
theory Packet_Stream
  imports State_Controller
begin

text \<open>
  The received byte stream: \<open>messages\<close> is what the loop of \<open>read_packets\<close> cuts out of its
  buffer, as a function of the bytes alone. The loop is the fold of \<open>processFmtpMessage\<close>
  over these messages and always leaves the buffer empty; a chunk made of whole packets
  yields exactly the messages they were made from, and a chunk that ends inside a packet
  yields a message whose text is padded with zero bytes.
\<close>

section \<open>The messages of a chunk\<close>

function messages :: "byte list \<Rightarrow> FmtpMessage list" where
  "messages buf =
    (case buf_read FmtpHeaderLen buf of
       None \<Rightarrow> []
     | Some (headerBytes, rest) \<Rightarrow>
         (case ParceFmtpPacketHeader headerBytes of
            None \<Rightarrow> []
          | Some h \<Rightarrow>
              if IsValid h then
                (case buf_read (nat (BodyLen h)) rest of
                   None \<Rightarrow> []
                 | Some (bodyBytes, rest') \<Rightarrow>
                     \<lparr>msgType = PkgType h, msgText = string_of bodyBytes\<rparr> # messages rest')
              else messages rest))"
  by pat_completeness auto
termination
proof (relation "measure length", goal_cases)
  case 1
  show ?case by simp
next
  case (2 buf x headerBytes rest h y bodyBytes rest')
  then have "length rest < length buf" by (auto intro: buf_read_shorter simp: FmtpHeaderLen_def)
  moreover have "length rest' \<le> length rest" using 2 by (auto simp: buf_read_def split: if_splits)
  ultimately show ?case by simp
next
  case (3 buf x headerBytes rest h)
  then show ?case by (auto intro: buf_read_shorter simp: FmtpHeaderLen_def)
qed

declare messages.simps [simp del]

section \<open>The buffer is not looked at while a message is processed\<close>

abbreviation set_buffer :: "byte list \<Rightarrow> StateController \<Rightarrow> StateController" where
  "set_buffer b c \<equiv> c\<lparr>receivedBuffer := b\<rparr>"

lemma emit_buffer [simp]: "emit e (set_buffer b c) = set_buffer b (emit e c)"
  by (simp add: emit_def)

lemma now_buffer [simp]: "now env (set_buffer b c) = now env c"
  by (simp add: now_def)

lemma log_buffer [simp]:
  "log_ST env sv t (set_buffer b c) = set_buffer b (log_ST env sv t c)"
  "log_STDT env sv f d t (set_buffer b c) = set_buffer b (log_STDT env sv f d t c)"
  by (simp_all add: log_ST_def log_STDT_def)

lemma debug_logged_buffer [simp]: "debug_logged sv (set_buffer b c) = debug_logged sv c"
  by (simp add: debug_logged_def)

lemma sendPacket_buffer [simp]:
  "sendPacket env m e sv (set_buffer b c) = set_buffer b (sendPacket env m e sv c)"
  by (simp add: sendPacket_def Let_def debug_logged_def)

lemma timer_calls_buffer [simp]:
  "restartTi (set_buffer b c) = set_buffer b (restartTi c)"
  "stopTi (set_buffer b c) = set_buffer b (stopTi c)"
  "restartTs (set_buffer b c) = set_buffer b (restartTs c)"
  "stopTs (set_buffer b c) = set_buffer b (stopTs c)"
  "restartTr (set_buffer b c) = set_buffer b (restartTr c)"
  "stopTr (set_buffer b c) = set_buffer b (stopTr c)"
  by (simp_all add: timer_calls)

definition ignores_buffer :: "transition_fun \<Rightarrow> bool" where
  "ignores_buffer f \<longleftrightarrow> (\<forall>env e b c. f env e (set_buffer b c) = set_buffer b (f env e c))"

lemma transitions_ignore_buffer:
  "ignores_buffer IdleStateEnter" "ignores_buffer IdleStateExit"
  "ignores_buffer SystemIdPendingStateEnter" "ignores_buffer SystemIdPendingStateExit"
  "ignores_buffer ConnectionPendingStateEnter" "ignores_buffer IdPendingStateEnter"
  "ignores_buffer IdPendingStateExit" "ignores_buffer ReadyStateEnter"
  "ignores_buffer ReadyStateExit" "ignores_buffer AssosiationPendingStateExit"
  "ignores_buffer DataReadyStateExit" "ignores_buffer DisabledStateEnter"
  by (simp_all add: ignores_buffer_def transition_defs Let_def)

lemma run_func_buffer:
  "all_funcs ignores_buffer m \<Longrightarrow> run_func m env e (set_buffer b c) = set_buffer b (run_func m env e c)"
  by (auto simp: run_func_def all_funcs_def ignores_buffer_def split: option.split)

lemmas run_func_maps_buffer [simp] =
  func_maps_all [OF transitions_ignore_buffer, THEN run_func_buffer]

lemma set_state_buffer:
  "(set_buffer b c)\<lparr>currentState := s\<rparr> = set_buffer b (c\<lparr>currentState := s\<rparr>)"
  by simp

lemma forceNewEvent_buffer [simp]:
  "forceNewEvent env e (set_buffer b c) = set_buffer b (forceNewEvent env e c)"
  by (simp add: forceNewEvent_def Let_def set_state_buffer del: StateController.update_convs)

lemma process_buffer [simp]:
  "processEventMessage env e m sv (set_buffer b c) = set_buffer b (processEventMessage env e m sv c)"
  "processDataMessage env m (set_buffer b c) = set_buffer b (processDataMessage env m c)"
  by (simp_all add: processEventMessage_def processDataMessage_def Let_def)

lemma frame_buffer:
  "remoteIdentificationMsg (set_buffer b c) = remoteIdentificationMsg c"
  "curSet (set_buffer b c) = curSet c"
  by simp_all

lemma if_buffer:
  "x' = set_buffer b x \<Longrightarrow> y' = set_buffer b y \<Longrightarrow>
   (if p then x' else y') = set_buffer b (if p then x else y)"
  by simp

lemma process_steps_buffer:
  "set_buffer b c = set_buffer b c"
  "processEventMessage env e m sv (set_buffer b c) = set_buffer b (processEventMessage env e m sv c)"
  "processDataMessage env m (set_buffer b c) = set_buffer b (processDataMessage env m c)"
  "processDataMessage env m (processEventMessage env e m sv (set_buffer b c)) =
     set_buffer b (processDataMessage env m (processEventMessage env e m sv c))"
  "processEventMessage env e m sv (log_STDT env sv' f d t (set_buffer b c)) =
     set_buffer b (processEventMessage env e m sv (log_STDT env sv' f d t c))"
  by simp_all

lemma processFmtpMessage_buffer [simp]:
  "processFmtpMessage env m (set_buffer b c) = set_buffer b (processFmtpMessage env m c)"
  unfolding processFmtpMessage_def frame_buffer by (intro if_buffer process_steps_buffer)

section \<open>The loop as a fold over the messages\<close>

lemma buf_read_None: "buf_read n buf = None \<longleftrightarrow> buf = [] \<and> n \<noteq> 0"
  by (simp add: buf_read_def)

lemma parse_total: "length bs = 5 \<Longrightarrow> \<exists>h. ParceFmtpPacketHeader bs = Some h"
  by (simp add: ParceFmtpPacketHeader_def FmtpHeaderLen_def Let_def)

lemma read_packets_fold:
  "read_packets env c =
     fold (processFmtpMessage env) (messages (receivedBuffer c)) (set_buffer [] c)"
proof (induction "receivedBuffer c" arbitrary: c rule: measure_induct_rule [where f = length])
  case (less c)
  show ?case
  proof (cases "buf_read FmtpHeaderLen (receivedBuffer c)")
    case None
    then have "receivedBuffer c = []" by (simp add: buf_read_None)
    with None show ?thesis
      by (subst read_packets.simps, subst messages.simps) simp
  next
    case (Some p)
    then obtain hb rest where p: "buf_read FmtpHeaderLen (receivedBuffer c) = Some (hb, rest)"
      by (cases p) auto
    have shorter: "length rest < length (receivedBuffer c)"
      using p by (auto intro: buf_read_shorter simp: FmtpHeaderLen_def)
    have "length hb = 5" using buf_read_length [OF p] by (simp add: FmtpHeaderLen_def)
    then obtain h where h: "ParceFmtpPacketHeader hb = Some h" using parse_total by blast
    show ?thesis
    proof (cases "IsValid h")
      case False
      have "read_packets env (set_buffer rest c) =
          fold (processFmtpMessage env) (messages rest) (set_buffer [] c)"
        using less [of "set_buffer rest c"] shorter by simp
      with p h False show ?thesis
        by (subst read_packets.simps, subst messages.simps) simp
    next
      case True
      show ?thesis
      proof (cases "buf_read (nat (BodyLen h)) rest")
        case None
        then have "rest = []" by (simp add: buf_read_None)
        with None p h True show ?thesis
          by (subst read_packets.simps, subst messages.simps) simp
      next
        case (Some q)
        then obtain bb rest' where q: "buf_read (nat (BodyLen h)) rest = Some (bb, rest')"
          by (cases q) auto
        let ?m = "\<lparr>msgType = PkgType h, msgText = string_of bb\<rparr>"
        have "length rest' \<le> length rest" using q by (auto simp: buf_read_def split: if_splits)
        then have "read_packets env (set_buffer rest' (processFmtpMessage env ?m c)) =
            fold (processFmtpMessage env) (messages rest') (set_buffer [] (processFmtpMessage env ?m c))"
          using less [of "set_buffer rest' (processFmtpMessage env ?m c)"] shorter by simp
        with p h True q show ?thesis
          by (subst read_packets.simps, subst messages.simps) simp
      qed
    qed
  qed
qed

lemma fold_process_buffer [simp]:
  "receivedBuffer (fold (processFmtpMessage env) ms c) = receivedBuffer c"
  by (induction ms arbitrary: c) simp_all

lemma fold_process_frame [simp]:
  "curSet (fold (processFmtpMessage env) ms c) = curSet c"
  "stateMachine (fold (processFmtpMessage env) ms c) = stateMachine c"
  "ownIdentificationMsg (fold (processFmtpMessage env) ms c) = ownIdentificationMsg c"
  "remoteIdentificationMsg (fold (processFmtpMessage env) ms c) = remoteIdentificationMsg c"
  by (induction ms arbitrary: c) simp_all

lemma read_packets_empties: "receivedBuffer (read_packets env c) = []"
  by (simp add: read_packets_fold)

section \<open>Whole packets\<close>

lemma buf_read_enough: "n \<le> length buf \<Longrightarrow> n \<noteq> 0 \<Longrightarrow> buf_read n buf = Some (take n buf, drop n buf)"
  by (auto simp: buf_read_def)

lemma drop_header: "drop 5 (MakeFmtpPacket m @ rest) = bytes_of (msgText m) @ rest"
  by (simp add: MakeFmtpPacket_eq)

lemma messages_Nil [simp]: "messages [] = []"
  by (subst messages.simps) (simp add: buf_read_def FmtpHeaderLen_def)

lemma messages_step:
  assumes "buf_read FmtpHeaderLen buf = Some (hb, rest)" "ParceFmtpPacketHeader hb = Some h"
    "IsValid h" "buf_read (nat (BodyLen h)) rest = Some (bb, rest')"
  shows "messages buf = \<lparr>msgType = PkgType h, msgText = string_of bb\<rparr> # messages rest'"
  using assms by (subst messages.simps) simp

lemma header_message: "\<lparr>msgType = PkgType (header_of m), msgText = t\<rparr> = m\<lparr>msgText := t\<rparr>"
  by (simp add: header_of_def)

lemma messages_packet:
  assumes "sendable m"
  shows "messages (MakeFmtpPacket m @ rest) = m # messages rest"
proof -
  have hdr: "buf_read FmtpHeaderLen (MakeFmtpPacket m @ rest) =
      Some (take 5 (MakeFmtpPacket m @ rest), bytes_of (msgText m) @ rest)"
    by (subst buf_read_enough) (simp_all add: FmtpHeaderLen_def drop_header [symmetric])
  have nonempty: "msgText m \<noteq> []" "length (msgText m) \<noteq> 0" using assms by (auto simp: sendable_def)
  have body: "buf_read (length (msgText m)) (bytes_of (msgText m) @ rest) =
      Some (bytes_of (msgText m), rest)"
    using nonempty by (subst buf_read_enough) simp_all
  have "buf_read (nat (BodyLen (header_of m))) (bytes_of (msgText m) @ rest) =
      Some (bytes_of (msgText m), rest)"
    using body by (simp add: BodyLen_header_of assms)
  from messages_step [OF hdr parse_made valid_header_of [OF assms] this]
  show ?thesis by (simp add: header_message)
qed

lemma messages_packets:
  "\<forall>m \<in> set ms. sendable m \<Longrightarrow> messages (concat (map MakeFmtpPacket ms) @ rest) = ms @ messages rest"
  by (induction ms) (simp_all add: messages_packet)

section \<open>Chunks that end inside a packet\<close>

lemma messages_cut_text:
  assumes "sendable m" and "5 < k" and "k \<le> length (MakeFmtpPacket m)"
  shows "messages (take k (MakeFmtpPacket m)) =
    [m\<lparr>msgText := take (k - 5) (msgText m) @
                  string_of (replicate (length (msgText m) - (k - 5)) 0)\<rparr>]"
proof -
  obtain j where k: "k = 5 + j" "0 < j" using assms(2) less_imp_add_positive by blast
  then have j: "j \<le> length (msgText m)" using assms(3) by simp
  have cut: "take k (MakeFmtpPacket m) = take 5 (MakeFmtpPacket m) @ bytes_of (take j (msgText m))"
    by (simp add: k MakeFmtpPacket_eq bytes_of_def take_map take_Cons')
  have h5: "ParceFmtpPacketHeader (take 5 (MakeFmtpPacket m)) = Some (header_of m)"
    using parse_made [of m "[]"] by simp
  have len: "length (take 5 (MakeFmtpPacket m)) = 5" by simp
  have hdr: "buf_read FmtpHeaderLen (take k (MakeFmtpPacket m)) =
      Some (take 5 (MakeFmtpPacket m), bytes_of (take j (msgText m)))"
    unfolding cut by (subst buf_read_enough) (simp_all add: FmtpHeaderLen_def)
  have ne: "take j (msgText m) \<noteq> []" using k j by auto
  have body: "buf_read (length (msgText m)) (bytes_of (take j (msgText m))) =
      Some (bytes_of (take j (msgText m)) @ replicate (length (msgText m) - j) 0, [])"
    using ne j by (simp add: buf_read_def bytes_of_def)
  have "buf_read (nat (BodyLen (header_of m))) (bytes_of (take j (msgText m))) =
      Some (bytes_of (take j (msgText m)) @ replicate (length (msgText m) - j) 0, [])"
    using body by (simp add: BodyLen_header_of assms(1))
  from messages_step [OF hdr h5 valid_header_of [OF assms(1)] this]
  show ?thesis by (simp add: header_message k)
qed

text \<open>A chunk that ends after the header of a packet loses the packet.\<close>

lemma messages_cut_header:
  assumes "sendable m"
  shows "messages (take 5 (MakeFmtpPacket m)) = []"
proof -
  have h5: "ParceFmtpPacketHeader (take 5 (MakeFmtpPacket m)) = Some (header_of m)"
    using parse_made [of m "[]"] by simp
  have hdr: "buf_read FmtpHeaderLen (take 5 (MakeFmtpPacket m)) = Some (take 5 (MakeFmtpPacket m), [])"
    by (subst buf_read_enough) (simp_all add: FmtpHeaderLen_def)
  have "nat (BodyLen (header_of m)) \<noteq> 0" using assms by (simp add: BodyLen_header_of sendable_def)
  then have "buf_read (nat (BodyLen (header_of m))) [] = None" by (simp add: buf_read_None)
  then show ?thesis by (subst messages.simps) (simp add: hdr h5)
qed

section \<open>Texts longer than the length field can say\<close>

lemma parse_made_long:
  assumes n: "length (msgText m) = 65536 + k" "0 < k" "k \<le> 65524" and t: "known_type (msgType m)"
  shows "messages (MakeFmtpPacket m @ rest) =
    m\<lparr>msgText := take k (msgText m)\<rparr> # messages (bytes_of (drop k (msgText m)) @ rest)"
proof -
  have u: "unat (of_nat (length (msgText m)) + 5 :: uint16) = k + 5"
    unfolding unat_pkg_len using n by (simp add: mod_if)
  have valid: "IsValid (header_of m)" using n t by (simp add: header_of_def mod_if)
  have nz: "(of_nat (length (msgText m)) + 5 :: uint16) \<noteq> 0"
    using u by (metis add_is_0 unat_0 zero_neq_numeral)
  have body_len: "BodyLen (header_of m) = int k"
    using u nz by (simp add: BodyLen_def header_of_def FmtpHeaderLen_def)
  have hdr: "buf_read FmtpHeaderLen (MakeFmtpPacket m @ rest) =
      Some (take 5 (MakeFmtpPacket m @ rest), bytes_of (msgText m) @ rest)"
    by (subst buf_read_enough) (simp_all add: FmtpHeaderLen_def drop_header [symmetric])
  have cut: "bytes_of (msgText m) @ rest =
      bytes_of (take k (msgText m)) @ bytes_of (drop k (msgText m)) @ rest"
    by (simp add: bytes_of_append [symmetric] del: bytes_of_append)
  have "buf_read k (bytes_of (msgText m) @ rest) =
      Some (bytes_of (take k (msgText m)), bytes_of (drop k (msgText m)) @ rest)"
    unfolding cut using n by (subst buf_read_enough) simp_all
  then have "buf_read (nat (BodyLen (header_of m))) (bytes_of (msgText m) @ rest) =
      Some (bytes_of (take k (msgText m)), bytes_of (drop k (msgText m)) @ rest)"
    by (simp add: body_len)
  from messages_step [OF hdr parse_made valid this] show ?thesis by (simp add: header_message)
qed

lemma messages_bad_header:
  assumes "buf_read FmtpHeaderLen buf = Some (hb, rest)" "ParceFmtpPacketHeader hb = Some h" "\<not> IsValid h"
  shows "messages buf = messages rest"
  using assms by (subst messages.simps) simp

section \<open>Properties\<close>

text \<open>C22: A buffer made of whole packets, of messages with a named type and a text of 1 to
  65524 bytes, is read as exactly these messages: each is processed once, in its order, and the buffer is
  left empty.\<close>

theorem stream_read:
  assumes "\<forall>m \<in> set ms. sendable m" and "receivedBuffer c = concat (map MakeFmtpPacket ms)"
  shows "read_packets env c = fold (processFmtpMessage env) ms (c\<lparr>receivedBuffer := []\<rparr>)"
  using messages_packets [OF assms(1), of "[]"] by (simp add: read_packets_fold assms(2))

theorem stream_read_witness:
  "let ms = [StartupMessage, \<lparr>msgType = Operational, msgText = ''(FPL)''\<rparr>];
       c = NewStateController\<lparr>receivedBuffer := concat (map MakeFmtpPacket ms)\<rparr>
   in read_packets example_env c = fold (processFmtpMessage example_env) ms (c\<lparr>receivedBuffer := []\<rparr>)"
  unfolding Let_def by (rule stream_read) (simp_all add: sendable_def message_defs)

text \<open>The loop that reads packets does not wait for the rest of one. Where a chunk of
  the TCP stream ends inside the text of a packet, the message is processed at once with zero bytes in
  place of the missing part, and the next chunk is read from its start as if it began a packet.\<close>

theorem segment_padded:
  assumes "sendable m" and "5 < k" and "k \<le> length (MakeFmtpPacket m)"
    and "receivedBuffer c = take k (MakeFmtpPacket m)"
  shows "read_packets env c = processFmtpMessage env
    (m\<lparr>msgText := take (k - 5) (msgText m) @ string_of (replicate (length (msgText m) - (k - 5)) 0)\<rparr>)
    (c\<lparr>receivedBuffer := []\<rparr>)"
  by (simp add: read_packets_fold assms(4) messages_cut_text [OF assms(1-3)])

theorem segment_padded_witness:
  "let m = \<lparr>msgType = Operational, msgText = ''(FPL)''\<rparr>;
       c = NewStateController\<lparr>receivedBuffer := take 8 (MakeFmtpPacket m)\<rparr>
   in read_packets example_env c =
        processFmtpMessage example_env (m\<lparr>msgText := ''(FP'' @ string_of [0, 0]\<rparr>) (c\<lparr>receivedBuffer := []\<rparr>)"
proof -
  let ?m = "\<lparr>msgType = Operational, msgText = ''(FPL)''\<rparr>"
  let ?c = "NewStateController\<lparr>receivedBuffer := take 8 (MakeFmtpPacket ?m)\<rparr>"
  have "read_packets example_env ?c = processFmtpMessage example_env
      (?m\<lparr>msgText := take (8 - 5) (msgText ?m) @ string_of (replicate (length (msgText ?m) - (8 - 5)) 0)\<rparr>)
      (?c\<lparr>receivedBuffer := []\<rparr>)"
    by (rule segment_padded) (simp_all add: sendable_def)
  then show ?thesis by (simp add: Let_def numeral_2_eq_2)
qed

text \<open>C40: The length in the header is a 16-bit number and nothing checks it: a text of more
  than 65536 bytes is read as a message with the bytes above a multiple of it, and the rest of the text
  is read as if it were packets.\<close>

theorem long_text_split:
  assumes "length (msgText m) = 65536 + k" and "0 < k" and "k \<le> 65524" and "known_type (msgType m)"
    and "receivedBuffer c = MakeFmtpPacket m"
  shows "read_packets env c =
    read_packets env
      (processFmtpMessage env (m\<lparr>msgText := take k (msgText m)\<rparr>)
        (c\<lparr>receivedBuffer := bytes_of (drop k (msgText m))\<rparr>))"
  using parse_made_long [OF assms(1-4), of "[]"]
  by (simp add: read_packets_fold assms(5))

theorem long_text_split_witness:
  "let m = \<lparr>msgType = Operational, msgText = replicate 65546 (CHR ''A'')\<rparr>;
       c = NewStateController\<lparr>receivedBuffer := MakeFmtpPacket m\<rparr>
   in read_packets example_env c =
        read_packets example_env
          (processFmtpMessage example_env (m\<lparr>msgText := take 10 (msgText m)\<rparr>)
            (c\<lparr>receivedBuffer := bytes_of (drop 10 (msgText m))\<rparr>))"
  unfolding Let_def by (rule long_text_split) simp_all

end
