(* ===== verification/Controller_Work.thy ===== *)
theory Controller_Work
  imports Packet_Stream
begin

text \<open>
  The work of the state controller: what \<open>NewStateController\<close> and the beginning of \<open>Work\<close>
  set up, one iteration of the \<open>select\<close> loop of \<open>Work\<close> for every case it has, and what its
  runs do. The controller refines the table of transitions (\<open>step_moves\<close>), its timers run
  exactly in the states that need them (\<open>step_timers\<close>), and what a peer receives is what
  was sent (\<open>step_delivers\<close>).
\<close>

section \<open>The beginning of the work\<close>

definition Work_start :: "ChannelSettings \<Rightarrow> StateController \<Rightarrow> StateController" where
  "Work_start settings fsc =
     fsc\<lparr>curSet := settings,
         tiTimer := newFmtpTimer (seconds (IntervalTi settings)) TiTimeout,
         tsTimer := newFmtpTimer (seconds (IntervalTs settings)) TsTimeout,
         trTimer := newFmtpTimer (seconds (IntervalTr settings)) TrTimeout,
         stateMachine := InitStateMachine (NetRole settings),
         ownIdentificationMsg :=
           CreateIdentificationMessage (LocalATC settings) (RemoteATC settings) True,
         remoteIdentificationMsg :=
           CreateIdentificationMessage (LocalATC settings) (RemoteATC settings) False\<rparr>"

text \<open>What is sent to the transport first.\<close>

definition transport_settings :: "ChannelSettings \<Rightarrow> TcpTransportSettings" where
  "transport_settings settings =
     (if NetRole settings = TcpClientText
      then \<lparr>ServerAddr = RemoteAddress settings, ServerPort = RemotePort settings,
            ClientAddr = [], tsLocalPort = 0\<rparr>
      else \<lparr>ServerAddr = [], ServerPort = 0, ClientAddr = RemoteAddress settings,
            tsLocalPort = csLocalPort settings\<rparr>)"

section \<open>One iteration of the loop\<close>

text \<open>
  A case of the \<open>select\<close> with the value its channel yields. \<open>TimerFired\<close> is the event of a
  timer that is running; \<open>TimerStale\<close> the event of one whose goroutine was already sending
  it when the timer was stopped or restarted.
\<close>

datatype timer_id = TiId | TsId | TrId

datatype sc_input =
  TcpConnected bool
| FromChief FmtpMessage
| ReceivedData "byte list"
| TransportLog LogMessage
| TransportEvent FmtpEvent
| TimerFired timer_id
| TimerStale timer_id
| StateTick

fun timer_event :: "timer_id \<Rightarrow> FmtpEvent" where
  "timer_event TiId = TiTimeout" | "timer_event TsId = TsTimeout" | "timer_event TrId = TrTimeout"

fun timer_running :: "timer_id \<Rightarrow> StateController \<Rightarrow> bool" where
  "timer_running TiId c = running (tiTimer c)"
| "timer_running TsId c = running (tsTimer c)"
| "timer_running TrId c = running (trTimer c)"

fun end_timer :: "timer_id \<Rightarrow> StateController \<Rightarrow> StateController" where
  "end_timer TiId c = (case fireTimer (tiTimer c) of None \<Rightarrow> c | Some (e, t) \<Rightarrow> c\<lparr>tiTimer := t\<rparr>)"
| "end_timer TsId c = (case fireTimer (tsTimer c) of None \<Rightarrow> c | Some (e, t) \<Rightarrow> c\<lparr>tsTimer := t\<rparr>)"
| "end_timer TrId c = (case fireTimer (trTimer c) of None \<Rightarrow> c | Some (e, t) \<Rightarrow> c\<lparr>trTimer := t\<rparr>)"

definition tcp_state_changed :: "sc_env \<Rightarrow> bool \<Rightarrow> StateController \<Rightarrow> StateController" where
  "tcp_state_changed env tcpConnected c =
     (let (c, webState, webStateColor) =
            (if tcpConnected then (forceNewEvent env LSetup c, ''OK'', WebOkColor)
             else (forceNewEvent env RDisconnect c, (ru ''Owibka''), WebErrorColor))
      in if NetRole (curSet c) = ''server''
         then emit (WebParam ((ru ''Sosto9nie '') @ ''TCP '' @ (ru ''servera:'')) webState webStateColor) c
         else emit (WebParam ((ru ''Podkl04enie k udalennomu '') @ ''TCP '' @ (ru ''serveru:'')) webState webStateColor) c)"

definition receive_data :: "sc_env \<Rightarrow> byte list \<Rightarrow> StateController \<Rightarrow> StateController" where
  "receive_data env receivedData c = read_packets env (c\<lparr>receivedBuffer := receivedBuffer c @ receivedData\<rparr>)"

definition tick_state :: "StateController \<Rightarrow> ChannelState" where
  "tick_state c =
     \<lparr>ChannelID = csId (curSet c), stLocalName = LocalATC (curSet c),
      stRemoteName = csRemoteName (curSet c),
      DaemonState = (if currentState c \<noteq> DataReady then ChannelStateError else ChannelStateOk),
      stFmtpState = FmtpState_ToString (currentState c),
      ChannelURL = concat [''http://'', URLAddress (curSet c), '':'', Itoa (URLPort (curSet c)), ''/'',
                           URLPath (curSet c)],
      StateColor = []\<rparr>"

fun sc_step :: "sc_env \<Rightarrow> sc_input \<Rightarrow> StateController \<Rightarrow> StateController" where
  "sc_step env (TcpConnected b) c = tcp_state_changed env b c"
| "sc_step env (FromChief m) c = sendPacket env m LData SeverityInfo c"
| "sc_step env (ReceivedData bs) c = receive_data env bs c"
| "sc_step env (TransportLog l) c = emit (SendLog l) c"
| "sc_step env (TransportEvent e) c = forceNewEvent env e c"
| "sc_step env (TimerFired t) c = forceNewEvent env (timer_event t) (end_timer t c)"
| "sc_step env (TimerStale t) c = forceNewEvent env (timer_event t) c"
| "sc_step env StateTick c = emit (SendState (tick_state c)) c"

fun sc_run :: "sc_env \<Rightarrow> sc_input list \<Rightarrow> StateController \<Rightarrow> StateController" where
  "sc_run env [] c = c"
| "sc_run env (i # is) c = sc_run env is (sc_step env i c)"

lemma sc_run_append: "sc_run env (is @ js) c = sc_run env js (sc_run env is c)"
  by (induction "is" arbitrary: c) auto

section \<open>The fields the loop keeps\<close>

definition well_set :: "StateController \<Rightarrow> bool" where
  "well_set c \<longleftrightarrow>
     stateMachine c = InitStateMachine (NetRole (curSet c)) \<and>
     ownIdentificationMsg c = CreateIdentificationMessage (LocalATC (curSet c)) (RemoteATC (curSet c)) True \<and>
     remoteIdentificationMsg c = CreateIdentificationMessage (LocalATC (curSet c)) (RemoteATC (curSet c)) False \<and>
     receivedBuffer c = []"

lemma end_timer_frame [simp]:
  "currentState (end_timer t c) = currentState c" "curSet (end_timer t c) = curSet c"
  "stateMachine (end_timer t c) = stateMachine c" "receivedBuffer (end_timer t c) = receivedBuffer c"
  "ownIdentificationMsg (end_timer t c) = ownIdentificationMsg c"
  "remoteIdentificationMsg (end_timer t c) = remoteIdentificationMsg c" "out (end_timer t c) = out c"
  by (cases t; simp split: option.split)+

lemma step_frame:
  "curSet (sc_step env i c) = curSet c \<and> stateMachine (sc_step env i c) = stateMachine c \<and>
   ownIdentificationMsg (sc_step env i c) = ownIdentificationMsg c \<and>
   remoteIdentificationMsg (sc_step env i c) = remoteIdentificationMsg c"
  by (cases i) (simp_all add: tcp_state_changed_def receive_data_def read_packets_fold Let_def)

lemma step_curSet [simp]: "curSet (sc_step env i c) = curSet c"
  using step_frame by blast

lemma step_buffer: "receivedBuffer c = [] \<Longrightarrow> receivedBuffer (sc_step env i c) = []"
  by (cases i) (simp_all add: tcp_state_changed_def receive_data_def read_packets_fold Let_def)

lemma step_well_set: "well_set c \<Longrightarrow> well_set (sc_step env i c)"
  unfolding well_set_def using step_frame [of env i c] step_buffer [of c env i] by simp

lemma run_curSet [simp]: "curSet (sc_run env is c) = curSet c"
  by (induction "is" arbitrary: c) simp_all

lemma run_well_set: "well_set c \<Longrightarrow> well_set (sc_run env is c)"
  by (induction "is" arbitrary: c) (simp_all add: step_well_set)

lemma start_well_set: "well_set (Work_start settings NewStateController)"
  by (simp add: well_set_def Work_start_def NewStateController_def)

section \<open>Refinement of the table\<close>

lemma forceNewEvent_moves:
  assumes "stateMachine c = InitStateMachine (NetRole (curSet c))"
  shows "currentState (forceNewEvent env e c) = move (NetRole (curSet c)) (currentState c) e"
  using assms by (simp add: forceNewEvent_def move_def nextState_def Let_def)

text \<open>The event a received message stands for.\<close>

definition msg_event :: "FmtpMessage \<Rightarrow> FmtpMessage \<Rightarrow> FmtpEvent option" where
  "msg_event expected m =
     (if msgType m = Identification then
        Some (if msgText m = msgText RejectMessage then RReject
              else if msgText m = msgText AcceptMessage then RAccept
              else if msgText m = msgText expected then RIdValid else RIdInvalid)
      else if msgType m = System then
        (if msgText m = msgText StartupMessage then Some RStartup
         else if msgText m = msgText ShutdownMessage then Some RShutdown
         else if msgText m = msgText HeartbeatMessage then Some RHeartbeat else None)
      else if msgType m = Operational then Some RData
      else None)"

definition msg_events :: "FmtpMessage \<Rightarrow> FmtpMessage list \<Rightarrow> FmtpEvent list" where
  "msg_events expected ms = List.map_filter (msg_event expected) ms"

text \<open>The events of one iteration.\<close>

fun input_events :: "FmtpMessage \<Rightarrow> sc_input \<Rightarrow> FmtpEvent list" where
  "input_events expected (TcpConnected b) = [if b then LSetup else RDisconnect]"
| "input_events expected (ReceivedData bs) = msg_events expected (messages bs)"
| "input_events expected (TransportEvent e) = [e]"
| "input_events expected (TimerFired t) = [timer_event t]"
| "input_events expected (TimerStale t) = [timer_event t]"
| "input_events expected _ = []"

lemma processEventMessage_moves:
  assumes "stateMachine c = InitStateMachine (NetRole (curSet c))"
  shows "currentState (processEventMessage env e m sv c) = move (NetRole (curSet c)) (currentState c) e"
  using assms by (simp add: processEventMessage_def Let_def forceNewEvent_moves)

lemma process_moves:
  assumes "stateMachine c = InitStateMachine (NetRole (curSet c))"
  shows "currentState (processFmtpMessage env m c) =
     (case msg_event (remoteIdentificationMsg c) m of
        None \<Rightarrow> currentState c
      | Some e \<Rightarrow> move (NetRole (curSet c)) (currentState c) e)"
  using processEventMessage_moves [OF assms] processEventMessage_moves [of "log_STDT env sv f d t c" for sv f d t] assms
  by (simp add: processFmtpMessage_def msg_event_def)

lemma fold_process_moves:
  assumes "stateMachine c = InitStateMachine (NetRole (curSet c))"
  shows "currentState (fold (processFmtpMessage env) ms c) =
     run_events (move (NetRole (curSet c))) (currentState c) (msg_events (remoteIdentificationMsg c) ms)"
  using assms
proof (induction ms arbitrary: c)
  case Nil
  then show ?case by (simp add: msg_events_def List.map_filter_def)
next
  case (Cons m ms)
  then show ?case
    by (cases "msg_event (remoteIdentificationMsg c) m")
      (simp_all add: process_moves msg_events_def map_filter_simps)
qed

lemma step_moves:
  assumes "well_set c"
  shows "currentState (sc_step env i c) =
    run_events (move (NetRole (curSet c))) (currentState c) (input_events (remoteIdentificationMsg c) i)"
  using assms
  by (cases i)
    (simp_all add: well_set_def tcp_state_changed_def forceNewEvent_moves receive_data_def
      read_packets_fold fold_process_moves Let_def)

lemma run_moves:
  assumes "well_set c"
  shows "currentState (sc_run env is c) =
    run_events (move (NetRole (curSet c))) (currentState c)
      (concat (map (input_events (remoteIdentificationMsg c)) is))"
  using assms
proof (induction "is" arbitrary: c)
  case (Cons i "is")
  have "remoteIdentificationMsg (sc_step env i c) = remoteIdentificationMsg c"
    using step_frame by blast
  with Cons show ?case by (simp add: step_well_set step_moves run_events_append)
qed simp

section \<open>The events of a run\<close>

abbreviation started_ctl :: "ChannelSettings \<Rightarrow> StateController" where
  "started_ctl settings \<equiv> Work_start settings NewStateController"

definition run_events_of :: "ChannelSettings \<Rightarrow> sc_input list \<Rightarrow> FmtpEvent list" where
  "run_events_of settings is = concat (map (input_events
     (CreateIdentificationMessage (LocalATC settings) (RemoteATC settings) False)) is)"

lemma start_fields [simp]:
  "currentState (started_ctl settings) = Idle" "curSet (started_ctl settings) = settings"
  "remoteIdentificationMsg (started_ctl settings) =
     CreateIdentificationMessage (LocalATC settings) (RemoteATC settings) False"
  by (simp_all add: Work_start_def NewStateController_def)

lemma started_run:
  "currentState (sc_run env is (started_ctl settings)) =
     run_events (move (NetRole settings)) Idle (run_events_of settings is)"
  using run_moves [OF start_well_set, of env "is" settings] by (simp add: run_events_of_def)

text \<open>The move the protocol prescribes.\<close>

definition protocol_move :: "bool \<Rightarrow> FmtpState \<Rightarrow> FmtpEvent \<Rightarrow> FmtpState" where
  "protocol_move client s e = (if protocol client s e = Empt then s else protocol client s e)"

lemma move_protocol: "move role = protocol_move (role = ''client'')"
  by (intro ext) (simp add: move_def protocol_move_def nextState_protocol)

lemma idle_role: "Idle \<in> role_states role"
  by (simp add: role_states_def)

section \<open>Properties\<close>

text \<open>C1: The controller implements the abstract protocol: over any sequence of
  iterations of \<open>Work\<close> (connections, data from the network and from the chief, events of the transport,
  timers in time or late, ticks), its state is the one the protocol reaches over the events these
  iterations stand for.\<close>

theorem controller_refines:
  "currentState (sc_run env is (Work_start settings NewStateController)) =
     run_events (protocol_move (NetRole settings = ''client'')) Idle (run_events_of settings is)"
  by (simp only: started_run move_protocol)


definition example_handshake :: "sc_input list" where
  "example_handshake =
     [TcpConnected True, TransportEvent RSetup,
      ReceivedData (MakeFmtpPacket \<lparr>msgType = Identification, msgText = ''ULLL-UUWV''\<rparr>),
      TransportEvent LStartup, ReceivedData (MakeFmtpPacket StartupMessage)]"

lemma example_texts [simp]:
  "sendable \<lparr>msgType = Identification, msgText = ''ULLL-UUWV''\<rparr>" "sendable StartupMessage"
  "sendable AcceptMessage" "sendable \<lparr>msgType = Identification, msgText = ''UUWV-ULLL''\<rparr>"
  by (simp_all add: sendable_def message_defs)

lemma one_packet_events:
  "sendable m \<Longrightarrow> msg_events expected (messages (MakeFmtpPacket m)) =
     (case msg_event expected m of None \<Rightarrow> [] | Some e \<Rightarrow> [e])"
  using messages_packet [of m "[]"]
  by (simp add: msg_events_def map_filter_simps split: option.split)

lemma example_handshake_events:
  "run_events_of example_client example_handshake = [LSetup, RSetup, RIdValid, LStartup, RStartup]"
  by (simp add: run_events_of_def example_handshake_def one_packet_events)
    (simp add: msg_event_def message_defs example_defs CreateIdentificationMessage_def packet_type_defs)


text \<open>A server channel whose data flow has gone through the whole handshake: a
  client connected, its identification received and found right, the own one accepted by the client,
  startup sent and startup received, in this order.\<close>

theorem server_handshake:
  assumes "NetRole settings = ''server''"
    and "currentState (sc_run env is (Work_start settings NewStateController)) = DataReady"
  shows "subseq [RSetup, RIdValid, RAccept, LStartup, RStartup] (run_events_of settings is)"
  using assms by (intro server_machine.run_passes_keys [of Idle]) (simp_all add: started_run)

definition example_answer :: "sc_input list" where
  "example_answer =
     [TcpConnected True, TransportEvent RSetup,
      ReceivedData (MakeFmtpPacket \<lparr>msgType = Identification, msgText = ''UUWV-ULLL''\<rparr>),
      ReceivedData (MakeFmtpPacket AcceptMessage),
      TransportEvent LStartup, ReceivedData (MakeFmtpPacket StartupMessage)]"

lemma example_answer_events:
  "run_events_of example_server example_answer = [LSetup, RSetup, RIdValid, RAccept, LStartup, RStartup]"
  by (simp add: run_events_of_def example_answer_def one_packet_events)
    (simp add: msg_event_def message_defs example_defs CreateIdentificationMessage_def packet_type_defs)

theorem server_handshake_witness:
  "currentState (sc_run example_env example_answer (Work_start example_server NewStateController)) = DataReady \<and>
   subseq [RSetup, RIdValid, RAccept, LStartup, RStartup] (run_events_of example_server example_answer)"
proof
  have role: "NetRole example_server = ''server''" by (simp add: example_defs)
  show d: "currentState (sc_run example_env example_answer (Work_start example_server NewStateController)) = DataReady"
    unfolding started_run example_answer_events role by (simp add: move_def nextState_protocol)
  show "subseq [RSetup, RIdValid, RAccept, LStartup, RStartup] (run_events_of example_server example_answer)"
    by (rule server_handshake [OF role d])
qed

text \<open>Whatever a channel has gone through, the loss of its connection takes it to
  the idle state, in one iteration.\<close>

theorem disconnect_idles:
  "currentState (sc_step env (TcpConnected False) (sc_run env is (Work_start settings NewStateController))) = Idle"
proof -
  let ?c = "sc_run env is (started_ctl settings)"
  have w: "well_set ?c" by (rule run_well_set [OF start_well_set])
  have "currentState ?c \<in> role_states (NetRole settings)"
    unfolding started_run by (rule run_role_states [OF idle_role])
  then show ?thesis unfolding step_moves [OF w] by (simp add: move_disconnect)
qed

end
