(* ===== verification/Controller_Timers.thy ===== *)
theory Controller_Timers
  imports Controller_Work
begin

text \<open>
  Which timers of a channel run in which state. \<open>timers_match\<close> is an invariant of the
  controller: Ti runs exactly while an identification is expected, Ts exactly while data
  flow, Tr while data flow and nowhere but there and while the association is pending.
\<close>

section \<open>The running timers of a controller\<close>

definition ons :: "StateController \<Rightarrow> bool \<times> bool \<times> bool" where
  "ons c = (running (tiTimer c), running (tsTimer c), running (trTimer c))"

definition timers_match :: "FmtpState \<Rightarrow> bool \<times> bool \<times> bool \<Rightarrow> bool" where
  "timers_match s t = (case t of (ti, ts, tr) \<Rightarrow>
     (ti \<longleftrightarrow> s \<in> {SysIdPending, IdPending}) \<and> (ts \<longleftrightarrow> s = DataReady) \<and>
     (tr \<longrightarrow> s \<in> {AssPending, DataReady}) \<and> (s = DataReady \<longrightarrow> tr))"

lemma ons_emit [simp]: "ons (emit e c) = ons c"
  by (simp add: ons_def)

lemma ons_log [simp]: "ons (log_ST env sv t c) = ons c" "ons (log_STDT env sv f d t c) = ons c"
  by (simp_all add: ons_def)

lemma ons_sendPacket [simp]: "ons (sendPacket env m e sv c) = ons c"
  by (simp add: ons_def)

lemma ons_set_state [simp]: "ons (c\<lparr>currentState := s\<rparr>) = ons c"
  by (simp add: ons_def)

lemma ons_buffer [simp]: "ons (set_buffer b c) = ons c"
  by (simp add: ons_def)

lemma ons_processData [simp]: "ons (processDataMessage env m c) = ons c"
  by (simp add: ons_def)

lemma ons_timer_calls:
  "ons (restartTi c) = (True, snd (ons c))" "ons (stopTi c) = (False, snd (ons c))"
  "ons (restartTs c) = (fst (ons c), True, snd (snd (ons c)))"
  "ons (stopTs c) = (fst (ons c), False, snd (snd (ons c)))"
  "ons (restartTr c) = (fst (ons c), fst (snd (ons c)), True)"
  "ons (stopTr c) = (fst (ons c), fst (snd (ons c)), False)"
  by (simp_all add: ons_def timer_calls restartTimer_def startTimer_def stopTimer_def)

text \<open>What a transition does to the timers, as a function of state, event and role.\<close>

fun exit_ons :: "string \<Rightarrow> FmtpState \<Rightarrow> FmtpEvent \<Rightarrow> bool \<times> bool \<times> bool \<Rightarrow> bool \<times> bool \<times> bool" where
  "exit_ons role SysIdPending e (ti, ts, tr) =
     (if role = TcpServerText then (e = RIdValid, ts, tr) else (ti, ts, tr))"
| "exit_ons role IdPending e (ti, ts, tr) = (False, ts, tr)"
| "exit_ons role Ready e (ti, ts, tr) = (ti, ts, e = LStartup \<or> tr)"
| "exit_ons role AssPending e (ti, ts, tr) =
     (if e \<in> {LDisconnect, LShutdown} then (ti, ts, False)
      else if e = TrTimeout then (ti, ts, True)
      else if e = RStartup then (ti, True, True) else (ti, ts, False))"
| "exit_ons role DataReady e (ti, ts, tr) =
     (if e \<in> {LDisconnect, LShutdown, RDisconnect, TrTimeout} then (ti, False, False)
      else if e \<in> {LData, TsTimeout} then (ti, True, tr)
      else if e \<in> {RData, RHeartbeat} then (ti, ts, True)
      else if e = RShutdown then (ti, False, True) else (ti, ts, tr))"
| "exit_ons role s e t = t"

fun enter_ons :: "string \<Rightarrow> FmtpState \<Rightarrow> bool \<times> bool \<times> bool \<Rightarrow> bool \<times> bool \<times> bool" where
  "enter_ons role SysIdPending (ti, ts, tr) = (if role = TcpClientText then (ti, ts, tr) else (True, ts, tr))"
| "enter_ons role IdPending (ti, ts, tr) = (True, ts, tr)"
| "enter_ons role Disabled (ti, ts, tr) = (False, False, False)"
| "enter_ons role s t = t"

lemma ons_exit:
  "ons (run_func (initExitTransFuncMap role) env e c) = exit_ons role (currentState c) e (ons c)"
proof -
  obtain ti ts tr where t: "ons c = (ti, ts, tr)" by (cases "ons c") auto
  show ?thesis
    by (cases "currentState c")
      (simp_all add: run_func_def initExitTransFuncMap_def Let_def t ons_timer_calls
        IdleStateExit_def SystemIdPendingStateExit_def IdPendingStateExit_def ReadyStateExit_def
        AssosiationPendingStateExit_def DataReadyStateExit_def)
qed

lemma ons_enter:
  "ons (run_func (initEnterTransFuncMap role) env e c) = enter_ons role (currentState c) (ons c)"
proof -
  obtain ti ts tr where t: "ons c = (ti, ts, tr)" by (cases "ons c") auto
  show ?thesis
    by (cases "currentState c")
      (simp_all add: run_func_def initEnterTransFuncMap_def Let_def t ons_timer_calls
        IdleStateEnter_def SystemIdPendingStateEnter_def ConnectionPendingStateEnter_def
        IdPendingStateEnter_def ReadyStateEnter_def DisabledStateEnter_def)
qed

lemma ons_force:
  assumes "stateMachine c = InitStateMachine (NetRole (curSet c))"
  shows "ons (forceNewEvent env e c) =
    (let role = NetRole (curSet c); n = nextState role (currentState c) e
     in if n = Empt then ons c else enter_ons role n (exit_ons role (currentState c) e (ons c)))"
  using assms by (simp add: forceNewEvent_def Let_def nextState_def ons_exit ons_enter)

section \<open>The invariant\<close>

definition valid_role :: "string \<Rightarrow> bool" where
  "valid_role role \<longleftrightarrow> role = TcpServerText \<or> role = TcpClientText"

text \<open>The table and the functions of the transitions agree, for every event.\<close>

lemma table_timers:
  assumes "valid_role role" "s \<in> role_states role" "timers_match s t"
  shows "nextState role s e = Empt \<or>
    timers_match (nextState role s e) (enter_ons role (nextState role s e) (exit_ons role s e t))"
proof -
  obtain ti ts tr where t: "t = (ti, ts, tr)" by (cases t) auto
  show ?thesis
    using assms
    by (cases s; cases e)
      (auto simp: t timers_match_def nextState_protocol valid_role_def role_texts role_states_def)
qed

text \<open>A timer that fires: its event takes the place of the timer that ended.\<close>

fun drop_timer :: "timer_id \<Rightarrow> bool \<times> bool \<times> bool \<Rightarrow> bool \<times> bool \<times> bool" where
  "drop_timer TiId (ti, ts, tr) = (False, ts, tr)"
| "drop_timer TsId (ti, ts, tr) = (ti, False, tr)"
| "drop_timer TrId (ti, ts, tr) = (ti, ts, False)"

fun on_timer :: "timer_id \<Rightarrow> bool \<times> bool \<times> bool \<Rightarrow> bool" where
  "on_timer TiId (ti, ts, tr) = ti" | "on_timer TsId (ti, ts, tr) = ts" | "on_timer TrId (ti, ts, tr) = tr"

lemma table_fired:
  assumes "valid_role role" "s \<in> role_states role" "timers_match s t" "on_timer k t"
  shows "if nextState role s (timer_event k) = Empt then timers_match s (drop_timer k t)
    else timers_match (nextState role s (timer_event k))
           (enter_ons role (nextState role s (timer_event k))
              (exit_ons role s (timer_event k) (drop_timer k t)))"
proof -
  obtain ti ts tr where t: "t = (ti, ts, tr)" by (cases t) auto
  show ?thesis
    using assms
    by (cases s; cases k)
      (auto simp: t timers_match_def nextState_protocol valid_role_def role_texts role_states_def)
qed

lemma timer_running_on: "timer_running k c \<longleftrightarrow> on_timer k (ons c)"
  by (cases k) (simp_all add: ons_def)

lemma ons_end_timer: "on_timer k (ons c) \<Longrightarrow> ons (end_timer k c) = drop_timer k (ons c)"
  by (cases k) (simp_all add: ons_def fireTimer_def)

definition ctl_ok :: "StateController \<Rightarrow> bool" where
  "ctl_ok c \<longleftrightarrow> stateMachine c = InitStateMachine (NetRole (curSet c)) \<and> valid_role (NetRole (curSet c)) \<and>
     currentState c \<in> role_states (NetRole (curSet c)) \<and> timers_match (currentState c) (ons c)"

lemma ctl_ok_frame:
  "ctl_ok (emit e c) = ctl_ok c" "ctl_ok (log_ST env sv t c) = ctl_ok c"
  "ctl_ok (log_STDT env sv f d t c) = ctl_ok c" "ctl_ok (sendPacket env m ev sv c) = ctl_ok c"
  "ctl_ok (set_buffer b c) = ctl_ok c" "ctl_ok (processDataMessage env m c) = ctl_ok c"
  by (simp_all add: ctl_ok_def)

lemma force_ok:
  assumes "ctl_ok c"
  shows "ctl_ok (forceNewEvent env e c)"
proof -
  let ?role = "NetRole (curSet c)"
  have m: "stateMachine c = InitStateMachine ?role" and v: "valid_role ?role"
    and s: "currentState c \<in> role_states ?role" and t: "timers_match (currentState c) (ons c)"
    using assms by (auto simp: ctl_ok_def)
  have "timers_match (move ?role (currentState c) e) (ons (forceNewEvent env e c))"
    using table_timers [OF v s t, of e] t by (auto simp: move_def ons_force [OF m] Let_def)
  then show ?thesis
    using m v move_role_states [OF s] by (simp add: ctl_ok_def forceNewEvent_moves [OF m])
qed

lemma force_fired_ok:
  assumes "ctl_ok c" and "timer_running k c"
  shows "ctl_ok (forceNewEvent env (timer_event k) (end_timer k c))"
proof -
  let ?role = "NetRole (curSet c)" and ?d = "end_timer k c"
  have m: "stateMachine ?d = InitStateMachine (NetRole (curSet ?d))" and v: "valid_role ?role"
    and s: "currentState c \<in> role_states ?role" and t: "timers_match (currentState c) (ons c)"
    using assms(1) by (auto simp: ctl_ok_def)
  have on: "on_timer k (ons c)" using assms(2) by (simp add: timer_running_on)
  have "timers_match (move ?role (currentState c) (timer_event k))
      (ons (forceNewEvent env (timer_event k) ?d))"
    using table_fired [OF v s t on]
    by (auto simp: move_def ons_force [OF m] ons_end_timer [OF on] Let_def split: if_splits)
  then show ?thesis
    using m v move_role_states [OF s] by (simp add: ctl_ok_def forceNewEvent_moves [OF m])
qed

lemma processEvent_ok: "ctl_ok c \<Longrightarrow> ctl_ok (processEventMessage env e m sv c)"
  by (simp add: processEventMessage_def Let_def force_ok ctl_ok_frame)

lemma ok_if: "ctl_ok x \<Longrightarrow> ctl_ok y \<Longrightarrow> ctl_ok (if p then x else y)"
  by simp

lemma process_ok: "ctl_ok c \<Longrightarrow> ctl_ok (processFmtpMessage env m c)"
  unfolding processFmtpMessage_def
  by (intro ok_if) (simp_all add: ctl_ok_frame processEvent_ok)

lemma fold_process_ok: "ctl_ok c \<Longrightarrow> ctl_ok (fold (processFmtpMessage env) ms c)"
  by (induction ms arbitrary: c) (simp_all add: process_ok)

text \<open>A timer event that arrives belongs to a timer that runs, or is a late one.\<close>

fun possible :: "sc_input \<Rightarrow> StateController \<Rightarrow> bool" where
  "possible (TimerFired k) c = timer_running k c"
| "possible _ c = True"

inductive sc_reach :: "sc_env \<Rightarrow> ChannelSettings \<Rightarrow> StateController \<Rightarrow> bool"
  for env :: sc_env and settings :: ChannelSettings where
  reach_start: "sc_reach env settings (Work_start settings NewStateController)"
| reach_step: "sc_reach env settings c \<Longrightarrow> possible i c \<Longrightarrow> sc_reach env settings (sc_step env i c)"

lemma step_timers: "ctl_ok c \<Longrightarrow> possible i c \<Longrightarrow> ctl_ok (sc_step env i c)"
  by (cases i)
    (simp_all add: tcp_state_changed_def receive_data_def read_packets_fold Let_def ctl_ok_frame
      force_ok force_fired_ok fold_process_ok)

lemma start_ok: "valid_role (NetRole settings) \<Longrightarrow> ctl_ok (Work_start settings NewStateController)"
  by (simp add: ctl_ok_def Work_start_def NewStateController_def role_states_def timers_match_def
      ons_def newFmtpTimer_def)

lemma settings_ok_role: "settings_ok s \<Longrightarrow> valid_role (NetRole s)"
  by (auto simp: settings_ok_def valid_role_def)

lemma reach_ok: "sc_reach env settings c \<Longrightarrow> valid_role (NetRole settings) \<Longrightarrow> ctl_ok c"
  by (induction rule: sc_reach.induct) (simp_all add: start_ok step_timers)

lemma reach_well_set: "sc_reach env settings c \<Longrightarrow> well_set c"
  by (induction rule: sc_reach.induct) (simp_all add: start_well_set step_well_set)

section \<open>Properties\<close>



end
