(* ===== verification/Controller_Delivery.thy ===== *)
theory Controller_Delivery
  imports Controller_Timers
begin

text \<open>
  The data that pass through a controller: what the chief gives it is sent as packets, and
  the data messages of the packets it receives go to the chief, each once and in their
  order, in whatever state the channel is. Two controllers joined by a connection that
  hands whole packets over deliver what the chief of the one sent to the chief of the other.
\<close>

section \<open>Projections of the output\<close>

fun delivery :: "effect \<Rightarrow> FmtpMessage list" where
  "delivery (ReceiveData m) = [m]" | "delivery _ = []"

fun sending :: "effect \<Rightarrow> DataAndEvent list" where
  "sending (SendData d) = [d]" | "sending _ = []"

definition delivered :: "StateController \<Rightarrow> FmtpMessage list" where
  "delivered c = concat (map delivery (out c))"

definition sent :: "StateController \<Rightarrow> DataAndEvent list" where
  "sent c = concat (map sending (out c))"

lemma delivered_emit [simp]: "delivered (emit e c) = delivered c @ delivery e"
  by (simp add: delivered_def)

lemma sent_emit [simp]: "sent (emit e c) = sent c @ sending e"
  by (simp add: sent_def)

lemma delivered_out: "out c = out d \<Longrightarrow> delivered c = delivered d"
  by (simp add: delivered_def)

lemma sent_out: "out c = out d \<Longrightarrow> sent c = sent d"
  by (simp add: sent_def)

lemma delivered_log [simp]:
  "delivered (log_ST env sv t c) = delivered c" "delivered (log_STDT env sv f d t c) = delivered c"
  by (simp_all add: log_ST_def log_STDT_def)

lemma sent_log [simp]:
  "sent (log_ST env sv t c) = sent c" "sent (log_STDT env sv f d t c) = sent c"
  by (simp_all add: log_ST_def log_STDT_def)

lemma delivered_sendPacket [simp]: "delivered (sendPacket env m e sv c) = delivered c"
  by (simp add: sendPacket_def Let_def)

lemma timer_calls_projections [simp]:
  "delivered (restartTi c) = delivered c" "delivered (stopTi c) = delivered c"
  "delivered (restartTs c) = delivered c" "delivered (stopTs c) = delivered c"
  "delivered (restartTr c) = delivered c" "delivered (stopTr c) = delivered c"
  "sent (restartTi c) = sent c" "sent (stopTi c) = sent c"
  "sent (restartTs c) = sent c" "sent (stopTs c) = sent c"
  "sent (restartTr c) = sent c" "sent (stopTr c) = sent c"
  by (simp_all add: delivered_def sent_def)

lemma projections_update [simp]:
  "delivered (c\<lparr>currentState := s\<rparr>) = delivered c" "delivered (set_buffer b c) = delivered c"
  "sent (c\<lparr>currentState := s\<rparr>) = sent c" "sent (set_buffer b c) = sent c"
  by (simp_all add: delivered_def sent_def)

section \<open>The text on the wire\<close>

definition wire_message :: "sc_env \<Rightarrow> string \<Rightarrow> FmtpMessage \<Rightarrow> FmtpMessage" where
  "wire_message env encoding m =
     (if encoding = Encode1251 then m\<lparr>msgText := string_of (Utf8toWin1251 env (bytes_of (msgText m)))\<rparr>
      else m)"

definition read_message :: "sc_env \<Rightarrow> string \<Rightarrow> FmtpMessage \<Rightarrow> FmtpMessage" where
  "read_message env encoding m =
     (if encoding = Encode1251 then m\<lparr>msgText := string_of (Win1251toUtf8 env (bytes_of (msgText m)))\<rparr>
      else m)"

lemma wire_message_type [simp]: "msgType (wire_message env enc m) = msgType m"
  by (simp add: wire_message_def)

lemma sent_sendPacket [simp]:
  "sent (sendPacket env m e sv c) = sent c @
     [\<lparr>DataToSend = MakeFmtpPacket (wire_message env (DataEncoding (curSet c)) m), EventAfterSend = e\<rparr>]"
  by (simp add: sendPacket_def wire_message_def Let_def)

section \<open>Receiving\<close>

definition is_data :: "FmtpMessage \<Rightarrow> bool" where
  "is_data m \<longleftrightarrow> msgType m \<noteq> Identification \<and> msgType m \<noteq> System"

definition quiet :: "transition_fun \<Rightarrow> bool" where
  "quiet f \<longleftrightarrow> (\<forall>env e c. delivered (f env e c) = delivered c)"

lemma transitions_quiet:
  "quiet IdleStateEnter" "quiet IdleStateExit" "quiet SystemIdPendingStateEnter"
  "quiet SystemIdPendingStateExit" "quiet ConnectionPendingStateEnter" "quiet IdPendingStateEnter"
  "quiet IdPendingStateExit" "quiet ReadyStateEnter" "quiet ReadyStateExit"
  "quiet AssosiationPendingStateExit" "quiet DataReadyStateExit" "quiet DisabledStateEnter"
  by (simp_all add: quiet_def transition_defs Let_def)

lemma run_func_quiet: "all_funcs quiet m \<Longrightarrow> delivered (run_func m env e c) = delivered c"
  by (auto simp: run_func_def all_funcs_def quiet_def split: option.split)

lemmas run_func_maps_quiet [simp] = func_maps_all [OF transitions_quiet, THEN run_func_quiet]

lemma delivered_force [simp]: "delivered (forceNewEvent env e c) = delivered c"
  by (simp add: forceNewEvent_def Let_def)

lemma delivered_event [simp]: "delivered (processEventMessage env e m sv c) = delivered c"
  by (simp add: processEventMessage_def Let_def)

lemma delivered_data:
  "delivered (processDataMessage env m c) = delivered c @ [read_message env (DataEncoding (curSet c)) m]"
  by (simp add: processDataMessage_def read_message_def Let_def)

lemma delivered_if:
  "delivered x = d \<Longrightarrow> delivered y = d \<Longrightarrow> delivered (if p then x else y) = d"
  by simp

lemma packet_types_distinct [simp]:
  "Identification \<noteq> System" "System \<noteq> Identification" "Operational \<noteq> Identification"
  "Operational \<noteq> System" "Identification \<noteq> Operational" "System \<noteq> Operational"
  "Operator \<noteq> Identification" "Operator \<noteq> System" "Status \<noteq> Identification" "Status \<noteq> System"
  "Operator \<noteq> Operational" "Status \<noteq> Operational"
  by (simp_all add: packet_type_defs)

lemma delivered_process:
  "delivered (processFmtpMessage env m c) =
     delivered c @ (if is_data m then [read_message env (DataEncoding (curSet c)) m] else [])"
proof (cases "is_data m")
  case True
  then show ?thesis by (simp add: processFmtpMessage_def is_data_def delivered_data)
next
  case False
  have "delivered (processFmtpMessage env m c) = delivered c"
  proof (cases "msgType m = Identification")
    case True
    then show ?thesis
      unfolding processFmtpMessage_def if_P [OF True] by (intro delivered_if) simp_all
  next
    case not_id: False
    then have sys: "msgType m = System" using False by (simp add: is_data_def)
    show ?thesis
      unfolding processFmtpMessage_def if_not_P [OF not_id] if_P [OF sys]
      by (intro delivered_if) simp_all
  qed
  with False show ?thesis by simp
qed

lemma delivered_fold:
  "delivered (fold (processFmtpMessage env) ms c) =
     delivered c @ map (read_message env (DataEncoding (curSet c))) (filter is_data ms)"
  by (induction ms arbitrary: c) (simp_all add: delivered_process)

lemma step_delivers:
  assumes "receivedBuffer c = []"
  shows "delivered (sc_step env (ReceivedData bs) c) =
    delivered c @ map (read_message env (DataEncoding (curSet c))) (filter is_data (messages bs))"
  using assms by (simp add: receive_data_def read_packets_fold delivered_fold)

lemma step_delivers_nothing:
  assumes "\<And>bs. i \<noteq> ReceivedData bs"
  shows "delivered (sc_step env i c) = delivered c"
proof (cases i)
  case (TimerFired k)
  have "delivered (end_timer k c) = delivered c" by (rule delivered_out) simp
  then show ?thesis by (simp add: TimerFired)
next
  case (ReceivedData bs)
  with assms show ?thesis by blast
qed (simp_all add: tcp_state_changed_def Let_def)

text \<open>What a run delivers depends on the bytes received only: not on the states, the
  timers or the order of the other inputs.\<close>

fun received_of :: "sc_input \<Rightarrow> FmtpMessage list" where
  "received_of (ReceivedData bs) = filter is_data (messages bs)"
| "received_of _ = []"

lemma run_delivers:
  "receivedBuffer c = [] \<Longrightarrow>
   delivered (sc_run env is c) =
     delivered c @ map (read_message env (DataEncoding (curSet c))) (concat (map received_of is))"
proof (induction "is" arbitrary: c)
  case (Cons i "is")
  have "delivered (sc_step env i c) =
      delivered c @ map (read_message env (DataEncoding (curSet c))) (received_of i)"
  proof (cases "\<exists>bs. i = ReceivedData bs")
    case True
    then show ?thesis using step_delivers Cons.prems by auto
  next
    case False
    then have "delivered (sc_step env i c) = delivered c" by (intro step_delivers_nothing) blast
    moreover have "received_of i = []" using False by (cases i) auto
    ultimately show ?thesis by simp
  qed
  with Cons show ?case by (simp add: step_buffer)
qed simp

section \<open>From one chief to the other\<close>

definition packet_chunk :: "FmtpMessage list \<Rightarrow> sc_input" where
  "packet_chunk ms = ReceivedData (concat (map MakeFmtpPacket ms))"

lemma received_chunk: "\<forall>m \<in> set ms. sendable m \<Longrightarrow> received_of (packet_chunk ms) = filter is_data ms"
  using messages_packets [of ms "[]"] by (simp add: packet_chunk_def)

lemma received_chunks:
  "\<forall>ms \<in> set mss. \<forall>m \<in> set ms. sendable m \<Longrightarrow>
   concat (map received_of (map packet_chunk mss)) = filter is_data (concat mss)"
  by (induction mss) (simp_all add: received_chunk)

lemma sent_from_chief:
  "sent (sc_run env (map FromChief ms) c) = sent c @
     map (\<lambda>m. \<lparr>DataToSend = MakeFmtpPacket (wire_message env (DataEncoding (curSet c)) m),
               EventAfterSend = LData\<rparr>) ms"
  by (induction ms arbitrary: c) simp_all

section \<open>Properties\<close>

text \<open>What one chief hands to its channel arrives at the other chief, complete, once
  and in order: the data messages one controller sends, whatever states the two channels are in, are
  delivered by the controller at the other end of a connection that hands over whole packets, in chunks
  of any number of them, wherever the text survives the encoding of the channel.\<close>

theorem chief_to_chief:
  assumes ms: "\<forall>m \<in> set ms. is_data m \<and> sendable (wire_message env (DataEncoding (curSet a)) m) \<and>
      read_message env' (DataEncoding (curSet b)) (wire_message env (DataEncoding (curSet a)) m) = m"
    and a: "sent a = []" and b: "receivedBuffer b = []" "delivered b = []"
    and chunks: "concat chunks = map DataToSend (sent (sc_run env (map FromChief ms) a))"
  shows "delivered (sc_run env' (map (ReceivedData \<circ> concat) chunks) b) = ms"
proof -
  let ?w = "wire_message env (DataEncoding (curSet a))"
  have packets: "concat chunks = map MakeFmtpPacket (map ?w ms)"
    using chunks by (simp add: sent_from_chief a)
  have split: "\<exists>wss. concat wss = ws \<and> pss = map (map MakeFmtpPacket) wss"
    if "concat pss = map MakeFmtpPacket ws" for pss ws
    using that
  proof (induction pss arbitrary: ws)
    case (Cons ps pss)
    then have "map MakeFmtpPacket ws = ps @ concat pss" by simp
    then obtain us vs where ws: "ws = us @ vs" "ps = map MakeFmtpPacket us" "concat pss = map MakeFmtpPacket vs"
      by (auto simp: map_eq_append_conv)
    from Cons.IH [OF ws(3)] obtain wss where "concat wss = vs" "pss = map (map MakeFmtpPacket) wss" by blast
    with ws show ?case by (intro exI [of _ "us # wss"]) simp
  qed (use exI [of _ "[]"] in simp)
  from split [OF packets] obtain wss where wss: "concat wss = map ?w ms" "chunks = map (map MakeFmtpPacket) wss"
    by blast
  have inputs: "map (ReceivedData \<circ> concat) chunks = map packet_chunk wss"
    by (simp add: wss(2) packet_chunk_def comp_def)
  have all: "\<forall>ws \<in> set wss. \<forall>w \<in> set ws. sendable w"
    using ms wss(1) by (metis (no_types, lifting) UN_I imageE list.set_map set_concat)
  have data: "filter is_data (map ?w ms) = map ?w ms"
    using ms by (simp add: is_data_def filter_id_conv)
  have "delivered (sc_run env' (map packet_chunk wss) b) =
      map (read_message env' (DataEncoding (curSet b))) (map ?w ms)"
    by (simp only: run_delivers [OF b(1)] received_chunks [OF all] wss(1) data b(2) append_Nil)
  then show ?thesis using ms by (simp add: inputs map_idI)
qed

theorem chief_to_chief_witness:
  "let ms = [\<lparr>msgType = Operational, msgText = ''(FPL)''\<rparr>, \<lparr>msgType = Operator, msgText = ''OK''\<rparr>];
       a = Work_start example_client NewStateController; b = Work_start example_server NewStateController;
       chunks = [map MakeFmtpPacket ms]
   in delivered (sc_run example_env (map (ReceivedData \<circ> concat) chunks) b) = ms"
proof -
  let ?ms = "[\<lparr>msgType = Operational, msgText = ''(FPL)''\<rparr>, \<lparr>msgType = Operator, msgText = ''OK''\<rparr>]"
  let ?a = "Work_start example_client NewStateController"
  let ?b = "Work_start example_server NewStateController"
  have enc: "DataEncoding (curSet ?a) \<noteq> Encode1251" "DataEncoding (curSet ?b) \<noteq> Encode1251"
    by (simp_all add: example_defs Encode1251_def)
  have out: "sent ?a = []" "delivered ?b = []" "receivedBuffer ?b = []"
    by (simp_all add: sent_def delivered_def Work_start_def NewStateController_def)
  have "delivered (sc_run example_env (map (ReceivedData \<circ> concat) [map MakeFmtpPacket ?ms]) ?b) = ?ms"
  proof (rule chief_to_chief [where a = ?a and env = example_env])
    show "concat [map MakeFmtpPacket ?ms] = map DataToSend (sent (sc_run example_env (map FromChief ?ms) ?a))"
      using enc unfolding sent_from_chief by (simp add: out wire_message_def)
  qed (use enc out in \<open>simp_all add: is_data_def wire_message_def read_message_def sendable_def\<close>)
  then show ?thesis by (simp add: Let_def)
qed

end
