(* ===== verification/Association.thy ===== *)
theory Association
  imports Controller_Delivery
begin

text \<open>
  Two channels that associate: a client controller and a server controller joined by a
  connection. What a controller sends on a transition depends on its role, the state and
  the event alone (\<open>force_sends\<close>), so that a pair of controllers is simulated by a small
  machine over the kinds of the messages (\<open>link_simulated\<close>). The association is reached by
  an orderly schedule; another schedule ends with both channels waiting for each other.
\<close>

section \<open>What is sent on a transition\<close>

datatype kind = KId | KAccept | KReject | KStartup | KShutdown | KHeartbeat

fun kind_message :: "FmtpMessage \<Rightarrow> kind \<Rightarrow> FmtpMessage" where
  "kind_message own KId = own"
| "kind_message own KAccept = AcceptMessage"
| "kind_message own KReject = RejectMessage"
| "kind_message own KStartup = StartupMessage"
| "kind_message own KShutdown = ShutdownMessage"
| "kind_message own KHeartbeat = HeartbeatMessage"

fun exit_sends :: "string \<Rightarrow> FmtpState \<Rightarrow> FmtpEvent \<Rightarrow> (kind \<times> FmtpEvent) list" where
  "exit_sends role SysIdPending e =
     (if role = TcpServerText \<and> e = RIdValid then [(KId, NoneEvent)] else [])"
| "exit_sends role IdPending e =
     (if e = RIdValid then [(KAccept, NoneEvent)]
      else if e = RIdInvalid then [(KReject, NoneEvent)] else [])"
| "exit_sends role AssPending e =
     (if e \<in> {LDisconnect, LShutdown} then [(KShutdown, NoneEvent)]
      else if e \<in> {TrTimeout, RStartup} then [(KStartup, LStartup)] else [])"
| "exit_sends role DataReady e =
     (if e \<in> {LDisconnect, LShutdown} then [(KShutdown, NoneEvent)]
      else if e = TsTimeout then [(KHeartbeat, NoneEvent)] else [])"
| "exit_sends role s e = []"

fun enter_sends :: "string \<Rightarrow> FmtpState \<Rightarrow> (kind \<times> FmtpEvent) list" where
  "enter_sends role ConPending = (if role = TcpClientText then [(KId, RSetup)] else [])"
| "enter_sends role Ready = [(KStartup, LStartup)]"
| "enter_sends role s = []"

definition transition_sends :: "string \<Rightarrow> FmtpState \<Rightarrow> FmtpEvent \<Rightarrow> (kind \<times> FmtpEvent) list" where
  "transition_sends role s e =
     (if nextState role s e = Empt then []
      else exit_sends role s e @ enter_sends role (nextState role s e))"

definition kind_packet :: "sc_env \<Rightarrow> string \<Rightarrow> FmtpMessage \<Rightarrow> kind \<times> FmtpEvent \<Rightarrow> DataAndEvent" where
  "kind_packet env encoding own ke =
     \<lparr>DataToSend = MakeFmtpPacket (wire_message env encoding (kind_message own (fst ke))),
      EventAfterSend = snd ke\<rparr>"

abbreviation ctl_packet :: "sc_env \<Rightarrow> StateController \<Rightarrow> kind \<times> FmtpEvent \<Rightarrow> DataAndEvent" where
  "ctl_packet env c \<equiv> kind_packet env (DataEncoding (curSet c)) (ownIdentificationMsg c)"

lemma sent_exit:
  assumes "NetRole (curSet c) = role"
  shows "sent (run_func (initExitTransFuncMap role) env e c) =
     sent c @ map (ctl_packet env c) (exit_sends role (currentState c) e)"
  using assms
  by (cases "currentState c")
    (simp_all add: run_func_def initExitTransFuncMap_def Let_def kind_packet_def
      IdleStateExit_def SystemIdPendingStateExit_def IdPendingStateExit_def ReadyStateExit_def
      AssosiationPendingStateExit_def DataReadyStateExit_def)

lemma sent_enter:
  "sent (run_func (initEnterTransFuncMap role) env e c) =
     sent c @ map (ctl_packet env c) (enter_sends role (currentState c))"
  by (cases "currentState c")
    (simp_all add: run_func_def initEnterTransFuncMap_def Let_def kind_packet_def
      IdleStateEnter_def SystemIdPendingStateEnter_def ConnectionPendingStateEnter_def
      IdPendingStateEnter_def ReadyStateEnter_def DisabledStateEnter_def)

lemma force_sends:
  assumes "stateMachine c = InitStateMachine (NetRole (curSet c))"
  shows "sent (forceNewEvent env e c) =
    sent c @ map (ctl_packet env c) (transition_sends (NetRole (curSet c)) (currentState c) e)"
  using assms
  by (simp add: forceNewEvent_def Let_def nextState_def transition_sends_def sent_exit sent_enter)

lemma sent_event:
  assumes "stateMachine c = InitStateMachine (NetRole (curSet c))"
  shows "sent (processEventMessage env e m sv c) =
    sent c @ map (ctl_packet env c) (transition_sends (NetRole (curSet c)) (currentState c) e)"
  using assms by (simp add: processEventMessage_def Let_def force_sends)

lemma sent_data [simp]: "sent (processDataMessage env m c) = sent c"
  by (simp add: processDataMessage_def Let_def)

lemma sent_process:
  assumes "stateMachine c = InitStateMachine (NetRole (curSet c))"
  shows "sent (processFmtpMessage env m c) = sent c @
    (case msg_event (remoteIdentificationMsg c) m of
       None \<Rightarrow> []
     | Some e \<Rightarrow> map (ctl_packet env c) (transition_sends (NetRole (curSet c)) (currentState c) e))"
  using sent_event [OF assms] sent_event [of "log_STDT env sv f d t c" for sv f d t] assms
  by (simp add: processFmtpMessage_def msg_event_def)

section \<open>Two controllers and their connection\<close>

text \<open>
  A side is a controller with its transport, reduced to what the two exchange: how many of
  the packets of the controller are written, the event of the last one while it waits to be
  taken, and the chunks that have come in. The sender writes nothing while an event waits:
  \<open>eventAfterSendChan\<close> has no buffer.
\<close>

record side =
  ctl :: StateController
  written :: nat
  pending :: "FmtpEvent option"
  inbox :: "byte list list"

text \<open>The moves: the side that moves is the client's where the flag is true.\<close>

datatype side_move = WriteNext | TakeEvent | ReadNext | FireTimer timer_id

fun link_step :: "sc_env \<Rightarrow> side_move \<Rightarrow> side \<times> side \<Rightarrow> (side \<times> side) option" where
  "link_step env WriteNext (x, y) =
     (if pending x \<noteq> None \<or> length (sent (ctl x)) \<le> written x then None
      else let d = sent (ctl x) ! written x
           in Some (x\<lparr>written := Suc (written x),
                      pending := (if EventAfterSend d = NoneEvent then None else Some (EventAfterSend d))\<rparr>,
                    y\<lparr>inbox := inbox y @ [DataToSend d]\<rparr>))"
| "link_step env TakeEvent (x, y) =
     (case pending x of None \<Rightarrow> None
      | Some e \<Rightarrow> Some (x\<lparr>pending := None, ctl := sc_step env (TransportEvent e) (ctl x)\<rparr>, y))"
| "link_step env ReadNext (x, y) =
     (case inbox x of [] \<Rightarrow> None
      | bs # rest \<Rightarrow> Some (x\<lparr>inbox := rest, ctl := sc_step env (ReceivedData bs) (ctl x)\<rparr>, y))"
| "link_step env (FireTimer k) (x, y) =
     (if timer_running k (ctl x)
      then Some (x\<lparr>ctl := sc_step env (TimerFired k) (ctl x)\<rparr>, y) else None)"

definition link_move ::
  "sc_env \<Rightarrow> bool \<times> side_move \<Rightarrow> side \<times> side \<Rightarrow> (side \<times> side) option" where
  "link_move env m xy =
     (if fst m then link_step env (snd m) xy
      else map_option prod.swap (link_step env (snd m) (prod.swap xy)))"

definition new_side :: "StateController \<Rightarrow> side" where
  "new_side c = \<lparr>ctl = c, written = 0, pending = None, inbox = []\<rparr>"

text \<open>
  Both controllers have started and the connection is there: the transport of the client
  has reported it, and the one of the server has reported its listening, the connection and
  the event of it.
\<close>

definition link_start :: "sc_env \<Rightarrow> ChannelSettings \<Rightarrow> ChannelSettings \<Rightarrow> side \<times> side" where
  "link_start env cs ss =
     (new_side (sc_run env [TcpConnected True] (Work_start cs NewStateController)),
      new_side (sc_run env [TcpConnected True, TcpConnected True, TransportEvent RSetup]
                  (Work_start ss NewStateController)))"

section \<open>The machine over the kinds of messages\<close>

record aside =
  astate :: FmtpState
  aqueue :: "(kind \<times> FmtpEvent) list"
  apending :: "FmtpEvent option"
  ainbox :: "kind list"

fun kind_event :: "kind \<Rightarrow> FmtpEvent" where
  "kind_event KId = RIdValid" | "kind_event KAccept = RAccept" | "kind_event KReject = RReject"
| "kind_event KStartup = RStartup" | "kind_event KShutdown = RShutdown"
| "kind_event KHeartbeat = RHeartbeat"

definition a_force :: "string \<Rightarrow> FmtpEvent \<Rightarrow> aside \<Rightarrow> aside" where
  "a_force role e a = a\<lparr>astate := move role (astate a) e,
     aqueue := aqueue a @ transition_sends role (astate a) e\<rparr>"

fun a_step :: "string \<Rightarrow> side_move \<Rightarrow> aside \<times> aside \<Rightarrow> (aside \<times> aside) option" where
  "a_step role WriteNext (a, b) =
     (if apending a \<noteq> None then None
      else case aqueue a of [] \<Rightarrow> None
      | (k, e) # rest \<Rightarrow>
          Some (a\<lparr>aqueue := rest, apending := (if e = NoneEvent then None else Some e)\<rparr>,
                b\<lparr>ainbox := ainbox b @ [k]\<rparr>))"
| "a_step role TakeEvent (a, b) =
     (case apending a of None \<Rightarrow> None | Some e \<Rightarrow> Some (a_force role e (a\<lparr>apending := None\<rparr>), b))"
| "a_step role ReadNext (a, b) =
     (case ainbox a of [] \<Rightarrow> None
      | k # rest \<Rightarrow> Some (a_force role (kind_event k) (a\<lparr>ainbox := rest\<rparr>), b))"
| "a_step role (FireTimer k) (a, b) = Some (a_force role (timer_event k) a, b)"

definition a_move :: "bool \<times> side_move \<Rightarrow> aside \<times> aside \<Rightarrow> (aside \<times> aside) option" where
  "a_move m ab =
     (if fst m then a_step TcpClientText (snd m) ab
      else map_option prod.swap (a_step TcpServerText (snd m) (prod.swap ab)))"

definition a_start :: "aside \<times> aside" where
  "a_start = (\<lparr>astate = ConPending, aqueue = [(KId, RSetup)], apending = None, ainbox = []\<rparr>,
              \<lparr>astate = SysIdPending, aqueue = [], apending = None, ainbox = []\<rparr>)"

section \<open>The simulation\<close>

text \<open>Settings of two channels made for each other.\<close>

definition matching :: "ChannelSettings \<Rightarrow> ChannelSettings \<Rightarrow> bool" where
  "matching cs ss \<longleftrightarrow>
     NetRole cs = TcpClientText \<and> NetRole ss = TcpServerText \<and>
     LocalATC cs = RemoteATC ss \<and> RemoteATC cs = LocalATC ss \<and>
     DataEncoding cs = EncodeUtf \<and> DataEncoding ss = EncodeUtf \<and>
     length (LocalATC cs) + length (RemoteATC cs) \<le> 65523"

definition rel_side :: "FmtpMessage \<Rightarrow> ChannelSettings \<Rightarrow> side \<Rightarrow> aside \<Rightarrow> bool" where
  "rel_side peer_own settings x a \<longleftrightarrow>
     well_set (ctl x) \<and> curSet (ctl x) = settings \<and> currentState (ctl x) = astate a \<and>
     written x \<le> length (sent (ctl x)) \<and>
     drop (written x) (sent (ctl x)) =
       map (\<lambda>(k, e). \<lparr>DataToSend = MakeFmtpPacket (kind_message (ownIdentificationMsg (ctl x)) k),
                      EventAfterSend = e\<rparr>) (aqueue a) \<and>
     pending x = apending a \<and>
     inbox x = map (\<lambda>k. MakeFmtpPacket (kind_message peer_own k)) (ainbox a)"

definition own_id :: "ChannelSettings \<Rightarrow> FmtpMessage" where
  "own_id s = CreateIdentificationMessage (LocalATC s) (RemoteATC s) True"

definition expected_id :: "ChannelSettings \<Rightarrow> FmtpMessage" where
  "expected_id s = CreateIdentificationMessage (LocalATC s) (RemoteATC s) False"

lemma id_text_not_answer:
  "msgText (CreateIdentificationMessage l r b) \<noteq> msgText RejectMessage"
  "msgText (CreateIdentificationMessage l r b) \<noteq> msgText AcceptMessage"
proof -
  have "CHR ''-'' \<in> set (msgText (CreateIdentificationMessage l r b))"
    by (simp add: CreateIdentificationMessage_def)
  moreover have "CHR ''-'' \<notin> set (msgText RejectMessage)" "CHR ''-'' \<notin> set (msgText AcceptMessage)"
    by (simp_all add: message_defs)
  ultimately show "msgText (CreateIdentificationMessage l r b) \<noteq> msgText RejectMessage"
    "msgText (CreateIdentificationMessage l r b) \<noteq> msgText AcceptMessage"
    by auto
qed

lemma kind_msg_event:
  assumes "own_id peer = expected_id s"
  shows "msg_event (expected_id s) (kind_message (own_id peer) k) = Some (kind_event k)"
proof (cases k)
  case KId
  have "msgType (own_id peer) = Identification"
    by (simp add: own_id_def CreateIdentificationMessage_def)
  then show ?thesis
    using KId assms id_text_not_answer by (simp add: msg_event_def expected_id_def)
qed (simp_all add: msg_event_def message_defs)

lemma kind_sendable:
  assumes "length (LocalATC peer) + length (RemoteATC peer) \<le> 65523"
  shows "sendable (kind_message (own_id peer) k)"
  using assms
  by (cases k) (simp_all add: sendable_def message_defs own_id_def CreateIdentificationMessage_def)

lemma encode_utf [simp]: "wire_message env EncodeUtf m = m"
  by (simp add: wire_message_def EncodeUtf_def Encode1251_def)

lemma rel_advance:
  assumes "rel_side po s x a" "DataEncoding s = EncodeUtf" "well_set c'" "curSet c' = s"
    "currentState c' = move (NetRole s) (astate a) e"
    "sent c' = sent (ctl x) @
       map (kind_packet env (DataEncoding s) (ownIdentificationMsg (ctl x)))
         (transition_sends (NetRole s) (astate a) e)"
    "ownIdentificationMsg c' = ownIdentificationMsg (ctl x)"
  shows "rel_side po s (x\<lparr>ctl := c'\<rparr>) (a_force (NetRole s) e a)"
  using assms
  by (simp add: rel_side_def a_force_def kind_packet_def case_prod_beta')

lemma well_setD:
  "well_set c \<Longrightarrow> stateMachine c = InitStateMachine (NetRole (curSet c))"
  "well_set c \<Longrightarrow> ownIdentificationMsg c = own_id (curSet c)"
  "well_set c \<Longrightarrow> remoteIdentificationMsg c = expected_id (curSet c)"
  "well_set c \<Longrightarrow> receivedBuffer c = []"
  by (simp_all add: well_set_def own_id_def expected_id_def)

lemma sent_end_timer [simp]: "sent (end_timer k c) = sent c"
  by (simp add: sent_def)

text \<open>An input that stands for one event: what the controller makes of it.\<close>

definition stands_for :: "sc_input \<Rightarrow> FmtpEvent \<Rightarrow> StateController \<Rightarrow> bool" where
  "stands_for i e c \<longleftrightarrow>
     i = TransportEvent e \<or> (\<exists>k. i = TimerFired k \<and> e = timer_event k) \<or>
     (\<exists>b. i = TcpConnected b \<and> e = (if b then LSetup else RDisconnect)) \<or>
     (\<exists>m. i = ReceivedData (MakeFmtpPacket m) \<and> sendable m \<and> msg_event (expected_id (curSet c)) m = Some e)"

lemma reaction:
  assumes w: "well_set c" and i: "stands_for i e c"
  shows "currentState (sc_step env i c) = move (NetRole (curSet c)) (currentState c) e"
    and "sent (sc_step env i c) = sent c @
      map (ctl_packet env c) (transition_sends (NetRole (curSet c)) (currentState c) e)"
proof -
  have rid: "remoteIdentificationMsg c = expected_id (curSet c)" using well_setD(3) [OF w] .
  have events: "input_events (remoteIdentificationMsg c) i = [e]"
    using i messages_packet [of _ "[]"] by (auto simp: stands_for_def rid msg_events_def map_filter_simps)
  then show "currentState (sc_step env i c) = move (NetRole (curSet c)) (currentState c) e"
    by (simp add: step_moves [OF w])
  have m: "sent (fold (processFmtpMessage env) (messages (MakeFmtpPacket m)) (set_buffer [] c)) = sent c @
      map (ctl_packet env c) (transition_sends (NetRole (curSet c)) (currentState c) e)"
    if "sendable m" "msg_event (expected_id (curSet c)) m = Some e" for m
  proof -
    have "messages (MakeFmtpPacket m) = [m]" using messages_packet [OF that(1), of "[]"] by simp
    then show ?thesis
      using sent_process [of "set_buffer [] c" env m] that(2) rid well_setD(1) [OF w] by simp
  qed
  show "sent (sc_step env i c) = sent c @
      map (ctl_packet env c) (transition_sends (NetRole (curSet c)) (currentState c) e)"
    using i m well_setD(1,4) [OF w]
    by (auto simp: stands_for_def force_sends tcp_state_changed_def receive_data_def read_packets_fold Let_def)
qed

lemma rel_reaction:
  assumes r: "rel_side po s x a" and s: "DataEncoding s = EncodeUtf" and i: "stands_for i e (ctl x)"
  shows "rel_side po s (x\<lparr>ctl := sc_step env i (ctl x)\<rparr>) (a_force (NetRole s) e a)"
proof (rule rel_advance [OF r s])
  have w: "well_set (ctl x)" and cs: "curSet (ctl x) = s" and st: "currentState (ctl x) = astate a"
    using r by (auto simp: rel_side_def)
  show "well_set (sc_step env i (ctl x))" by (rule step_well_set [OF w])
  show "curSet (sc_step env i (ctl x)) = s" by (simp only: step_curSet cs)
  show "ownIdentificationMsg (sc_step env i (ctl x)) = ownIdentificationMsg (ctl x)"
    using step_frame by blast
  show "currentState (sc_step env i (ctl x)) = move (NetRole s) (astate a) e"
    using reaction(1) [OF w i] by (simp add: cs st)
  show "sent (sc_step env i (ctl x)) = sent (ctl x) @
       map (kind_packet env (DataEncoding s) (ownIdentificationMsg (ctl x)))
         (transition_sends (NetRole s) (astate a) e)"
    using reaction(2) [OF w i] by (simp add: cs st)
qed

lemma rel_force:
  assumes "rel_side po s x a" "DataEncoding s = EncodeUtf"
    and "i = TransportEvent e \<or> (\<exists>k. i = TimerFired k \<and> e = timer_event k) \<or>
      i = TcpConnected True \<and> e = LSetup"
  shows "rel_side po s (x\<lparr>ctl := sc_step env i (ctl x)\<rparr>) (a_force (NetRole s) e a)"
  by (rule rel_reaction [OF assms(1,2)]) (use assms(3) in \<open>auto simp: stands_for_def\<close>)

lemma rel_receive:
  assumes "rel_side po s x a" "DataEncoding s = EncodeUtf" and "sendable m" "msg_event (expected_id s) m = Some e"
  shows "rel_side po s (x\<lparr>ctl := sc_step env (ReceivedData (MakeFmtpPacket m)) (ctl x)\<rparr>)
    (a_force (NetRole s) e a)"
proof (rule rel_reaction [OF assms(1,2)])
  have "curSet (ctl x) = s" using assms(1) by (simp add: rel_side_def)
  then show "stands_for (ReceivedData (MakeFmtpPacket m)) e (ctl x)" using assms(3,4) by (auto simp: stands_for_def)
qed

definition rel_link :: "ChannelSettings \<Rightarrow> ChannelSettings \<Rightarrow> side \<times> side \<Rightarrow> aside \<times> aside \<Rightarrow> bool" where
  "rel_link s1 s2 xy ab \<longleftrightarrow>
     rel_side (own_id s2) s1 (fst xy) (fst ab) \<and> rel_side (own_id s1) s2 (snd xy) (snd ab)"

text \<open>The settings of one side accept the messages of the other.\<close>

definition good_pair :: "ChannelSettings \<Rightarrow> ChannelSettings \<Rightarrow> bool" where
  "good_pair s1 s2 \<longleftrightarrow> DataEncoding s1 = EncodeUtf \<and> own_id s2 = expected_id s1 \<and>
     length (LocalATC s2) + length (RemoteATC s2) \<le> 65523"

lemma matching_pairs: "matching cs ss \<Longrightarrow> good_pair cs ss \<and> good_pair ss cs"
  by (auto simp: matching_def good_pair_def own_id_def expected_id_def CreateIdentificationMessage_def)

lemma drop_Cons_nth: "drop n xs = y # ys \<Longrightarrow> n < length xs \<and> xs ! n = y \<and> drop (Suc n) xs = ys"
  by (metis Cons_nth_drop_Suc drop_all list.discI list.inject not_less)

fun timer_move :: "side_move \<Rightarrow> bool" where
  "timer_move (FireTimer k) = True" | "timer_move _ = False"

lemma link_step_simulated:
  assumes r: "rel_link s1 s2 (x, y) (a, b)" and g: "good_pair s1 s2"
  shows "\<not> timer_move m \<Longrightarrow> rel_option (rel_link s1 s2) (link_step env m (x, y)) (a_step (NetRole s1) m (a, b))"
    and "timer_move m \<Longrightarrow> link_step env m (x, y) = Some xy' \<Longrightarrow>
      \<exists>ab'. a_step (NetRole s1) m (a, b) = Some ab' \<and> rel_link s1 s2 xy' ab'"
proof -
  have rx: "rel_side (own_id s2) s1 x a" and ry: "rel_side (own_id s1) s2 y b"
    using r by (auto simp: rel_link_def)
  have enc: "DataEncoding s1 = EncodeUtf" using g by (simp add: good_pair_def)
  have own: "ownIdentificationMsg (ctl x) = own_id s1"
    using rx well_setD(2) by (auto simp: rel_side_def)
  show "timer_move m \<Longrightarrow> link_step env m (x, y) = Some xy' \<Longrightarrow>
      \<exists>ab'. a_step (NetRole s1) m (a, b) = Some ab' \<and> rel_link s1 s2 xy' ab'"
    using rel_force [OF rx enc, of "TimerFired k" "timer_event k" env for k] ry
    by (cases m) (auto simp: rel_link_def split: if_splits)
  assume "\<not> timer_move m"
  then consider (w) "m = WriteNext" | (e) "m = TakeEvent" | (rd) "m = ReadNext" by (cases m) auto
  then show "rel_option (rel_link s1 s2) (link_step env m (x, y)) (a_step (NetRole s1) m (a, b))"
  proof cases
    case w
    show ?thesis
    proof (cases "aqueue a")
      case Nil
      then show ?thesis using rx by (simp add: w rel_side_def)
    next
      case (Cons ke rest)
      obtain k e where ke: "ke = (k, e)" by fastforce
      have "drop (written x) (sent (ctl x)) =
          \<lparr>DataToSend = MakeFmtpPacket (kind_message (own_id s1) k), EventAfterSend = e\<rparr> #
          map (\<lambda>(k, e). \<lparr>DataToSend = MakeFmtpPacket (kind_message (own_id s1) k),
                      EventAfterSend = e\<rparr>) rest"
        using rx Cons ke own by (simp add: rel_side_def)
      note d = drop_Cons_nth [OF this]
      show ?thesis
        using rx ry d Cons ke own
        by (auto simp: w rel_side_def rel_link_def Let_def not_le)
    qed
  next
    case e
    show ?thesis
    proof (cases "apending a")
      case None
      then show ?thesis using rx by (simp add: e rel_side_def)
    next
      case (Some ev)
      have r': "rel_side (own_id s2) s1 (x\<lparr>pending := None\<rparr>) (a\<lparr>apending := None\<rparr>)"
        using rx by (simp add: rel_side_def)
      have "pending x = Some ev" using rx Some by (simp add: rel_side_def)
      then show ?thesis
        using rel_force [OF r' enc, of "TransportEvent ev" ev env] ry Some
        by (simp add: e rel_link_def)
    qed
  next
    case rd
    show ?thesis
    proof (cases "ainbox a")
      case Nil
      then show ?thesis using rx by (simp add: rd rel_side_def)
    next
      case (Cons k rest)
      then have i: "inbox x = MakeFmtpPacket (kind_message (own_id s2) k) #
          map (\<lambda>k. MakeFmtpPacket (kind_message (own_id s2) k)) rest"
        using rx by (simp add: rel_side_def)
      have r': "rel_side (own_id s2) s1
          (x\<lparr>inbox := map (\<lambda>k. MakeFmtpPacket (kind_message (own_id s2) k)) rest\<rparr>) (a\<lparr>ainbox := rest\<rparr>)"
        using rx by (simp add: rel_side_def)
      have id: "own_id s2 = expected_id s1" and len: "length (LocalATC s2) + length (RemoteATC s2) \<le> 65523"
        using g by (auto simp: good_pair_def)
      show ?thesis
        using rel_receive [OF r' enc kind_sendable [OF len] kind_msg_event [OF id], of env k] ry Cons i
        by (simp add: rd rel_link_def)
    qed
  qed
qed

text \<open>Both directions: the second side is the first of the swapped pair.\<close>

lemma rel_link_swap: "rel_link s1 s2 xy ab \<Longrightarrow> rel_link s2 s1 (prod.swap xy) (prod.swap ab)"
  by (simp add: rel_link_def)

lemma rel_link_pair: "rel_link s1 s2 (x, y) (a, b) \<Longrightarrow> rel_link s2 s1 (y, x) (b, a)"
  by (simp add: rel_link_def)

lemma link_move_simulated:
  assumes r: "rel_link cs ss xy ab" and m: "matching cs ss"
  shows "\<not> timer_move (snd mv) \<Longrightarrow> rel_option (rel_link cs ss) (link_move env mv xy) (a_move mv ab)"
    and "link_move env mv xy = Some xy' \<Longrightarrow> \<exists>ab'. a_move mv ab = Some ab' \<and> rel_link cs ss xy' ab'"
proof -
  have roles: "NetRole cs = TcpClientText" "NetRole ss = TcpServerText"
    using m by (auto simp: matching_def)
  have g: "good_pair cs ss" "good_pair ss cs" using matching_pairs [OF m] by auto
  obtain x y a b where xy: "xy = (x, y)" and ab: "ab = (a, b)" by fastforce
  have r1: "rel_link cs ss (x, y) (a, b)" and r2: "rel_link ss cs (y, x) (b, a)"
    using r rel_link_swap [OF r] by (auto simp: xy ab)
  note sim1 = link_step_simulated [OF r1 g(1), unfolded roles]
    and sim2 = link_step_simulated [OF r2 g(2), unfolded roles]
  show nt: "\<not> timer_move (snd mv) \<Longrightarrow> rel_option (rel_link cs ss) (link_move env mv xy) (a_move mv ab)"
    using sim1(1) [of "snd mv" env] sim2(1) [of "snd mv" env]
    by (auto simp: link_move_def a_move_def xy ab option.rel_map elim!: option.rel_mono_strong
        dest: rel_link_swap)
  show "link_move env mv xy = Some xy' \<Longrightarrow> \<exists>ab'. a_move mv ab = Some ab' \<and> rel_link cs ss xy' ab'"
  proof (cases "timer_move (snd mv)")
    case False
    assume "link_move env mv xy = Some xy'"
    with nt [OF False] show ?thesis by (auto simp: option_rel_Some1)
  next
    case True
    assume mv: "link_move env mv xy = Some xy'"
    show ?thesis
    proof (cases "fst mv")
      case first: True
      then have "link_step env (snd mv) (x, y) = Some xy'" using mv by (simp add: link_move_def xy)
      from sim1(2) [OF True this] first show ?thesis by (simp add: a_move_def ab)
    next
      case second: False
      then have "link_step env (snd mv) (y, x) = Some (prod.swap xy')"
        using mv by (auto simp: link_move_def xy)
      from sim2(2) [OF True this] obtain ba' where
        "a_step TcpServerText (snd mv) (b, a) = Some ba'" "rel_link ss cs (prod.swap xy') ba'" by blast
      then show ?thesis
        using second rel_link_swap [of ss cs "prod.swap xy'" ba'] by (simp add: a_move_def ab)
    qed
  qed
qed

fun link_run :: "sc_env \<Rightarrow> (bool \<times> side_move) list \<Rightarrow> side \<times> side \<Rightarrow> (side \<times> side) option" where
  "link_run env [] xy = Some xy"
| "link_run env (m # ms) xy =
     (case link_move env m xy of None \<Rightarrow> None | Some xy' \<Rightarrow> link_run env ms xy')"

fun a_run :: "(bool \<times> side_move) list \<Rightarrow> aside \<times> aside \<Rightarrow> (aside \<times> aside) option" where
  "a_run [] ab = Some ab"
| "a_run (m # ms) ab = (case a_move m ab of None \<Rightarrow> None | Some ab' \<Rightarrow> a_run ms ab')"

lemma link_run_simulated:
  assumes "matching cs ss"
  shows "rel_link cs ss xy ab \<Longrightarrow> \<forall>m \<in> set ms. \<not> timer_move (snd m) \<Longrightarrow>
    rel_option (rel_link cs ss) (link_run env ms xy) (a_run ms ab)"
proof (induction ms arbitrary: xy ab)
  case (Cons m ms)
  have "rel_option (rel_link cs ss) (link_move env m xy) (a_move m ab)"
    using link_move_simulated(1) [OF Cons.prems(1) assms] Cons.prems(2) by simp
  then show ?case using Cons.IH Cons.prems(2) by (cases rule: option.rel_cases) auto
qed simp

lemma rel_side_new:
  "rel_side po s (new_side (Work_start s NewStateController))
     \<lparr>astate = Idle, aqueue = [], apending = None, ainbox = []\<rparr>"
  using start_well_set [of s]
  by (simp add: rel_side_def new_side_def Work_start_def NewStateController_def sent_def)

lemma new_side_ctl [simp]: "ctl (new_side c) = c" "(new_side c)\<lparr>ctl := d\<rparr> = new_side d"
  by (simp_all add: new_side_def)

lemma start_related:
  assumes "matching cs ss"
  shows "rel_link cs ss (link_start env cs ss) a_start"
proof -
  have roles: "NetRole cs = TcpClientText" "NetRole ss = TcpServerText"
    and enc: "DataEncoding cs = EncodeUtf" "DataEncoding ss = EncodeUtf"
    using assms by (auto simp: matching_def)
  note f = rel_force [where i = "TcpConnected True" and e = LSetup and env = env, OF _ _ disjI2 [OF disjI2 [OF conjI [OF refl refl]]]]
  have c: "rel_side (own_id ss) cs
      (new_side (sc_step env (TcpConnected True) (Work_start cs NewStateController))) (fst a_start)"
    using f [OF rel_side_new enc(1), of "own_id ss"]
    by (simp add: a_force_def move_def nextState_protocol transition_sends_def a_start_def
        roles role_texts)
  have s1: "rel_side (own_id cs) ss
      (new_side (sc_step env (TcpConnected True) (Work_start ss NewStateController)))
      \<lparr>astate = Idle, aqueue = [], apending = None, ainbox = []\<rparr>"
    using f [OF rel_side_new enc(2), of "own_id cs"]
    by (simp add: a_force_def move_def nextState_protocol transition_sends_def roles role_texts)
  have s2: "rel_side (own_id cs) ss
      (new_side (sc_step env (TcpConnected True) (sc_step env (TcpConnected True)
         (Work_start ss NewStateController))))
      \<lparr>astate = Idle, aqueue = [], apending = None, ainbox = []\<rparr>"
    using f [OF s1 enc(2)]
    by (simp add: a_force_def move_def nextState_protocol transition_sends_def roles role_texts)
  have s3: "rel_side (own_id cs) ss
      (new_side (sc_step env (TransportEvent RSetup) (sc_step env (TcpConnected True)
         (sc_step env (TcpConnected True) (Work_start ss NewStateController))))) (snd a_start)"
    using rel_force [OF s2 enc(2), of "TransportEvent RSetup" RSetup env]
    by (simp add: a_force_def move_def nextState_protocol transition_sends_def a_start_def
        roles role_texts)
  from c s3 show ?thesis by (simp add: rel_link_def link_start_def)
qed

section \<open>Schedules\<close>

text \<open>
  The orderly schedule: an event is taken as soon as the data are written, and what has
  come in is read before the peer writes more.
\<close>

definition orderly :: "(bool \<times> side_move) list" where
  "orderly =
    [(True, WriteNext), (True, TakeEvent), (False, ReadNext),
     (False, WriteNext), (True, ReadNext),
     (True, WriteNext), (False, ReadNext),
     (True, WriteNext), (True, TakeEvent), (False, ReadNext),
     (False, WriteNext), (False, TakeEvent), (True, ReadNext),
     (True, WriteNext), (True, TakeEvent), (False, ReadNext),
     (False, WriteNext), (False, TakeEvent), (True, ReadNext)]"

text \<open>
  The other schedule: each side reads the startup message of the other before it takes the
  event of its own.
\<close>

definition crossing :: "(bool \<times> side_move) list" where
  "crossing =
    [(True, WriteNext), (True, TakeEvent), (False, ReadNext),
     (False, WriteNext), (True, ReadNext),
     (True, WriteNext), (False, ReadNext),
     (True, WriteNext), (False, WriteNext), (True, ReadNext), (False, ReadNext),
     (True, TakeEvent), (False, TakeEvent)]"

definition at_rest :: "FmtpState \<Rightarrow> aside" where
  "at_rest s = \<lparr>astate = s, aqueue = [], apending = None, ainbox = []\<rparr>"

lemmas a_run_simps =
  a_move_def a_force_def move_def nextState_protocol transition_sends_def role_texts a_start_def

lemma orderly_run: "a_run orderly a_start = Some (at_rest DataReady, at_rest DataReady)"
  by (simp add: orderly_def a_run_simps at_rest_def)

lemma crossing_run: "a_run crossing a_start = Some (at_rest AssPending, at_rest AssPending)"
  by (simp add: crossing_def a_run_simps at_rest_def)

text \<open>
  After the second schedule nothing is left to write, to take or to read, and only the timer
  Tr of each side runs. It fires, and its event has no entry in the table.
\<close>

lemma rest_force:
  "k \<noteq> TiId \<Longrightarrow> a_force role (timer_event k) (at_rest AssPending) = at_rest AssPending"
  by (cases k) (simp_all add: a_force_def at_rest_def move_def nextState_protocol transition_sends_def)

lemma rest_stays:
  assumes "a_move mv (at_rest AssPending, at_rest AssPending) = Some ab"
    and k: "snd mv = FireTimer k" "k \<noteq> TiId"
  shows "ab = (at_rest AssPending, at_rest AssPending)"
  using assms(1) by (auto simp: a_move_def k(1) rest_force [OF k(2)] split: if_splits)

lemma rest_moves:
  "\<not> timer_move (snd mv) \<Longrightarrow> a_move mv (at_rest s, at_rest t) = None"
  by (cases mv; cases "snd mv") (auto simp: a_move_def at_rest_def)

definition linked_ok :: "side \<times> side \<Rightarrow> bool" where
  "linked_ok xy \<longleftrightarrow> ctl_ok (ctl (fst xy)) \<and> ctl_ok (ctl (snd xy))"

lemma link_step_ok:
  assumes mv: "link_step env m (x, y) = Some (x', y')" and ok: "ctl_ok (ctl x)" "ctl_ok (ctl y)"
  shows "ctl_ok (ctl x') \<and> ctl_ok (ctl y')"
proof (cases m)
  case WriteNext
  then show ?thesis using assms by (auto simp: Let_def split: if_splits)
next
  case TakeEvent
  then obtain e where "x' = x\<lparr>pending := None, ctl := sc_step env (TransportEvent e) (ctl x)\<rparr>" "y' = y"
    using mv by (auto split: option.splits)
  then show ?thesis using ok step_timers [OF ok(1), of "TransportEvent e" env] by simp
next
  case ReadNext
  then obtain bs rest where "x' = x\<lparr>inbox := rest, ctl := sc_step env (ReceivedData bs) (ctl x)\<rparr>" "y' = y"
    using mv by (auto split: list.splits)
  then show ?thesis using ok step_timers [OF ok(1), of "ReceivedData bs" env] by simp
next
  case (FireTimer k)
  then have "timer_running k (ctl x)" "x' = x\<lparr>ctl := sc_step env (TimerFired k) (ctl x)\<rparr>" "y' = y"
    using mv by (auto split: if_splits)
  then show ?thesis using ok step_timers [OF ok(1), of "TimerFired k" env] by simp
qed

lemma link_move_ok: "link_move env m xy = Some xy' \<Longrightarrow> linked_ok xy \<Longrightarrow> linked_ok xy'"
  by (cases xy; cases xy') (auto simp: link_move_def linked_ok_def split: if_splits dest: link_step_ok)

lemma link_run_ok: "link_run env ms xy = Some xy' \<Longrightarrow> linked_ok xy \<Longrightarrow> linked_ok xy'"
  by (induction ms arbitrary: xy) (auto split: option.splits intro: link_move_ok)

lemma start_linked_ok:
  assumes "matching cs ss"
  shows "linked_ok (link_start env cs ss)"
proof -
  have roles: "valid_role (NetRole cs)" "valid_role (NetRole ss)"
    using assms by (auto simp: matching_def valid_role_def)
  have tcp: "ctl_ok c \<Longrightarrow> ctl_ok (sc_step env (TcpConnected True) c)"
    and event: "ctl_ok c \<Longrightarrow> ctl_ok (sc_step env (TransportEvent RSetup) c)" for c
    by (rule step_timers; simp)+
  show ?thesis
    unfolding linked_ok_def link_start_def fst_conv snd_conv new_side_ctl sc_run.simps
    by (intro conjI tcp event start_ok roles)
qed

definition both_in :: "FmtpState \<Rightarrow> side \<times> side \<Rightarrow> bool" where
  "both_in s xy \<longleftrightarrow> currentState (ctl (fst xy)) = s \<and> currentState (ctl (snd xy)) = s"

lemma related_states:
  "rel_link cs ss xy (at_rest s, at_rest s) \<Longrightarrow> both_in s xy"
  by (simp add: rel_link_def rel_side_def both_in_def at_rest_def)

lemma rest_move:
  assumes m: "matching cs ss" and r: "rel_link cs ss xy (at_rest AssPending, at_rest AssPending)"
    and ok: "linked_ok xy" and mv: "link_move env mv xy = Some xy'"
  shows "rel_link cs ss xy' (at_rest AssPending, at_rest AssPending)"
proof -
  from link_move_simulated(2) [OF r m mv] obtain ab where
    ab: "a_move mv (at_rest AssPending, at_rest AssPending) = Some ab" "rel_link cs ss xy' ab" by blast
  obtain k where k: "snd mv = FireTimer k"
    using ab(1) rest_moves [of mv] by (cases "snd mv") auto
  have "\<not> running (tiTimer (ctl (fst xy)))" "\<not> running (tiTimer (ctl (snd xy)))"
    using ok related_states [OF r]
    by (auto simp: linked_ok_def ctl_ok_def timers_match_def ons_def both_in_def)
  then have "k \<noteq> TiId" using mv k by (cases xy) (auto simp: link_move_def split: if_splits)
  with rest_stays [OF ab(1) k] ab(2) show ?thesis by simp
qed

lemma rest_run:
  assumes m: "matching cs ss" and r: "rel_link cs ss xy (at_rest AssPending, at_rest AssPending)"
    and ok: "linked_ok xy" and "link_run env ms xy = Some xy'"
  shows "rel_link cs ss xy' (at_rest AssPending, at_rest AssPending)"
  using assms(2-)
proof (induction ms arbitrary: xy)
  case (Cons mv ms)
  then obtain u where "link_move env mv xy = Some u" "link_run env ms u = Some xy'"
    by (auto split: option.splits)
  with Cons rest_move [OF m Cons.prems(1,2)] link_move_ok show ?case by blast
qed simp

lemma schedule_result:
  assumes m: "matching cs ss" and "\<forall>mv \<in> set ms. \<not> timer_move (snd mv)" and "a_run ms a_start = Some ab"
  obtains xy where "link_run env ms (link_start env cs ss) = Some xy" "rel_link cs ss xy ab" "linked_ok xy"
proof -
  have "rel_option (rel_link cs ss) (link_run env ms (link_start env cs ss)) (a_run ms a_start)"
    by (rule link_run_simulated [OF m start_related [OF m] assms(2)])
  with assms(3) obtain xy where xy: "link_run env ms (link_start env cs ss) = Some xy" "rel_link cs ss xy ab"
    by (auto simp: option_rel_Some2)
  then show ?thesis using that link_run_ok [OF xy(1) start_linked_ok [OF m]] by blast
qed

lemma schedules_no_timer:
  "\<forall>mv \<in> set orderly. \<not> timer_move (snd mv)" "\<forall>mv \<in> set crossing. \<not> timer_move (snd mv)"
  by (simp_all add: orderly_def crossing_def)

lemma examples_match: "matching example_client example_server"
  by (simp add: matching_def example_defs role_texts EncodeUtf_def)

section \<open>Properties\<close>

text \<open>C10: A client and a server channel configured for each other associate: from the
  moment the connection is there, a schedule in which each side writes, reports and reads in turn takes
  both to the data flow, with the packets the controllers really build and parse.\<close>

theorem orderly_association:
  assumes "matching cs ss"
  shows "\<exists>xy. link_run env orderly (link_start env cs ss) = Some xy \<and> both_in DataReady xy"
proof -
  obtain xy where "link_run env orderly (link_start env cs ss) = Some xy"
    "rel_link cs ss xy (at_rest DataReady, at_rest DataReady)"
    using schedule_result [OF assms schedules_no_timer(1) orderly_run] by metis
  then show ?thesis using related_states by blast
qed

theorem orderly_association_witness:
  "\<exists>xy. link_run example_env orderly (link_start example_env example_client example_server) = Some xy \<and>
     both_in DataReady xy"
  by (rule orderly_association [OF examples_match])

text \<open>C13: The association can hang for ever. Where each side reads the startup message
  of the other before the event of its own startup has come through its transport, both drop the message
  and wait for it in the pending state; the timer that should repeat the startup there fires an event
  the table does not have in this state. From then on every continuation, with all its timers, leaves
  both sides pending.\<close>

theorem crossing_association:
  assumes "matching cs ss"
  shows "\<exists>xy. link_run env crossing (link_start env cs ss) = Some xy \<and> both_in AssPending xy \<and>
    (\<forall>ms xy'. link_run env ms xy = Some xy' \<longrightarrow> both_in AssPending xy')"
proof -
  obtain xy where xy: "link_run env crossing (link_start env cs ss) = Some xy"
    "rel_link cs ss xy (at_rest AssPending, at_rest AssPending)" "linked_ok xy"
    using schedule_result [OF assms schedules_no_timer(2) crossing_run] by metis
  have "both_in AssPending xy" using related_states [OF xy(2)] .
  moreover have "both_in AssPending xy'" if "link_run env ms xy = Some xy'" for ms xy'
    using related_states [OF rest_run [OF assms xy(2,3) that]] .
  ultimately show ?thesis using xy(1) by blast
qed

theorem crossing_association_witness:
  "\<exists>xy. link_run example_env crossing (link_start example_env example_client example_server) = Some xy \<and>
     both_in AssPending xy \<and>
     (\<forall>ms xy'. link_run example_env ms xy = Some xy' \<longrightarrow> both_in AssPending xy')"
  by (rule crossing_association [OF examples_match])

end
