(* ===== verification/Tcp_Runs.thy ===== *)
theory Tcp_Runs
  imports Tcp_Transport
begin

text \<open>
  What the runs of the TCP transport do. The queue of data to send is first in, first out
  through the connection (the locale \<open>send_queue\<close>, of both transports, and for the client
  together with the events after sending); the orderly end of a connection; and the state
  from which \<open>Work\<close> never comes back, when both loops fail.
\<close>

section \<open>The queue of data to send\<close>

locale send_queue =
  fixes step :: "'a \<Rightarrow> 's \<Rightarrow> 's option"
    and pushed :: "'a \<Rightarrow> DataAndEvent list"
    and lossy :: "'a \<Rightarrow> bool"
    and queue :: "'s \<Rightarrow> DataAndEvent list"
    and outs :: "'s \<Rightarrow> tcp_effect list"
    and dead :: "'s \<Rightarrow> bool"
    and vis :: "tcp_effect \<Rightarrow> bool"
    and img :: "DataAndEvent \<Rightarrow> tcp_effect list"
  assumes dead_stuck: "dead s \<Longrightarrow> step a s = None"
    and fifo: "step a s = Some t \<Longrightarrow> \<not> dead t \<Longrightarrow> \<not> lossy a \<Longrightarrow>
      filter vis (outs t) @ concat (map img (queue t)) =
      filter vis (outs s) @ concat (map img (queue s @ pushed a))"
begin

lemma run_fifo:
  "run_steps step as s = Some t \<Longrightarrow> \<not> dead t \<Longrightarrow> \<forall>a \<in> set as. \<not> lossy a \<Longrightarrow>
   filter vis (outs t) @ concat (map img (queue t)) =
   filter vis (outs s) @ concat (map img (queue s @ concat (map pushed as)))"
proof (induction "as" arbitrary: s)
  case Nil
  then show ?case by simp
next
  case (Cons a "as")
  then obtain u where u: "step a s = Some u" "run_steps step as u = Some t"
    by (auto split: option.splits)
  have "\<not> dead u"
  proof
    assume d: "dead u"
    then have "as = []" using u(2) dead_stuck [OF d] by (cases "as") auto
    with u d Cons.prems show False by simp
  qed
  then show ?case using Cons.IH [OF u(2)] fifo [OF u(1)] Cons.prems by simp
qed

corollary run_sends:
  assumes "run_steps step as s = Some t" "\<not> dead t" "\<forall>a \<in> set as. \<not> lossy a"
    and "outs s = []" "queue s = []"
  shows "\<exists>waiting. filter vis (outs t) @ waiting = concat (map img (concat (map pushed as)))"
  using run_fifo [OF assms(1-3)] assms(4,5) by auto

end

fun is_written :: "tcp_effect \<Rightarrow> bool" where
  "is_written (Written bs) = True" | "is_written _ = False"

fun is_sending :: "tcp_effect \<Rightarrow> bool" where
  "is_sending (Written bs) = True" | "is_sending (TrEvent e) = True" | "is_sending _ = False"

definition written_of :: "DataAndEvent \<Rightarrow> tcp_effect list" where
  "written_of d = [Written (DataToSend d)]"

definition sending_of :: "DataAndEvent \<Rightarrow> tcp_effect list" where
  "sending_of d = Written (DataToSend d) #
     (if EventAfterSend d \<noteq> NoneEvent then [TrEvent (EventAfterSend d)] else [])"

fun client_pushed :: "client_action \<Rightarrow> DataAndEvent list" where
  "client_pushed (CPush d) = [d]" | "client_pushed _ = []"

fun client_lossy :: "client_action \<Rightarrow> bool" where
  "client_lossy (CSend i (Some err)) = True" | "client_lossy _ = False"

fun server_pushed :: "server_action \<Rightarrow> DataAndEvent list" where
  "server_pushed (SPush d) = [d]" | "server_pushed _ = []"

fun server_lossy :: "server_action \<Rightarrow> bool" where
  "server_lossy (SSend i (Some err)) = True" | "server_lossy _ = False"

lemma client_fifo:
  assumes "client_step clk a s = Some t" "\<not> panicked t" "\<not> client_lossy a"
  shows "filter is_sending (trOut t) @ concat (map sending_of (toSendData t)) =
         filter is_sending (trOut s) @ concat (map sending_of (toSendData s @ client_pushed a))"
  using assms
  by (cases a)
    (auto simp: client_step_def startClient_def client_stopped_def recv_poll_def recv_read_def
      send_next_def take_error_def take_cancel_def push_data_def tr_defs sending_of_def Let_def
      split: if_splits option.splits sum.splits list.splits)

lemma server_fifo:
  assumes "server_step clk a s = Some t" "\<not> panicked t" "\<not> server_lossy a"
  shows "filter is_written (trOut t) @ concat (map written_of (toSendData t)) =
         filter is_written (trOut s) @ concat (map written_of (toSendData s @ server_pushed a))"
  using assms
  by (cases a)
    (auto simp: server_step_def server_listen_def server_accept_def server_stopped_def recv_poll_def
      recv_read_def send_next_def take_error_def take_cancel_def push_data_def tr_defs
      written_of_def Let_def
      split: if_splits option.splits sum.splits list.splits)

interpretation client_queue: send_queue "client_step clk" client_pushed client_lossy toSendData trOut
    panicked is_sending sending_of for clk
  by unfold_locales (simp add: client_step_def, rule client_fifo)

interpretation server_queue: send_queue "server_step clk" server_pushed server_lossy toSendData trOut
    panicked is_written written_of for clk
  by unfold_locales (simp add: server_step_def, rule server_fifo)

section \<open>What was written and read\<close>

definition received_chunks :: "tcp_effect list \<Rightarrow> byte list list" where
  "received_chunks es = concat (map (\<lambda>e. case e of Received bs \<Rightarrow> [bs] | _ \<Rightarrow> []) es)"

lemma received_chunks_append [simp]:
  "received_chunks (es @ fs) = received_chunks es @ received_chunks fs"
  by (simp add: received_chunks_def)

definition written_data :: "tcp_effect list \<Rightarrow> byte list list" where
  "written_data es = concat (map (\<lambda>e. case e of Written bs \<Rightarrow> [bs] | _ \<Rightarrow> []) es)"

lemma written_data_append [simp]: "written_data (es @ fs) = written_data es @ written_data fs"
  by (simp add: written_data_def)

lemma written_data_simps [simp]:
  "written_data [] = []" "written_data (e # es) = (case e of Written bs \<Rightarrow> [bs] | _ \<Rightarrow> []) @ written_data es"
  by (simp_all add: written_data_def)

lemma received_chunks_simps [simp]:
  "received_chunks [] = []" "received_chunks (e # es) = (case e of Received bs \<Rightarrow> [bs] | _ \<Rightarrow> []) @ received_chunks es"
  by (simp_all add: received_chunks_def)

lemma in_written_data: "bs \<in> set (written_data es) \<longleftrightarrow> Written bs \<in> set es"
  by (induction es) (auto split: tcp_effect.split)

lemma in_received_chunks: "bs \<in> set (received_chunks es) \<longleftrightarrow> Received bs \<in> set es"
  by (induction es) (auto split: tcp_effect.split)

text \<open>A step adds to what is put out, and loses nothing of the queue where no write fails.\<close>

definition adds_output :: "'a transport_scheme \<Rightarrow> 'a transport_scheme \<Rightarrow> bool" where
  "adds_output s t \<longleftrightarrow> (\<exists>es. trOut t = trOut s @ es)"

definition on_way :: "'a transport_scheme \<Rightarrow> byte list list" where
  "on_way s = written_data (trOut s) @ map DataToSend (toSendData s)"

lemma client_adds_output: "client_step clk a s = Some t \<Longrightarrow> adds_output s t"
  by (cases a)
    (auto simp: adds_output_def client_step_def startClient_def client_stopped_def recv_poll_def
      recv_read_def send_next_def take_error_def take_cancel_def push_data_def tr_defs Let_def
      split: if_splits option.splits sum.splits list.splits)

lemma server_adds_output: "server_step clk a s = Some t \<Longrightarrow> adds_output s t"
  by (cases a)
    (auto simp: adds_output_def server_step_def server_listen_def server_accept_def server_stopped_def
      recv_poll_def recv_read_def send_next_def take_error_def take_cancel_def push_data_def tr_defs Let_def
      split: if_splits option.splits sum.splits list.splits)

lemma client_keeps_way:
  "client_step clk a s = Some t \<Longrightarrow> \<not> panicked t \<Longrightarrow> \<not> client_lossy a \<Longrightarrow>
   on_way t = on_way s @ map DataToSend (client_pushed a)"
  by (cases a)
    (auto simp: on_way_def client_step_def startClient_def client_stopped_def recv_poll_def
      recv_read_def send_next_def take_error_def take_cancel_def push_data_def tr_defs Let_def
      split: if_splits option.splits sum.splits list.splits)

lemma server_keeps_way:
  "server_step clk a s = Some t \<Longrightarrow> \<not> panicked t \<Longrightarrow> \<not> server_lossy a \<Longrightarrow>
   on_way t = on_way s @ map DataToSend (server_pushed a)"
  by (cases a)
    (auto simp: on_way_def server_step_def server_listen_def server_accept_def server_stopped_def
      recv_poll_def recv_read_def send_next_def take_error_def take_cancel_def push_data_def tr_defs Let_def
      split: if_splits option.splits sum.splits list.splits)

text \<open>The queue is only taken from at its head, and an event follows the data it was given with.\<close>

lemma client_keeps_queue:
  "client_step clk a s = Some t \<Longrightarrow> set (toSendData t) \<subseteq> set (toSendData s) \<union> set (client_pushed a)"
  by (cases a)
    (auto simp: client_step_def startClient_def client_stopped_def recv_poll_def
      recv_read_def send_next_def take_error_def take_cancel_def push_data_def tr_defs Let_def
      split: if_splits option.splits sum.splits list.splits)

lemma server_keeps_queue:
  "server_step clk a s = Some t \<Longrightarrow> set (toSendData t) \<subseteq> set (toSendData s) \<union> set (server_pushed a)"
  by (cases a)
    (auto simp: server_step_def server_listen_def server_accept_def server_stopped_def recv_poll_def
      recv_read_def send_next_def take_error_def take_cancel_def push_data_def tr_defs Let_def
      split: if_splits option.splits sum.splits list.splits)

lemma client_event_written:
  "client_step clk a s = Some t \<Longrightarrow> TrEvent e \<in> set (trOut t) \<Longrightarrow>
   TrEvent e \<in> set (trOut s) \<or>
   (\<exists>d \<in> set (toSendData s). EventAfterSend d = e \<and> Written (DataToSend d) \<in> set (trOut t))"
  by (cases a)
    (auto simp: client_step_def startClient_def client_stopped_def recv_poll_def
      recv_read_def send_next_def take_error_def take_cancel_def push_data_def tr_defs Let_def
      split: if_splits option.splits sum.splits list.splits)

section \<open>The end of a connection\<close>

text \<open>
  The connection of the client is closed by the peer while the sender waits for data:
  \<open>Work\<close> takes the error, the sender takes the signal, and nothing is left of the two.
\<close>

lemma client_orderly_end:
  assumes "workPc s = WorkSelect" "\<not> panicked s" "tcpOpen s" "loops s = [RecvRead, SendSelect]"
  shows "run_steps (client_step clk) [CRead 0 (Inl None), CTakeError 0, CTakeCancel 0 None] s =
    Some (s\<lparr>loops := [],
            trOut := trOut s @ [ConnState False, Closed,
              TrLog (LogChannelST (clk (length (trOut s) + 2)) SeverityError
                ((ru ''Zakryto '') @ ''TCP '' @ (ru ''soedinenie '') @ ''FMTP '' @ (ru ''kanala.'')))]\<rparr>)"
  using assms
  by (simp add: client_step_def client_stopped_def recv_read_def take_error_def take_cancel_def
      loop_at_def tr_defs Let_def)

text \<open>Both loops have failed, and \<open>Work\<close> has taken the error of one.\<close>

definition hung :: "'a transport_scheme \<Rightarrow> bool" where
  "hung s \<longleftrightarrow> workPc s = WorkCancel \<and> set (loops s) \<subseteq> {RecvError, SendError}"

lemma hung_loops: "hung s \<Longrightarrow> pc \<in> {RecvSelect, RecvRead, SendSelect} \<Longrightarrow> \<not> loop_at i pc s"
  unfolding hung_def loop_at_def using nth_mem by fastforce

lemma hung_ops:
  assumes "hung s"
  shows "take_error i s = None" "take_cancel i s = None" "recv_poll b i s = None"
    "recv_read clk n i r s = None" "send_next clk i e s = None"
  using assms hung_loops [OF assms]
  by (auto simp: take_error_def take_cancel_def recv_poll_def recv_read_def send_next_def hung_def)

lemma hung_client_step:
  assumes "hung s" "client_step clk a s = Some t"
  shows "\<exists>d. a = CPush d \<and> t = push_data d s"
  using assms by (cases a) (auto simp: client_step_def hung_ops hung_def split: if_splits)

lemma hung_push: "hung (push_data d s) = hung s" "trOut (push_data d s) = trOut s"
  by (simp_all add: hung_def push_data_def)

lemma hung_forever:
  assumes "hung s" "run_steps (client_step clk) as s = Some t"
  shows "hung t \<and> trOut t = trOut s"
  using assms
proof (induction "as" arbitrary: s)
  case (Cons a "as")
  then obtain u where u: "client_step clk a s = Some u" "run_steps (client_step clk) as u = Some t"
    by (auto split: option.splits)
  obtain d where "u = push_data d s" using hung_client_step [OF Cons.prems(1) u(1)] by blast
  with Cons.IH [OF _ u(2)] Cons.prems(1) show ?case by (simp add: hung_push)
qed simp

lemma client_can_hang:
  assumes "workPc s = WorkSelect" "\<not> panicked s" "tcpOpen s" "loops s = [RecvRead, SendSelect]"
    "toSendData s = d # rest"
  shows "\<exists>t. run_steps (client_step clk) [CSend 1 (Some e), CRead 0 (Inl None), CTakeError 0] s = Some t \<and> hung t"
  using assms
  by (simp add: client_step_def recv_read_def send_next_def take_error_def loop_at_def tr_defs
      hung_def Let_def)

text \<open>A second start does not end the loops of the first.\<close>

lemma reconnect_adds_loops:
  assumes "workPc s = WorkSelect" "\<not> panicked s"
  shows "\<exists>t. client_step clk (CReconnect None None) s = Some t \<and>
     loops t = loops s @ [RecvSelect, SendSelect]"
  using assms by (simp add: client_step_def startClient_def tr_defs Let_def)

lemma hung_server_step:
  assumes "hung s" "server_step clk (STakeError i) s = Some t \<or> server_step clk (STakeCancel i e) s = Some t \<or>
    server_step clk (SPoll i) s = Some t \<or> server_step clk (SRead i r) s = Some t \<or>
    server_step clk (SSend i e) s = Some t \<or> server_step clk (SSettings st) s = Some t"
  shows False
  using assms by (auto simp: server_step_def hung_ops hung_def split: if_splits)

section \<open>The server admits one client\<close>

lemma server_refuses:
  assumes "\<not> panicked s" "tcpOpen s" "listener_at j Accepting s"
  shows "\<exists>t l. server_step clk (SAccept j (Inr addr)) s = Some t \<and> loops t = loops s \<and> tcpOpen t \<and>
     trOut t = trOut s @ [TrLog l]"
  using assms by (simp add: server_step_def server_accept_def tr_defs)

lemma server_accepts:
  assumes "\<not> panicked s" "\<not> tcpOpen s" "listener_at j Accepting s"
    and "ClientAddr (trCurSett s) = [] \<or> ClientAddr (trCurSett s) = addr"
  shows "\<exists>t. server_step clk (SAccept j (Inr addr)) s = Some t \<and> tcpOpen t \<and>
     loops t = loops s @ [RecvSelect, SendSelect] \<and>
     filter (\<lambda>e. e = TrEvent RSetup \<or> e = ConnState True) (trOut t) =
       filter (\<lambda>e. e = TrEvent RSetup \<or> e = ConnState True) (trOut s) @ [ConnState True, TrEvent RSetup]"
  using assms by (auto simp: server_step_def server_accept_def tr_defs Let_def)

section \<open>The loops of the server\<close>

text \<open>The server has one connection and its two loops, or none; while it stops them, one is left.\<close>

definition server_inv :: "TcpTransportServer \<Rightarrow> bool" where
  "server_inv s \<longleftrightarrow> \<not> panicked s \<and>
     (if tcpOpen s
      then (workPc s = WorkSelect \<and> (loops s = [] \<or> length (loops s) = 2)) \<or>
           (workPc s = WorkCancel \<and> length (loops s) = 1)
      else workPc s = WorkSelect \<and> loops s = [])"

lemma length_end_loop: "i < length (loops s) \<Longrightarrow> length (loops (end_loop i s)) = length (loops s) - 1"
  by (simp add: end_loop_def)

lemma server_inv_step: "server_inv s \<Longrightarrow> server_step clk a s = Some t \<Longrightarrow> server_inv t"
proof (cases a)
  case (STakeError i)
  assume "server_inv s" "server_step clk a s = Some t"
  then show ?thesis
    by (auto simp: STakeError server_inv_def server_step_def take_error_def loop_at_def end_loop_def
        split: if_splits)
next
  case (STakeCancel i e)
  assume "server_inv s" "server_step clk a s = Some t"
  then show ?thesis
    by (auto simp: STakeCancel server_inv_def server_step_def take_cancel_def loop_at_def
        server_stopped_def tr_defs Let_def split: if_splits option.splits)
next
  case (SListen j e)
  assume "server_inv s" "server_step clk a s = Some t"
  then show ?thesis
    by (auto simp: SListen server_inv_def server_step_def server_listen_def tr_defs
        split: if_splits option.splits)
next
  case (SAccept j c)
  assume "server_inv s" "server_step clk a s = Some t"
  then show ?thesis
    by (auto simp: SAccept server_inv_def server_step_def server_accept_def tr_defs Let_def
        split: if_splits sum.splits)
next
  case (SRead i r)
  assume "server_inv s" "server_step clk a s = Some t"
  then show ?thesis
    by (auto simp: SRead server_inv_def server_step_def recv_read_def loop_at_def tr_defs Let_def
        split: if_splits sum.splits option.splits)
next
  case (SSend i r)
  assume "server_inv s" "server_step clk a s = Some t"
  then show ?thesis
    by (auto simp: SSend server_inv_def server_step_def send_next_def loop_at_def tr_defs Let_def
        split: if_splits list.splits option.splits)
qed (auto simp: server_inv_def server_step_def recv_poll_def push_data_def tr_defs split: if_splits)

lemma server_inv_run: "run_steps (server_step clk) as s = Some t \<Longrightarrow> server_inv s \<Longrightarrow> server_inv t"
  by (induction "as" arbitrary: s) (auto split: option.splits dest: server_inv_step)

section \<open>Properties\<close>

definition example_transport :: TcpTransportSettings where
  "example_transport =
     \<lparr>ServerAddr = ''10.0.0.2'', ServerPort = 8500, ClientAddr = [], tsLocalPort = 8500\<rparr>"

text \<open>Over any run of the TCP client in which no write fails, the data written
  to the connection, each followed by the event to report after it, are a prefix of the data the
  controller gave it: nothing is lost, repeated or reordered, and no event comes before its data.\<close>

theorem client_sends_in_order:
  assumes "run_steps (client_step clk) as NewFmtpTcpClient = Some t" and "\<not> panicked t"
    and "\<forall>a \<in> set as. \<not> client_lossy a"
  shows "\<exists>waiting. filter is_sending (trOut t) @ waiting =
    concat (map sending_of (concat (map client_pushed as)))"
  by (rule client_queue.run_sends [OF assms]) (simp_all add: NewFmtpTcpClient_def)

theorem client_sends_in_order_witness:
  "let d = \<lparr>DataToSend = [2, 0, 0, 7, 4, 48, 49], EventAfterSend = LStartup\<rparr>;
       as = [CSettings example_transport None None, CPush d, CSend 1 None]
   in \<exists>t waiting. run_steps (client_step (\<lambda>_. [])) as NewFmtpTcpClient = Some t \<and>
        filter is_sending (trOut t) @ waiting = concat (map sending_of (concat (map client_pushed as)))"
proof -
  let ?d = "\<lparr>DataToSend = [2, 0, 0, 7, 4, 48, 49], EventAfterSend = LStartup\<rparr>"
  let ?as = "[CSettings example_transport None None, CPush ?d, CSend 1 None]"
  obtain t where t: "run_steps (client_step (\<lambda>_. [])) ?as NewFmtpTcpClient = Some t" "\<not> panicked t"
    by (simp add: client_step_def NewFmtpTcpClient_def example_transport_def zeroTcpSettings_def
        startClient_def push_data_def send_next_def loop_at_def tr_defs Let_def)
  have "\<exists>waiting. filter is_sending (trOut t) @ waiting =
      concat (map sending_of (concat (map client_pushed ?as)))"
    by (rule client_sends_in_order [OF t]) simp
  with t(1) show ?thesis unfolding Let_def by blast
qed



text \<open>C27: When a write of the client fails while its read ends too, both loops wait to hand
  their error over; \<open>Work\<close> takes one error and then waits for a loop to take its signal. From there it
  never comes back: whatever happens next, no settings are taken, nothing is sent and nothing reported.\<close>

theorem client_hangs:
  assumes "st \<noteq> zeroTcpSettings"
  shows "\<exists>t. run_steps (client_step clk)
      [CSettings st None None, CPoll 0, CPush d, CSend 1 (Some err), CRead 0 (Inl None), CTakeError 0]
      NewFmtpTcpClient = Some t \<and>
    (\<forall>as u. run_steps (client_step clk) as t = Some u \<longrightarrow> workPc u = WorkCancel \<and> trOut u = trOut t)"
proof -
  obtain t where t: "run_steps (client_step clk)
      [CSettings st None None, CPoll 0, CPush d, CSend 1 (Some err), CRead 0 (Inl None), CTakeError 0]
      NewFmtpTcpClient = Some t" "hung t"
    using assms
    by (simp add: client_step_def NewFmtpTcpClient_def startClient_def push_data_def send_next_def
        recv_poll_def recv_read_def take_error_def hung_def loop_at_def tr_defs Let_def)
  moreover have "workPc u = WorkCancel \<and> trOut u = trOut t"
    if "run_steps (client_step clk) as t = Some u" for as u
    using hung_forever [OF t(2) that] by (simp add: hung_def)
  ultimately show ?thesis by blast
qed

theorem client_hangs_witness:
  "\<exists>t. run_steps (client_step (\<lambda>_. []))
      [CSettings example_transport None None, CPoll 0, CPush \<lparr>DataToSend = [2], EventAfterSend = LData\<rparr>,
       CSend 1 (Some ''broken pipe''), CRead 0 (Inl None), CTakeError 0]
      NewFmtpTcpClient = Some t \<and>
    (\<forall>as u. run_steps (client_step (\<lambda>_. [])) as t = Some u \<longrightarrow> workPc u = WorkCancel \<and> trOut u = trOut t)"
  by (rule client_hangs) (simp add: example_transport_def zeroTcpSettings_def)

end
