(* ===== verification/Json.thy ===== *)
theory Json
  imports Fmtp_Prelude
begin

text \<open>
  What the program uses of Go's \<open>encoding/json\<close>: marshalling a structure to the object of
  its fields and unmarshalling an object into a structure that has a table of fields. A
  document is the value it denotes; its text is not modelled, and neither are fractions,
  which no field of the program takes.

  Unmarshalling goes through the members of the object in their order. A member is stored
  in the field of its name, or else in the first whose name differs in the case of its
  letters only; other members are skipped. A value of the wrong kind leaves the field
  alone, makes the result an error, and the rest is still stored; \<open>null\<close> leaves the field
  alone.
\<close>

datatype json = JNull | JBool bool | JInt int | JStr string | JArr "json list" | JObj "(string \<times> json) list"

type_synonym 's setter = "json \<Rightarrow> 's \<Rightarrow> 's option"

definition set_str :: "(string \<Rightarrow> 's \<Rightarrow> 's) \<Rightarrow> 's setter" where
  "set_str upd j s = (case j of JStr t \<Rightarrow> Some (upd t s) | JNull \<Rightarrow> Some s | _ \<Rightarrow> None)"

definition set_int :: "(int \<Rightarrow> 's \<Rightarrow> 's) \<Rightarrow> 's setter" where
  "set_int upd j s =
     (case j of JInt i \<Rightarrow> if int_min \<le> i \<and> i \<le> int_max then Some (upd i s) else None
      | JNull \<Rightarrow> Some s | _ \<Rightarrow> None)"

definition set_bool :: "(bool \<Rightarrow> 's \<Rightarrow> 's) \<Rightarrow> 's setter" where
  "set_bool upd j s = (case j of JBool b \<Rightarrow> Some (upd b s) | JNull \<Rightarrow> Some s | _ \<Rightarrow> None)"

text \<open>An unsigned field of \<open>n\<close> bits.\<close>

definition set_uint :: "nat \<Rightarrow> (nat \<Rightarrow> 's \<Rightarrow> 's) \<Rightarrow> 's setter" where
  "set_uint n upd j s =
     (case j of JInt i \<Rightarrow> if 0 \<le> i \<and> i < 2 ^ n then Some (upd (nat i) s) else None
      | JNull \<Rightarrow> Some s | _ \<Rightarrow> None)"

definition lower :: "char \<Rightarrow> char" where
  "lower c = (let n = (of_char c :: nat) in if 65 \<le> n \<and> n \<le> 90 then char_of (n + 32) else c)"

definition fold_name :: "string \<Rightarrow> string" where
  "fold_name k = map lower k"

definition find_field :: "(string \<times> 'f) list \<Rightarrow> string \<Rightarrow> 'f option" where
  "find_field fields key =
     (case map_of fields key of
        Some f \<Rightarrow> Some f
      | None \<Rightarrow> map_option snd (find (\<lambda>p. fold_name (fst p) = fold_name key) fields))"

fun unmarshal_members ::
  "(string \<times> 's setter) list \<Rightarrow> (string \<times> json) list \<Rightarrow> 's \<Rightarrow> 's \<times> bool" where
  "unmarshal_members fields [] s = (s, True)"
| "unmarshal_members fields ((key, j) # members) s =
     (case find_field fields key of
        None \<Rightarrow> unmarshal_members fields members s
      | Some store \<Rightarrow>
          (case store j s of
             Some s' \<Rightarrow> unmarshal_members fields members s'
           | None \<Rightarrow> (fst (unmarshal_members fields members s), False)))"

text \<open>A document that is not JSON changes nothing: \<open>None\<close>. The flag is true when there is no
  error.\<close>

definition Unmarshal :: "(string \<times> 's setter) list \<Rightarrow> json option \<Rightarrow> 's \<Rightarrow> 's \<times> bool" where
  "Unmarshal fields doc s =
     (case doc of
        None \<Rightarrow> (s, False)
      | Some (JObj members) \<Rightarrow> unmarshal_members fields members s
      | Some JNull \<Rightarrow> (s, True)
      | Some _ \<Rightarrow> (s, False))"

text \<open>
  Documents with structures and lists inside: a field may be stored in part although its
  value has an error, so a decoder yields the new value and whether there was no error.
  The elements of a list are decoded into new, zero elements.
\<close>

type_synonym 's decoder = "json \<Rightarrow> 's \<Rightarrow> 's \<times> bool"

definition plain :: "'s setter \<Rightarrow> 's decoder" where
  "plain f j s = (case f j s of None \<Rightarrow> (s, False) | Some t \<Rightarrow> (t, True))"

fun decode_members :: "(string \<times> 's decoder) list \<Rightarrow> (string \<times> json) list \<Rightarrow> 's \<Rightarrow> 's \<times> bool" where
  "decode_members fields [] s = (s, True)"
| "decode_members fields ((key, j) # members) s =
     (case find_field fields key of
        None \<Rightarrow> decode_members fields members s
      | Some d \<Rightarrow>
          (let (s, ok) = d j s; (s, ok') = decode_members fields members s in (s, ok \<and> ok')))"

definition decode_object :: "(string \<times> 's decoder) list \<Rightarrow> 's decoder" where
  "decode_object fields j s =
     (case j of JObj members \<Rightarrow> decode_members fields members s | JNull \<Rightarrow> (s, True) | _ \<Rightarrow> (s, False))"

definition decode_field :: "('t \<Rightarrow> 's \<Rightarrow> 's) \<Rightarrow> ('s \<Rightarrow> 't) \<Rightarrow> 't decoder \<Rightarrow> 's decoder" where
  "decode_field upd get d j s = (let (t, ok) = d j (get s) in (upd t s, ok))"

definition decode_list :: "('e list \<Rightarrow> 's \<Rightarrow> 's) \<Rightarrow> 'e \<Rightarrow> 'e decoder \<Rightarrow> 's decoder" where
  "decode_list upd zero d j s =
     (case j of
        JArr js \<Rightarrow> (let rs = map (\<lambda>j. d j zero) js in (upd (map fst rs) s, list_all snd rs))
      | JNull \<Rightarrow> (upd [] s, True)
      | _ \<Rightarrow> (s, False))"

definition decode_string :: "string decoder" where
  "decode_string = plain (set_str (\<lambda>t s. t))"

definition plain_fields :: "(string \<times> 's setter) list \<Rightarrow> (string \<times> 's decoder) list" where
  "plain_fields fields = map (\<lambda>(k, f). (k, plain f)) fields"

section \<open>Lemmas\<close>

lemma find_field_plain: "find_field (plain_fields fields) key = map_option plain (find_field fields key)"
proof -
  have "map_of (plain_fields fields) key = map_option plain (map_of fields key)"
    by (induction fields) (auto simp: plain_fields_def)
  moreover have "find (\<lambda>p. fold_name (fst p) = fold_name key) (plain_fields fields) =
    map_option (\<lambda>(k, f). (k, plain f)) (find (\<lambda>p. fold_name (fst p) = fold_name key) fields)"
    by (induction fields) (auto simp: plain_fields_def)
  ultimately show ?thesis by (simp add: find_field_def option.map_comp comp_def case_prod_beta' split: option.split)
qed

text \<open>A flat structure is decoded as by \<open>Unmarshal\<close>.\<close>

lemma decode_plain:
  "decode_members (plain_fields fields) members s = unmarshal_members fields members s"
proof (induction members arbitrary: s)
  case (Cons m members)
  obtain key j where m: "m = (key, j)" by (cases m)
  show ?case
    by (auto simp: m find_field_plain plain_def Cons.IH case_prod_beta' Let_def prod_eq_iff split: option.split)
qed simp

lemma setter_simps [simp]:
  "set_str u (JStr t) s = Some (u t s)" "set_bool v (JBool b) s = Some (v b s)"
  "int_min \<le> i \<Longrightarrow> i \<le> int_max \<Longrightarrow> set_int w (JInt i) s = Some (w i s)"
  "n < 2 ^ k \<Longrightarrow> set_uint k x (JInt (int n)) s = Some (x n s)"
  by (simp_all add: set_str_def set_bool_def set_int_def set_uint_def)

text \<open>An object with the fields of the table, in any order, stores them one after the other.\<close>

lemma unmarshal_known:
  "map_of fields key = Some store \<Longrightarrow> store j s = Some s' \<Longrightarrow>
   unmarshal_members fields ((key, j) # members) s = unmarshal_members fields members s'"
  by (simp add: find_field_def)

fun store_all :: "('s setter \<times> json) list \<Rightarrow> 's \<Rightarrow> 's option" where
  "store_all [] s = Some s"
| "store_all ((f, j) # fjs) s = (case f j s of None \<Rightarrow> None | Some s' \<Rightarrow> store_all fjs s')"

lemma unmarshal_in_order:
  assumes "distinct (map fst fields)"
  shows "length js = length fs \<Longrightarrow> set fs \<subseteq> set fields \<Longrightarrow>
    store_all (zip (map snd fs) js) s = Some s' \<Longrightarrow>
    unmarshal_members fields (zip (map fst fs) js) s = (s', True)"
proof (induction fs arbitrary: js s)
  case Nil
  then show ?case by simp
next
  case (Cons f fs)
  then obtain j js' where js: "js = j # js'" by (cases js) auto
  obtain k store where f: "f = (k, store)" by (cases f)
  obtain u where u: "store j s = Some u" "store_all (zip (map snd fs) js') u = Some s'"
    using Cons.prems(3) by (auto simp: js f split: option.splits)
  have "map_of fields k = Some store" using Cons.prems(2) assms f by (auto intro: map_of_is_SomeI)
  then show ?case
    using Cons.IH [of js' u] Cons.prems u
    by (simp add: js f unmarshal_known del: unmarshal_members.simps(2))
qed

lemma Unmarshal_whole:
  assumes "distinct (map fst fields)" "length js = length fields"
    and "store_all (zip (map snd fields) js) s = Some s'"
  shows "Unmarshal fields (Some (JObj (zip (map fst fields) js))) s = (s', True)"
  using unmarshal_in_order [OF assms(1,2) _ assms(3)] by (simp add: Unmarshal_def)

text \<open>A member no field has the name of, not even in another case, is skipped.\<close>

lemma unmarshal_other:
  "find_field fields key = None \<Longrightarrow>
   unmarshal_members fields ((key, j) # members) s = unmarshal_members fields members s"
  by simp

lemma find_field_None:
  "find_field fields key = None \<longleftrightarrow> (\<forall>f \<in> set fields. fold_name (fst f) \<noteq> fold_name key)"
  by (auto simp: find_field_def find_None_iff split: option.split dest!: map_of_SomeD) force

end
