(* ===== verification/Chief_Protocol.thy ===== *)
theory Chief_Protocol
  imports Json Channel_Settings Fmtp_Log
begin

text \<open>
  The messages between the controller of the channels (chief) and a channel,
  \<open>chief_channel/chief_channel_protocol.go\<close>, with the JSON names of the fields of the
  structures they embed. A message is a header that names its kind and the fields of its
  parts in one object. Each message is read back as it was made, and its header by whoever
  reads the header alone.
\<close>

section \<open>Constants\<close>

definition InvalidParamCount :: int where "InvalidParamCount = 1001"
definition InvalidNetPort :: int where "InvalidNetPort = 1002"
definition InvalidDaemonID :: int where "InvalidDaemonID = 1003"
definition InvalidWebPort :: int where "InvalidWebPort = 1004"
definition FailToConnect :: int where "FailToConnect = 1005"

definition RequestSettingsHeader :: string where "RequestSettingsHeader = ''RequestSettings''"
definition AnswerSettingsHeader :: string where "AnswerSettingsHeader = ''AnswerSettings''"
definition ChannelHeartbeatHeader :: string where "ChannelHeartbeatHeader = ''DaemonHeartbeat''"
definition ChannelLogHeader :: string where "ChannelLogHeader = ''DaemonLog''"
definition FdpsMessageHeader :: string where "FdpsMessageHeader = ''FdpsMessage''"
definition ChannelMessageHeader :: string where "ChannelMessageHeader = ''DaemonMessage''"

lemmas header_defs =
  RequestSettingsHeader_def AnswerSettingsHeader_def ChannelHeartbeatHeader_def
  ChannelLogHeader_def FdpsMessageHeader_def ChannelMessageHeader_def

section \<open>The messages\<close>

record HeaderMsg =
  Header :: string

record SettingsRequestMsg = HeaderMsg +
  reqChannelID :: int

record SettingsAnswerMsg = HeaderMsg +
  ansSettings :: ChannelSettings

record ChannelHeartbeatMsg = HeaderMsg +
  hbtState :: ChannelState

record ChannelLogMsg = HeaderMsg +
  logMessage :: LogMessage

record DataMsg = HeaderMsg +
  dataChannelID :: int
  dataMessage :: FmtpMessage

definition CreateSettingsRequestMsg :: "int \<Rightarrow> SettingsRequestMsg" where
  "CreateSettingsRequestMsg chID = \<lparr>Header = RequestSettingsHeader, reqChannelID = chID\<rparr>"

definition CreateSettingsAnswerMsg :: "ChannelSettings \<Rightarrow> SettingsAnswerMsg" where
  "CreateSettingsAnswerMsg chSett = \<lparr>Header = AnswerSettingsHeader, ansSettings = chSett\<rparr>"

definition CreateChannelHeartbeatMsg :: "ChannelState \<Rightarrow> ChannelHeartbeatMsg" where
  "CreateChannelHeartbeatMsg state = \<lparr>Header = ChannelHeartbeatHeader, hbtState = state\<rparr>"

definition CreateChannelLogMsg :: "LogMessage \<Rightarrow> ChannelLogMsg" where
  "CreateChannelLogMsg l = \<lparr>Header = ChannelLogHeader, logMessage = l\<rparr>"

definition CreateChiefDataMsg :: "int \<Rightarrow> string \<Rightarrow> DataMsg" where
  "CreateChiefDataMsg chID txt =
     \<lparr>Header = FdpsMessageHeader, dataChannelID = chID,
      dataMessage = \<lparr>msgType = Operational, msgText = txt\<rparr>\<rparr>"

definition CreateChannelDataMsg :: "int \<Rightarrow> FmtpMessage \<Rightarrow> DataMsg" where
  "CreateChannelDataMsg chID message =
     \<lparr>Header = ChannelMessageHeader, dataChannelID = chID, dataMessage = message\<rparr>"

section \<open>Their fields\<close>

definition header_field :: "string \<times> 'a HeaderMsg_scheme setter" where
  "header_field = (''MessageType'', set_str (\<lambda>t. Header_update (\<lambda>_. t)))"

definition header_fields :: "(string \<times> HeaderMsg setter) list" where
  "header_fields = [header_field]"

text \<open>
  \<open>ChannelSettings\<close>. Two of its fields have the name \<open>FmtpInitState\<close>: the text, by its tag,
  and the state, which has none. The tagged one is the field of the document.
\<close>

definition settings_fields :: "(string \<times> ChannelSettings setter) list" where
  "settings_fields =
    [(''DaemonID'', set_int (\<lambda>v. csId_update (\<lambda>_. v))),
     (''Version'', set_str (\<lambda>v. csVersion_update (\<lambda>_. v))),
     (''DataType'', set_str (\<lambda>v. csDataType_update (\<lambda>_. v))),
     (''NetRole'', set_str (\<lambda>v. NetRole_update (\<lambda>_. v))),
     (''LocalName'', set_str (\<lambda>v. csLocalName_update (\<lambda>_. v))),
     (''LocalATC'', set_str (\<lambda>v. LocalATC_update (\<lambda>_. v))),
     (''RemoteName'', set_str (\<lambda>v. csRemoteName_update (\<lambda>_. v))),
     (''RemoteATC'', set_str (\<lambda>v. RemoteATC_update (\<lambda>_. v))),
     (''Ts'', set_int (\<lambda>v. IntervalTs_update (\<lambda>_. v))),
     (''Tr'', set_int (\<lambda>v. IntervalTr_update (\<lambda>_. v))),
     (''Ti'', set_int (\<lambda>v. IntervalTi_update (\<lambda>_. v))),
     (''ReconnectTimeout'', set_int (\<lambda>v. ReconnectTimeout_update (\<lambda>_. v))),
     (''FmtpInitState'', set_str (\<lambda>v. FmtpInitStateStr_update (\<lambda>_. v))),
     (''RemoteAddress'', set_str (\<lambda>v. RemoteAddress_update (\<lambda>_. v))),
     (''RemotePort'', set_int (\<lambda>v. RemotePort_update (\<lambda>_. v))),
     (''LocalPort'', set_int (\<lambda>v. csLocalPort_update (\<lambda>_. v))),
     (''DataEncoding'', set_str (\<lambda>v. DataEncoding_update (\<lambda>_. v))),
     (''DebugLog'', set_bool (\<lambda>v. LogDebug_update (\<lambda>_. v))),
     (''State'', set_bool (\<lambda>v. IsWorking_update (\<lambda>_. v))),
     (''URLAddress'', set_str (\<lambda>v. URLAddress_update (\<lambda>_. v))),
     (''URLPath'', set_str (\<lambda>v. URLPath_update (\<lambda>_. v))),
     (''URLPort'', set_int (\<lambda>v. URLPort_update (\<lambda>_. v)))]"

definition settings_values :: "ChannelSettings \<Rightarrow> json list" where
  "settings_values s =
    [JInt (csId s), JStr (csVersion s), JStr (csDataType s), JStr (NetRole s), JStr (csLocalName s),
     JStr (LocalATC s), JStr (csRemoteName s), JStr (RemoteATC s), JInt (IntervalTs s),
     JInt (IntervalTr s), JInt (IntervalTi s), JInt (ReconnectTimeout s), JStr (FmtpInitStateStr s),
     JStr (RemoteAddress s), JInt (RemotePort s), JInt (csLocalPort s), JStr (DataEncoding s),
     JBool (LogDebug s), JBool (IsWorking s), JStr (URLAddress s), JStr (URLPath s), JInt (URLPort s)]"

definition state_fields :: "(string \<times> ChannelState setter) list" where
  "state_fields =
    [(''DaemonID'', set_int (\<lambda>v. ChannelID_update (\<lambda>_. v))),
     (''LocalName'', set_str (\<lambda>v. stLocalName_update (\<lambda>_. v))),
     (''RemoteName'', set_str (\<lambda>v. stRemoteName_update (\<lambda>_. v))),
     (''DaemonState'', set_str (\<lambda>v. DaemonState_update (\<lambda>_. v))),
     (''FmtpState'', set_str (\<lambda>v. stFmtpState_update (\<lambda>_. v))),
     (''ChannelURL'', set_str (\<lambda>v. ChannelURL_update (\<lambda>_. v)))]"

definition state_values :: "ChannelState \<Rightarrow> json list" where
  "state_values s =
    [JInt (ChannelID s), JStr (stLocalName s), JStr (stRemoteName s), JStr (DaemonState s),
     JStr (stFmtpState s), JStr (ChannelURL s)]"

definition log_json_fields :: "(string \<times> LogMessage setter) list" where
  "log_json_fields =
    [(''ControllerIP'', set_str (\<lambda>v. ControllerIP_update (\<lambda>_. v))),
     (''Source'', set_str (\<lambda>v. logSource_update (\<lambda>_. v))),
     (''DaemonID'', set_int (\<lambda>v. logChannelId_update (\<lambda>_. v))),
     (''LocalName'', set_str (\<lambda>v. ChannelLocName_update (\<lambda>_. v))),
     (''RemoteName'', set_str (\<lambda>v. ChannelRemName_update (\<lambda>_. v))),
     (''DataType'', set_str (\<lambda>v. logDataType_update (\<lambda>_. v))),
     (''Severity'', set_str (\<lambda>v. Severity_update (\<lambda>_. v))),
     (''FmtpType'', set_str (\<lambda>v. FmtpType_update (\<lambda>_. v))),
     (''Direction'', set_str (\<lambda>v. Direction_update (\<lambda>_. v))),
     (''Text'', set_str (\<lambda>v. logText_update (\<lambda>_. v))),
     (''DateTime'', set_str (\<lambda>v. DateTime_update (\<lambda>_. v)))]"

definition log_values :: "LogMessage \<Rightarrow> json list" where
  "log_values l =
    [JStr (ControllerIP l), JStr (logSource l), JInt (logChannelId l), JStr (ChannelLocName l),
     JStr (ChannelRemName l), JStr (logDataType l), JStr (Severity l), JStr (FmtpType l),
     JStr (Direction l), JStr (logText l), JStr (DateTime l)]"

text \<open>The fields of an embedded structure are fields of the structure around it.\<close>

definition embed ::
  "(('t \<Rightarrow> 't) \<Rightarrow> 's \<Rightarrow> 's) \<Rightarrow> ('s \<Rightarrow> 't) \<Rightarrow> (string \<times> 't setter) list \<Rightarrow> (string \<times> 's setter) list" where
  "embed upd get fs =
     map (\<lambda>(k, f). (k, \<lambda>j s. map_option (\<lambda>t. upd (\<lambda>_. t) s) (f j (get s)))) fs"

definition request_fields :: "(string \<times> SettingsRequestMsg setter) list" where
  "request_fields = [header_field, (''ChannelID'', set_int (\<lambda>v. reqChannelID_update (\<lambda>_. v)))]"

definition answer_fields :: "(string \<times> SettingsAnswerMsg setter) list" where
  "answer_fields = header_field # embed ansSettings_update ansSettings settings_fields"

definition heartbeat_fields :: "(string \<times> ChannelHeartbeatMsg setter) list" where
  "heartbeat_fields = header_field # embed hbtState_update hbtState state_fields"

definition log_msg_fields :: "(string \<times> ChannelLogMsg setter) list" where
  "log_msg_fields = header_field # embed logMessage_update logMessage log_json_fields"

definition message_fields :: "(string \<times> FmtpMessage setter) list" where
  "message_fields =
    [(''Omitted'', set_uint 8 (\<lambda>v. msgType_update (\<lambda>_. of_nat v))),
     (''Text'', set_str (\<lambda>v. msgText_update (\<lambda>_. v)))]"

definition data_fields :: "(string \<times> DataMsg setter) list" where
  "data_fields = header_field # (''ChannelID'', set_int (\<lambda>v. dataChannelID_update (\<lambda>_. v))) #
     embed dataMessage_update dataMessage message_fields"

section \<open>Marshalling\<close>

definition marshal_request :: "SettingsRequestMsg \<Rightarrow> json" where
  "marshal_request m = JObj (zip (map fst request_fields) [JStr (Header m), JInt (reqChannelID m)])"

definition marshal_answer :: "SettingsAnswerMsg \<Rightarrow> json" where
  "marshal_answer m = JObj (zip (map fst answer_fields) (JStr (Header m) # settings_values (ansSettings m)))"

definition marshal_heartbeat :: "ChannelHeartbeatMsg \<Rightarrow> json" where
  "marshal_heartbeat m = JObj (zip (map fst heartbeat_fields) (JStr (Header m) # state_values (hbtState m)))"

definition marshal_log :: "ChannelLogMsg \<Rightarrow> json" where
  "marshal_log m = JObj (zip (map fst log_msg_fields) (JStr (Header m) # log_values (logMessage m)))"

text \<open>Of the two fields of a message, the empty ones are left out.\<close>

definition marshal_data :: "DataMsg \<Rightarrow> json" where
  "marshal_data m = JObj ([(''MessageType'', JStr (Header m)), (''ChannelID'', JInt (dataChannelID m))] @
     (if msgType (dataMessage m) = 0 then [] else [(''Omitted'', JInt (int (unat (msgType (dataMessage m)))))]) @
     (if msgText (dataMessage m) = [] then [] else [(''Text'', JStr (msgText (dataMessage m)))]))"

section \<open>Round trips\<close>

text \<open>Go's \<open>int\<close> is a 64-bit integer.\<close>

definition int64 :: "int \<Rightarrow> bool" where
  "int64 i \<longleftrightarrow> int_min \<le> i \<and> i \<le> int_max"

definition settings_in_range :: "ChannelSettings \<Rightarrow> bool" where
  "settings_in_range s \<longleftrightarrow>
     int64 (csId s) \<and> int64 (IntervalTs s) \<and> int64 (IntervalTr s) \<and> int64 (IntervalTi s) \<and>
     int64 (ReconnectTimeout s) \<and> int64 (RemotePort s) \<and> int64 (csLocalPort s) \<and> int64 (URLPort s)"

text \<open>Storing through an embedded structure stores in it.\<close>

lemma store_embed:
  assumes "\<And>t s. get (upd (\<lambda>_. t) s) = t" and "\<And>t u s. upd (\<lambda>_. t) (upd (\<lambda>_. u) s) = upd (\<lambda>_. t) s"
    and "\<And>s. upd (\<lambda>_. get s) s = s"
  shows "length js = length fs \<Longrightarrow>
    store_all (zip (map snd (embed upd get fs)) js) s =
      map_option (\<lambda>t. upd (\<lambda>_. t) s) (store_all (zip (map snd fs) js) (get s))"
proof (induction fs arbitrary: js s)
  case Nil
  then show ?case by (simp add: embed_def assms(3))
next
  case (Cons f fs)
  then obtain j js' where js: "js = j # js'" "length js' = length fs" by (cases js) auto
  obtain k g where f: "f = (k, g)" by (cases f)
  show ?case
  proof (cases "g j (get s)")
    case None
    then show ?thesis by (simp add: embed_def f js)
  next
    case (Some t)
    have "store_all (zip (map snd (embed upd get fs)) js') (upd (\<lambda>_. t) s) =
      map_option (\<lambda>t. upd (\<lambda>_. t) s) (store_all (zip (map snd fs) js') t)"
      using Cons.IH [OF js(2), of "upd (\<lambda>_. t) s"] by (simp add: assms(1,2))
    then show ?thesis using Some by (simp add: embed_def f js)
  qed
qed

lemma fst_embed [simp]: "map fst (embed upd get fs) = map fst fs"
  by (induction fs) (auto simp: embed_def)

lemma store_settings:
  "settings_in_range s \<Longrightarrow>
   store_all (zip (map snd settings_fields) (settings_values s)) t =
     Some (s\<lparr>FmtpInitState := FmtpInitState t\<rparr>)"
  by (simp add: settings_fields_def settings_values_def settings_in_range_def int64_def)

lemma store_state:
  "int64 (ChannelID s) \<Longrightarrow>
   store_all (zip (map snd state_fields) (state_values s)) t = Some (s\<lparr>StateColor := StateColor t\<rparr>)"
  by (simp add: state_fields_def state_values_def int64_def)

lemma store_log:
  "id_in_range l \<Longrightarrow> store_all (zip (map snd log_json_fields) (log_values l)) t = Some l"
  by (simp add: log_json_fields_def log_values_def id_in_range_def)

lemma field_names_distinct:
  "distinct (map fst request_fields)" "distinct (map fst answer_fields)"
  "distinct (map fst heartbeat_fields)" "distinct (map fst log_msg_fields)"
  by (simp_all add: request_fields_def answer_fields_def heartbeat_fields_def log_msg_fields_def
      header_field_def settings_fields_def state_fields_def log_json_fields_def)

lemma header_store [simp]: "snd header_field (JStr t) m = Some (m\<lparr>Header := t\<rparr>)"
  by (simp add: header_field_def)

lemma read_request:
  "int64 (reqChannelID m) \<Longrightarrow> Unmarshal request_fields (Some (marshal_request m)) z = (m, True)"
  unfolding marshal_request_def
  by (rule Unmarshal_whole [OF field_names_distinct(1)]) (simp_all add: request_fields_def int64_def)

lemma read_answer:
  assumes "settings_in_range (ansSettings m)"
  shows "Unmarshal answer_fields (Some (marshal_answer m)) z =
    (m\<lparr>ansSettings := (ansSettings m)\<lparr>FmtpInitState := FmtpInitState (ansSettings z)\<rparr>\<rparr>, True)"
  unfolding marshal_answer_def
proof (rule Unmarshal_whole [OF field_names_distinct(2)])
  have len: "length (settings_values (ansSettings m)) = length settings_fields"
    by (simp add: settings_values_def settings_fields_def)
  show "length (JStr (Header m) # settings_values (ansSettings m)) = length answer_fields"
    using len by (simp add: answer_fields_def embed_def)
  show "store_all (zip (map snd answer_fields) (JStr (Header m) # settings_values (ansSettings m))) z =
      Some (m\<lparr>ansSettings := (ansSettings m)\<lparr>FmtpInitState := FmtpInitState (ansSettings z)\<rparr>\<rparr>)"
    using assms by (simp add: answer_fields_def store_embed [OF _ _ _ len] store_settings)
qed

lemma read_heartbeat:
  assumes "int64 (ChannelID (hbtState m))"
  shows "Unmarshal heartbeat_fields (Some (marshal_heartbeat m)) z =
    (m\<lparr>hbtState := (hbtState m)\<lparr>StateColor := StateColor (hbtState z)\<rparr>\<rparr>, True)"
  unfolding marshal_heartbeat_def
proof (rule Unmarshal_whole [OF field_names_distinct(3)])
  have len: "length (state_values (hbtState m)) = length state_fields"
    by (simp add: state_values_def state_fields_def)
  show "length (JStr (Header m) # state_values (hbtState m)) = length heartbeat_fields"
    using len by (simp add: heartbeat_fields_def embed_def)
  show "store_all (zip (map snd heartbeat_fields) (JStr (Header m) # state_values (hbtState m))) z =
      Some (m\<lparr>hbtState := (hbtState m)\<lparr>StateColor := StateColor (hbtState z)\<rparr>\<rparr>)"
    using assms by (simp add: heartbeat_fields_def store_embed [OF _ _ _ len] store_state)
qed

lemma read_log:
  assumes "id_in_range (logMessage m)"
  shows "Unmarshal log_msg_fields (Some (marshal_log m)) z = (m, True)"
  unfolding marshal_log_def
proof (rule Unmarshal_whole [OF field_names_distinct(4)])
  have len: "length (log_values (logMessage m)) = length log_json_fields"
    by (simp add: log_values_def log_json_fields_def)
  show "length (JStr (Header m) # log_values (logMessage m)) = length log_msg_fields"
    using len by (simp add: log_msg_fields_def embed_def)
  show "store_all (zip (map snd log_msg_fields) (JStr (Header m) # log_values (logMessage m))) z = Some m"
    using assms by (simp add: log_msg_fields_def store_embed [OF _ _ _ len] store_log)
qed

text \<open>Read into a message with nothing in it, as the program does.\<close>

definition zeroDataMsg :: DataMsg where
  "zeroDataMsg = \<lparr>Header = [], dataChannelID = 0, dataMessage = \<lparr>msgType = 0, msgText = []\<rparr>\<rparr>"

lemma data_lookup:
  "find_field data_fields ''MessageType'' = Some (snd header_field)"
  "find_field data_fields ''ChannelID'' = Some (set_int (\<lambda>v. dataChannelID_update (\<lambda>_. v)))"
  "find_field data_fields ''Omitted'' =
     Some (\<lambda>j s. map_option (\<lambda>t. dataMessage_update (\<lambda>_. t) s)
       (set_uint 8 (\<lambda>v. msgType_update (\<lambda>_. of_nat v)) j (dataMessage s)))"
  "find_field data_fields ''Text'' =
     Some (\<lambda>j s. map_option (\<lambda>t. dataMessage_update (\<lambda>_. t) s)
       (set_str (\<lambda>v. msgText_update (\<lambda>_. v)) j (dataMessage s)))"
  by (simp_all add: find_field_def data_fields_def header_field_def embed_def message_fields_def)

lemma read_data:
  assumes "int64 (dataChannelID m)"
  shows "Unmarshal data_fields (Some (marshal_data m)) zeroDataMsg = (m, True)"
proof -
  have "uint (msgType (dataMessage m)) < 256"
    using unsigned_less [of "msgType (dataMessage m)", where ?'a = int] by simp
  then show ?thesis
    using assms
    by (simp add: Unmarshal_def marshal_data_def data_lookup zeroDataMsg_def int64_def set_uint_def)
qed

section \<open>Reading the header alone\<close>

lemma header_member:
  "unmarshal_members header_fields ((''MessageType'', JStr t) # members) h =
   unmarshal_members header_fields members (h\<lparr>Header := t\<rparr>)"
  by (rule unmarshal_known [of _ _ "snd header_field"]) (simp_all add: header_fields_def header_field_def)

lemma header_skips:
  "\<forall>m \<in> set members. fold_name (fst m) \<noteq> fold_name ''MessageType'' \<Longrightarrow>
   unmarshal_members header_fields members h = (h, True)"
proof (induction members)
  case (Cons m members)
  obtain k j where m: "m = (k, j)" by (cases m)
  have "fold_name ''MessageType'' \<noteq> fold_name k" using Cons.prems m by auto
  then have "find_field header_fields k = None"
    by (simp add: find_field_None header_fields_def header_field_def)
  then show ?case using Cons by (simp add: m)
qed simp

lemma header_of_object:
  assumes "\<forall>k \<in> set names. fold_name k \<noteq> fold_name ''MessageType''"
  shows "Unmarshal header_fields (Some (JObj ((''MessageType'', JStr t) # zip names js))) h =
    (h\<lparr>Header := t\<rparr>, True)"
proof -
  have "\<forall>m \<in> set (zip names js). fold_name (fst m) \<noteq> fold_name ''MessageType''"
  proof
    fix m assume m: "m \<in> set (zip names js)"
    have "fst m \<in> set names" using m set_zip_leftD [of "fst m" "snd m" names js] by simp
    then show "fold_name (fst m) \<noteq> fold_name ''MessageType''" using assms by blast
  qed
  then show ?thesis unfolding Unmarshal_def by (simp only: option.case json.case header_member header_skips)
qed

lemma other_names:
  "\<forall>k \<in> set (map fst settings_fields). fold_name k \<noteq> fold_name ''MessageType''"
  "\<forall>k \<in> set (map fst state_fields). fold_name k \<noteq> fold_name ''MessageType''"
  "\<forall>k \<in> set (map fst log_json_fields). fold_name k \<noteq> fold_name ''MessageType''"
  "fold_name ''ChannelID'' \<noteq> fold_name ''MessageType''"
  "fold_name ''Omitted'' \<noteq> fold_name ''MessageType''"
  "fold_name ''Text'' \<noteq> fold_name ''MessageType''"
  by (simp_all add: settings_fields_def state_fields_def log_json_fields_def fold_name_def lower_def)

text \<open>The receiver of a message finds its kind by reading the header alone.\<close>

lemma read_headers:
  "Unmarshal header_fields (Some (marshal_request req)) h = (h\<lparr>Header := Header req\<rparr>, True)"
  "Unmarshal header_fields (Some (marshal_answer ans)) h = (h\<lparr>Header := Header ans\<rparr>, True)"
  "Unmarshal header_fields (Some (marshal_heartbeat hbt)) h = (h\<lparr>Header := Header hbt\<rparr>, True)"
  "Unmarshal header_fields (Some (marshal_log lg)) h = (h\<lparr>Header := Header lg\<rparr>, True)"
  "Unmarshal header_fields (Some (marshal_data dat)) h = (h\<lparr>Header := Header dat\<rparr>, True)"
proof -
  show "Unmarshal header_fields (Some (marshal_request req)) h = (h\<lparr>Header := Header req\<rparr>, True)"
    using header_of_object [of "[''ChannelID'']" "Header req" "[JInt (reqChannelID req)]" h] other_names(4)
    by (simp add: marshal_request_def request_fields_def header_field_def)
  show "Unmarshal header_fields (Some (marshal_answer ans)) h = (h\<lparr>Header := Header ans\<rparr>, True)"
    using header_of_object [OF other_names(1)]
    by (simp add: marshal_answer_def answer_fields_def header_field_def)
  show "Unmarshal header_fields (Some (marshal_heartbeat hbt)) h = (h\<lparr>Header := Header hbt\<rparr>, True)"
    using header_of_object [OF other_names(2)]
    by (simp add: marshal_heartbeat_def heartbeat_fields_def header_field_def)
  show "Unmarshal header_fields (Some (marshal_log lg)) h = (h\<lparr>Header := Header lg\<rparr>, True)"
    using header_of_object [OF other_names(3)]
    by (simp add: marshal_log_def log_msg_fields_def header_field_def)
  show "Unmarshal header_fields (Some (marshal_data dat)) h = (h\<lparr>Header := Header dat\<rparr>, True)"
    using other_names(4-6)
    by (simp add: marshal_data_def Unmarshal_def header_member header_skips
        del: unmarshal_members.simps(2))
qed

section \<open>Properties\<close>


text \<open>The messages of a channel with the settings of an example.\<close>

definition example_state :: ChannelState where
  "example_state = \<lparr>ChannelID = 1, stLocalName = ''UUWV'', stRemoteName = ''Remote'', DaemonState = ''ok'',
     stFmtpState = ''data_ready'', ChannelURL = ''http://10.0.0.1:13001/channel'', StateColor = []\<rparr>"

lemma examples_in_range: "settings_in_range example_client" "settings_in_range example_server"
  by (simp_all add: settings_in_range_def int64_def int_min_def int_max_def example_defs)


end
