(* ===== verification/Channel_Main.thy ===== *)
theory Channel_Main
  imports Chief_Protocol
begin

text \<open>
  The application of a channel, \<open>channel/fmtp_channel.go\<close>: the arguments it starts with and
  the loop that joins the client of the chief and the state controller. The global variables
  the loop changes are the settings of the channel; what it sends, prints and shows is
  appended to \<open>appOut\<close>. Data from the chief are a text and the JSON value it denotes, if any.
\<close>

section \<open>State\<close>

record app_env =
  appClock :: "nat \<Rightarrow> string"
  jsonError :: "string \<Rightarrow> string"
  stateOrder :: "(FmtpState \<times> string) list"

datatype print_level = PrintDebug | PrintInfo | PrintWarn | PrintErr

record ws_data =
  wsText :: string
  wsDoc :: "json option"

record ClientSettings =
  ChiefAddress :: string
  ChiefPort :: int
  clChannelID :: int

datatype app_effect =
  ToChief json
| Printf print_level LogMessage
| StartController ChannelSettings
| ToController FmtpMessage
| SetParam string string string
| SetVersion string
| ClientStart ClientSettings

record channel_app =
  channelSetts :: ChannelSettings
  webPath :: string
  webPort :: int
  appOut :: "app_effect list"

definition app_emit :: "app_effect \<Rightarrow> channel_app \<Rightarrow> channel_app" where
  "app_emit e a = a\<lparr>appOut := appOut a @ [e]\<rparr>"

section \<open>Messages for the journal\<close>

definition severity_print :: "string \<Rightarrow> print_level" where
  "severity_print sev =
     (if sev = SeverityDebug then PrintDebug
      else if sev = SeverityInfo then PrintInfo
      else if sev = SeverityWarning then PrintWarn
      else if sev = SeverityError then PrintErr
      else PrintDebug)"

definition completeLogMessage :: "LogMessage \<Rightarrow> channel_app \<Rightarrow> LogMessage \<times> channel_app" where
  "completeLogMessage logMsg a =
     (let logMsg = logMsg\<lparr>logChannelId := csId (channelSetts a),
                          ChannelLocName := LocalATC (channelSetts a),
                          ChannelRemName := RemoteATC (channelSetts a),
                          logDataType := csDataType (channelSetts a)\<rparr>
      in (logMsg, app_emit (Printf (severity_print (Severity logMsg)) logMsg) a))"

text \<open>Complete, then send: what \<open>createLogMessage\<close> and the cases of the loop do.\<close>

definition send_log :: "LogMessage \<Rightarrow> channel_app \<Rightarrow> channel_app" where
  "send_log curLog a =
     (let (curLog, a) = completeLogMessage curLog a
      in app_emit (ToChief (marshal_log (CreateChannelLogMsg curLog))) a)"

definition createLogMessage :: "app_env \<Rightarrow> string \<Rightarrow> string \<Rightarrow> channel_app \<Rightarrow> channel_app" where
  "createLogMessage env severity txt a =
     send_log (LogChannelST (appClock env (length (appOut a))) severity txt) a"

section \<open>The start\<close>

definition mainStart :: "string list \<Rightarrow> int + channel_app" where
  "mainStart args =
     (if length args = 8 then
        (let (chiefPort, ok1) = Atoi (args ! 1)
         in if \<not> ok1 then Inl InvalidNetPort
            else let (ident, ok2) = Atoi (args ! 2)
              in if \<not> ok2 then Inl InvalidDaemonID
                 else let setts = zeroChannelSettings\<lparr>csId := ident, LocalATC := args ! 3,
                                    RemoteATC := args ! 4, csDataType := args ! 5\<rparr>;
                          (port, ok3) = Atoi (args ! 7)
                      in if \<not> ok3 then Inl InvalidWebPort
                         else Inr \<lparr>channelSetts = setts, webPath = args ! 6, webPort = port,
                                appOut = [ClientStart \<lparr>ChiefAddress = ''127.0.0.1'', ChiefPort = chiefPort,
                                                       clChannelID = ident\<rparr>]\<rparr>)
      else Inl InvalidParamCount)"

section \<open>The loop\<close>

definition show_settings :: "channel_app \<Rightarrow> channel_app" where
  "show_settings a =
     (let s = channelSetts a;
          a = app_emit (SetParam ((ru ''Lokal8nyj - udalennyj '') @ ''ATC:'') (LocalATC s @ '' - '' @ RemoteATC s) WebDefaultColor) a;
          a = app_emit (SetParam (ru ''Tip dannyh:'') (csDataType s) WebDefaultColor) a;
          a = app_emit (SetParam (ru ''Kodirovka:'') (DataEncoding s) WebDefaultColor) a;
          a = (if NetRole s = ''server'' then
                 app_emit (SetParam (ru ''Lokal8nyj port:'') (Itoa (csLocalPort s)) WebDefaultColor)
                   (app_emit (SetParam (ru ''Tip podkl04eni9:'') (''TCP '' @ (ru ''server'')) WebDefaultColor) a)
               else
                 app_emit (SetParam (ru ''Udalennyj port:'') (Itoa (RemotePort s)) WebDefaultColor)
                   (app_emit (SetParam ((ru ''Udalennyj '') @ ''IP '' @ (ru ''adres:'')) (RemoteAddress s) WebDefaultColor)
                     (app_emit (SetParam (ru ''Tip podkl04eni9:'') (''TCP '' @ (ru ''klient'')) WebDefaultColor) a)))
      in app_emit (SetVersion (csVersion s)) a)"

definition from_chief_error :: "app_env \<Rightarrow> ws_data \<Rightarrow> channel_app \<Rightarrow> channel_app" where
  "from_chief_error env curData a = createLogMessage env SeverityError
     ((ru ''Ot kontrollera polu4eno soobqenie neizvestnogo formata. Soobqenie: '' @ ''<'') @ wsText curData @
      (''>. '' @ ru ''Owibka: '' @ ''<'') @ jsonError env (wsText curData) @ ''>.'') a"

definition answer_settings :: "app_env \<Rightarrow> ws_data \<Rightarrow> channel_app \<Rightarrow> channel_app" where
  "answer_settings env curData a =
     (let (setts, ok) = Unmarshal settings_fields (wsDoc curData) (channelSetts a);
          a = a\<lparr>channelSetts := setts\<rparr>
      in if ok then
           (case CheckSettings (stateOrder env) (channelSetts a) of
              (Some checkErr, s) \<Rightarrow>
                createLogMessage env SeverityError
                  ((ru ''Polu4eny nekorrektnye nastrojki. Nastrojki: '' @ ''<'') @ ToLogMessage s @
                   (''>. '' @ ru ''Owibka: '' @ ''<'') @ checkErr @ ''>'') (a\<lparr>channelSetts := s\<rparr>)
            | (None, s) \<Rightarrow>
                (let a = createLogMessage env SeverityDebug
                           ((ru ''Polu4eny nastrojki. Nastrojki: '' @ ''<'') @ ToLogMessage s @ ''>'')
                           (a\<lparr>channelSetts := s\<rparr>);
                     a = app_emit (StartController s) a
                 in show_settings a))
         else createLogMessage env SeverityError
                ((ru ''Polu4eno soobqenie neizvestnogo formata. Soobqenie: '' @ ''<'') @ wsText curData @
                 (''>. '' @ ru ''Owibka: '' @ ''<'') @ jsonError env (wsText curData) @ ''>.'') a)"

definition fdps_message :: "app_env \<Rightarrow> ws_data \<Rightarrow> channel_app \<Rightarrow> channel_app" where
  "fdps_message env curData a =
     (let (curDataMsg, ok) = Unmarshal data_fields (wsDoc curData) zeroDataMsg
      in if ok then app_emit (ToController (dataMessage curDataMsg)) a
         else from_chief_error env curData a)"

definition from_chief :: "app_env \<Rightarrow> ws_data \<Rightarrow> channel_app \<Rightarrow> channel_app" where
  "from_chief env curData a =
     (let (headerMsg, ok) = Unmarshal header_fields (wsDoc curData) \<lparr>Header = []\<rparr>
      in if ok then
           (if Header headerMsg = AnswerSettingsHeader then answer_settings env curData a
            else if Header headerMsg = FdpsMessageHeader then fdps_message env curData a
            else a)
         else from_chief_error env curData a)"

datatype app_input =
  FromChiefData ws_data
| ClientLog LogMessage
| ClientClose
| ControllerState ChannelState
| ControllerLog LogMessage
| ControllerData FmtpMessage

text \<open>One iteration: the code the application returns with, or its next state.\<close>

fun app_step :: "app_env \<Rightarrow> app_input \<Rightarrow> channel_app \<Rightarrow> int + channel_app" where
  "app_step env (FromChiefData d) a = Inr (from_chief env d a)"
| "app_step env (ClientLog l) a = Inr (send_log l a)"
| "app_step env ClientClose a = Inl FailToConnect"
| "app_step env (ControllerState s) a =
     Inr (app_emit (ToChief (marshal_heartbeat (CreateChannelHeartbeatMsg s)))
       (if stFmtpState s = ''data_ready''
        then app_emit (SetParam (''FMTP '' @ (ru ''sosto9nie:'')) (stFmtpState s) WebOkColor) a
        else app_emit (SetParam (''FMTP '' @ (ru ''sosto9nie:'')) (stFmtpState s) WebErrorColor) a))"
| "app_step env (ControllerLog l) a = Inr (send_log l a)"
| "app_step env (ControllerData m) a =
     Inr (app_emit (ToChief (marshal_data (CreateChannelDataMsg (csId (channelSetts a)) m))) a)"

section \<open>Lemmas\<close>

lemma app_emit_simps [simp]:
  "channelSetts (app_emit e a) = channelSetts a" "appOut (app_emit e a) = appOut a @ [e]"
  by (simp_all add: app_emit_def)

lemma headers_distinct [simp]:
  "FdpsMessageHeader \<noteq> AnswerSettingsHeader" "AnswerSettingsHeader \<noteq> FdpsMessageHeader"
  by (simp_all add: header_defs)

text \<open>The answer of the chief is read into the settings of the channel itself.\<close>

lemma settings_skip_header:
  "Unmarshal settings_fields (Some (marshal_answer m)) z =
   Unmarshal settings_fields (Some (JObj (zip (map fst settings_fields) (settings_values (ansSettings m))))) z"
proof -
  have other: "find_field settings_fields ''MessageType'' = None"
    using other_names(1) by (auto simp: find_field_None)
  have "Unmarshal settings_fields (Some (JObj ((''MessageType'', j) # members))) z =
      Unmarshal settings_fields (Some (JObj members)) z" for j members
    by (simp add: Unmarshal_def unmarshal_other [OF other] del: unmarshal_members.simps(2))
  then show ?thesis by (simp add: marshal_answer_def answer_fields_def header_field_def)
qed

lemma read_settings:
  assumes "settings_in_range (ansSettings m)"
  shows "Unmarshal settings_fields (Some (marshal_answer m)) z =
    ((ansSettings m)\<lparr>FmtpInitState := FmtpInitState z\<rparr>, True)"
  unfolding settings_skip_header
proof (rule Unmarshal_whole)
  show "distinct (map fst settings_fields)" by (simp add: settings_fields_def)
  show "length (settings_values (ansSettings m)) = length settings_fields"
    by (simp add: settings_values_def settings_fields_def)
  show "store_all (zip (map snd settings_fields) (settings_values (ansSettings m))) z =
      Some ((ansSettings m)\<lparr>FmtpInitState := FmtpInitState z\<rparr>)"
    by (rule store_settings [OF assms])
qed

definition started :: "channel_app \<Rightarrow> ChannelSettings list" where
  "started a = concat (map (\<lambda>e. case e of StartController s \<Rightarrow> [s] | _ \<Rightarrow> []) (appOut a))"

definition to_controller :: "channel_app \<Rightarrow> FmtpMessage list" where
  "to_controller a = concat (map (\<lambda>e. case e of ToController m \<Rightarrow> [m] | _ \<Rightarrow> []) (appOut a))"

definition to_chief :: "channel_app \<Rightarrow> json list" where
  "to_chief a = concat (map (\<lambda>e. case e of ToChief j \<Rightarrow> [j] | _ \<Rightarrow> []) (appOut a))"

lemmas app_projections = started_def to_controller_def to_chief_def

lemma createLogMessage_frame [simp]:
  "channelSetts (createLogMessage env sv t a) = channelSetts a"
  "started (createLogMessage env sv t a) = started a"
  "to_controller (createLogMessage env sv t a) = to_controller a"
  by (simp_all add: createLogMessage_def send_log_def completeLogMessage_def app_projections Let_def)

lemma show_settings_frame [simp]:
  "channelSetts (show_settings a) = channelSetts a" "started (show_settings a) = started a"
  "to_controller (show_settings a) = to_controller a"
  by (simp_all add: show_settings_def Let_def app_projections)

lemma answer_starts:
  assumes "settings_ok s" "settings_in_range s"
    and "wsDoc d = Some (marshal_answer (CreateSettingsAnswerMsg s))"
  shows "let a' = from_chief env d a; s' = s\<lparr>FmtpInitState := FmtpState_FromString (stateOrder env) (FmtpInitStateStr s)\<rparr>
    in channelSetts a' = s' \<and> started a' = started a @ [s']"
proof -
  let ?m = "CreateSettingsAnswerMsg s"
  have m: "ansSettings ?m = s" "Header ?m = AnswerSettingsHeader"
    by (simp_all add: CreateSettingsAnswerMsg_def)
  have ok: "settings_ok (s\<lparr>FmtpInitState := i\<rparr>)" for i
    using assms(1) by (simp add: settings_ok_def)
  have "from_chief env d a = answer_settings env d a"
    by (simp add: from_chief_def assms(3) read_headers m)
  moreover have "started (app_emit (StartController x) b) = started b @ [x]" for x b
    by (simp add: started_def)
  moreover have "started (a\<lparr>channelSetts := x\<rparr>) = started a" for x
    by (simp add: started_def)
  ultimately show ?thesis
    using assms(2) by (simp add: answer_settings_def assms(3) read_settings m CheckSettings_ok [OF ok] Let_def)
qed

lemma answer_rejected:
  assumes "\<not> settings_ok s" "settings_in_range s"
    and "wsDoc d = Some (marshal_answer (CreateSettingsAnswerMsg s))"
  shows "started (from_chief env d a) = started a"
proof -
  let ?m = "CreateSettingsAnswerMsg s" and ?s = "s\<lparr>FmtpInitState := FmtpInitState (channelSetts a)\<rparr>"
  have m: "ansSettings ?m = s" "Header ?m = AnswerSettingsHeader"
    by (simp_all add: CreateSettingsAnswerMsg_def)
  have bad: "\<not> settings_ok ?s" using assms(1) by (simp add: settings_ok_def)
  obtain e where e: "CheckSettings (stateOrder env) ?s = (Some e, ?s)"
    by (rule CheckSettings_not_ok [OF bad])
  have "from_chief env d a = answer_settings env d a"
    by (simp add: from_chief_def assms(3) read_headers m)
  moreover have "started (a\<lparr>channelSetts := x\<rparr>) = started a" for x
    by (simp add: started_def)
  ultimately show ?thesis
    using assms(2) by (simp add: answer_settings_def assms(3) read_settings m e Let_def)
qed

lemma chief_data_forwarded:
  assumes "int64 ident" "wsDoc d = Some (marshal_data (CreateChiefDataMsg ident txt))"
  shows "from_chief env d a = app_emit (ToController \<lparr>msgType = Operational, msgText = txt\<rparr>) a"
  using assms
  by (simp add: from_chief_def read_headers fdps_message_def read_data CreateChiefDataMsg_def)

section \<open>The arguments\<close>

lemma mainStart_codes:
  "length args \<noteq> 8 \<Longrightarrow> mainStart args = Inl InvalidParamCount"
  "length args = 8 \<Longrightarrow> \<not> snd (Atoi (args ! 1)) \<Longrightarrow> mainStart args = Inl InvalidNetPort"
  "length args = 8 \<Longrightarrow> snd (Atoi (args ! 1)) \<Longrightarrow> \<not> snd (Atoi (args ! 2)) \<Longrightarrow>
     mainStart args = Inl InvalidDaemonID"
  "length args = 8 \<Longrightarrow> snd (Atoi (args ! 1)) \<Longrightarrow> snd (Atoi (args ! 2)) \<Longrightarrow> \<not> snd (Atoi (args ! 7)) \<Longrightarrow>
     mainStart args = Inl InvalidWebPort"
  by (auto simp: mainStart_def Let_def split: prod.split)

text \<open>The arguments the chief gives a channel.\<close>

definition channel_args :: "string \<Rightarrow> int \<Rightarrow> ChannelSettings \<Rightarrow> string list" where
  "channel_args exe chPort s =
     [exe, Itoa chPort, Itoa (csId s), LocalATC s, RemoteATC s, csDataType s, URLPath s, Itoa (URLPort s)]"

lemma mainStart_args:
  assumes "int64 p" "int64 (csId s)" "int64 (URLPort s)"
  shows "mainStart (channel_args exe p s) = Inr
    \<lparr>channelSetts = zeroChannelSettings\<lparr>csId := csId s, LocalATC := LocalATC s,
       RemoteATC := RemoteATC s, csDataType := csDataType s\<rparr>,
     webPath = URLPath s, webPort = URLPort s,
     appOut = [ClientStart \<lparr>ChiefAddress = ''127.0.0.1'', ChiefPort = p, clChannelID = csId s\<rparr>]\<rparr>"
  using assms by (simp add: mainStart_def channel_args_def int64_def Atoi_Itoa)

section \<open>Properties\<close>

text \<open>Settings that arrive from the chief start the state controller exactly when they
  pass the check; it is then started once, with these settings and the initial state read from its text.\<close>

theorem settings_answer:
  assumes "settings_in_range s" and "wsDoc d = Some (marshal_answer (CreateSettingsAnswerMsg s))"
  shows "started (from_chief env d a) = started a @
    (if settings_ok s
     then [s\<lparr>FmtpInitState := FmtpState_FromString (stateOrder env) (FmtpInitStateStr s)\<rparr>] else [])"
  using answer_starts [OF _ assms, of env a] answer_rejected [OF _ assms, of env a] by (simp add: Let_def)

definition example_app :: channel_app where
  "example_app = \<lparr>channelSetts = zeroChannelSettings, webPath = ''channel'', webPort = 13001, appOut = []\<rparr>"

definition example_app_env :: app_env where
  "example_app_env = \<lparr>appClock = (\<lambda>n. []), jsonError = (\<lambda>t. []), stateOrder = fmtpStateMap\<rparr>"

theorem settings_answer_witness:
  "started (from_chief example_app_env
      \<lparr>wsText = [], wsDoc = Some (marshal_answer (CreateSettingsAnswerMsg example_client))\<rparr> example_app) =
    started example_app @
    (if settings_ok example_client
     then [example_client\<lparr>FmtpInitState :=
             FmtpState_FromString (stateOrder example_app_env) (FmtpInitStateStr example_client)\<rparr>] else [])"
  by (rule settings_answer) (simp_all add: examples_in_range)

end
