(* ===== verification/Chief_Client.thy ===== *)
theory Chief_Client
  imports Channel_Main
begin

text \<open>
  The client of the chief inside a channel, \<open>chief_channel/chief_channel_client.go\<close>: one
  iteration of its loop per input. The WebSocket client it drives is not part of the
  repository: its states, data and errors are inputs, what is given to it is output. The
  wall clock is part of an input, in nanoseconds; \<open>None\<close> is Go's zero time.
\<close>

section \<open>State and steps\<close>

datatype ws_client_state = ClientConnected | ClientDisconnected | ClientOtherState

datatype client_input =
  NewClientSetts ClientSettings
| SendToChief json
| FromChiefWs ws_data
| WsState ws_client_state
| WsClientError string

datatype client_effect =
  WsWork string int int
| WsSend json
| ClReceive ws_data
| ClSend json
| ClLog LogMessage
| ClParam string string string
| ClClose

record chief_client =
  clSetts :: ClientSettings
  sendSettingsRequest :: bool
  disconnTime :: "time option"
  clOut :: "client_effect list"

definition NewChiefChannelClient :: chief_client where
  "NewChiefChannelClient =
     \<lparr>clSetts = \<lparr>ChiefAddress = [], ChiefPort = 0, clChannelID = 0\<rparr>, sendSettingsRequest = False,
      disconnTime = None, clOut = []\<rparr>"

definition minute :: time where "minute = 60 * 1000000000"

definition cl_emit :: "client_effect \<Rightarrow> chief_client \<Rightarrow> chief_client" where
  "cl_emit e c = c\<lparr>clOut := clOut c @ [e]\<rparr>"

definition cl_log :: "(nat \<Rightarrow> string) \<Rightarrow> string \<Rightarrow> string \<Rightarrow> chief_client \<Rightarrow> chief_client" where
  "cl_log clk severity txt c = cl_emit (ClLog (LogChannelST (clk (length (clOut c))) severity txt)) c"

definition request_settings :: "(nat \<Rightarrow> string) \<Rightarrow> chief_client \<Rightarrow> chief_client" where
  "request_settings clk c =
     (if \<not> sendSettingsRequest c then
        (let ident = clChannelID (clSetts c);
             c = cl_log clk SeverityDebug
                   ((ru ''Zapuqen '') @ ''FMTP '' @ (ru ''kanal '') @ ''id = '' @ Itoa ident @ ''.'') c;
             c = cl_log clk SeverityDebug
                   ((ru ''Zapros nastroek ot '') @ ''FMTP '' @ (ru ''kanala '') @ ''id = '' @ Itoa ident @ ''.'') c;
             c = cl_emit (ClSend (marshal_request (CreateSettingsRequestMsg ident))) c
         in c\<lparr>sendSettingsRequest := True\<rparr>)
      else c)"

definition ws_state_changed ::
  "(nat \<Rightarrow> string) \<Rightarrow> time \<Rightarrow> ws_client_state \<Rightarrow> chief_client \<Rightarrow> chief_client" where
  "ws_state_changed clk now wsState c =
     (let key = (ru ''Podkl04enie k kontroleru:'');
          (connStateStr, c) =
            (if wsState = ClientConnected then
               (let c = request_settings clk (c\<lparr>disconnTime := None\<rparr>)
                in ((ru ''Podkl04en''), cl_emit (ClParam key (ru ''Podkl04en'') WebOkColor) c))
             else if wsState = ClientDisconnected then
               (let c = cl_emit (ClParam key (ru ''Ne podkl04en'') WebOkColor) c
                in ((ru ''Ne podkl04en''),
                    (case disconnTime c of
                       None \<Rightarrow> c\<lparr>disconnTime := Some now\<rparr>
                     | Some t \<Rightarrow> if t + minute < now then cl_emit ClClose c else c)))
             else ([], c))
      in cl_log clk SeverityDebug
           ((ru ''Izmeneno sosto9nie podkl04eni9 '') @ ''FMTP '' @ (ru ''kanala v kontrolleru. '') @ ''Id '' @
            (ru ''kanala '' @ ''= '') @ Itoa (clChannelID (clSetts c)) @ (''. '' @ ru ''Sosto9nie: '') @ connStateStr) c)"

fun chief_client_step :: "(nat \<Rightarrow> string) \<Rightarrow> time \<Rightarrow> client_input \<Rightarrow> chief_client \<Rightarrow> chief_client" where
  "chief_client_step clk now (NewClientSetts newSetts) c =
     (if clSetts c \<noteq> newSetts then
        cl_emit (WsWork (ChiefAddress newSetts) (ChiefPort newSetts) 3) (c\<lparr>clSetts := newSetts\<rparr>)
      else c)"
| "chief_client_step clk now (SendToChief j) c = cl_emit (WsSend j) c"
| "chief_client_step clk now (FromChiefWs d) c = cl_emit (ClReceive d) c"
| "chief_client_step clk now (WsState s) c = ws_state_changed clk now s c"
| "chief_client_step clk now (WsClientError e) c =
     cl_log clk SeverityError
       ((ru ''Owibka setevogo vzaimodejstvi9 '') @ ''FMTP '' @ (ru ''kanala i kontrollera. Owibka: '') @ e @ ''.'') c"

fun client_run ::
  "(nat \<Rightarrow> string) \<Rightarrow> (time \<times> client_input) list \<Rightarrow> chief_client \<Rightarrow> chief_client" where
  "client_run clk [] c = c"
| "client_run clk ((t, i) # is) c = client_run clk is (chief_client_step clk t i c)"

lemma client_run_append: "client_run clk (xs @ ys) c = client_run clk ys (client_run clk xs c)"
  by (induction clk xs c rule: client_run.induct) auto

section \<open>The settings are requested once\<close>

fun is_request :: "client_effect \<Rightarrow> bool" where
  "is_request (ClSend j) = True" | "is_request _ = False"

definition requests :: "chief_client \<Rightarrow> client_effect list" where
  "requests c = filter is_request (clOut c)"

lemma cl_emit_simps [simp]:
  "clSetts (cl_emit e c) = clSetts c" "sendSettingsRequest (cl_emit e c) = sendSettingsRequest c"
  "disconnTime (cl_emit e c) = disconnTime c" "clOut (cl_emit e c) = clOut c @ [e]"
  by (simp_all add: cl_emit_def)

lemma cl_log_simps [simp]:
  "clSetts (cl_log clk sv t c) = clSetts c"
  "sendSettingsRequest (cl_log clk sv t c) = sendSettingsRequest c"
  "disconnTime (cl_log clk sv t c) = disconnTime c" "requests (cl_log clk sv t c) = requests c"
  "ClClose \<in> set (clOut (cl_log clk sv t c)) \<longleftrightarrow> ClClose \<in> set (clOut c)"
  by (simp_all add: cl_log_def requests_def)

lemma requests_simps [simp]:
  "requests (cl_emit e c) = requests c @ (if is_request e then [e] else [])"
  "requests (c\<lparr>disconnTime := t\<rparr>) = requests c" "requests (c\<lparr>sendSettingsRequest := b\<rparr>) = requests c"
  "requests (c\<lparr>clSetts := st\<rparr>) = requests c"
  by (simp_all add: requests_def)

definition requested_once :: "chief_client \<Rightarrow> bool" where
  "requested_once c \<longleftrightarrow>
     (if sendSettingsRequest c then \<exists>i. requests c = [ClSend (marshal_request (CreateSettingsRequestMsg i))]
      else requests c = [])"

lemma step_requested_once: "requested_once c \<Longrightarrow> requested_once (chief_client_step clk t i c)"
  by (cases i) (auto simp: requested_once_def ws_state_changed_def request_settings_def Let_def
      split: option.split if_splits)

lemma run_requested_once: "requested_once c \<Longrightarrow> requested_once (client_run clk is c)"
  by (induction clk "is" c rule: client_run.induct) (simp_all add: step_requested_once)

lemma new_requested_once: "requested_once NewChiefChannelClient"
  by (simp add: requested_once_def NewChiefChannelClient_def requests_def)

section \<open>The end after a minute without a connection\<close>

text \<open>The time of the disconnection is the one of a report since when there was no other of
  a connection.\<close>

definition no_connection :: "(time \<times> client_input) list \<Rightarrow> bool" where
  "no_connection is \<longleftrightarrow> (\<forall>p \<in> set is. snd p \<noteq> WsState ClientConnected)"

lemma step_disconnTime:
  "disconnTime (chief_client_step clk t i c) =
     (if i = WsState ClientConnected then None
      else if i = WsState ClientDisconnected \<and> disconnTime c = None then Some t
      else disconnTime c)"
  by (cases i) (auto simp: ws_state_changed_def request_settings_def Let_def split: option.split)

lemma run_disconnTime:
  "disconnTime (client_run clk is NewChiefChannelClient) = Some t0 \<Longrightarrow>
   \<exists>xs ys. is = xs @ (t0, WsState ClientDisconnected) # ys \<and> no_connection ys"
proof (induction "is" rule: rev_induct)
  case Nil
  then show ?case by (simp add: NewChiefChannelClient_def)
next
  case (snoc p "is")
  obtain t i where p: "p = (t, i)" by (cases p)
  let ?c = "client_run clk is NewChiefChannelClient"
  have d: "disconnTime (chief_client_step clk t i ?c) = Some t0"
    using snoc.prems by (simp add: client_run_append p)
  then have i: "i \<noteq> WsState ClientConnected" by (auto simp: step_disconnTime)
  show ?case
  proof (cases "disconnTime ?c = Some t0")
    case True
    then obtain xs ys where "is = xs @ (t0, WsState ClientDisconnected) # ys" "no_connection ys"
      using snoc.IH by blast
    then show ?thesis using i
      by (intro exI [of _ xs] exI [of _ "ys @ [p]"]) (simp add: no_connection_def p)
  next
    case False
    then have "i = WsState ClientDisconnected" "t = t0"
      using d i by (auto simp: step_disconnTime split: if_splits)
    then show ?thesis
      by (intro exI [of _ "is"] exI [of _ "[]"]) (simp add: no_connection_def p)
  qed
qed

lemma step_closes:
  assumes "ClClose \<in> set (clOut (chief_client_step clk t i c))" "ClClose \<notin> set (clOut c)"
  shows "i = WsState ClientDisconnected \<and> (\<exists>t0. disconnTime c = Some t0 \<and> t0 + minute < t)"
  using assms
  by (cases i) (auto simp: ws_state_changed_def request_settings_def Let_def
      split: option.splits if_splits)

section \<open>Properties\<close>

text \<open>Over any run, a channel asks the chief for its settings at most once, however
  often the connection is lost and made again; and it gives up only on a report of a lost connection
  that comes more than a minute after an earlier one, with no connection in between.\<close>

theorem requests_then_waits:
  "length (requests (client_run clk is NewChiefChannelClient)) \<le> 1 \<and>
   (ClClose \<in> set (clOut (client_run clk (is @ [(t, i)]) NewChiefChannelClient)) \<longrightarrow>
    ClClose \<notin> set (clOut (client_run clk is NewChiefChannelClient)) \<longrightarrow>
    (\<exists>t0 xs ys. is = xs @ (t0, WsState ClientDisconnected) # ys \<and> no_connection ys \<and>
       i = WsState ClientDisconnected \<and> t0 + minute < t))"
proof (intro conjI impI)
  have "requested_once (client_run clk is NewChiefChannelClient)"
    by (rule run_requested_once [OF new_requested_once])
  then show "length (requests (client_run clk is NewChiefChannelClient)) \<le> 1"
    by (auto simp: requested_once_def split: if_splits)
  assume c: "ClClose \<in> set (clOut (client_run clk (is @ [(t, i)]) NewChiefChannelClient))"
    "ClClose \<notin> set (clOut (client_run clk is NewChiefChannelClient))"
  from step_closes [OF c(1) [unfolded client_run_append client_run.simps] c(2)] obtain t0
    where t0: "i = WsState ClientDisconnected" "t0 + minute < t"
      "disconnTime (client_run clk is NewChiefChannelClient) = Some t0" by blast
  with run_disconnTime [OF t0(3)] show
    "\<exists>t0 xs ys. is = xs @ (t0, WsState ClientDisconnected) # ys \<and> no_connection ys \<and>
       i = WsState ClientDisconnected \<and> t0 + minute < t" by blast
qed

theorem requests_then_waits_witness:
  "let is = [(0, WsState ClientConnected), (5, WsState ClientDisconnected), (6, WsState ClientConnected),
             (7, WsState ClientDisconnected)];
       c = client_run (\<lambda>n. []) is NewChiefChannelClient;
       c' = client_run (\<lambda>n. []) (is @ [(8 + minute, WsState ClientDisconnected)]) NewChiefChannelClient
   in length (requests c) \<le> 1 \<and>
    (ClClose \<in> set (clOut c') \<longrightarrow> ClClose \<notin> set (clOut c) \<longrightarrow>
     (\<exists>t0 xs ys. is = xs @ (t0, WsState ClientDisconnected) # ys \<and> no_connection ys \<and>
       WsState ClientDisconnected = WsState ClientDisconnected \<and> t0 + minute < 8 + minute))"
  unfolding Let_def by (rule requests_then_waits)

end
