(* ===== verification/Chief_Data.thy ===== *)
theory Chief_Data
  imports Channel_Settings
begin

text \<open>
  The settings of the chief, \<open>chief/chief_settings/chief_settings.go\<close> (without the file they
  are kept in), and its state, \<open>chief/chief_state/chief_state.go\<close>, whose package variables
  are one record.
\<close>

section \<open>Settings\<close>

definition AODBProvider :: string where "AODBProvider = ''AODB''"
definition OLDIProvider :: string where "OLDIProvider = ''OLDI''"

lemma providers_distinct [simp]: "AODBProvider \<noteq> OLDIProvider" "OLDIProvider \<noteq> AODBProvider"
  by (simp_all add: AODBProvider_def OLDIProvider_def)

record ProviderSettings =
  provID :: int
  IPAddresses :: "string list"
  provStatus :: string
  provDataType :: string
  ProviderEncoding :: string
  provLocalPort :: int

record LoggerSettings =
  FileSizeKB :: int
  FolderSizeGB :: int
  LoggerPort :: int
  DbServiceName :: string
  DbHostname :: string
  DbMaxLogStoreCount :: int
  DbPassword :: string
  DbPort :: int
  DbStoreDays :: int
  DbUser :: string

record ChiefSettings =
  cfIPAddr :: string
  cfCntrlID :: int
  Timestamp :: string
  ChannelsPort :: int
  OldiProviderPort :: int
  OldiProviderEncoding :: string
  AodbProviderPort :: int
  DockerRegistry :: string
  LoggerSetts :: LoggerSettings
  ChannelSetts :: "ChannelSettings list"
  ProvidersSetts :: "ProviderSettings list"
  IsInitialised :: bool

fun ProviderStatusById :: "ProviderSettings list \<Rightarrow> int \<Rightarrow> string" where
  "ProviderStatusById [] idProv = ''primary''"
| "ProviderStatusById (val # vals) idProv =
     (if provID val = idProv then provStatus val else ProviderStatusById vals idProv)"

fun ChannelDataTypeById :: "ChannelSettings list \<Rightarrow> int \<Rightarrow> string" where
  "ChannelDataTypeById [] idChan = ''OLDI''"
| "ChannelDataTypeById (val # vals) idChan =
     (if csId val = idChan then csDataType val else ChannelDataTypeById vals idChan)"

fun ProviderSettingsOf :: "ProviderSettings list \<Rightarrow> string \<Rightarrow> ProviderSettings list" where
  "ProviderSettingsOf [] providerType = []"
| "ProviderSettingsOf (val # vals) providerType =
     (if provDataType val = providerType then val # ProviderSettingsOf vals providerType
      else ProviderSettingsOf vals providerType)"

fun GetChannelIdByCid :: "ChannelSettings list \<Rightarrow> string \<Rightarrow> int" where
  "GetChannelIdByCid [] cid = -1"
| "GetChannelIdByCid (val # vals) cid =
     (if RemoteATC val = cid then csId val else GetChannelIdByCid vals cid)"

lemma GetChannelIdByCid_found:
  "GetChannelIdByCid cs cid \<noteq> -1 \<Longrightarrow> \<exists>s \<in> set cs. RemoteATC s = cid \<and> csId s = GetChannelIdByCid cs cid"
  by (induction cs) (auto split: if_splits)

lemma GetChannelIdByCid_unique:
  "distinct (map RemoteATC cs) \<Longrightarrow> s \<in> set cs \<Longrightarrow> GetChannelIdByCid cs (RemoteATC s) = csId s"
  by (induction cs) (auto simp: rev_image_eqI)

lemma ProviderSettingsOf_filter: "ProviderSettingsOf ps t = filter (\<lambda>p. provDataType p = t) ps"
  by (induction ps) auto

section \<open>State\<close>

definition StateOk :: string where "StateOk = ''ok''"
definition StateError :: string where "StateError = ''error''"

lemma chief_states_distinct [simp]: "StateOk \<noteq> StateError" "StateError \<noteq> StateOk"
  by (simp_all add: StateOk_def StateError_def)

record ProviderState =
  ProviderID :: int
  ProviderType :: string
  ProviderIPs :: "string list"
  provState :: string
  ProviderErrorMessage :: string
  ClientAddresses :: string
  ProviderURL :: string
  provStateColor :: string

record ChiefState =
  CntrlID :: int
  IPAddr :: string
  CommonState :: string
  CommonErrorMessage :: string
  ControllerVersion :: string
  DockerVersion :: string
  ChannelStates :: "ChannelState list option"
  ProviderStates :: "ProviderState list"
  ChannelStatesMap :: "string \<rightharpoonup> ChannelState"

definition states_list :: "ChiefState \<Rightarrow> ChannelState list" where
  "states_list st = (case ChannelStates st of None \<Rightarrow> [] | Some xs \<Rightarrow> xs)"

definition checkCommonState :: "ChiefState \<Rightarrow> ChiefState" where
  "checkCommonState st =
     (let st = st\<lparr>CommonState := StateOk\<rparr>
      in if \<exists>it \<in> set (states_list st). DaemonState it \<noteq> ChannelStateOk then st\<lparr>CommonState := StateError\<rparr>
         else if \<exists>it \<in> set (ProviderStates st). provState it \<noteq> StateOk then st\<lparr>CommonState := StateError\<rparr>
         else st)"

definition SetDockerVersion :: "string \<Rightarrow> ChiefState \<Rightarrow> ChiefState" where
  "SetDockerVersion dockerVers st = st\<lparr>DockerVersion := dockerVers\<rparr>"

definition SetAodbProviderState :: "ProviderState list \<Rightarrow> ChiefState \<Rightarrow> ChiefState" where
  "SetAodbProviderState aodbState st =
     (let resStates = filter (\<lambda>val. ProviderType val = OLDIProvider) (ProviderStates st) @ aodbState
      in checkCommonState (st\<lparr>ProviderStates := resStates\<rparr>))"

definition SetOldiProviderState :: "ProviderState list \<Rightarrow> ChiefState \<Rightarrow> ChiefState" where
  "SetOldiProviderState oldiState st =
     (let resStates = filter (\<lambda>val. ProviderType val = AODBProvider) (ProviderStates st) @ oldiState
      in checkCommonState (st\<lparr>ProviderStates := resStates\<rparr>))"

fun states_map :: "(string \<rightharpoonup> ChannelState) \<Rightarrow> ChannelState list \<Rightarrow> (string \<rightharpoonup> ChannelState)" where
  "states_map m [] = m"
| "states_map m (v # vs) = states_map (m(stRemoteName v \<mapsto> v)) vs"

definition SetChannelsState :: "ChannelState list option \<Rightarrow> ChiefState \<Rightarrow> ChiefState" where
  "SetChannelsState channelsState st =
     (let st = checkCommonState (st\<lparr>ChannelStates := channelsState\<rparr>)
      in st\<lparr>ChannelStatesMap :=
              states_map Map.empty (case channelsState of None \<Rightarrow> [] | Some xs \<Rightarrow> xs)\<rparr>)"

section \<open>The common state\<close>

definition common_ok :: "ChiefState \<Rightarrow> bool" where
  "common_ok st \<longleftrightarrow>
     (\<forall>c \<in> set (states_list st). DaemonState c = ChannelStateOk) \<and>
     (\<forall>p \<in> set (ProviderStates st). provState p = StateOk)"

definition common_right :: "ChiefState \<Rightarrow> bool" where
  "common_right st \<longleftrightarrow> CommonState st = (if common_ok st then StateOk else StateError)"

lemma common_ok_state [simp]: "common_ok (st\<lparr>CommonState := x\<rparr>) = common_ok st"
  by (simp add: common_ok_def states_list_def)

lemma check_eq: "checkCommonState st = st\<lparr>CommonState := (if common_ok st then StateOk else StateError)\<rparr>"
proof -
  let ?c = "\<exists>it \<in> set (states_list st). DaemonState it \<noteq> ChannelStateOk"
    and ?p = "\<exists>it \<in> set (ProviderStates st). provState it \<noteq> StateOk"
  have "common_ok st \<longleftrightarrow> \<not> ?c \<and> \<not> ?p" by (simp add: common_ok_def)
  then show ?thesis by (simp add: checkCommonState_def Let_def states_list_def)
qed

lemma check_right: "common_right (checkCommonState st)"
  by (simp add: common_right_def check_eq)

lemma common_right_other:
  "common_right (st\<lparr>ChannelStatesMap := m\<rparr>) = common_right st"
  "common_right (st\<lparr>DockerVersion := v\<rparr>) = common_right st"
  by (simp_all add: common_right_def common_ok_def states_list_def)

lemma setters_right:
  "common_right (SetAodbProviderState xs st)" "common_right (SetOldiProviderState xs st)"
  "common_right (SetChannelsState ys st)"
  "common_right st \<Longrightarrow> common_right (SetDockerVersion v st)"
  by (simp_all add: SetAodbProviderState_def SetOldiProviderState_def SetChannelsState_def
      SetDockerVersion_def check_right common_right_other Let_def)

lemma check_keeps_providers [simp]: "ProviderStates (checkCommonState st) = ProviderStates st"
  by (simp add: check_eq)

lemma oldi_keeps_aodb:
  "filter (\<lambda>p. ProviderType p = AODBProvider) (ProviderStates (SetOldiProviderState xs st)) =
   filter (\<lambda>p. ProviderType p = AODBProvider) (ProviderStates st) @
   filter (\<lambda>p. ProviderType p = AODBProvider) xs"
  by (simp add: SetOldiProviderState_def Let_def)

lemma states_map_append: "states_map m (xs @ ys) = states_map (states_map m xs) ys"
  by (induction xs arbitrary: m) auto

lemma states_map_lookup:
  "states_map m xs n =
     (case find (\<lambda>v. stRemoteName v = n) (rev xs) of None \<Rightarrow> m n | Some v \<Rightarrow> Some v)"
proof (induction xs arbitrary: m)
  case (Cons v vs)
  show ?case by (auto simp: Cons.IH find_append split: option.split)
qed simp

section \<open>Properties\<close>

text \<open>The calls that change the state of the chief.\<close>

datatype state_op =
  SetAodb "ProviderState list"
| SetOldi "ProviderState list"
| SetChannels "ChannelState list option"
| SetDocker string

fun apply_op :: "state_op \<Rightarrow> ChiefState \<Rightarrow> ChiefState" where
  "apply_op (SetAodb xs) st = SetAodbProviderState xs st"
| "apply_op (SetOldi xs) st = SetOldiProviderState xs st"
| "apply_op (SetChannels xs) st = SetChannelsState xs st"
| "apply_op (SetDocker v) st = SetDockerVersion v st"

lemma ops_right: "common_right st \<Longrightarrow> common_right (fold apply_op ops st)"
proof (induction ops arbitrary: st)
  case (Cons p ops)
  then show ?case using setters_right by (cases p) simp_all
qed simp

text \<open>After any sequence of updates of the chief's state that has set the providers or
  the channels at least once, the common state is ok exactly when every channel reports ok and every
  provider is ok, and an error otherwise.\<close>

theorem common_state:
  assumes "\<forall>v. p \<noteq> SetDocker v"
  shows "let st = fold apply_op (p # ops) st0
    in CommonState st =
      (if (\<forall>c \<in> set (states_list st). DaemonState c = ChannelStateOk) \<and>
          (\<forall>q \<in> set (ProviderStates st). provState q = StateOk)
       then StateOk else StateError)"
proof -
  have "common_right (apply_op p st0)" using assms setters_right by (cases p) simp_all
  then show ?thesis
    using ops_right [of "apply_op p st0" ops] by (simp add: common_right_def common_ok_def Let_def)
qed

definition example_chief_state :: ChiefState where
  "example_chief_state = \<lparr>CntrlID = 0, IPAddr = [], CommonState = [], CommonErrorMessage = [],
     ControllerVersion = [], DockerVersion = [], ChannelStates = None, ProviderStates = [],
     ChannelStatesMap = Map.empty\<rparr>"

theorem common_state_witness:
  "let st = fold apply_op [SetChannels (Some []), SetDocker ''20.10''] example_chief_state
    in CommonState st =
      (if (\<forall>c \<in> set (states_list st). DaemonState c = ChannelStateOk) \<and>
          (\<forall>q \<in> set (ProviderStates st). provState q = StateOk)
       then StateOk else StateError)"
  by (rule common_state) simp

end
