(* ===== verification/Chief_Server.thy ===== *)
theory Chief_Server
  imports Channel_Main Chief_Data "HOL-Library.AList"
begin

text \<open>
  The controller of the channels in the chief, \<open>chief_channel/chief_channel_server.go\<close>: the
  settings of the channels and what is started and stopped when they change, the messages
  of the channels, the states they report and the packets of the OLDI provider. One case of
  the loop of \<open>Work\<close> is one definition; so is one step of the goroutine that runs the
  process or the container of a channel.

  What the server calls outside the repository is in \<open>srv_env\<close>: the results of copying and
  removing a binary, of killing a process and of stopping a container, the address of the
  configured registry, names and colours. The Go maps over identifiers are HOL maps; the one
  that is ranged over, \<open>chStates\<close>, is an association list. A socket is a number, and \<open>None\<close>
  the nil socket that a lookup of an unknown channel gives.
\<close>

section \<open>State\<close>

record pb_msg =
  pbCid :: string
  pbTp :: string
  pbTxt :: string
  pbId :: string
  Rrtime :: "time option"
  Rqtime :: "time option"

definition zeroPbMsg :: pb_msg where
  "zeroPbMsg = \<lparr>pbCid = [], pbTp = [], pbTxt = [], pbId = [], Rrtime = None, Rqtime = None\<rparr>"

record MsgWithChanId =
  PbMsg :: pb_msg
  ChanId :: int

record ChanMetrics =
  mtTp :: string
  LocAtc :: string
  RemAtc :: string
  Count :: int

definition ChanTpSend :: string where "ChanTpSend = ''send''"
definition ChanTpRecv :: string where "ChanTpRecv = ''recv''"

type_synonym socket = nat

record channelBin =
  filePath :: string
  killChan :: nat

record channelStateTime =
  chState :: ChannelState
  chTime :: time

text \<open>A goroutine of \<open>startChannelProcess\<close> or \<open>startChannelContainer\<close>: before the channel is
  started, or at its \<open>select\<close>.\<close>

datatype runner_pc = Launching | Running

record runner =
  rnSetts :: ChannelSettings
  rnBin :: channelBin
  rnPc :: runner_pc

datatype srv_effect =
  WsServerPort int
| SendWs json "socket option"
| ToFdps pb_msg
| Metrics ChanMetrics
| SrvPrint print_level string
| SrvPrintLog print_level LogMessage
| SrvParam string string string
| SetStates "ChannelState list option"
| StartProcess string "string list"
| KillProcess string
| RunContainer string string "string list"
| StopContainer string

record ChiefChannelServer =
  srvSetts :: ChannelSettingsWithPort
  ChannelBinMap :: "int \<rightharpoonup> channelBin"
  runners :: "runner list"
  nextKill :: nat
  wsClients :: "int \<rightharpoonup> socket option"
  chStates :: "(int \<times> channelStateTime) list"
  oldiIdent :: int
  withDocker :: bool
  delayed :: "int list list"
  srvOut :: "srv_effect list"

record srv_env =
  CopyBinary :: "string \<Rightarrow> int \<Rightarrow> string \<Rightarrow> string \<Rightarrow> string + string"
  RemoveBinary :: "string \<Rightarrow> string option"
  KillError :: "string \<Rightarrow> string option"
  ContainerStop :: "string \<Rightarrow> string option"
  cfgDockerRegistry :: string
  WsUrlPath :: string
  srvJsonError :: "string \<Rightarrow> string"
  StateOkColor :: string
  StateErrorColor :: string

definition NewChiefChannelServer :: "bool \<Rightarrow> ChiefChannelServer" where
  "NewChiefChannelServer workWithDocker =
     \<lparr>srvSetts = \<lparr>ChSettings = [], ChPort = 0\<rparr>, ChannelBinMap = Map.empty, runners = [],
      nextKill = 0, wsClients = Map.empty, chStates = [], oldiIdent = 1,
      withDocker = workWithDocker, delayed = [], srvOut = []\<rparr>"

definition srv_emit :: "srv_effect \<Rightarrow> ChiefChannelServer \<Rightarrow> ChiefChannelServer" where
  "srv_emit e cc = cc\<lparr>srvOut := srvOut cc @ [e]\<rparr>"

abbreviation srv_err :: "string \<Rightarrow> ChiefChannelServer \<Rightarrow> ChiefChannelServer" where
  "srv_err txt \<equiv> srv_emit (SrvPrint PrintErr txt)"

abbreviation srv_debug :: "string \<Rightarrow> ChiefChannelServer \<Rightarrow> ChiefChannelServer" where
  "srv_debug txt \<equiv> srv_emit (SrvPrint PrintDebug txt)"

section \<open>States of the channels\<close>

definition initChannelState :: "time \<Rightarrow> ChannelSettings \<Rightarrow> ChiefChannelServer \<Rightarrow> ChiefChannelServer" where
  "initChannelState now chSett cc =
     (let curChannelState = (if IsWorking chSett then ChannelStateError else ChannelStateStopped)
      in cc\<lparr>chStates := AList.update (csId chSett)
           \<lparr>chState = \<lparr>ChannelID = csId chSett, stLocalName = LocalATC chSett,
                       stRemoteName = RemoteATC chSett, DaemonState = curChannelState,
                       stFmtpState = ''disabled'',
                       ChannelURL = concat [''http://'', URLAddress chSett, '':'', Itoa (URLPort chSett),
                                            ''/'', URLPath chSett],
                       StateColor = []\<rparr>,
            chTime = now\<rparr> (chStates cc)\<rparr>)"

section \<open>Starting and stopping channels\<close>

definition find_setts :: "int \<Rightarrow> ChannelSettings list \<Rightarrow> ChannelSettings option" where
  "find_setts i ss = find (\<lambda>s. csId s = i) ss"

definition drop_runner :: "nat \<Rightarrow> ChiefChannelServer \<Rightarrow> ChiefChannelServer" where
  "drop_runner k cc = cc\<lparr>runners := filter (\<lambda>r. killChan (rnBin r) \<noteq> k) (runners cc)\<rparr>"

definition container_name :: "ChannelSettings \<Rightarrow> string" where
  "container_name s = concat [''fmtp_channel_'', LocalATC s, ''_'', RemoteATC s, ''_'', Itoa (csId s)]"

definition ChannelImageName :: string where "ChannelImageName = ''fmtp_channel''"

definition image_name :: "srv_env \<Rightarrow> ChannelSettings \<Rightarrow> string" where
  "image_name env s =
     (if cfgDockerRegistry env \<noteq> [] then cfgDockerRegistry env @ ''/'' else []) @
     ChannelImageName @ '':'' @ csVersion s"

text \<open>
  The goroutine of a channel takes the signal to stop: it kills its process, or stops its
  container, and answers.
\<close>

definition kill_process :: "srv_env \<Rightarrow> runner \<Rightarrow> ChiefChannelServer \<Rightarrow> ChiefChannelServer" where
  "kill_process env r cc =
     (let path = filePath (rnBin r);
          cc = srv_emit (KillProcess path) cc
      in case KillError env path of
           Some e \<Rightarrow> srv_err ((ru ''Owibka zaverweni9 vypolneni9 priloxeni9 '') @ ''FMTP '' @ (ru ''kanala. Owibka: '') @ e @ ''.'') cc
         | None \<Rightarrow> srv_debug ((ru ''Wtatnoe zaverwenie priloxeni9 '') @ ''FMTP '' @ (ru ''kanala. Ispoln9emyj fajl: '') @ path @
                     (''. '' @ ru ''Identifikator kanala: '') @ Itoa (csId (rnSetts r)) @ ''.'') cc)"

definition stop_container :: "srv_env \<Rightarrow> runner \<Rightarrow> ChiefChannelServer \<Rightarrow> ChiefChannelServer" where
  "stop_container env r cc =
     (let name = container_name (rnSetts r);
          cc = srv_debug ((ru ''Komanda zaverwit8 '') @ ''docker '' @ (ru ''kontejner '') @ name @ ''.'') cc;
          cc = srv_emit (StopContainer name) cc
      in case ContainerStop env name of
           None \<Rightarrow> srv_debug ((ru ''Ostanovlen '') @ ''docker '' @ (ru ''kontejner '') @ name @ ''.'') cc
         | Some e \<Rightarrow> srv_err ((ru ''Owibka ostanovki '') @ ''docker '' @ (ru ''kontejnera '') @ name @ (''. '' @ ru ''Owibka '') @ e) cc)"

lemmas runner_stops = kill_process_def stop_container_def

definition kill_runner :: "srv_env \<Rightarrow> runner \<Rightarrow> ChiefChannelServer \<Rightarrow> ChiefChannelServer" where
  "kill_runner env r cc =
     drop_runner (killChan (rnBin r))
       (if withDocker cc then stop_container env r cc else kill_process env r cc)"

text \<open>
  One identifier of \<open>stopChannelsByIDs\<close>. The signal is sent on a channel without buffer:
  where no goroutine is there to take it, the loop of the server waits, here \<open>None\<close>.
\<close>

definition stop_one :: "srv_env \<Rightarrow> int \<Rightarrow> ChiefChannelServer \<Rightarrow> ChiefChannelServer option" where
  "stop_one env stopID cc =
     (case ChannelBinMap cc stopID of
        None \<Rightarrow> Some cc
      | Some val \<Rightarrow>
          (case find (\<lambda>r. killChan (rnBin r) = killChan val \<and> rnPc r = Running) (runners cc) of
             None \<Rightarrow> None
           | Some r \<Rightarrow>
               (let cc = kill_runner env r cc
                in case (if withDocker cc then None else RemoveBinary env (filePath val)) of
                     Some e \<Rightarrow> Some (srv_err e cc)
                   | None \<Rightarrow> Some (cc\<lparr>ChannelBinMap := (ChannelBinMap cc)(stopID := None)\<rparr>))))"

fun stopChannelsByIDs :: "srv_env \<Rightarrow> int list \<Rightarrow> ChiefChannelServer \<Rightarrow> ChiefChannelServer option" where
  "stopChannelsByIDs env [] cc = Some cc"
| "stopChannelsByIDs env (i # is) cc =
     (case stop_one env i cc of None \<Rightarrow> None | Some cc \<Rightarrow> stopChannelsByIDs env is cc)"

definition store_bin :: "int \<Rightarrow> string \<Rightarrow> ChannelSettings \<Rightarrow> ChiefChannelServer \<Rightarrow> ChiefChannelServer" where
  "store_bin startID path setts cc =
     (let bin = \<lparr>filePath = path, killChan = nextKill cc\<rparr>
      in cc\<lparr>ChannelBinMap := (ChannelBinMap cc)(startID \<mapsto> bin), nextKill := Suc (nextKill cc),
            runners := runners cc @ [\<lparr>rnSetts = setts, rnBin = bin, rnPc = Launching\<rparr>]\<rparr>)"

definition start_one :: "srv_env \<Rightarrow> int \<Rightarrow> ChiefChannelServer \<Rightarrow> ChiefChannelServer" where
  "start_one env startID cc =
     (case find_setts startID (ChSettings (srvSetts cc)) of
        None \<Rightarrow> cc
      | Some newIt \<Rightarrow>
          if withDocker cc then store_bin startID [] newIt cc
          else (case CopyBinary env (csVersion newIt) (csId newIt) (LocalATC newIt) (RemoteATC newIt) of
                  Inl e \<Rightarrow> srv_err e cc
                | Inr channelFilePath \<Rightarrow> store_bin startID channelFilePath newIt cc))"

definition startChannelsByIDs :: "srv_env \<Rightarrow> int list \<Rightarrow> ChiefChannelServer \<Rightarrow> ChiefChannelServer" where
  "startChannelsByIDs env idsToStart cc = fold (start_one env) idsToStart cc"

section \<open>The goroutine of a channel\<close>

definition checkChannelWorking :: "int \<Rightarrow> ChiefChannelServer \<Rightarrow> ChiefChannelServer" where
  "checkChannelWorking channelId cc =
     (case find (\<lambda>s. csId s = channelId \<and> IsWorking s) (ChSettings (srvSetts cc)) of
        None \<Rightarrow> cc
      | Some setts \<Rightarrow>
          (case ChannelBinMap cc (csId setts) of
             Some _ \<Rightarrow> cc
           | None \<Rightarrow>
               (srv_emit (SrvPrint PrintWarn ((ru ''Neobhodim perezapusk kanala s '') @ ''ID = '' @ Itoa channelId)) cc)
                 \<lparr>delayed := delayed cc @ [[channelId]]\<rparr>))"

text \<open>
  The entry is deleted and the channel of its signal closed. It is the channel of the
  goroutine that ends, unless the same identifier was started twice at once.
\<close>

definition delete_bin :: "int \<Rightarrow> ChiefChannelServer \<Rightarrow> ChiefChannelServer" where
  "delete_bin i cc = cc\<lparr>ChannelBinMap := (ChannelBinMap cc)(i := None)\<rparr>"

definition set_running :: "nat \<Rightarrow> ChiefChannelServer \<Rightarrow> ChiefChannelServer" where
  "set_running k cc =
     cc\<lparr>runners := map (\<lambda>r. if killChan (rnBin r) = k then r\<lparr>rnPc := Running\<rparr> else r) (runners cc)\<rparr>"

text \<open>\<open>startChannelProcess\<close>: the start, with the error of \<open>cmd.Start\<close>.\<close>

definition process_start :: "srv_env \<Rightarrow> runner \<Rightarrow> string option \<Rightarrow> ChiefChannelServer \<Rightarrow> ChiefChannelServer" where
  "process_start env r startErr cc =
     (let path = filePath (rnBin r);
          i = Itoa (csId (rnSetts r));
          cc = srv_emit (StartProcess path (tl (channel_args path (ChPort (srvSetts cc)) (rnSetts r)))) cc
      in case startErr of
           Some e \<Rightarrow> drop_runner (killChan (rnBin r))
             (srv_err ((ru ''Owibka zapuska priloxeni9 '') @ ''FMTP '' @ (ru ''kanala. Ispoln9emyj fajl: '') @ path @
                (''. '' @ ru ''Idenifikator kanala: '') @ i @ (''. '' @ ru ''Owibka: '') @ e @ ''.'') cc)
         | None \<Rightarrow> set_running (killChan (rnBin r))
             (srv_debug ((ru ''Zapuqeno priloxeni9 '') @ ''FMTP '' @ (ru ''kanala. Ispoln9emyj fajl: '') @ path @
                (''. '' @ ru ''Idenifikator kanala: '') @ i @ ''.'') cc))"

text \<open>Its end: the process has exited, with the error of \<open>cmd.Wait\<close>.\<close>

definition set_state_error :: "int \<Rightarrow> ChiefChannelServer \<Rightarrow> ChiefChannelServer" where
  "set_state_error i cc =
     (case map_of (chStates cc) i of
        None \<Rightarrow> cc
      | Some st \<Rightarrow>
          cc\<lparr>chStates := AList.update i (st\<lparr>chState := (chState st)\<lparr>DaemonState := ChannelStateError\<rparr>\<rparr>) (chStates cc)\<rparr>)"

definition process_exit :: "runner \<Rightarrow> string option \<Rightarrow> ChiefChannelServer \<Rightarrow> ChiefChannelServer" where
  "process_exit r waitErr cc =
     (let i = csId (rnSetts r);
          cc = drop_runner (killChan (rnBin r)) cc;
          cc = (case waitErr of
                  None \<Rightarrow> cc
                | Some e \<Rightarrow>
                    set_state_error i (delete_bin i
                      (srv_err ((ru ''Newtatnoe zaverwenie priloxeni9 '') @ ''FMTP '' @ (ru ''kanala. Ispoln9emyj fajl: '') @
                         filePath (rnBin r) @ (''. '' @ ru ''Identifikator kanala: '') @ Itoa i @ (''. '' @ ru ''Owibka: '') @ e @ ''.'') cc)))
      in checkChannelWorking i cc)"

text \<open>\<open>startChannelContainer\<close>: how far the start comes.\<close>

datatype docker_start = ClientError string | CreateError string | StartError string | Started

definition container_start :: "srv_env \<Rightarrow> runner \<Rightarrow> docker_start \<Rightarrow> ChiefChannelServer \<Rightarrow> ChiefChannelServer" where
  "container_start env r outcome cc =
     (let s = rnSetts r;
          failed = (\<lambda>cc. drop_runner (killChan (rnBin r)) (delete_bin (csId s) cc));
          name = container_name s;
          image = image_name env s;
          created = (\<lambda>cc. srv_debug ((ru ''Sozdan '') @ ''docker '' @ (ru ''kontejner '') @ name @ (''. '' @ ru ''Ispol8zuemyj obraz: '') @ image @ ''.'')
             (srv_emit (RunContainer name image
                (''/fdps/fmtp_channel'' # tl (channel_args [] (ChPort (srvSetts cc)) s))) cc))
      in case outcome of
           ClientError e \<Rightarrow> failed (srv_err ((ru ''Owibka sozdani9 klienta servisa '') @ ''docker. '' @ (ru ''Owibka: '') @ e) cc)
         | CreateError e \<Rightarrow> failed
             (srv_err ((ru ''Owibka sozdani9 '') @ ''docker '' @ (ru ''kontejnera '') @ name @ (''. '' @ ru ''Ispol8zuemyj obraz: '') @ image @
                (''. '' @ ru ''Owibka: '') @ e @ ''.'') cc)
         | StartError e \<Rightarrow> failed
             (srv_err ((ru ''Owibka zapuska '') @ ''docker '' @ (ru ''kontejnera '') @ name @ (''. '' @ ru ''Owibka: '') @ e @ ''.'') (created cc))
         | Started \<Rightarrow> set_running (killChan (rnBin r))
             (srv_debug ((ru ''Zapuqen '') @ ''docker '' @ (ru ''kontejner '') @ name @ ''.'') (created cc)))"

text \<open>Its end: an error of waiting, or a status with a code and maybe an error.\<close>

datatype docker_end = WaitError "string option" | StatusChanged int "string option"

definition container_end :: "runner \<Rightarrow> docker_end \<Rightarrow> ChiefChannelServer \<Rightarrow> ChiefChannelServer" where
  "container_end r outcome cc =
     (let i = csId (rnSetts r);
          name = container_name (rnSetts r);
          cc = drop_runner (killChan (rnBin r)) cc
      in case outcome of
           WaitError e \<Rightarrow>
             delete_bin i (case e of None \<Rightarrow> cc
               | Some e \<Rightarrow> srv_err ((ru ''Owibka v rabote '') @ ''docker '' @ (ru ''kontejnera '') @ name @ (''. '' @ ru ''Owibka: '') @ e @ ''.'') cc)
         | StatusChanged code e \<Rightarrow>
             checkChannelWorking i (delete_bin i
               (srv_err (case e of
                    Some e \<Rightarrow> (ru ''Izmenen status '') @ ''docker '' @ (ru ''kontejnera '') @ name @ (''. '' @ ru ''Status: '') @ Itoa code @ (''. '' @ ru ''Owibka: '') @ e @ ''.''
                  | None \<Rightarrow> (ru ''Izmenen status '') @ ''docker '' @ (ru ''kontejnera '') @ name @ (''. '' @ ru ''Status: '') @ Itoa code @ ''.'') cc)))"

section \<open>New settings\<close>

text \<open>
  The three loops over the settings: what has to be stopped and started, and the states
  that are set anew on the way.
\<close>

fun restart_all ::
  "time \<Rightarrow> ChannelSettings list \<Rightarrow> ChiefChannelServer \<Rightarrow> int list \<times> ChiefChannelServer" where
  "restart_all now [] cc = ([], cc)"
| "restart_all now (val # vals) cc =
     (let cc = initChannelState now val cc;
          (needToStartIds, cc) = restart_all now vals cc
      in (if IsWorking val then csId val # needToStartIds else needToStartIds, cc))"

fun compare_new ::
  "time \<Rightarrow> ChannelSettings list \<Rightarrow> ChannelSettings list \<Rightarrow> ChiefChannelServer \<Rightarrow>
   int list \<times> int list \<times> ChiefChannelServer" where
  "compare_new now old [] cc = ([], [], cc)"
| "compare_new now old (newIt # new) cc =
     (case find_setts (csId newIt) old of
        Some oldIt \<Rightarrow>
          if oldIt \<noteq> newIt then
            (let (stops, starts, cc) = compare_new now old new (initChannelState now newIt cc)
             in (if IsWorking oldIt then csId oldIt # stops else stops,
                 if IsWorking newIt then csId newIt # starts else starts, cc))
          else compare_new now old new cc
      | None \<Rightarrow>
          (let (stops, starts, cc) = compare_new now old new (initChannelState now newIt cc)
           in (stops, if IsWorking newIt then csId newIt # starts else starts, cc)))"

definition removed_ids :: "ChannelSettings list \<Rightarrow> ChannelSettings list \<Rightarrow> int list" where
  "removed_ids old new =
     map csId (filter (\<lambda>oldIt. find_setts (csId oldIt) new = None \<and> IsWorking oldIt) old)"

definition new_settings ::
  "srv_env \<Rightarrow> time \<Rightarrow> ChannelSettingsWithPort \<Rightarrow> ChiefChannelServer \<Rightarrow> ChiefChannelServer option" where
  "new_settings env now newSetts cc =
     (let old = ChSettings (srvSetts cc); new = ChSettings newSetts;
          (needToStopIds, needToStartIds, cc) =
            (if ChPort (srvSetts cc) \<noteq> ChPort newSetts then
               (let cc = srv_emit (WsServerPort (ChPort newSetts)) cc;
                    (starts, cc) = restart_all now new cc
                in (map csId (filter IsWorking old), starts, cc))
             else if old \<noteq> new then
               (let (stops, starts, cc) = compare_new now old new cc
                in (stops @ removed_ids old new, starts, cc))
             else ([], [], cc));
          cc = cc\<lparr>srvSetts := newSetts\<rparr>
      in case stopChannelsByIDs env needToStopIds cc of
           None \<Rightarrow> None
         | Some cc \<Rightarrow> Some (cc\<lparr>delayed := delayed cc @ [needToStartIds]\<rparr>))"

text \<open>Two seconds later the timer of \<open>AfterFunc\<close> starts the channels.\<close>

definition delayed_start :: "srv_env \<Rightarrow> nat \<Rightarrow> ChiefChannelServer \<Rightarrow> ChiefChannelServer option" where
  "delayed_start env k cc =
     (if k < length (delayed cc)
      then Some (startChannelsByIDs env (delayed cc ! k)
             (cc\<lparr>delayed := take k (delayed cc) @ drop (Suc k) (delayed cc)\<rparr>))
      else None)"

section \<open>Packets of the provider and messages of the channels\<close>

definition ProcessOldiPacket :: "MsgWithChanId \<Rightarrow> ChiefChannelServer \<Rightarrow> ChiefChannelServer" where
  "ProcessOldiPacket msgWithId cc =
     (case wsClients cc (ChanId msgWithId) of
        Some sock \<Rightarrow>
          (let oldiData = marshal_data (CreateChiefDataMsg (ChanId msgWithId) (pbTxt (PbMsg msgWithId)))
           in case map_of (chStates cc) (ChanId msgWithId) of
                Some st \<Rightarrow>
                  if stFmtpState (chState st) = FmtpState_ToString DataReady then
                    srv_emit (Metrics \<lparr>mtTp = ChanTpSend, LocAtc = stLocalName (chState st),
                                       RemAtc = stRemoteName (chState st), Count = 1\<rparr>)
                      (srv_emit (SendWs oldiData sock) cc)
                  else cc
              | None \<Rightarrow> cc)
      | None \<Rightarrow> srv_err ((ru ''Ne najdeno '') @ ''WebSocket '' @ (ru ''soedinenie kanala dl9 otpravki soobqeni9.'')) cc)"

text \<open>A channel asks for its settings. Where there are none for it, the answer is the zero
  settings, and it goes to the client of the identifier of the settings, 0.\<close>

definition request_received :: "socket \<Rightarrow> ws_data \<Rightarrow> ChiefChannelServer \<Rightarrow> ChiefChannelServer" where
  "request_received sock d cc =
     (let (reqSettsMsg, ok) =
            Unmarshal request_fields (wsDoc d) \<lparr>Header = [], reqChannelID = 0\<rparr>
      in if ok then
           (let cc = cc\<lparr>wsClients := (wsClients cc)(reqChannelID reqSettsMsg \<mapsto> Some sock)\<rparr>;
                channelSetts = (case find_setts (reqChannelID reqSettsMsg) (ChSettings (srvSetts cc)) of
                                  Some curSetts \<Rightarrow> curSetts | None \<Rightarrow> zeroChannelSettings)
            in srv_emit (SendWs (marshal_answer (CreateSettingsAnswerMsg channelSetts))
                 (case wsClients cc (csId channelSetts) of Some s \<Rightarrow> s | None \<Rightarrow> None)) cc)
         else cc)"

definition zeroChannelState :: ChannelState where
  "zeroChannelState = \<lparr>ChannelID = 0, stLocalName = [], stRemoteName = [], DaemonState = [],
     stFmtpState = [], ChannelURL = [], StateColor = []\<rparr>"

definition heartbeat_received ::
  "time \<Rightarrow> socket \<Rightarrow> ws_data \<Rightarrow> ChiefChannelServer \<Rightarrow> ChiefChannelServer" where
  "heartbeat_received now sock d cc =
     (let (curHbtMsg, ok) =
            Unmarshal heartbeat_fields (wsDoc d) \<lparr>Header = [], hbtState = zeroChannelState\<rparr>;
          i = ChannelID (hbtState curHbtMsg);
          cc = (if ok then
                  cc\<lparr>chStates := AList.update i \<lparr>chState = hbtState curHbtMsg, chTime = now\<rparr> (chStates cc)\<rparr>
                else cc)
      in if wsClients cc i = None then cc\<lparr>wsClients := (wsClients cc)(i \<mapsto> Some sock)\<rparr> else cc)"

definition log_received :: "ws_data \<Rightarrow> ChiefChannelServer \<Rightarrow> ChiefChannelServer" where
  "log_received d cc =
     (let (curLogMsg, ok) = Unmarshal log_msg_fields (wsDoc d) \<lparr>Header = [], logMessage = zeroLogMessage\<rparr>;
          l = logMessage curLogMsg
      in if ok then
           (if Severity l = SeverityDebug then srv_emit (SrvPrintLog PrintDebug l) cc
            else if Severity l = SeverityInfo then srv_emit (SrvPrintLog PrintInfo l) cc
            else if Severity l = SeverityWarning then srv_emit (SrvPrintLog PrintWarn l) cc
            else if Severity l = SeverityError then srv_emit (SrvPrintLog PrintErr l) cc
            else cc)
         else cc)"

definition message_received :: "ws_data \<Rightarrow> ChiefChannelServer \<Rightarrow> ChiefChannelServer" where
  "message_received d cc =
     (let (dataMsg, ok) = Unmarshal data_fields (wsDoc d) zeroDataMsg
      in if ok then
           (let (localAtc, remoteAtc, channelType) =
                  (case find_setts (dataChannelID dataMsg) (ChSettings (srvSetts cc)) of
                     Some val \<Rightarrow> (LocalATC val, RemoteATC val, csDataType val)
                   | None \<Rightarrow> ([], [], []))
            in if channelType = OLDIProvider then
                 (let oldiPkg = zeroPbMsg\<lparr>pbId := Itoa (oldiIdent cc), pbCid := remoteAtc,
                                          pbTxt := msgText (dataMessage dataMsg)\<rparr>;
                      next = oldiIdent cc + 1;
                      cc = cc\<lparr>oldiIdent := (if next > 1000 then 1 else next)\<rparr>;
                      cc = srv_emit (ToFdps oldiPkg) cc
                  in srv_emit (Metrics \<lparr>mtTp = ChanTpRecv, LocAtc = localAtc, RemAtc = remoteAtc, Count = 1\<rparr>) cc)
               else cc)
         else cc)"

definition ws_received ::
  "srv_env \<Rightarrow> time \<Rightarrow> socket \<Rightarrow> ws_data \<Rightarrow> ChiefChannelServer \<Rightarrow> ChiefChannelServer" where
  "ws_received env now sock d cc =
     (let (curHdr, ok) = Unmarshal header_fields (wsDoc d) \<lparr>Header = []\<rparr>;
          h = Header curHdr
      in if ok then
           (if h = RequestSettingsHeader then request_received sock d cc
            else if h = ChannelHeartbeatHeader then heartbeat_received now sock d cc
            else if h = ChannelLogHeader then log_received d cc
            else if h = ChannelMessageHeader then message_received d cc
            else cc)
         else srv_err ((ru ''Owibka razbora soobqeni9 ot priloxeni9 '') @ ''FMTP '' @ (ru ''kanala. Owibka: '') @
                srvJsonError env (wsText d) @ ''.'') cc)"

section \<open>The WebSocket server and the ticker\<close>

datatype ws_report =
  ClntConn string | ClntDisconn string | ClntReject string | WsError string | TryToStart | ServerError

fun ws_reported :: "srv_env \<Rightarrow> ws_report \<Rightarrow> ChiefChannelServer \<Rightarrow> ChiefChannelServer" where
  "ws_reported env (ClntConn addr) cc =
     srv_debug (''WS '' @ (ru ''server dl9 vzaimodejstvi9 s '') @ ''FMTP '' @ (ru ''kanalami. Podkl04en klient s adresom: '') @ addr @ ''.'') cc"
| "ws_reported env (ClntDisconn addr) cc =
     srv_debug (''WS '' @ (ru ''server dl9 vzaimodejstvi9 s '') @ ''FMTP '' @ (ru ''kanalami. Otkl04en klient s adresom: '') @ addr @ ''.'') cc"
| "ws_reported env (ClntReject addr) cc =
     srv_debug (''WS '' @ (ru ''server dl9 vzaimodejstvi9 s '') @ ''FMTP '' @ (ru ''kanalami. Otklonen klient s adresom: '') @ addr @ ''.'') cc"
| "ws_reported env (WsError e) cc =
     srv_err ((ru ''Voznikla owibka pri rabote '') @ ''WS '' @ (ru ''servera dl9 vzaimodejstvi9 s '') @ ''FMTP '' @ (ru ''kanalami. Owibka: '') @ e @ ''.'') cc"
| "ws_reported env TryToStart cc =
     (let place = Itoa (ChPort (srvSetts cc)) @ ''. Path: '' @ [CHR 0x22] @ WsUrlPath env @ [CHR 0x22]
      in srv_emit (SrvParam (''WS FMTP '' @ (ru ''kanalov. Sosto9nie:'')) ((ru ''Zapuqen.'') @ '' '' @ (ru ''Port: '') @ place) (StateOkColor env))
           (srv_debug ((ru ''Zapuskaem '') @ ''WS '' @ (ru ''server dl9 vzaimodejstvi9 s '') @ ''FMTP '' @ (ru ''kanalami. Port: '') @ place @ ''.'') cc))"
| "ws_reported env ServerError cc =
     srv_emit (SrvParam (''WS FMTP '' @ (ru ''kanalov. Sosto9nie:'')) (ru ''Ne zapuqen.'') (StateErrorColor env)) cc"

text \<open>
  The ticker: a state not reported for ten seconds is set anew, where the channel should
  work; then all states are given to the state of the chief. The identifiers are those
  the map had, in the order of the iteration.
\<close>

definition refresh_state :: "time \<Rightarrow> int \<Rightarrow> ChiefChannelServer \<Rightarrow> ChiefChannelServer" where
  "refresh_state now channelId cc =
     (case map_of (chStates cc) channelId of
        None \<Rightarrow> cc
      | Some val \<Rightarrow>
          if chTime val + 10 * StateSendInterval < now then
            (case find (\<lambda>s. csId s = channelId \<and> IsWorking s) (ChSettings (srvSetts cc)) of
               None \<Rightarrow> cc
             | Some setts \<Rightarrow>
                 initChannelState now setts (cc\<lparr>chStates := AList.delete channelId (chStates cc)\<rparr>))
          else cc)"

definition states_tick :: "time \<Rightarrow> ChiefChannelServer \<Rightarrow> ChiefChannelServer" where
  "states_tick now cc =
     (let cc = fold (refresh_state now) (map fst (chStates cc)) cc;
          channelStates = map (chState \<circ> snd) (chStates cc)
      in srv_emit (SetStates (if channelStates = [] then None else Some channelStates)) cc)"

section \<open>Steps\<close>

datatype srv_input =
  NewSettings ChannelSettingsWithPort
| DelayedStart nat
| FromProvider MsgWithChanId
| WsPackage socket ws_data
| WsReported ws_report
| StatesTick
| ProcessStarted runner "string option"
| ProcessExited runner "string option"
| ContainerStarted runner docker_start
| ContainerEnded runner docker_end

definition at_runner :: "runner_pc \<Rightarrow> runner \<Rightarrow> ChiefChannelServer \<Rightarrow> bool" where
  "at_runner pc r cc \<longleftrightarrow> r \<in> set (runners cc) \<and> rnPc r = pc"

fun srv_step :: "srv_env \<Rightarrow> time \<Rightarrow> srv_input \<Rightarrow> ChiefChannelServer \<Rightarrow> ChiefChannelServer option" where
  "srv_step env now (NewSettings st) cc = new_settings env now st cc"
| "srv_step env now (DelayedStart k) cc = delayed_start env k cc"
| "srv_step env now (FromProvider m) cc = Some (ProcessOldiPacket m cc)"
| "srv_step env now (WsPackage sock d) cc = Some (ws_received env now sock d cc)"
| "srv_step env now (WsReported r) cc = Some (ws_reported env r cc)"
| "srv_step env now StatesTick cc = Some (states_tick now cc)"
| "srv_step env now (ProcessStarted r e) cc =
     (if at_runner Launching r cc \<and> \<not> withDocker cc then Some (process_start env r e cc) else None)"
| "srv_step env now (ProcessExited r e) cc =
     (if at_runner Running r cc \<and> \<not> withDocker cc then Some (process_exit r e cc) else None)"
| "srv_step env now (ContainerStarted r e) cc =
     (if at_runner Launching r cc \<and> withDocker cc then Some (container_start env r e cc) else None)"
| "srv_step env now (ContainerEnded r e) cc =
     (if at_runner Running r cc \<and> withDocker cc then Some (container_end r e cc) else None)"

end
