(* ===== verification/Oldi_Tcp.thy ===== *)
theory Oldi_Tcp
  imports Chief_Data Chief_Server State_Controller
begin

text \<open>
  The exchange with OLDI providers over TCP, \<open>chief/oldi/oldi_tcp_controller.go\<close>, as
  interleaved steps of its goroutines: \<open>Work\<close>, the listeners of \<open>startServer\<close> and a
  receiving and a sending loop per connection. Connections and listeners are numbered in the
  order of their creation; a connection stays in the list after it has left the map
  \<open>providerClients\<close>, because its loops go on until they see its closed channel. The network
  is the results of its calls.
\<close>

section \<open>State\<close>

datatype recv_pc = RecvCheck | RecvReading | RecvEnded
datatype serve_pc = Listening int | ServeCheck | ServeAccept nat | ServeEnded

record oldi_conn =
  ocAddr :: string
  ocIP :: string
  inClients :: bool
  cancelWorkClosed :: bool
  toSendDataChan :: "byte list list"
  recvPc :: recv_pc
  sendAlive :: bool

record oldi_server =
  servePc :: serve_pc
  ctxDone :: bool

datatype oldi_effect =
  OldiPrint print_level string
| OldiPrintLog print_level LogMessage
| OldiDebugParam string string
| FromOldiData "byte list"
| OldiWritten nat "byte list"
| OldiStates "ProviderState list"
| OldiCrash

record OldiTcpController =
  otSetts :: "ProviderSettings list"
  conns :: "oldi_conn list"
  servers :: "oldi_server list"
  listeners :: "bool list"
  tcpListener :: "nat option"
  tcpListenerWork :: bool
  tcpLocalPort :: int
  closeListener :: "nat option"
  providerEncoding :: string
  otOut :: "oldi_effect list"

definition NewOldiTcpController :: OldiTcpController where
  "NewOldiTcpController =
     \<lparr>otSetts = [], conns = [], servers = [], listeners = [], tcpListener = None, tcpListenerWork = False,
      tcpLocalPort = 0, closeListener = None, providerEncoding = [], otOut = []\<rparr>"

definition ot_emit :: "oldi_effect \<Rightarrow> OldiTcpController \<Rightarrow> OldiTcpController" where
  "ot_emit e c = c\<lparr>otOut := otOut c @ [e]\<rparr>"

definition set_conn :: "nat \<Rightarrow> oldi_conn \<Rightarrow> OldiTcpController \<Rightarrow> OldiTcpController" where
  "set_conn i v c = c\<lparr>conns := (conns c)[i := v]\<rparr>"

definition set_server :: "nat \<Rightarrow> serve_pc \<Rightarrow> OldiTcpController \<Rightarrow> OldiTcpController" where
  "set_server j pc c = c\<lparr>servers := (servers c)[j := (servers c ! j)\<lparr>servePc := pc\<rparr>]\<rparr>"

section \<open>Operations\<close>

definition closeClient :: "nat \<Rightarrow> OldiTcpController \<Rightarrow> OldiTcpController" where
  "closeClient i c =
     (let val = conns c ! i
      in if inClients val then
           (let c = set_conn i (val\<lparr>cancelWorkClosed := True, inClients := False\<rparr>) c
            in ot_emit (OldiPrint PrintDebug ((ru ''Otkl04en '') @ ''OLDI '' @ (ru ''provajder. Adres: '') @ ocAddr val)) c)
         else c)"

text \<open>The clients are closed in the order of a map, which Go leaves open; the connections have no
  order among each other, so the order of their numbers stands for any.\<close>

definition stopServer :: "string option \<Rightarrow> OldiTcpController \<Rightarrow> OldiTcpController" where
  "stopServer errClose c =
     (let c = fold closeClient [0..<length (conns c)] c;
          c = (case tcpListener c of
                 None \<Rightarrow> ot_emit OldiCrash c
               | Some k \<Rightarrow> c\<lparr>listeners := (listeners c)[k := False]\<rparr>);
          c = (case errClose of
                 Some e \<Rightarrow> ot_emit (OldiPrint PrintErr
                   ((ru ''Owibka zakryti9 '') @ ''TCP '' @ (ru ''servera dl9 podkl04eni9 '') @ ''OLDI '' @ (ru ''provajderov. Owibka: '') @
                    ''%!v(MISSING)'')) c
               | None \<Rightarrow> c)
      in case closeListener c of
           None \<Rightarrow> ot_emit OldiCrash c
         | Some j \<Rightarrow> c\<lparr>servers := (servers c)[j := (servers c ! j)\<lparr>ctxDone := True\<rparr>]\<rparr>)"

text \<open>\<open>startServer\<close>: first it listens, then it takes connections one by one.\<close>

definition serve_listen :: "nat \<Rightarrow> string option \<Rightarrow> OldiTcpController \<Rightarrow> OldiTcpController option" where
  "serve_listen j errListen c =
     (if \<not> j < length (servers c) then None
      else case servePc (servers c ! j) of
        Listening localPort \<Rightarrow>
          (case errListen of
             Some e \<Rightarrow>
               (let c = ot_emit (OldiPrint PrintErr ((ru ''Owibka zapuska '') @ ''TCP '' @ (ru ''servera '') @ ''OLDI '' @
                          (ru ''provajdera. Owibka: '') @ e @ ''.'')) (c\<lparr>tcpListener := None\<rparr>);
                    c = ot_emit (OldiDebugParam (''OLDI TCP. '' @ (ru ''Sosto9nie:'')) (ru ''Ne zapuqen.'')) c
                in Some (set_server j ServeEnded (c\<lparr>tcpListenerWork := False\<rparr>)))
           | None \<Rightarrow>
               (let c = c\<lparr>tcpListener := Some (length (listeners c)), listeners := listeners c @ [True],
                          tcpListenerWork := True\<rparr>;
                    c = ot_emit (OldiPrint PrintDebug ((ru ''Zapuqen '') @ ''TCP '' @ (ru ''server dl9 raboty s '') @ ''OLDI '' @
                          (ru ''provajderom. Port: '') @ Itoa localPort)) c;
                    c = ot_emit (OldiDebugParam (''OLDI TCP. '' @ (ru ''Sosto9nie:''))
                          ((ru ''Zapuqen.'') @ ('' '' @ ru ''Port: '') @ Itoa localPort)) c
                in Some (set_server j ServeCheck c)))
      | _ \<Rightarrow> None)"

definition serve_check :: "nat \<Rightarrow> OldiTcpController \<Rightarrow> OldiTcpController option" where
  "serve_check j c =
     (if j < length (servers c) \<and> servePc (servers c ! j) = ServeCheck then
        (if ctxDone (servers c ! j) then Some (set_server j ServeEnded c)
         else case tcpListener c of
                None \<Rightarrow> Some (ot_emit OldiCrash c)
              | Some k \<Rightarrow> Some (set_server j (ServeAccept k) c))
      else None)"

definition new_conn :: "string \<Rightarrow> string \<Rightarrow> oldi_conn" where
  "new_conn addr ip =
     \<lparr>ocAddr = addr, ocIP = ip, inClients = True, cancelWorkClosed = False, toSendDataChan = [],
      recvPc = RecvCheck, sendAlive = True\<rparr>"

text \<open>An accepted connection has a remote address, with the port, and its host. A closed listener
  accepts nothing.\<close>

definition serve_accept ::
  "nat \<Rightarrow> string + string \<times> string \<Rightarrow> OldiTcpController \<Rightarrow> OldiTcpController option" where
  "serve_accept j conn c =
     (if \<not> j < length (servers c) then None
      else case servePc (servers c ! j) of
        ServeAccept k \<Rightarrow>
          (case conn of
             Inl err \<Rightarrow>
               Some (set_server j ServeCheck
                 (ot_emit (OldiPrint PrintErr ((ru ''Owibka podkl04eni9 '') @ ''OLDI '' @ (ru ''provajdera. Owibka: '') @ err @ ''.'')) c))
           | Inr (addr, ip) \<Rightarrow>
               if listeners c ! k then
                 Some (set_server j ServeCheck
                   (ot_emit (OldiPrint PrintDebug ((ru ''Uspewnoe podkl04enie '') @ ''OLDI '' @
                      (ru ''provajdera. Adres podkl04ennogo klienta: '') @ ip)) (c\<lparr>conns := conns c @ [new_conn addr ip]\<rparr>)))
               else None)
      | _ \<Rightarrow> None)"

definition recv_check :: "nat \<Rightarrow> OldiTcpController \<Rightarrow> OldiTcpController option" where
  "recv_check i c =
     (if i < length (conns c) \<and> recvPc (conns c ! i) = RecvCheck then
        Some (set_conn i ((conns c ! i)\<lparr>recvPc :=
          (if cancelWorkClosed (conns c ! i) then RecvEnded else RecvReading)\<rparr>) c)
      else None)"

definition recv_data ::
  "sc_env \<Rightarrow> nat \<Rightarrow> string + byte list \<Rightarrow> OldiTcpController \<Rightarrow> OldiTcpController option" where
  "recv_data env i result c =
     (if i < length (conns c) \<and> recvPc (conns c ! i) = RecvReading then
        (let c = set_conn i ((conns c ! i)\<lparr>recvPc := RecvCheck\<rparr>) c
         in case result of
              Inl err \<Rightarrow>
                Some (closeClient i (ot_emit (OldiPrintLog PrintErr
                  (LogChannelSTDT (clock env (length (otOut c))) SeverityError NoneFmtpType DirectionIncoming
                    ((ru ''Owibka 4teni9 dannyh iz '') @ ''FMTP '' @ (ru ''kanala. Owibka: '') @ err @ ''.''))) c))
            | Inr buffer \<Rightarrow>
                if length buffer \<le> 8192 then
                  (let c = ot_emit (OldiPrint PrintDebug ((ru ''Prin9ty dannye ot '') @ ''OLDI '' @ (ru ''provajdera: '') @
                             string_of buffer)) c
                   in Some (ot_emit (FromOldiData
                        (if providerEncoding c = Encode1251 then Win1251toUtf8 env buffer else buffer)) c))
                else None)
      else None)"

definition send_stop :: "nat \<Rightarrow> OldiTcpController \<Rightarrow> OldiTcpController option" where
  "send_stop i c =
     (if i < length (conns c) \<and> sendAlive (conns c ! i) \<and> cancelWorkClosed (conns c ! i)
      then Some (set_conn i ((conns c ! i)\<lparr>sendAlive := False\<rparr>) c) else None)"

text \<open>The data that are sent stay empty unless the encoding is Windows-1251.\<close>

definition send_data ::
  "sc_env \<Rightarrow> nat \<Rightarrow> string option \<Rightarrow> OldiTcpController \<Rightarrow> OldiTcpController option" where
  "send_data env i result c =
     (if i < length (conns c) \<and> sendAlive (conns c ! i) then
        (case toSendDataChan (conns c ! i) of
           [] \<Rightarrow> None
         | curData # rest \<Rightarrow>
             (let dataToSend = (if providerEncoding c = Encode1251 then Utf8toWin1251 env curData else []);
                  c = set_conn i ((conns c ! i)\<lparr>toSendDataChan := rest\<rparr>) c
              in case result of
                   Some err \<Rightarrow>
                     Some (closeClient i (ot_emit (OldiPrintLog PrintErr
                       (LogChannelSTDT (clock env (length (otOut c))) SeverityError NoneFmtpType DirectionIncoming
                         ((ru ''Owibka otpravki dannyh v '') @ ''FMTP '' @ (ru ''kanala. Owibka: '') @ err @ ''.''))) c))
                 | None \<Rightarrow>
                     Some (ot_emit (OldiPrint PrintDebug ((ru ''Otpravleny dannye '') @ ''OLDI '' @ (ru ''provajderu: '') @
                       string_of curData)) (ot_emit (OldiWritten i dataToSend) c))))
      else None)"

section \<open>Work\<close>

definition last_port :: "ProviderSettings list \<Rightarrow> int" where
  "last_port setts = (if setts = [] then 0 else provLocalPort (last setts))"

definition oldi_new_setts ::
  "string option \<Rightarrow> ProviderSettings list \<Rightarrow> OldiTcpController \<Rightarrow> OldiTcpController" where
  "oldi_new_setts errClose setts c =
     (let localPort = last_port setts;
          c = c\<lparr>otSetts := setts,
                providerEncoding := (if setts = [] then providerEncoding c else ProviderEncoding (last setts))\<rparr>
      in if tcpLocalPort c \<noteq> localPort then
           (let c = c\<lparr>tcpLocalPort := localPort\<rparr>;
                c = (if tcpListenerWork c then stopServer errClose c else c)
            in c\<lparr>closeListener := Some (length (servers c)),
                 servers := servers c @ [\<lparr>servePc = Listening localPort, ctxDone = False\<rparr>]\<rparr>)
         else c)"

definition to_oldi :: "byte list \<Rightarrow> OldiTcpController \<Rightarrow> OldiTcpController option" where
  "to_oldi incomeData c =
     (if \<forall>v \<in> set (conns c). inClients v \<longrightarrow> length (toSendDataChan v) < 1024 then
        Some (c\<lparr>conns := map (\<lambda>v. if inClients v then v\<lparr>toSendDataChan := toSendDataChan v @ [incomeData]\<rparr> else v)
                           (conns c)\<rparr>)
      else None)"

definition client_addresses :: "OldiTcpController \<Rightarrow> ProviderSettings \<Rightarrow> string list" where
  "client_addresses c val =
     concat (map (\<lambda>ipVal. map ocAddr (filter (\<lambda>v. inClients v \<and> prefix ipVal (ocAddr v)) (conns c))) (IPAddresses val))"

definition oldi_provider_state :: "OldiTcpController \<Rightarrow> ProviderSettings \<Rightarrow> ProviderState" where
  "oldi_provider_state c val =
     \<lparr>ProviderID = provID val, ProviderType = provDataType val, ProviderIPs = IPAddresses val,
      provState = (if client_addresses c val = [] then StateError else StateOk), ProviderErrorMessage = [],
      ClientAddresses = concat (map (\<lambda>a. '' '' @ a) (client_addresses c val)), ProviderURL = [],
      provStateColor = []\<rparr>"

datatype oldi_action =
  OldiSetts "ProviderSettings list" "string option"
| ToOldi "byte list"
| OldiTick
| ServeListen nat "string option"
| ServeCheckCtx nat
| ServeConn nat "string + string \<times> string"
| RecvCheckCancel nat
| RecvData nat "string + byte list"
| SendStop nat
| SendData nat "string option"

fun oldi_move :: "sc_env \<Rightarrow> oldi_action \<Rightarrow> OldiTcpController \<Rightarrow> OldiTcpController option" where
  "oldi_move env (OldiSetts setts errClose) c = Some (oldi_new_setts errClose setts c)"
| "oldi_move env (ToOldi incomeData) c = to_oldi incomeData c"
| "oldi_move env OldiTick c = Some (ot_emit (OldiStates (map (oldi_provider_state c) (otSetts c))) c)"
| "oldi_move env (ServeListen j errListen) c = serve_listen j errListen c"
| "oldi_move env (ServeCheckCtx j) c = serve_check j c"
| "oldi_move env (ServeConn j conn) c = serve_accept j conn c"
| "oldi_move env (RecvCheckCancel i) c = recv_check i c"
| "oldi_move env (RecvData i result) c = recv_data env i result c"
| "oldi_move env (SendStop i) c = send_stop i c"
| "oldi_move env (SendData i result) c = send_data env i result c"

text \<open>A nil pointer ends the program.\<close>

definition oldi_step :: "sc_env \<Rightarrow> oldi_action \<Rightarrow> OldiTcpController \<Rightarrow> OldiTcpController option" where
  "oldi_step env a c = (if OldiCrash \<in> set (otOut c) then None else oldi_move env a c)"

section \<open>Lemmas\<close>

lemma ot_emit_simps [simp]:
  "otSetts (ot_emit e c) = otSetts c" "conns (ot_emit e c) = conns c" "servers (ot_emit e c) = servers c"
  "listeners (ot_emit e c) = listeners c" "tcpListener (ot_emit e c) = tcpListener c"
  "providerEncoding (ot_emit e c) = providerEncoding c" "otOut (ot_emit e c) = otOut c @ [e]"
  "closeListener (ot_emit e c) = closeListener c"
  by (simp_all add: ot_emit_def)

lemma set_conn_simps [simp]:
  "conns (set_conn i v c) = (conns c)[i := v]" "providerEncoding (set_conn i v c) = providerEncoding c"
  "otOut (set_conn i v c) = otOut c" "servers (set_conn i v c) = servers c"
  "tcpListener (set_conn i v c) = tcpListener c" "closeListener (set_conn i v c) = closeListener c"
  by (simp_all add: set_conn_def)

lemma set_server_simps [simp]:
  "conns (set_server j pc c) = conns c" "providerEncoding (set_server j pc c) = providerEncoding c"
  "otOut (set_server j pc c) = otOut c"
  by (simp_all add: set_server_def)

definition written :: "nat \<Rightarrow> oldi_effect list \<Rightarrow> byte list list" where
  "written i es = concat (map (\<lambda>e. case e of OldiWritten k bs \<Rightarrow> if k = i then [bs] else [] | _ \<Rightarrow> []) es)"

lemma written_simps [simp]:
  "written i [] = []" "written i (es @ fs) = written i es @ written i fs"
  "written i (e # es) = (case e of OldiWritten k bs \<Rightarrow> if k = i then [bs] else [] | _ \<Rightarrow> []) @ written i es"
  by (simp_all add: written_def)

text \<open>What closing clients leaves alone.\<close>

lemma closeClient_frame [simp]:
  "providerEncoding (closeClient i c) = providerEncoding c" "written k (otOut (closeClient i c)) = written k (otOut c)"
  "length (conns (closeClient i c)) = length (conns c)"
  by (simp_all add: closeClient_def Let_def)

lemma closeClient_conn:
  "inClients (conns (closeClient i c) ! k) \<Longrightarrow> k < length (conns c) \<Longrightarrow>
   k \<noteq> i \<and> conns (closeClient i c) ! k = conns c ! k \<and> inClients (conns c ! k)"
  by (cases "k = i") (auto simp: closeClient_def Let_def split: if_splits)

lemma fold_close_frame [simp]:
  "providerEncoding (fold closeClient is c) = providerEncoding c"
  "written k (otOut (fold closeClient is c)) = written k (otOut c)"
  "length (conns (fold closeClient is c)) = length (conns c)"
  by (induction "is" arbitrary: c) simp_all

lemma fold_close_conn:
  "inClients (conns (fold closeClient is c) ! k) \<Longrightarrow> k < length (conns c) \<Longrightarrow>
   k \<notin> set is \<and> conns (fold closeClient is c) ! k = conns c ! k"
proof (induction "is" arbitrary: c)
  case (Cons i "is")
  from Cons.IH [of "closeClient i c"] Cons.prems
  have "k \<notin> set is" "conns (fold closeClient is (closeClient i c)) ! k = conns (closeClient i c) ! k" by simp_all
  then show ?case using closeClient_conn [of i c k] Cons.prems by auto
qed simp

lemma stopServer_conns: "conns (stopServer e c) = conns (fold closeClient [0..<length (conns c)] c)"
  by (simp add: stopServer_def Let_def split: option.split)

lemma stopServer_frame [simp]:
  "providerEncoding (stopServer e c) = providerEncoding c" "written k (otOut (stopServer e c)) = written k (otOut c)"
  "length (conns (stopServer e c)) = length (conns c)"
  by (simp_all add: stopServer_def Let_def split: option.split)

lemma stopServer_closes [simp]: "i < length (conns c) \<Longrightarrow> inClients (conns (stopServer e c) ! i) = False"
  using fold_close_conn [of "[0..<length (conns c)]" c i] by (auto simp: stopServer_conns)

text \<open>A client in the map is there since it was accepted, so it got all data since then.\<close>

definition keeps_encoding :: "bool \<Rightarrow> oldi_action \<Rightarrow> bool" where
  "keeps_encoding win a =
     (case a of OldiSetts setts e \<Rightarrow> setts = [] \<or> (ProviderEncoding (last setts) = Encode1251) = win | _ \<Rightarrow> True)"

fun oldi_pushed :: "oldi_action \<Rightarrow> byte list list" where
  "oldi_pushed (ToOldi d) = [d]" | "oldi_pushed _ = []"

definition is_win :: "OldiTcpController \<Rightarrow> bool" where
  "is_win c \<longleftrightarrow> providerEncoding c = Encode1251"

lemma encoding_step:
  assumes "oldi_step env a c = Some c'" "keeps_encoding (is_win c) a"
  shows "is_win c' = is_win c"
  using assms
  by (cases a)
    (auto simp: oldi_step_def is_win_def keeps_encoding_def oldi_new_setts_def to_oldi_def serve_listen_def serve_check_def
      serve_accept_def recv_check_def recv_data_def send_stop_def send_data_def Let_def
      split: if_splits option.splits serve_pc.splits sum.splits list.splits prod.splits)

lemma length_conns_step:
  "oldi_step env a c = Some c' \<Longrightarrow> length (conns c) \<le> length (conns c')"
  by (cases a)
    (auto simp: oldi_step_def oldi_new_setts_def to_oldi_def serve_listen_def serve_check_def
      serve_accept_def recv_check_def recv_data_def send_stop_def send_data_def Let_def
      split: if_splits option.splits serve_pc.splits sum.splits list.splits prod.splits)

definition wire_bytes :: "sc_env \<Rightarrow> bool \<Rightarrow> byte list \<Rightarrow> byte list" where
  "wire_bytes env win d = (if win then Utf8toWin1251 env d else [])"

lemma client_fifo_step:
  assumes "oldi_step env a c = Some c'" "i < length (conns c)" "inClients (conns c' ! i)"
  shows "inClients (conns c ! i) \<and>
    written i (otOut c') @ map (wire_bytes env (is_win c)) (toSendDataChan (conns c' ! i)) =
    written i (otOut c) @ map (wire_bytes env (is_win c)) (toSendDataChan (conns c ! i) @ oldi_pushed a)"
proof (cases a)
  case (OldiSetts setts e)
  then show ?thesis
    using assms
    by (auto simp: oldi_step_def oldi_new_setts_def Let_def split: if_splits)
next
  case (ToOldi d)
  then show ?thesis using assms by (auto simp: oldi_step_def to_oldi_def split: if_splits)
next
  case (RecvData k r)
  then show ?thesis
    using assms
    by (auto simp: oldi_step_def recv_data_def Let_def nth_list_update split: if_splits sum.splits dest!: closeClient_conn)
next
  case (SendData k r)
  then show ?thesis
    using assms
    by (auto simp: oldi_step_def send_data_def Let_def nth_list_update wire_bytes_def is_win_def
        split: if_splits option.splits list.splits dest!: closeClient_conn)
qed (use assms in \<open>auto simp: oldi_step_def serve_listen_def serve_check_def serve_accept_def recv_check_def
       send_stop_def Let_def nth_list_update nth_append
       split: if_splits option.splits serve_pc.splits sum.splits prod.splits\<close>)

lemma client_fifo_run:
  "run_steps (oldi_step env) as c = Some c' \<Longrightarrow> list_all (keeps_encoding (is_win c)) as \<Longrightarrow>
   i < length (conns c) \<Longrightarrow> inClients (conns c' ! i) \<Longrightarrow>
   inClients (conns c ! i) \<and>
   written i (otOut c') @ map (wire_bytes env (is_win c)) (toSendDataChan (conns c' ! i)) =
     written i (otOut c) @ map (wire_bytes env (is_win c))
       (toSendDataChan (conns c ! i) @ concat (map oldi_pushed as))"
proof (induction "as" arbitrary: c)
  case (Cons a "as")
  then obtain d where d: "oldi_step env a c = Some d" "run_steps (oldi_step env) as d = Some c'"
    by (auto split: option.splits)
  have e: "is_win d = is_win c" using encoding_step [OF d(1)] Cons.prems(2) by simp
  have l: "i < length (conns d)" using length_conns_step [OF d(1)] Cons.prems(3) by simp
  have IH: "inClients (conns d ! i)"
    "written i (otOut c') @ map (wire_bytes env (is_win c)) (toSendDataChan (conns c' ! i)) =
     written i (otOut d) @ map (wire_bytes env (is_win c)) (toSendDataChan (conns d ! i) @ concat (map oldi_pushed as))"
    using Cons.IH [OF d(2) _ l Cons.prems(4)] Cons.prems(2) e by simp_all
  from client_fifo_step [OF d(1) Cons.prems(3) IH(1)] IH(2) show ?case by simp
qed simp

text \<open>Well-formed states: the numbers of listeners and servers are in range, a server that works
  has its listener, and a client in the map has an open channel and both its loops.\<close>

definition conn_ok :: "oldi_conn \<Rightarrow> bool" where
  "conn_ok v \<longleftrightarrow> inClients v = (\<not> cancelWorkClosed v) \<and> (inClients v \<longrightarrow> sendAlive v \<and> recvPc v \<noteq> RecvEnded)"

definition server_ok :: "nat \<Rightarrow> oldi_server \<Rightarrow> bool" where
  "server_ok n s \<longleftrightarrow> (\<forall>k. servePc s = ServeAccept k \<longrightarrow> k < n)"

definition oldi_wf :: "OldiTcpController \<Rightarrow> bool" where
  "oldi_wf c \<longleftrightarrow>
     list_all conn_ok (conns c) \<and> list_all (server_ok (length (listeners c))) (servers c) \<and>
     (\<forall>k. tcpListener c = Some k \<longrightarrow> k < length (listeners c)) \<and>
     (closeListener c = None \<longrightarrow> servers c = []) \<and>
     (\<forall>j. closeListener c = Some j \<longrightarrow> j < length (servers c)) \<and>
     (tcpListenerWork c \<longrightarrow> tcpListener c \<noteq> None \<and> servers c \<noteq> [])"

lemma list_all_update: "list_all P xs \<Longrightarrow> (i < length xs \<Longrightarrow> P v) \<Longrightarrow> list_all P (xs[i := v])"
  by (cases "i < length xs") (auto simp: list_all_length nth_list_update)

lemma server_ok_at:
  "list_all (server_ok n) ss \<Longrightarrow> i < length ss \<Longrightarrow> servePc (ss ! i) = ServeAccept k \<Longrightarrow> k < n"
  by (simp add: list_all_length server_ok_def)

lemma server_ok_mono: "list_all (server_ok n) ss \<Longrightarrow> n \<le> m \<Longrightarrow> list_all (server_ok m) ss"
  by (fastforce simp: list_all_iff server_ok_def)

lemma close_rest [simp]:
  "servers (closeClient i c) = servers c" "listeners (closeClient i c) = listeners c"
  "tcpListener (closeClient i c) = tcpListener c" "closeListener (closeClient i c) = closeListener c"
  "tcpListenerWork (closeClient i c) = tcpListenerWork c"
  by (simp_all add: closeClient_def Let_def set_conn_def ot_emit_def)

lemma fold_close_rest [simp]:
  "servers (fold closeClient is c) = servers c" "listeners (fold closeClient is c) = listeners c"
  "tcpListener (fold closeClient is c) = tcpListener c" "closeListener (fold closeClient is c) = closeListener c"
  by (induction "is" arbitrary: c) simp_all

lemma close_conn_ok: "list_all conn_ok (conns c) \<Longrightarrow> list_all conn_ok (conns (closeClient i c))"
  by (auto simp: closeClient_def Let_def conn_ok_def intro!: list_all_update)

lemma fold_close_conn_ok: "list_all conn_ok (conns c) \<Longrightarrow> list_all conn_ok (conns (fold closeClient is c))"
  by (induction "is" arbitrary: c) (simp_all add: close_conn_ok)

lemma close_no_crash [simp]: "OldiCrash \<in> set (otOut (closeClient i c)) \<longleftrightarrow> OldiCrash \<in> set (otOut c)"
  by (simp add: closeClient_def Let_def)

lemma fold_close_no_crash [simp]:
  "OldiCrash \<in> set (otOut (fold closeClient is c)) \<longleftrightarrow> OldiCrash \<in> set (otOut c)"
  by (induction "is" arbitrary: c) simp_all

lemma setts_no_crash:
  assumes "oldi_wf c" "OldiCrash \<notin> set (otOut c)"
  shows "OldiCrash \<notin> set (otOut (oldi_new_setts e setts c))"
  using assms by (auto simp: oldi_new_setts_def stopServer_def oldi_wf_def Let_def split: option.splits)

lemma emit_wf [simp]: "oldi_wf (ot_emit e c) = oldi_wf c"
  by (simp add: oldi_wf_def ot_emit_def)

lemma set_conn_wf: "oldi_wf c \<Longrightarrow> (i < length (conns c) \<Longrightarrow> conn_ok v) \<Longrightarrow> oldi_wf (set_conn i v c)"
  by (simp add: oldi_wf_def set_conn_def list_all_update)

lemma conn_ok_at: "oldi_wf c \<Longrightarrow> i < length (conns c) \<Longrightarrow> conn_ok (conns c ! i)"
  by (simp add: oldi_wf_def list_all_length)

lemma set_server_wf:
  "oldi_wf c \<Longrightarrow> (\<forall>k. pc = ServeAccept k \<longrightarrow> k < length (listeners c)) \<Longrightarrow> oldi_wf (set_server j pc c)"
  by (auto simp: oldi_wf_def set_server_def server_ok_def [of _ "oldi_server.servePc_update _ _"]
      intro!: list_all_update split: option.splits)

lemma close_wf: "oldi_wf c \<Longrightarrow> oldi_wf (closeClient i c)"
  by (simp add: oldi_wf_def close_conn_ok)

lemma fold_close_wf: "oldi_wf c \<Longrightarrow> oldi_wf (fold closeClient is c)"
  by (induction "is" arbitrary: c) (simp_all add: close_wf)

lemma listener_wf: "oldi_wf c \<Longrightarrow> oldi_wf (c\<lparr>listeners := (listeners c)[k := b]\<rparr>)"
  by (simp add: oldi_wf_def)

lemma ctx_wf: "oldi_wf c \<Longrightarrow> oldi_wf (c\<lparr>servers := (servers c)[j := (servers c ! j)\<lparr>ctxDone := b\<rparr>]\<rparr>)"
  by (auto simp: oldi_wf_def server_ok_def [of _ "oldi_server.ctxDone_update _ _"]
      intro!: list_all_update dest: server_ok_at)

lemma stop_parts_wf:
  "oldi_wf c \<Longrightarrow> oldi_wf (case tcpListener c of None \<Rightarrow> ot_emit x c
     | Some k \<Rightarrow> c\<lparr>listeners := (listeners c)[k := False]\<rparr>)"
  "oldi_wf c \<Longrightarrow> oldi_wf (case e of None \<Rightarrow> c | Some err \<Rightarrow> ot_emit x c)"
  "oldi_wf c \<Longrightarrow> oldi_wf (case closeListener c of None \<Rightarrow> ot_emit x c
     | Some j \<Rightarrow> c\<lparr>servers := (servers c)[j := (servers c ! j)\<lparr>ctxDone := True\<rparr>]\<rparr>)"
  by (simp_all add: listener_wf ctx_wf split: option.split)

lemma stop_wf: "oldi_wf c \<Longrightarrow> oldi_wf (stopServer e c)"
  unfolding stopServer_def Let_def by (intro stop_parts_wf fold_close_wf)

lemma start_wf:
  "oldi_wf c \<Longrightarrow> oldi_wf (c\<lparr>closeListener := Some (length (servers c)),
     servers := servers c @ [\<lparr>servePc = Listening p, ctxDone = False\<rparr>]\<rparr>)"
  by (simp add: oldi_wf_def server_ok_def [of _ "\<lparr>servePc = _, ctxDone = _\<rparr>"])

lemma plain_wf [simp]:
  "oldi_wf (c\<lparr>tcpLocalPort := p\<rparr>) = oldi_wf c"
  "oldi_wf (c\<lparr>otSetts := ss, providerEncoding := enc\<rparr>) = oldi_wf c"
  by (simp_all add: oldi_wf_def)

lemma setts_wf: "oldi_wf c \<Longrightarrow> oldi_wf (oldi_new_setts e setts c)"
  by (simp add: oldi_new_setts_def Let_def start_wf stop_wf)

lemma to_oldi_wf: "oldi_wf c \<Longrightarrow> to_oldi d c = Some c' \<Longrightarrow> oldi_wf c'"
  by (auto simp: to_oldi_def oldi_wf_def list_all_iff conn_ok_def split: if_splits)

lemma listen_wf: "oldi_wf c \<Longrightarrow> serve_listen j e c = Some c' \<Longrightarrow> oldi_wf c'"
  by (auto simp: serve_listen_def Let_def intro!: set_server_wf split: if_splits serve_pc.splits option.splits)
    (auto simp: oldi_wf_def intro: server_ok_mono split: option.splits)

lemma serve_wf:
  "oldi_wf c \<Longrightarrow> serve_check j c = Some c' \<Longrightarrow> oldi_wf c'"
  "oldi_wf c \<Longrightarrow> serve_accept j r c = Some c' \<Longrightarrow> oldi_wf c'"
  by (auto simp: serve_check_def serve_accept_def intro!: set_server_wf
      split: if_splits option.splits serve_pc.splits sum.splits prod.splits)
    (auto simp: oldi_wf_def conn_ok_def new_conn_def)

lemma recv_wf:
  "oldi_wf c \<Longrightarrow> recv_check i c = Some c' \<Longrightarrow> oldi_wf c'"
  "oldi_wf c \<Longrightarrow> recv_data env i r c = Some c' \<Longrightarrow> oldi_wf c'"
  using conn_ok_at [of c i]
  by (auto simp: recv_check_def recv_data_def Let_def conn_ok_def intro!: set_conn_wf close_wf
      split: if_splits sum.splits)

lemma send_wf:
  "oldi_wf c \<Longrightarrow> send_stop i c = Some c' \<Longrightarrow> oldi_wf c'"
  "oldi_wf c \<Longrightarrow> send_data env i r c = Some c' \<Longrightarrow> oldi_wf c'"
  using conn_ok_at [of c i]
  by (auto simp: send_stop_def send_data_def Let_def conn_ok_def intro!: set_conn_wf close_wf
      split: if_splits option.splits list.splits)

lemma oldi_wf_step: "oldi_wf c \<Longrightarrow> oldi_step env a c = Some c' \<Longrightarrow> oldi_wf c'"
  by (cases a) (auto simp: oldi_step_def setts_wf split: if_splits
      dest: to_oldi_wf listen_wf serve_wf recv_wf send_wf)

lemma oldi_wf_run:
  assumes "run_steps (oldi_step env) as NewOldiTcpController = Some c"
  shows "oldi_wf c"
proof -
  have w: "oldi_wf NewOldiTcpController" by (simp add: oldi_wf_def NewOldiTcpController_def)
  show ?thesis
    by (rule run_steps_invariant [where I = oldi_wf and f = "oldi_step env", OF _ assms w]) (rule oldi_wf_step)
qed

text \<open>Two settings in a row, before the first server listens: both servers share the field with the
  listener, so that the failure of the second takes the listener of the first away.\<close>

lemma listener_taken_away:
  assumes "provLocalPort p = 1" "provLocalPort q = 2"
  shows "\<exists>c. run_steps (oldi_step env)
      [OldiSetts [p] None, OldiSetts [q] None, ServeListen 0 None, ServeListen 1 (Some err), ServeCheckCtx 0]
      NewOldiTcpController = Some c \<and> OldiCrash \<in> set (otOut c)"
  using assms
  by (simp add: oldi_step_def oldi_new_setts_def last_port_def NewOldiTcpController_def serve_listen_def
      serve_check_def set_server_def ot_emit_def Let_def)

section \<open>Properties\<close>

text \<open>A provider connected over TCP gets, in order, everything that is sent to the providers
  while it stays connected: what was written to it and what waits for it are the data pushed, each
  in Windows-1251 if that is the encoding, and each an empty write if it is not.\<close>

theorem oldi_tcp_order:
  assumes "run_steps (oldi_step env) as c = Some c'" and "list_all (keeps_encoding (is_win c)) as"
    and "i < length (conns c)" and "inClients (conns c' ! i)"
  shows "written i (otOut c') @ map (wire_bytes env (is_win c)) (toSendDataChan (conns c' ! i)) =
    written i (otOut c) @ map (wire_bytes env (is_win c))
      (toSendDataChan (conns c ! i) @ concat (map oldi_pushed as))"
  using client_fifo_run [OF assms] by blast


definition oldi_provider :: ProviderSettings where
  "oldi_provider = \<lparr>provID = 1, IPAddresses = [''10.0.0.1''], provStatus = [], provDataType = OLDIProvider,
     ProviderEncoding = EncodeUtf, provLocalPort = 5050\<rparr>"


definition example_oldi :: OldiTcpController where
  "example_oldi = NewOldiTcpController\<lparr>conns := [new_conn ''10.0.0.1:4000'' ''10.0.0.1''], providerEncoding := EncodeUtf\<rparr>"

theorem oldi_tcp_order_witness:
  "\<exists>c'. run_steps (oldi_step example_env) [ToOldi [65, 66], SendData 0 None, ToOldi [67]] example_oldi = Some c' \<and>
    written 0 (otOut c') @ map (wire_bytes example_env False) (toSendDataChan (conns c' ! 0)) = [[], []]"
proof -
  have w: "is_win example_oldi = False" by (simp add: is_win_def example_oldi_def EncodeUtf_def Encode1251_def)
  obtain c' where c': "run_steps (oldi_step example_env) [ToOldi [65, 66], SendData 0 None, ToOldi [67]] example_oldi = Some c'"
    "inClients (conns c' ! 0)"
    by (simp add: example_oldi_def NewOldiTcpController_def new_conn_def oldi_step_def to_oldi_def send_data_def Let_def
        set_conn_def ot_emit_def)
  have "written 0 (otOut c') @ map (wire_bytes example_env (is_win example_oldi)) (toSendDataChan (conns c' ! 0)) =
    written 0 (otOut example_oldi) @ map (wire_bytes example_env (is_win example_oldi))
      (toSendDataChan (conns example_oldi ! 0) @ concat (map oldi_pushed [ToOldi [65, 66], SendData 0 None, ToOldi [67]]))"
    by (rule oldi_tcp_order [OF c'(1) _ _ c'(2)]) (simp_all add: keeps_encoding_def example_oldi_def)
  then show ?thesis using c'(1)
    by (intro exI [of _ c'])
      (simp add: w wire_bytes_def, simp add: example_oldi_def NewOldiTcpController_def new_conn_def)
qed

end
