(* ===== verification/Json_Codec.thy ===== *)
theory Json_Codec
  imports Json
begin

text \<open>
  Structures that are written to a document and read back: the interface, what it gives for
  lists, for structures inside structures and for files, and decoding as a run of the
  decoders of a table of fields. A document need not hold all of a structure: \<open>keep x s\<close> is
  \<open>x\<close> with what no document holds taken from \<open>s\<close>, the structure read into.
\<close>

section \<open>Objects\<close>

fun run_decoders :: "('s decoder \<times> json) list \<Rightarrow> 's \<Rightarrow> 's \<times> bool" where
  "run_decoders [] s = (s, True)"
| "run_decoders ((d, j) # djs) s =
     (let (s, ok) = d j s; (s, ok') = run_decoders djs s in (s, ok \<and> ok'))"

lemma decode_known:
  "map_of fields key = Some d \<Longrightarrow>
   decode_members fields ((key, j) # members) s =
     (let (s, ok) = d j s; (s, ok') = decode_members fields members s in (s, ok \<and> ok'))"
  by (simp add: find_field_def)

lemma decode_in_order:
  assumes "distinct (map fst fields)"
  shows "length js = length fs \<Longrightarrow> set fs \<subseteq> set fields \<Longrightarrow>
    decode_members fields (zip (map fst fs) js) s = run_decoders (zip (map snd fs) js) s"
proof (induction fs arbitrary: js s)
  case (Cons f fs)
  obtain k d where f: "f = (k, d)" by (cases f)
  obtain j js' where js: "js = j # js'" using Cons.prems(1) by (cases js) auto
  have "map_of fields k = Some d" using Cons.prems(2) assms f by (auto intro: map_of_is_SomeI)
  then show ?case
    using Cons.IH [of js'] Cons.prems
    by (simp add: f js decode_known del: decode_members.simps(2))
qed simp

lemma decode_object_in_order:
  assumes "distinct (map fst fields)" "length js = length fields"
  shows "decode_object fields (JObj (zip (map fst fields) js)) s = run_decoders (zip (map snd fields) js) s"
  using decode_in_order [OF assms(1,2)] by (simp add: decode_object_def)

lemma run_plain:
  "run_decoders (zip (map plain fs) js) s =
     (case store_all (zip fs js) s of Some t \<Rightarrow> (t, True) | None \<Rightarrow> (fst (run_decoders (zip (map plain fs) js) s), False))"
proof (induction fs arbitrary: js s)
  case (Cons f fs)
  show ?case
  proof (cases js)
    case j: (Cons j js')
    show ?thesis
    proof (cases "f j s")
      case None
      then have "plain f j s = (s, False)" by (simp add: plain_def)
      then show ?thesis using None by (simp add: j case_prod_beta' Let_def)
    next
      case (Some t)
      then have "plain f j s = (t, True)" by (simp add: plain_def)
      then show ?thesis using Some Cons.IH [of js' t] by (simp add: j split: option.splits)
    qed
  qed simp
qed simp

lemma fst_plain_fields [simp]: "map fst (plain_fields fields) = map fst fields"
  by (induction fields) (auto simp: plain_fields_def)

lemma snd_plain_fields: "map snd (plain_fields fields) = map plain (map snd fields)"
  by (induction fields) (auto simp: plain_fields_def)

lemma length_plain_fields [simp]: "length (plain_fields fields) = length fields"
  by (simp add: plain_fields_def)

text \<open>A flat structure whose values can be stored is decoded whole.\<close>

lemma decode_flat:
  assumes "distinct (map fst fields)" "length js = length fields"
    and "store_all (zip (map snd fields) js) s = Some t"
  shows "decode_object (plain_fields fields) (JObj (zip (map fst fields) js)) s = (t, True)"
  using decode_object_in_order [of "plain_fields fields" js s] assms run_plain [of "map snd fields" js s]
  by (simp add: snd_plain_fields)

text \<open>What every decoder of the table keeps, decoding keeps, of whatever document.\<close>

lemma find_field_member: "find_field fields key = Some d \<Longrightarrow> \<exists>k. (k, d) \<in> set fields"
  by (auto simp: find_field_def find_Some_iff split: option.splits dest: map_of_SomeD)
    (metis nth_mem prod.collapse)

definition keeps :: "('s \<Rightarrow> bool) \<Rightarrow> 's decoder \<Rightarrow> bool" where
  "keeps I d \<longleftrightarrow> (\<forall>j s. I s \<longrightarrow> I (fst (d j s)))"

lemma keepsD: "keeps I d \<Longrightarrow> I s \<Longrightarrow> I (fst (d j s))"
  by (simp add: keeps_def)

lemma keeps_members:
  assumes "\<forall>(k, d) \<in> set fields. keeps I d"
  shows "I s \<Longrightarrow> I (fst (decode_members fields members s))"
proof (induction members arbitrary: s)
  case (Cons m members)
  obtain key j where m: "m = (key, j)" by (cases m)
  show ?case
  proof (cases "find_field fields key")
    case None
    then show ?thesis using Cons by (simp add: m)
  next
    case (Some d)
    then obtain k where "(k, d) \<in> set fields" using find_field_member [OF Some] by blast
    then have "I (fst (d j s))" using assms Cons.prems by (auto intro: keepsD)
    then show ?thesis using Cons.IH Some by (simp add: m case_prod_beta' Let_def)
  qed
qed simp

lemma keeps_object: "\<forall>(k, d) \<in> set fields. keeps I d \<Longrightarrow> keeps I (decode_object fields)"
  using keeps_members [of fields I] by (auto simp: keeps_def decode_object_def split: json.split)

lemma keeps_plain:
  "\<forall>v s. I s \<longrightarrow> I (upd v s) \<Longrightarrow> keeps I (plain (set_str upd))"
  "\<forall>b s. I s \<longrightarrow> I (updb b s) \<Longrightarrow> keeps I (plain (set_bool updb))"
  "\<forall>i s. int_min \<le> i \<longrightarrow> i \<le> int_max \<longrightarrow> I s \<longrightarrow> I (updi i s) \<Longrightarrow> keeps I (plain (set_int updi))"
  by (auto simp: keeps_def plain_def set_str_def set_bool_def set_int_def split: json.split option.split if_splits)

lemma keeps_list:
  assumes "keeps J d" "J zero" "\<forall>xs s. list_all J xs \<longrightarrow> I s \<longrightarrow> I (upd xs s)"
  shows "keeps I (decode_list upd zero d)"
  using assms by (auto simp: keeps_def decode_list_def Let_def list_all_iff split: json.split)

lemma keeps_field:
  assumes "keeps J d" "\<forall>s. I s \<longrightarrow> J (get s)" "\<forall>x s. J x \<longrightarrow> I s \<longrightarrow> I (upd x s)"
  shows "keeps I (decode_field upd get d)"
  using assms by (auto simp: keeps_def decode_field_def case_prod_beta' Let_def)

section \<open>The interface\<close>

text \<open>A file that cannot be read is \<open>None\<close>; one whose text is no document is \<open>Some None\<close>.\<close>

type_synonym json_file = "json option option"

definition read_doc :: "'s decoder \<Rightarrow> json option \<Rightarrow> 's \<Rightarrow> 's \<times> bool" where
  "read_doc d doc s = (case doc of None \<Rightarrow> (s, False) | Some j \<Rightarrow> d j s)"

text \<open>Writing a file, which may fail and then leaves whatever it leaves.\<close>

datatype write_result = Written | WriteFailed string json_file

definition write_file :: "write_result \<Rightarrow> json option \<Rightarrow> string option \<times> json_file" where
  "write_file r doc =
     (case r of Written \<Rightarrow> (None, Some doc) | WriteFailed err left \<Rightarrow> (Some err, left))"

locale json_codec =
  fixes encode :: "'s \<Rightarrow> json"
    and decode :: "'s decoder"
    and storable :: "'s \<Rightarrow> bool"
    and keep :: "'s \<Rightarrow> 's \<Rightarrow> 's"
  assumes decode_encode: "storable x \<Longrightarrow> decode (encode x) s = (keep x s, True)"
    and keep_self: "keep x x = x"
begin

lemma decode_own: "storable x \<Longrightarrow> decode (encode x) x = (x, True)"
  by (simp add: decode_encode keep_self)

lemma decode_encoded_list:
  assumes "list_all storable xs"
  shows "decode_list upd zero decode (JArr (map encode xs)) s = (upd (map (\<lambda>x. keep x zero) xs) s, True)"
proof -
  have e: "map (\<lambda>j. decode j zero) (map encode xs) = map (\<lambda>x. (keep x zero, True)) xs"
    using assms by (induction xs) (simp_all add: decode_encode)
  show ?thesis unfolding decode_list_def Let_def json.case e by (simp add: comp_def list_all_iff)
qed

lemma decode_encoded_field:
  "storable x \<Longrightarrow> decode_field upd get decode (encode x) s = (upd (keep x (get s)) s, True)"
  by (simp add: decode_field_def decode_encode)

text \<open>Of two values that are written alike only what the document does not hold differs.\<close>

lemma encode_inj: "storable x \<Longrightarrow> storable y \<Longrightarrow> encode x = encode y \<Longrightarrow> keep x s = keep y s"
  using decode_encode [of x s] decode_encode [of y s] by simp

lemma read_written:
  assumes "storable x" "write_file r (Some (encode x)) = (None, file)"
  shows "\<exists>doc. file = Some doc \<and> read_doc decode doc s = (keep x s, True)"
  using assms decode_encode by (auto simp: write_file_def read_doc_def split: write_result.splits)

end

text \<open>Texts are a codec of their own, so lists of texts are read back.\<close>

interpretation string_codec: json_codec JStr decode_string "\<lambda>x. True" "\<lambda>x s. x"
  by unfold_locales (simp_all add: decode_string_def plain_def)

end
