(* ===== verification/Batch_Queue.thy ===== *)
theory Batch_Queue
  imports Fmtp_Prelude
begin

text \<open>
  The queues from which several components send in batches: messages are appended at the
  end, and a batch of bounded size is taken from the front. The locale states what such a
  component promises; in it, the batches taken and what is left are the messages appended,
  in their order, and enough takes empty the queue.
\<close>

datatype ('m, 's) queue_op = Push 'm | Take

locale batch_queue =
  fixes push :: "'m \<Rightarrow> 's \<Rightarrow> 's"
    and take_batch :: "'s \<Rightarrow> 'm list \<times> 's"
    and queue :: "'s \<Rightarrow> 'm list"
    and cap :: "'s \<Rightarrow> nat"
    and room :: "'s \<Rightarrow> bool"
    and ready :: "'s \<Rightarrow> bool"
  assumes push_queue: "room s \<Longrightarrow> queue (push m s) = queue s @ [m]"
    and take_queue: "fst (take_batch s) @ queue (snd (take_batch s)) = queue s"
    and take_size: "ready s \<Longrightarrow> length (fst (take_batch s)) = min (cap s) (length (queue s))"
    and take_keeps: "ready (snd (take_batch s)) = ready s \<and> cap (snd (take_batch s)) = cap s"
begin

text \<open>A run: the batches it took, and the state after it.\<close>

fun run_ops :: "('m, 's) queue_op list \<Rightarrow> 's \<Rightarrow> 'm list list \<times> 's" where
  "run_ops [] s = ([], s)"
| "run_ops (Push m # ops) s = run_ops ops (push m s)"
| "run_ops (Take # ops) s =
     (let (batch, s) = take_batch s; (batches, s) = run_ops ops s in (batch # batches, s))"

fun pushes :: "('m, 's) queue_op list \<Rightarrow> 'm list" where
  "pushes [] = []" | "pushes (Push m # ops) = m # pushes ops" | "pushes (Take # ops) = pushes ops"

fun all_room :: "('m, 's) queue_op list \<Rightarrow> 's \<Rightarrow> bool" where
  "all_room [] s = True"
| "all_room (Push m # ops) s = (room s \<and> all_room ops (push m s))"
| "all_room (Take # ops) s = all_room ops (snd (take_batch s))"

lemma run_conserves:
  "all_room ops s \<Longrightarrow>
   concat (fst (run_ops ops s)) @ queue (snd (run_ops ops s)) = queue s @ pushes ops"
proof (induction ops arbitrary: s rule: pushes.induct)
  case (2 m ops)
  then show ?case by (simp add: push_queue)
next
  case (3 ops)
  obtain b t where t: "take_batch s = (b, t)" by fastforce
  obtain bs u where u: "run_ops ops t = (bs, u)" by fastforce
  have "concat bs @ queue u = queue t @ pushes ops" using 3(1) [of t] 3(2) by (simp add: t u)
  moreover have "b @ queue t = queue s" using take_queue [of s] by (simp add: t)
  ultimately show ?case by (simp add: t u)
qed simp

lemma takes_drain:
  assumes "ready s" "0 < cap s"
  shows "length (queue s) \<le> n * cap s \<Longrightarrow> queue (snd (run_ops (replicate n Take) s)) = []"
  using assms
proof (induction n arbitrary: s)
  case (Suc n)
  obtain b t where t: "take_batch s = (b, t)" by fastforce
  have q: "b @ queue t = queue s" "length b = min (cap s) (length (queue s))" "ready t" "cap t = cap s"
    using take_queue [of s] take_size [OF Suc.prems(2)] take_keeps [of s] Suc.prems(2) by (auto simp: t)
  have "length (queue t) = length (queue s) - min (cap s) (length (queue s))"
    using arg_cong [OF q(1), of length] q(2) by simp
  then have "length (queue t) \<le> n * cap t" using Suc.prems(1) q(4) by (cases "cap s \<le> length (queue s)") auto
  then have "queue (snd (run_ops (replicate n Take) t)) = []" using Suc.IH q(3,4) Suc.prems(3) by simp
  then show ?case by (simp add: t case_prod_beta' Let_def)
qed simp

lemma batch_sizes:
  assumes "ready s" "\<And>m t. cap (push m t) = cap t \<and> ready (push m t) = ready t"
  shows "\<forall>b \<in> set (fst (run_ops ops s)). length b \<le> cap s"
  using assms(1)
proof (induction ops arbitrary: s rule: pushes.induct)
  case (2 m ops)
  then show ?case using 2(1) [of "push m s"] 2(2) assms(2) [of m s] by simp
next
  case (3 ops)
  obtain b t where t: "take_batch s = (b, t)" by fastforce
  have "length b \<le> cap s" "ready t" "cap t = cap s"
    using take_size [OF 3(2)] take_keeps [of s] 3(2) by (auto simp: t)
  then show ?case using 3(1) [of t] by (auto simp: t case_prod_beta' Let_def)
qed simp

end

text \<open>The batch as the code takes it: all but copied where it is small, else split off.\<close>

definition split_batch :: "nat \<Rightarrow> 'm list \<Rightarrow> 'm list \<times> 'm list" where
  "split_batch n q = (if length q > n then (take n q, drop n q) else (q, []))"

lemma split_batch_append: "fst (split_batch n q) @ snd (split_batch n q) = q"
  by (simp add: split_batch_def)

lemma split_batch_length: "length (fst (split_batch n q)) = min n (length q)"
  by (simp add: split_batch_def)

end
