(* ===== verification/Logger_State.thy ===== *)
theory Logger_State
  imports Fmtp_Prelude
begin

text \<open>
  The state the logger reports to the configurator, \<open>ora_logger/logger_state/logger_state.go\<close>.
\<close>

definition LoggerStateOk :: string where "LoggerStateOk = ''ok''"
definition LoggerStateError :: string where "LoggerStateError = ''error''"

lemma logger_states_distinct [simp]: "LoggerStateOk \<noteq> LoggerStateError" "LoggerStateError \<noteq> LoggerStateOk"
  by (simp_all add: LoggerStateOk_def LoggerStateError_def)

record LoggerState =
  LoggerID :: string
  loggerIPAddr :: string
  loggerCommonState :: string
  OraConnected :: string
  OraError :: string
  RedisConnected :: string
  RedisError :: string
  MetricsState :: string
  MetricsError :: string

definition logger_checkCommonState :: "LoggerState \<Rightarrow> LoggerState" where
  "logger_checkCommonState s =
     (if OraConnected s = LoggerStateOk \<and> RedisConnected s = LoggerStateOk \<and> MetricsState s = LoggerStateOk
      then s\<lparr>loggerCommonState := LoggerStateOk\<rparr>
      else s\<lparr>loggerCommonState := LoggerStateError\<rparr>)"

definition SetOraState :: "string \<Rightarrow> string \<Rightarrow> LoggerState \<Rightarrow> LoggerState" where
  "SetOraState conn err s = logger_checkCommonState (s\<lparr>OraConnected := conn, OraError := err\<rparr>)"

definition SetRedisState :: "string \<Rightarrow> string \<Rightarrow> LoggerState \<Rightarrow> LoggerState" where
  "SetRedisState conn err s = logger_checkCommonState (s\<lparr>RedisConnected := conn, RedisError := err\<rparr>)"

definition SetMetricsState :: "string \<Rightarrow> string \<Rightarrow> LoggerState \<Rightarrow> LoggerState" where
  "SetMetricsState state err s = logger_checkCommonState (s\<lparr>MetricsState := state, MetricsError := err\<rparr>)"

lemmas logger_setters = SetOraState_def SetRedisState_def SetMetricsState_def logger_checkCommonState_def

text \<open>The common state is right after every setter.\<close>

definition common_right :: "LoggerState \<Rightarrow> bool" where
  "common_right s \<longleftrightarrow>
     loggerCommonState s =
       (if OraConnected s = LoggerStateOk \<and> RedisConnected s = LoggerStateOk \<and> MetricsState s = LoggerStateOk
        then LoggerStateOk else LoggerStateError)"

lemma setters_common_right:
  "common_right (SetOraState conn err s)" "common_right (SetRedisState conn err s)"
  "common_right (SetMetricsState conn err s)"
  by (simp_all add: logger_setters common_right_def)

end
