(* ===== verification/Log_Pipeline.thy ===== *)
theory Log_Pipeline
  imports Fmtp_Log Batch_Queue Channel_Main Logger_State
begin

text \<open>
  The way of a journal message from the chief to the Oracle logger: \<open>chief/chief_logger/\<close>
  (what is taken, the queue, the batches put into the Redis stream) and
  \<open>ora_logger/redis_cntrl/redis_cntrl.go\<close> (what is read from the stream and deleted from
  it). Redis is not part of the repository: the results of its calls are arguments.
\<close>

section \<open>The logger of the chief\<close>

text \<open>The levels of the logger package are numbers it defines.\<close>

record ChiefLogger =
  minSeverity :: int
  LogMsgChan :: "LogMessage list"

definition processNewLogMsg ::
  "string \<Rightarrow> string \<Rightarrow> int \<Rightarrow> string \<Rightarrow> string \<Rightarrow> log_arg list \<Rightarrow> ChiefLogger \<Rightarrow> ChiefLogger" where
  "processNewLogMsg controllerIP now sev fmtpSev rendered a cl =
     (if minSeverity cl < sev then
        (let fmtpLogMsg =
               (case a of
                  ArgLog m # _ \<Rightarrow> m
                | _ \<Rightarrow> LogCntrlSDT now fmtpSev DirectionUnknown rendered)
         in cl\<lparr>LogMsgChan := LogMsgChan cl @ [fmtpLogMsg\<lparr>ControllerIP := controllerIP\<rparr>]\<rparr>)
      else cl)"

record severity_levels =
  SevDebug :: int
  SevInfo :: int
  SevWarning :: int
  SevError :: int

text \<open>The methods of the logger interface; \<open>PrintfErr\<close> gives the severity of information.\<close>

definition chief_Printf ::
  "severity_levels \<Rightarrow> print_level \<Rightarrow> string \<Rightarrow> string \<Rightarrow> string \<Rightarrow> log_arg list \<Rightarrow> ChiefLogger \<Rightarrow> ChiefLogger" where
  "chief_Printf lv p ip now rendered a cl =
     (case p of
        PrintDebug \<Rightarrow> processNewLogMsg ip now (SevDebug lv) SeverityDebug rendered a cl
      | PrintInfo \<Rightarrow> processNewLogMsg ip now (SevInfo lv) SeverityInfo rendered a cl
      | PrintWarn \<Rightarrow> processNewLogMsg ip now (SevWarning lv) SeverityWarning rendered a cl
      | PrintErr \<Rightarrow> processNewLogMsg ip now (SevError lv) SeverityInfo rendered a cl)"

section \<open>The queue to Redis\<close>

record RedisLoggerSettings =
  rsHostname :: string
  rsPort :: int
  DbId :: int
  rsUserName :: string
  rsPassword :: string
  StreamMaxCount :: int
  MaxSendCount :: int

datatype redis_effect = XAdd string int string | RedisMsgMetric int | RedisErrMetric int | RedisPrint string

record RedisLogController =
  msgToSend :: "LogMessage list"
  rlSetts :: RedisLoggerSettings
  successConnect :: bool
  rlPanic :: bool
  rlOut :: "redis_effect list"

definition redis_new_msg :: "LogMessage \<Rightarrow> RedisLogController \<Rightarrow> RedisLogController" where
  "redis_new_msg msg rc =
     (if length (msgToSend rc) < 10000 then rc\<lparr>msgToSend := msgToSend rc @ [msg]\<rparr>
      else rc\<lparr>rlOut := rlOut rc @ [RedisPrint ''!!!!!!!!!!!!!!!!!!Queue FULL'']\<rparr>)"

definition redis_connectToServer :: "string option \<Rightarrow> RedisLogController \<Rightarrow> RedisLogController" where
  "redis_connectToServer pingErr rc =
     (case pingErr of
        None \<Rightarrow> rc\<lparr>successConnect := True\<rparr>
      | Some e \<Rightarrow> rc\<lparr>successConnect := False,
          rlOut := rlOut rc @ [RedisPrint ((ru ''Owibka podkl04eni9 k '') @ ''Redis '' @ (ru ''serveru: '') @ e)]\<rparr>)"

definition redis_new_setts :: "string option \<Rightarrow> RedisLoggerSettings \<Rightarrow> RedisLogController \<Rightarrow> RedisLogController" where
  "redis_new_setts pingErr setts rc =
     (if rlSetts rc \<noteq> setts then redis_connectToServer pingErr (rc\<lparr>rlSetts := setts\<rparr>) else rc)"

definition pushLogsToStream :: "string option \<Rightarrow> LogMessage list \<Rightarrow> RedisLogController \<Rightarrow> RedisLogController" where
  "pushLogsToStream errPipe msgs rc =
     rc\<lparr>rlOut := rlOut rc @
       map (\<lambda>val. XAdd ''FmtpLog'' (StreamMaxCount (rlSetts rc)) (MarshalToString val)) msgs @
       (case errPipe of None \<Rightarrow> [RedisMsgMetric (int (length msgs))] | Some e \<Rightarrow> [RedisErrMetric 1])\<rparr>"

text \<open>The ticker: the batch it takes out of the queue, whether or not it can be put into the
  stream. A negative count makes the slice panic.\<close>

definition redis_tick :: "string option \<Rightarrow> RedisLogController \<Rightarrow> LogMessage list \<times> RedisLogController" where
  "redis_tick errPipe rc =
     (if successConnect rc \<and> msgToSend rc \<noteq> [] then
        (if int (length (msgToSend rc)) > MaxSendCount (rlSetts rc) then
           (if MaxSendCount (rlSetts rc) < 0 then ([], rc\<lparr>rlPanic := True\<rparr>)
            else let n = nat (MaxSendCount (rlSetts rc)); toSend = take n (msgToSend rc)
                 in (toSend, pushLogsToStream errPipe toSend (rc\<lparr>msgToSend := drop n (msgToSend rc)\<rparr>)))
         else (msgToSend rc, pushLogsToStream errPipe (msgToSend rc) (rc\<lparr>msgToSend := []\<rparr>)))
      else ([], rc))"

lemma push_frame [simp]:
  "msgToSend (pushLogsToStream e ms rc) = msgToSend rc" "rlSetts (pushLogsToStream e ms rc) = rlSetts rc"
  "successConnect (pushLogsToStream e ms rc) = successConnect rc"
  by (simp_all add: pushLogsToStream_def)

definition redis_ready :: "RedisLogController \<Rightarrow> bool" where
  "redis_ready rc \<longleftrightarrow> successConnect rc \<and> 0 \<le> MaxSendCount (rlSetts rc)"

interpretation redis_queue: batch_queue redis_new_msg "redis_tick errPipe" msgToSend
    "\<lambda>rc. nat (MaxSendCount (rlSetts rc))" "\<lambda>rc. length (msgToSend rc) < 10000" redis_ready for errPipe
  by unfold_locales
    (auto simp: redis_new_msg_def redis_tick_def redis_ready_def Let_def min_def)

text \<open>The queue never holds more than ten thousand messages.\<close>

lemma redis_bound:
  "length (msgToSend rc) \<le> 10000 \<Longrightarrow> length (msgToSend (redis_new_msg m rc)) \<le> 10000"
  "length (msgToSend rc) \<le> 10000 \<Longrightarrow> length (msgToSend (snd (redis_tick e rc))) \<le> 10000"
  by (auto simp: redis_new_msg_def redis_tick_def Let_def)

section \<open>The reader of the stream\<close>

record RedisCntrlSettings =
  rdHostname :: string
  rdPort :: int
  rdDbId :: int
  rdUserName :: string
  rdPassword :: string
  MaxReadCount :: int

definition zeroRedisSettings :: RedisCntrlSettings where
  "zeroRedisSettings = \<lparr>rdHostname = [], rdPort = 0, rdDbId = 0, rdUserName = [], rdPassword = [], MaxReadCount = 0\<rparr>"

definition equalDb :: "RedisCntrlSettings \<Rightarrow> RedisCntrlSettings \<Rightarrow> bool" where
  "equalDb s otherRls \<longleftrightarrow> rdHostname s = rdHostname otherRls \<and> rdPort s = rdPort otherRls \<and>
     rdUserName s = rdUserName otherRls \<and> rdPassword s = rdPassword otherRls"

record stream_entry =
  entryID :: string
  entryMsg :: "string option"

datatype reader_effect =
  SendMsgs "LogMessage list"
| XDel "string list"
| ReaderMetric int
| ReaderPrint print_level string
| ReaderState string string

record RedisCntrl =
  rdSetts :: RedisCntrlSettings
  rcConnected :: bool
  prevReadIds :: "string list"
  rcOut :: "reader_effect list"

definition rc_emit :: "reader_effect \<Rightarrow> RedisCntrl \<Rightarrow> RedisCntrl" where
  "rc_emit e c = c\<lparr>rcOut := rcOut c @ [e]\<rparr>"

definition NewRedisCntrl :: RedisCntrl where
  "NewRedisCntrl = \<lparr>rdSetts = zeroRedisSettings, rcConnected = False, prevReadIds = [], rcOut = []\<rparr>"

definition reader_connectToServer :: "string option \<Rightarrow> RedisCntrl \<Rightarrow> RedisCntrl" where
  "reader_connectToServer pingErr c =
     (let c = c\<lparr>rcConnected := (pingErr = None)\<rparr>
      in case pingErr of
           Some err \<Rightarrow>
             rc_emit (ReaderState LoggerStateError err)
               (rc_emit (ReaderPrint PrintErr ((ru ''Owibka podkl04eni9 k '') @ ''Redis '' @ (ru ''serveru: '') @ err)) c)
         | None \<Rightarrow>
             rc_emit (ReaderState LoggerStateOk [])
               (rc_emit (ReaderPrint PrintDebug ((ru ''Uspewnoe podkl04enie k '') @ ''Redis '' @ (ru ''serveru''))) c))"

definition reader_new_setts :: "string option \<Rightarrow> RedisCntrlSettings \<Rightarrow> RedisCntrl \<Rightarrow> RedisCntrl" where
  "reader_new_setts pingErr setts c =
     (if rdSetts c \<noteq> setts then reader_connectToServer pingErr (c\<lparr>rdSetts := setts\<rparr>) else c)"

fun parsed_entries :: "stream_entry list \<Rightarrow> LogMessage list" where
  "parsed_entries [] = []"
| "parsed_entries (msgVal # vals) =
     (case entryMsg msgVal of
        Some msgString \<Rightarrow>
          (case UnmarshalFromString msgString of
             Inr logMsg \<Rightarrow> logMsg # parsed_entries vals
           | Inl err \<Rightarrow> parsed_entries vals)
      | None \<Rightarrow> parsed_entries vals)"

definition no_redis :: string where
  "no_redis = (ru ''Net podkl04eni9 k '') @ ''Redis''"

definition readLogsFromStream ::
  "stream_entry list \<Rightarrow> string option \<Rightarrow> RedisCntrl \<Rightarrow> LogMessage list \<times> string option \<times> RedisCntrl" where
  "readLogsFromStream vals readErr c =
     (if rcConnected c then
        (let retMsg = parsed_entries vals
         in (retMsg, readErr,
             rc_emit (ReaderMetric (int (length retMsg))) (c\<lparr>prevReadIds := prevReadIds c @ map entryID vals\<rparr>)))
      else ([], Some no_redis, c))"

definition delLogsFromStream :: "string option \<Rightarrow> RedisCntrl \<Rightarrow> string option \<times> RedisCntrl" where
  "delLogsFromStream delErr c =
     (if rcConnected c then (delErr, rc_emit (XDel (prevReadIds c)) c) else (Some no_redis, c))"

definition request_msgs ::
  "string option \<Rightarrow> stream_entry list \<Rightarrow> string option \<Rightarrow> RedisCntrl \<Rightarrow> RedisCntrl" where
  "request_msgs delErr vals readErr c =
     (let c = (if prevReadIds c \<noteq> [] then
                 (case delLogsFromStream delErr c of
                    (Some err, c) \<Rightarrow> rc_emit (ReaderPrint PrintErr ((ru ''Owibka udaleni9 iz potoka '') @ ''Redis '' @ err)) c
                  | (None, c) \<Rightarrow> c\<lparr>prevReadIds := []\<rparr>)
               else c)
      in case readLogsFromStream vals readErr c of
           (msgs, Some err, c) \<Rightarrow> rc_emit (ReaderPrint PrintErr ((ru ''Owibka 4teni9 iz potoka '') @ ''Redis '' @ err)) c
         | (msgs, None, c) \<Rightarrow> if msgs \<noteq> [] then rc_emit (SendMsgs msgs) c else c)"

definition sent_msgs :: "RedisCntrl \<Rightarrow> LogMessage list" where
  "sent_msgs c = concat (map (\<lambda>e. case e of SendMsgs ms \<Rightarrow> ms | _ \<Rightarrow> []) (rcOut c))"

lemma rc_emit_simps [simp]:
  "rcConnected (rc_emit e c) = rcConnected c" "prevReadIds (rc_emit e c) = prevReadIds c"
  "sent_msgs (rc_emit e c) = sent_msgs c @ (case e of SendMsgs ms \<Rightarrow> ms | _ \<Rightarrow> [])"
  by (simp_all add: rc_emit_def sent_msgs_def)

section \<open>From the queue to the reader\<close>

definition stream_of :: "(string \<times> LogMessage) list \<Rightarrow> stream_entry list" where
  "stream_of ims = map (\<lambda>(i, m). \<lparr>entryID = i, entryMsg = Some (MarshalToString m)\<rparr>) ims"

lemma parsed_stream:
  "\<forall>m \<in> snd ` set ims. id_in_range m \<Longrightarrow>
   parsed_entries (stream_of ims) = filter comma_free (map snd ims)"
proof (induction ims)
  case (Cons im ims)
  obtain i m where im: "im = (i, m)" by (cases im)
  have IH: "parsed_entries (stream_of ims) = filter comma_free (map snd ims)" using Cons by auto
  show ?case
  proof (cases "comma_free m")
    case True
    moreover have "id_in_range m" using Cons.prems im by auto
    ultimately show ?thesis using IH unmarshal_marshal [of m] by (simp add: im stream_of_def)
  next
    case False
    then show ?thesis using IH unmarshal_comma_error [OF False] by (simp add: im stream_of_def)
  qed
qed (simp add: stream_of_def)

lemma map_entryID_stream [simp]: "map entryID (stream_of ims) = map fst ims"
  by (simp add: stream_of_def case_prod_beta')

lemma reader_gets:
  assumes "rcConnected c" "prevReadIds c = []" "\<forall>m \<in> snd ` set ims. id_in_range m"
  shows "let c' = request_msgs d (stream_of ims) None c in
    sent_msgs c' = sent_msgs c @ filter comma_free (map snd ims) \<and> prevReadIds c' = map fst ims"
proof -
  have "sent_msgs (c\<lparr>prevReadIds := x\<rparr>) = sent_msgs c" for x by (simp add: sent_msgs_def)
  then show ?thesis
    using assms by (simp add: request_msgs_def readLogsFromStream_def parsed_stream Let_def)
qed

lemma reader_deletes:
  assumes "rcConnected c" "prevReadIds c \<noteq> []"
  shows "XDel (prevReadIds c) \<in> set (rcOut (request_msgs None vals e c))"
  using assms
  by (auto simp: request_msgs_def readLogsFromStream_def delLogsFromStream_def rc_emit_def Let_def
      split: option.split)

section \<open>The journal of the settings\<close>

text \<open>The text about its settings that a channel sends to the journal has commas.\<close>

lemma ToLogMessage_comma: "CHR '','' \<in> set (ToLogMessage s)"
  by (simp add: ToLogMessage_def)

lemma commas_not_free:
  assumes "logText l = pre @ ToLogMessage s @ post"
  shows "\<not> comma_free l"
  using assms ToLogMessage_comma [of s] by (auto simp: comma_free_def log_fields_def)

section \<open>Properties\<close>

text \<open>The texts put into the stream.\<close>

definition xadds :: "redis_effect list \<Rightarrow> string list" where
  "xadds es = concat (map (\<lambda>e. case e of XAdd name n txt \<Rightarrow> [txt] | _ \<Rightarrow> []) es)"

definition entries :: "string list \<Rightarrow> string list \<Rightarrow> stream_entry list" where
  "entries ids txts = map (\<lambda>(i, t). \<lparr>entryID = i, entryMsg = Some t\<rparr>) (zip ids txts)"

lemma xadds_push:
  "xadds (rlOut (pushLogsToStream e ms rc)) = xadds (rlOut rc) @ map MarshalToString ms"
proof -
  have "xadds (map (\<lambda>val. XAdd ''FmtpLog'' n (MarshalToString val)) ms) = map MarshalToString ms" for n
    by (induction ms) (simp_all add: xadds_def)
  then show ?thesis by (simp add: pushLogsToStream_def xadds_def split: option.split)
qed

lemma tick_pushes:
  assumes "redis_ready rc" "msgToSend rc \<noteq> []"
  shows "xadds (rlOut (snd (redis_tick e rc))) =
    xadds (rlOut rc) @ map MarshalToString (take (nat (MaxSendCount (rlSetts rc))) (msgToSend rc))"
proof -
  have q: "rlOut (rc\<lparr>msgToSend := x\<rparr>) = rlOut rc" for x by simp
  show ?thesis
    using assms by (auto simp: redis_tick_def redis_ready_def Let_def xadds_push q)
qed

lemma entries_stream: "length ids = length ms \<Longrightarrow> entries ids (map MarshalToString ms) = stream_of (zip ids ms)"
  by (simp add: entries_def stream_of_def zip_map2 comp_def case_prod_beta')

text \<open>What a tick of the chief's logger puts into the stream is the oldest part of its
  queue, at most as many messages as the settings say, in order; the reader of the stream hands on
  exactly those of them in which no field has a comma, and notes all of them for deletion.\<close>

theorem journal_delivery:
  assumes "redis_ready rc" and "msgToSend rc \<noteq> []" and "xadds (rlOut rc) = []"
    and "\<forall>m \<in> set (msgToSend rc). id_in_range m"
    and "length ids = min (nat (MaxSendCount (rlSetts rc))) (length (msgToSend rc))"
    and "rcConnected c" and "prevReadIds c = []"
  shows "let rc' = snd (redis_tick None rc);
      c' = request_msgs delErr (entries ids (xadds (rlOut rc'))) None c
    in take (nat (MaxSendCount (rlSetts rc))) (msgToSend rc) @ msgToSend rc' = msgToSend rc \<and>
      sent_msgs c' = sent_msgs c @
        filter comma_free (take (nat (MaxSendCount (rlSetts rc))) (msgToSend rc)) \<and>
      prevReadIds c' = ids"
proof -
  let ?n = "nat (MaxSendCount (rlSetts rc))"
  let ?b = "take ?n (msgToSend rc)"
  have len: "length ids = length ?b" using assms(5) by (simp add: min.commute)
  have e: "entries ids (xadds (rlOut (snd (redis_tick None rc)))) = stream_of (zip ids ?b)"
    using entries_stream [OF len] by (simp add: tick_pushes [OF assms(1,2)] assms(3))
  have r: "\<forall>m \<in> snd ` set (zip ids ?b). id_in_range m"
    using assms(4) by (auto dest!: set_zip_rightD in_set_takeD)
  have "map snd (zip ids ?b) = ?b" "map fst (zip ids ?b) = ids" using len by simp_all
  moreover have "?b @ msgToSend (snd (redis_tick None rc)) = msgToSend rc"
    using redis_queue.take_queue [of None rc] assms(1,2)
    by (auto simp: redis_tick_def redis_ready_def Let_def)
  ultimately show ?thesis using reader_gets [OF assms(6,7) r, of delErr] by (simp add: e Let_def)
qed

definition example_redis :: RedisLogController where
  "example_redis =
     \<lparr>msgToSend = [LogChannelST ''t1'' SeverityInfo ''a'', LogChannelST ''t2'' SeverityInfo ''b,c''],
      rlSetts = \<lparr>rsHostname = [], rsPort = 6379, DbId = 0, rsUserName = [], rsPassword = [],
                 StreamMaxCount = 1000, MaxSendCount = 10\<rparr>,
      successConnect = True, rlPanic = False, rlOut = []\<rparr>"

definition example_reader :: RedisCntrl where
  "example_reader = \<lparr>rdSetts = zeroRedisSettings, rcConnected = True, prevReadIds = [], rcOut = []\<rparr>"

theorem journal_delivery_witness:
  "let rc = example_redis; c = example_reader; ids = [''1-0'', ''1-1''];
      rc' = snd (redis_tick None rc);
      c' = request_msgs None (entries ids (xadds (rlOut rc'))) None c
    in take (nat (MaxSendCount (rlSetts rc))) (msgToSend rc) @ msgToSend rc' = msgToSend rc \<and>
      sent_msgs c' = sent_msgs c @
        filter comma_free (take (nat (MaxSendCount (rlSetts rc))) (msgToSend rc)) \<and>
      prevReadIds c' = ids"
  unfolding Let_def
  by (rule journal_delivery [unfolded Let_def])
    (simp_all add: example_redis_def example_reader_def redis_ready_def xadds_def id_in_range_def
      LogChannelST_def zeroLogMessage_def int_min_def int_max_def)

text \<open>The queue of the chief's logger never has more than ten thousand messages, whatever
  comes in and however the sending goes; what comes in above that is dropped.\<close>

theorem redis_bounded:
  assumes "length (msgToSend rc) \<le> 10000"
  shows "length (msgToSend (snd (redis_queue.run_ops e ops rc))) \<le> 10000"
  using assms
proof (induction ops arbitrary: rc rule: redis_queue.pushes.induct)
  case (2 m ops)
  then show ?case using redis_bound(1) [of rc m] by simp
next
  case (3 ops)
  then show ?case using redis_bound(2) [of rc e] by (simp add: case_prod_beta' Let_def)
qed simp

theorem redis_bounded_witness:
  "length (msgToSend (snd (redis_queue.run_ops None [Push zeroLogMessage, Take] example_redis))) \<le> 10000"
  by (rule redis_bounded) (simp add: example_redis_def)



end
