(* ===== verification/Ora_Cntrl.thy ===== *)
theory Ora_Cntrl
  imports Log_Pipeline Logger_State
begin

text \<open>
  The writer of the logger, \<open>ora_logger/ora_cntrl/\<close>: the settings and the texts of the
  queries, the controller (\<open>Run\<close> and what it calls) and the goroutines of \<open>executeQuery\<close>
  that pass the queries to the database. \<open>Run\<close> may block in the middle of a case where it
  sends on a full channel (\<open>execTermChan\<close> and \<open>execQueryChan\<close> hold one element), so a case
  leaves a list of operations still to be done, the calls and sends of the code in their
  order, and each of them is a step of its own. The database and the priority queue (of
  the package \<open>go-datastructures\<close>) are parameters: the results of the calls of the first are
  arguments of the steps, the functions of the second are arguments of the definitions.
\<close>

section \<open>Settings\<close>

record OraCntrlSettings =
  osHostname :: string
  osPort :: int
  ServiceName :: string
  osUserName :: string
  osPassword :: string
  LogStoreMaxCount :: int
  LogStoreDays :: int

definition zeroOraSettings :: OraCntrlSettings where
  "zeroOraSettings = \<lparr>osHostname = [], osPort = 0, ServiceName = [], osUserName = [], osPassword = [],
     LogStoreMaxCount = 0, LogStoreDays = 0\<rparr>"

definition setts_equal :: "OraCntrlSettings \<Rightarrow> OraCntrlSettings \<Rightarrow> bool \<times> bool" where
  "setts_equal s other =
     (let isDbEqual = (osHostname s = osHostname other \<and> osPort s = osPort other \<and>
            ServiceName s = ServiceName other \<and> osUserName s = osUserName other \<and>
            osPassword s = osPassword other);
          isStorEqual = (LogStoreMaxCount s = LogStoreMaxCount other \<and> LogStoreDays s = LogStoreDays other)
      in (isDbEqual, isStorEqual))"

definition ConnString :: "OraCntrlSettings \<Rightarrow> string" where
  "ConnString s = osUserName s @ ''/'' @ osPassword s @ ''@'' @
     ''(DESCRIPTION=(ADDRESS_LIST=(ADDRESS=(PROTOCOL=tcp)(HOST='' @ osHostname s @
     '')(PORT='' @ Itoa (osPort s) @
     '')))(CONNECT_DATA=(SERVICE_NAME='' @ ServiceName s @ '')))''"

lemma setts_equal_iff: "setts_equal s t = (True, True) \<longleftrightarrow> s = t"
  by (cases s, cases t) (simp add: setts_equal_def Let_def)

section \<open>Queries\<close>

definition onlineLogTableName :: string where "onlineLogTableName = ''fmtp_online''"
definition storageLogTableName :: string where "storageLogTableName = ''fmtp_storage''"

definition quoted :: "string \<Rightarrow> string" where
  "quoted s = CHR 0x27 # s @ [CHR 0x27]"

definition oraCheckLogCountQuery :: "int \<Rightarrow> int \<Rightarrow> string" where
  "oraCheckLogCountQuery maxOnlineCount maxStorageCount =
     ''BEGIN LOG_PROC_PKG.CHECK_LOG_COUNT('' @ Itoa maxOnlineCount @ '', '' @ Itoa maxStorageCount @
     ''); COMMIT; END;''"

definition oraCheckLogLivetimeQuery :: "string \<Rightarrow> string" where
  "oraCheckLogLivetimeQuery dateTimeString =
     ''BEGIN LOG_PROC_PKG.CHECK_LOG_LIFETIME('' @ quoted dateTimeString @ ''); COMMIT; END;''"

definition log_columns :: string where
  "log_columns = ''(CntrlIP, DaemonID, LocalName, RemoteName, DataType, Source, Severity, FmtpType, Direction, DateTime, Text)''"

fun comma_list :: "string list \<Rightarrow> string" where
  "comma_list [] = []"
| "comma_list [s] = s"
| "comma_list (s # t # ss) = s @ '', '' @ comma_list (t # ss)"

definition sql_values :: "LogMessage \<Rightarrow> string" where
  "sql_values val = ''('' @ comma_list (map quoted
     [ControllerIP val, Itoa (logChannelId val), ChannelLocName val, ChannelRemName val, logDataType val,
      logSource val, Severity val, FmtpType val, Direction val, DateTime val, logText val]) @ '') ''"

definition line_break :: string where
  "line_break = [CHR 0x0A, CHR 0x09, CHR 0x09]"

text \<open>The two literals of the source differ in the blanks around their line breaks.\<close>

definition insert_rows :: "LogMessage \<Rightarrow> string" where
  "insert_rows val =
     ''INTO '' @ onlineLogTableName @ line_break @ '' '' @ log_columns @ line_break @ '' VALUES '' @ sql_values val @
     ''INTO '' @ storageLogTableName @ '' '' @ line_break @ log_columns @ '' '' @ line_break @ ''VALUES '' @ sql_values val"

definition oraInsertLogQuery :: "LogMessage list \<Rightarrow> string" where
  "oraInsertLogQuery logMsgs = ''INSERT ALL '' @ concat (map insert_rows logMsgs) @ '' SELECT 1 FROM dual''"

definition oraHeartbeatQuery :: string where
  "oraHeartbeatQuery = ''SELECT '' @ quoted ''heartbeat'' @ '' FROM dual''"

section \<open>Items of the queue\<close>

definition insertCountCheck :: nat where "insertCountCheck = 1000"
definition onlineLogMaxCount :: int where "onlineLogMaxCount = 1000"
definition maxQueryExec :: nat where "maxQueryExec = 100"
definition errMetricLabel :: string where "errMetricLabel = ''error''"

definition LogPriority :: int where "LogPriority = 0"
definition CheckLogCountPriority :: int where "CheckLogCountPriority = 1"
definition CheckLogLivetimePriority :: int where "CheckLogLivetimePriority = 2"
definition HeartbeatPriority :: int where "HeartbeatPriority = 3"

lemmas priority_defs =
  LogPriority_def CheckLogCountPriority_def CheckLogLivetimePriority_def HeartbeatPriority_def

record queueItem =
  queryText :: string
  priority :: int
  countMsg :: int

definition Compare :: "queueItem \<Rightarrow> queueItem \<Rightarrow> int" where
  "Compare qi other = (if priority qi < priority other then 1 else -1)"

definition PriorToString :: "int \<Rightarrow> string" where
  "PriorToString val =
     (if val = LogPriority then ''log''
      else if val = CheckLogCountPriority then ''check_count''
      else if val = CheckLogLivetimePriority then ''check_time''
      else if val = HeartbeatPriority then ''heartbeat''
      else [])"

text \<open>
  The priority queue: its functions, and the behaviour its documentation promises for a
  view \<open>content\<close> of its elements. An element taken is one no other element precedes in
  the order of \<open>Compare\<close>.
\<close>

record 'q prio_queue =
  pqNew :: 'q
  pqPut :: "queueItem \<Rightarrow> 'q \<Rightarrow> 'q"
  pqGet :: "nat \<Rightarrow> 'q \<Rightarrow> queueItem list \<times> 'q"
  pqEmpty :: "'q \<Rightarrow> bool"
  pqLen :: "'q \<Rightarrow> int"

definition pq_lawful :: "'q prio_queue \<Rightarrow> ('q \<Rightarrow> queueItem multiset) \<Rightarrow> bool" where
  "pq_lawful P content \<longleftrightarrow>
     content (pqNew P) = {#} \<and>
     (\<forall>it q. content (pqPut P it q) = add_mset it (content q)) \<and>
     (\<forall>q. pqEmpty P q \<longleftrightarrow> content q = {#}) \<and>
     (\<forall>q. content q \<noteq> {#} \<longrightarrow>
        (\<exists>it q'. pqGet P 1 q = ([it], q') \<and> content q = add_mset it (content q') \<and>
          (\<forall>other \<in># content q'. Compare it other < 0)))"

text \<open>A queue that keeps the promise: a list from which a first element is picked.\<close>

fun pick_first :: "queueItem \<Rightarrow> queueItem list \<Rightarrow> queueItem \<times> queueItem list" where
  "pick_first x [] = (x, [])"
| "pick_first x (y # ys) =
     (let (m, r) = pick_first y ys in if Compare x m < 0 then (x, m # r) else (m, x # r))"

fun get_first :: "nat \<Rightarrow> queueItem list \<Rightarrow> queueItem list \<times> queueItem list" where
  "get_first (Suc n) (x # xs) =
     (let (m, r) = pick_first x xs; (ms, r') = get_first n r in (m # ms, r'))"
| "get_first n q = ([], q)"

definition list_pq :: "queueItem list prio_queue" where
  "list_pq = \<lparr>pqNew = [], pqPut = (#), pqGet = get_first, pqEmpty = (\<lambda>q. q = []),
     pqLen = (\<lambda>q. int (length q))\<rparr>"

lemma Compare_neg: "Compare a b < 0 \<longleftrightarrow> priority b \<le> priority a"
  by (simp add: Compare_def)

lemma pick_first_mset: "pick_first x xs = (m, r) \<Longrightarrow> add_mset m (mset r) = add_mset x (mset xs)"
  by (induction xs arbitrary: x m r) (auto simp: split: prod.splits if_splits)

lemma pick_first_least:
  "pick_first x xs = (m, r) \<Longrightarrow> \<forall>y \<in> set r. Compare m y < 0"
proof (induction xs arbitrary: x m r)
  case (Cons y ys)
  obtain m' r' where p: "pick_first y ys = (m', r')" by fastforce
  have "\<forall>z \<in> set r'. Compare m' z < 0" using Cons.IH [OF p] .
  then show ?case using Cons.prems by (auto simp: p Compare_neg intro: order_trans split: if_splits)
qed simp

lemma list_pq_lawful: "pq_lawful list_pq mset"
proof -
  have "\<exists>it q'. get_first (Suc 0) q = ([it], q') \<and> mset q = add_mset it (mset q') \<and>
      (\<forall>other \<in># mset q'. Compare it other < 0)" if ne: "q \<noteq> []" for q
  proof -
    obtain x xs where q: "q = x # xs" using ne by (cases q) auto
    obtain m r where p: "pick_first x xs = (m, r)" by fastforce
    have "get_first (Suc 0) q = ([m], r)" by (cases r) (simp_all add: q p)
    then show ?thesis using pick_first_mset [OF p] pick_first_least [OF p] by (auto simp: q)
  qed
  then show ?thesis by (auto simp: pq_lawful_def list_pq_def)
qed

section \<open>The controller\<close>

datatype exec_pc = ExecSelect | ExecResult "string option"

datatype ora_op =
  Connect "string option" "string option"
| ConnectFailed string
| Connected
| Disconnect
| SendTerm
| CloseDb
| ReportState string string
| CheckLogCount
| ResetInsertCount
| CheckLogLivetime
| CheckHeartbeat
| CheckQueryQueue
| SendQuery queueItem

datatype ora_effect =
  OpenDb string
| DbClosed
| Exec queueItem "string option"
| OraMetric int string int int
| RequestMsgs
| OraState string string
| OraPrint print_level string

record 'q OraCntrlr =
  curSetts :: OraCntrlSettings
  logMsgBuffer :: "LogMessage list"
  queryQueue :: 'q
  dbNil :: bool
  dbSuccess :: bool
  canExecute :: bool
  execQueryChan :: "queueItem list"
  execResultChan :: "string option list"
  execTermChan :: nat
  curInsertCount :: nat
  executors :: "exec_pc list"
  todo :: "ora_op list"
  oraPanic :: bool
  oraOut :: "ora_effect list"

text \<open>What a step needs from outside: the queue and the text of the day so many days ago, for
  the reading of the clock at an effect.\<close>

record 'q ora_env =
  prioQueue :: "'q prio_queue"
  daysAgo :: "nat \<Rightarrow> int \<Rightarrow> string"

definition ora_emit :: "ora_effect \<Rightarrow> 'q OraCntrlr \<Rightarrow> 'q OraCntrlr" where
  "ora_emit e c = c\<lparr>oraOut := oraOut c @ [e]\<rparr>"

definition NewOraController :: "'q ora_env \<Rightarrow> 'q OraCntrlr" where
  "NewOraController env =
     \<lparr>curSetts = zeroOraSettings, logMsgBuffer = [], queryQueue = pqNew (prioQueue env), dbNil = True,
      dbSuccess = False, canExecute = False, execQueryChan = [], execResultChan = [], execTermChan = 0,
      curInsertCount = 0, executors = [], todo = [], oraPanic = False, oraOut = []\<rparr>"

definition Run_start :: "'q OraCntrlr \<Rightarrow> 'q OraCntrlr" where
  "Run_start c = fold (\<lambda>label. ora_emit (OraMetric 0 label 0 0))
     [PriorToString LogPriority, PriorToString CheckLogCountPriority,
      PriorToString CheckLogLivetimePriority, PriorToString HeartbeatPriority, errMetricLabel]
     (c\<lparr>dbSuccess := False\<rparr>)"

definition put_query :: "'q ora_env \<Rightarrow> queueItem \<Rightarrow> 'q OraCntrlr \<Rightarrow> 'q OraCntrlr" where
  "put_query env it c = c\<lparr>queryQueue := pqPut (prioQueue env) it (queryQueue c)\<rparr>"

definition queue_empty :: "'q ora_env \<Rightarrow> 'q OraCntrlr \<Rightarrow> bool" where
  "queue_empty env c = pqEmpty (prioQueue env) (queryQueue c)"

text \<open>The batch of messages of the next query.\<close>

definition take_query :: "'q OraCntrlr \<Rightarrow> LogMessage list \<times> 'q OraCntrlr" where
  "take_query c =
     (let (toQuery, rest) =
        (if length (logMsgBuffer c) > maxQueryExec
         then (take maxQueryExec (logMsgBuffer c), drop maxQueryExec (logMsgBuffer c))
         else (logMsgBuffer c, []))
      in (toQuery, c\<lparr>logMsgBuffer := rest\<rparr>))"

definition next_log_query :: "'q ora_env \<Rightarrow> 'q OraCntrlr \<Rightarrow> 'q OraCntrlr" where
  "next_log_query env c =
     (if logMsgBuffer c \<noteq> [] then
        (let (toQuery, c) = take_query c
         in if toQuery \<noteq> [] then
              put_query env \<lparr>queryText = oraInsertLogQuery toQuery, priority = LogPriority,
                             countMsg = int (length toQuery)\<rparr> c
            else c)
      else ora_emit RequestMsgs c)"

text \<open>What of \<open>checkQueryQueue\<close> precedes its send on \<open>execQueryChan\<close>.\<close>

definition checkQueryQueue :: "'q ora_env \<Rightarrow> 'q OraCntrlr \<Rightarrow> 'q OraCntrlr \<times> ora_op list" where
  "checkQueryQueue env c =
     (if canExecute c then
        (let c = (if queue_empty env c then next_log_query env c else c)
         in if \<not> queue_empty env c then
              (case pqGet (prioQueue env) 1 (queryQueue c) of
                 ([it], q) \<Rightarrow> (c\<lparr>queryQueue := q, canExecute := False\<rparr>, [SendQuery it])
               | (_, q) \<Rightarrow> (c\<lparr>queryQueue := q\<rparr>, []))
            else (c, []))
      else (c, []))"

definition checkLogCount :: "'q ora_env \<Rightarrow> 'q OraCntrlr \<Rightarrow> 'q OraCntrlr \<times> ora_op list" where
  "checkLogCount env c =
     (put_query env \<lparr>queryText = oraCheckLogCountQuery onlineLogMaxCount (LogStoreMaxCount (curSetts c)),
                     priority = CheckLogCountPriority, countMsg = 1\<rparr> c, [CheckQueryQueue])"

definition checkLogLivetime :: "'q ora_env \<Rightarrow> 'q OraCntrlr \<Rightarrow> 'q OraCntrlr \<times> ora_op list" where
  "checkLogLivetime env c =
     (put_query env \<lparr>queryText = oraCheckLogLivetimeQuery (daysAgo env (length (oraOut c)) (LogStoreDays (curSetts c))),
                     priority = CheckLogLivetimePriority, countMsg = 1\<rparr> c, [CheckQueryQueue])"

definition checkHeatrbeat :: "'q ora_env \<Rightarrow> 'q OraCntrlr \<Rightarrow> 'q OraCntrlr \<times> ora_op list" where
  "checkHeatrbeat env c =
     (if queue_empty env c then
        (let c = (if logMsgBuffer c = [] then ora_emit RequestMsgs c else c)
         in put_query env \<lparr>queryText = oraHeartbeatQuery, priority = HeartbeatPriority, countMsg = 1\<rparr> c)
      else c, [CheckQueryQueue])"

text \<open>\<open>connectToDb\<close> with the errors of \<open>sql.Open\<close>, which yields no database then, and of the
  ping. The case of new settings prints its error or its success.\<close>

definition connectToDb ::
  "string option \<Rightarrow> string option \<Rightarrow> 'q OraCntrlr \<Rightarrow> 'q OraCntrlr \<times> ora_op list" where
  "connectToDb errOpen errPing c =
     (let c = ora_emit (OpenDb (ConnString (curSetts c))) (c\<lparr>dbSuccess := False, dbNil := (errOpen \<noteq> None)\<rparr>)
      in case errOpen of
           Some err \<Rightarrow> (c, [Disconnect, ConnectFailed err])
         | None \<Rightarrow>
             (case errPing of
                Some err \<Rightarrow> (c, [Disconnect, ConnectFailed err])
              | None \<Rightarrow> (c\<lparr>dbSuccess := True, canExecute := True, executors := executors c @ [ExecSelect]\<rparr>,
                         [CheckQueryQueue, Connected])))"

definition disconnectFromDb :: "'q OraCntrlr \<Rightarrow> 'q OraCntrlr \<times> ora_op list" where
  "disconnectFromDb c = (c\<lparr>canExecute := False, dbSuccess := False\<rparr>, [SendTerm, CloseDb])"

text \<open>One operation, with the operations it calls; none where a send has to wait.\<close>

fun run_op :: "'q ora_env \<Rightarrow> ora_op \<Rightarrow> 'q OraCntrlr \<Rightarrow> ('q OraCntrlr \<times> ora_op list) option" where
  "run_op env (Connect errOpen errPing) c = Some (connectToDb errOpen errPing c)"
| "run_op env (ConnectFailed err) c =
     Some (ora_emit (OraPrint PrintErr ((ru ''Owibka podkl04eni9 k BD '') @ ''Oracle: '' @ err @ [CHR 0x0A])) c,
           [ReportState LoggerStateError err])"
| "run_op env Connected c =
     Some (ora_emit (OraPrint PrintDebug ((ru ''Uspewnoe podkl04enie k BD '') @ ''Oracle'')) c,
           [ReportState LoggerStateOk []])"
| "run_op env Disconnect c = Some (disconnectFromDb c)"
| "run_op env SendTerm c =
     (if execTermChan c < 1 then Some (c\<lparr>execTermChan := execTermChan c + 1\<rparr>, []) else None)"
| "run_op env CloseDb c =
     Some (if dbNil c then c\<lparr>oraPanic := True\<rparr> else ora_emit DbClosed c, [])"
| "run_op env (ReportState st err) c = Some (ora_emit (OraState st err) c, [])"
| "run_op env CheckLogCount c = Some (checkLogCount env c)"
| "run_op env ResetInsertCount c = Some (c\<lparr>curInsertCount := 0\<rparr>, [])"
| "run_op env CheckLogLivetime c = Some (checkLogLivetime env c)"
| "run_op env CheckHeartbeat c = Some (checkHeatrbeat env c)"
| "run_op env CheckQueryQueue c = Some (checkQueryQueue env c)"
| "run_op env (SendQuery it) c =
     (if execQueryChan c = [] then Some (c\<lparr>execQueryChan := [it]\<rparr>, []) else None)"

section \<open>Steps\<close>

text \<open>The cases of the loop of \<open>Run\<close>.\<close>

datatype ora_input =
  NewOraSettings OraCntrlSettings "string option" "string option"
| NewMsgs "LogMessage list"
| TakeResult
| PingTick
| LifetimeTick

definition db_gone :: "string \<Rightarrow> bool" where
  "db_gone err \<longleftrightarrow> sublist ''database is closed'' err \<or> sublist ''server is not accepting clients'' err"

fun run_case :: "ora_input \<Rightarrow> 'q OraCntrlr \<Rightarrow> ('q OraCntrlr \<times> ora_op list) option" where
  "run_case (NewOraSettings newSettings errOpen errPing) c =
     (let (isDbEqual, isStorEqual) = setts_equal (curSetts c) newSettings
      in if \<not> isDbEqual \<or> \<not> isStorEqual then
           Some (c\<lparr>curSetts := newSettings\<rparr>,
             (if \<not> isDbEqual then (if dbSuccess c then [Disconnect] else []) @ [Connect errOpen errPing] else []) @
             (if \<not> isStorEqual then [CheckLogCount, CheckLogLivetime] else []))
         else Some (c, []))"
| "run_case (NewMsgs logMsgs) c =
     (let c = c\<lparr>logMsgBuffer := logMsgBuffer c @ logMsgs, curInsertCount := curInsertCount c + 1\<rparr>
      in Some (c, (if curInsertCount c > insertCountCheck then [CheckLogCount, ResetInsertCount] else []) @
                  [CheckQueryQueue]))"
| "run_case TakeResult c =
     (case execResultChan c of
        [] \<Rightarrow> None
      | execErr # rest \<Rightarrow>
          (let c = c\<lparr>execResultChan := rest\<rparr>
           in case execErr of
                Some err \<Rightarrow>
                  if db_gone err then Some (c, [Disconnect, ReportState LoggerStateError err, CheckQueryQueue])
                  else Some (c\<lparr>canExecute := True\<rparr>, [CheckQueryQueue])
              | None \<Rightarrow> Some (c\<lparr>canExecute := True\<rparr>, [CheckQueryQueue])))"
| "run_case PingTick c = Some (c, if dbSuccess c then [CheckHeartbeat] else [])"
| "run_case LifetimeTick c = Some (c, [CheckLogLivetime])"

text \<open>A goroutine of \<open>executeQuery\<close>: it takes a query and passes it to the database (with the
  answer of the database), gives the result, or ends.\<close>

definition exec_take :: "'q ora_env \<Rightarrow> nat \<Rightarrow> string option \<Rightarrow> 'q OraCntrlr \<Rightarrow> 'q OraCntrlr option" where
  "exec_take env i curErr c =
     (if i < length (executors c) \<and> executors c ! i = ExecSelect then
        (case execQueryChan c of
           [] \<Rightarrow> None
         | it # rest \<Rightarrow>
             (let c = ora_emit (Exec it curErr)
                        (c\<lparr>execQueryChan := rest, executors := (executors c)[i := ExecResult curErr]\<rparr>);
                  c = (case curErr of
                         Some err \<Rightarrow> ora_emit (OraPrint PrintDebug (''!!! EXEC err '' @ err @ [CHR 0x0A, CHR 0x0A])) c
                       | None \<Rightarrow> c)
              in Some (ora_emit (OraMetric (countMsg it)
                   (if curErr \<noteq> None then errMetricLabel else PriorToString (priority it))
                   (int (length (logMsgBuffer c))) (pqLen (prioQueue env) (queryQueue c))) c)))
      else None)"

definition exec_give :: "nat \<Rightarrow> 'q OraCntrlr \<Rightarrow> 'q OraCntrlr option" where
  "exec_give i c =
     (if i < length (executors c) then
        (case executors c ! i of
           ExecResult curErr \<Rightarrow>
             if execResultChan c = [] then
               Some (c\<lparr>execResultChan := [curErr], executors := (executors c)[i := ExecSelect]\<rparr>)
             else None
         | ExecSelect \<Rightarrow> None)
      else None)"

definition exec_stop :: "nat \<Rightarrow> 'q OraCntrlr \<Rightarrow> 'q OraCntrlr option" where
  "exec_stop i c =
     (if i < length (executors c) \<and> executors c ! i = ExecSelect \<and> 0 < execTermChan c
      then Some (c\<lparr>execTermChan := execTermChan c - 1,
                   executors := take i (executors c) @ drop (Suc i) (executors c)\<rparr>)
      else None)"

datatype ora_action =
  OraCase ora_input
| OraOp
| ExecTake nat "string option"
| ExecGive nat
| ExecStop nat

fun ora_step :: "'q ora_env \<Rightarrow> ora_action \<Rightarrow> 'q OraCntrlr \<Rightarrow> 'q OraCntrlr option" where
  "ora_step env (OraCase x) c =
     (if oraPanic c \<or> todo c \<noteq> [] then None
      else case run_case x c of None \<Rightarrow> None | Some (c, ops) \<Rightarrow> Some (c\<lparr>todo := ops\<rparr>))"
| "ora_step env OraOp c =
     (if oraPanic c then None
      else case todo c of
             [] \<Rightarrow> None
           | x # rest \<Rightarrow>
               (case run_op env x c of None \<Rightarrow> None | Some (c, ops) \<Rightarrow> Some (c\<lparr>todo := ops @ rest\<rparr>)))"
| "ora_step env (ExecTake i err) c = (if oraPanic c then None else exec_take env i err c)"
| "ora_step env (ExecGive i) c = (if oraPanic c then None else exec_give i c)"
| "ora_step env (ExecStop i) c = (if oraPanic c then None else exec_stop i c)"

end
