(* ===== verification/Ora_Runs.thy ===== *)
theory Ora_Runs
  imports Ora_Cntrl
begin

text \<open>
  What the writer of the logger does with its messages: each is in exactly one batch, the
  batches go to the database in the order of the messages (\<open>ora_journal\<close>), maintenance first
  (\<open>ora_maintenance_first\<close>), and an insert names its messages uniquely as long as they
  have no quote (\<open>insert_injective\<close>). And what it does when a connection fails.
\<close>

section \<open>The buffer as a batch queue\<close>

interpretation ora_queue: batch_queue "\<lambda>m c. c\<lparr>logMsgBuffer := logMsgBuffer c @ [m]\<rparr>" take_query logMsgBuffer
    "\<lambda>c. maxQueryExec" "\<lambda>c. True" "\<lambda>c. True"
  by unfold_locales (auto simp: take_query_def min_def)

section \<open>Queries on their way\<close>

definition executed :: "ora_effect list \<Rightarrow> queueItem list" where
  "executed es = concat (map (\<lambda>e. case e of Exec it err \<Rightarrow> [it] | _ \<Rightarrow> []) es)"

definition pending :: "ora_op list \<Rightarrow> queueItem list" where
  "pending ops = concat (map (\<lambda>x. case x of SendQuery it \<Rightarrow> [it] | _ \<Rightarrow> []) ops)"

definition log_texts :: "queueItem list \<Rightarrow> string list" where
  "log_texts its = map queryText (filter (\<lambda>it. priority it = LogPriority) its)"

lemma flow_simps [simp]:
  "executed [] = []" "executed (es @ fs) = executed es @ executed fs"
  "executed (e # es) = (case e of Exec it err \<Rightarrow> [it] | _ \<Rightarrow> []) @ executed es"
  "pending [] = []" "pending (xs @ ys) = pending xs @ pending ys"
  "pending (x # xs) = (case x of SendQuery it \<Rightarrow> [it] | _ \<Rightarrow> []) @ pending xs"
  "log_texts [] = []" "log_texts (is @ js) = log_texts is @ log_texts js"
  "log_texts (it # is) = (if priority it = LogPriority then [queryText it] else []) @ log_texts is"
  by (simp_all add: executed_def pending_def log_texts_def)

text \<open>The messages received are those of the log queries on their way or executed, and then
  the buffer.\<close>

definition kept ::
  "('q \<Rightarrow> queueItem multiset) \<Rightarrow> LogMessage list \<Rightarrow> queueItem list \<Rightarrow> LogMessage list \<Rightarrow> 'q \<Rightarrow> bool" where
  "kept content r its buf q \<longleftrightarrow>
     (\<exists>bs. log_texts its = map oraInsertLogQuery bs \<and>
           (\<forall>b \<in> set bs. b \<noteq> [] \<and> length b \<le> maxQueryExec) \<and> concat bs @ buf = r) \<and>
     (\<forall>it \<in># content q. priority it \<noteq> LogPriority)"

definition ora_inv :: "('q \<Rightarrow> queueItem multiset) \<Rightarrow> LogMessage list \<Rightarrow> 'q OraCntrlr \<Rightarrow> bool" where
  "ora_inv content r c \<longleftrightarrow>
     kept content r (executed (oraOut c) @ execQueryChan c @ pending (todo c)) (logMsgBuffer c) (queryQueue c) \<and>
     pending (tl (todo c)) = []"

lemma ora_emit_simps [simp]:
  "logMsgBuffer (ora_emit e c) = logMsgBuffer c" "queryQueue (ora_emit e c) = queryQueue c"
  "execQueryChan (ora_emit e c) = execQueryChan c" "todo (ora_emit e c) = todo c"
  "executors (ora_emit e c) = executors c" "canExecute (ora_emit e c) = canExecute c"
  "dbSuccess (ora_emit e c) = dbSuccess c" "execTermChan (ora_emit e c) = execTermChan c"
  "oraPanic (ora_emit e c) = oraPanic c" "curSetts (ora_emit e c) = curSetts c"
  "oraOut (ora_emit e c) = oraOut c @ [e]" "dbNil (ora_emit e c) = dbNil c"
  "execResultChan (ora_emit e c) = execResultChan c" "curInsertCount (ora_emit e c) = curInsertCount c"
  by (simp_all add: ora_emit_def)

lemma kept_buffer: "kept content r its buf q \<Longrightarrow> kept content (r @ ms) its (buf @ ms) q"
  by (auto simp: kept_def)

lemma kept_put:
  assumes "pq_lawful P content" "priority it \<noteq> LogPriority" "kept content r its buf q"
  shows "kept content r its buf (pqPut P it q)"
  using assms by (auto simp: kept_def pq_lawful_def)

text \<open>What \<open>checkQueryQueue\<close> takes out of the queue.\<close>

lemma lawful_get:
  assumes "pq_lawful P content" "content q \<noteq> {#}"
  obtains it q' where "pqGet P 1 q = ([it], q')" "content q = add_mset it (content q')"
    "\<forall>other \<in># content q'. Compare it other < 0"
  using assms unfolding pq_lawful_def by blast

lemma lawful_put_get:
  assumes "pq_lawful P content" "content q = {#}"
  shows "\<exists>q'. pqGet P 1 (pqPut P it q) = ([it], q') \<and> content q' = {#}"
proof -
  have c: "content (pqPut P it q) = {#it#}" using assms by (simp add: pq_lawful_def)
  then have "content (pqPut P it q) \<noteq> {#}" by simp
  then obtain it' q' where g: "pqGet P 1 (pqPut P it q) = ([it'], q')"
    "content (pqPut P it q) = add_mset it' (content q')"
    by (rule lawful_get [OF assms(1)])
  with c have "it' = it" "content q' = {#}" by simp_all
  with g show ?thesis by blast
qed

lemma take_query_props:
  assumes "logMsgBuffer c \<noteq> []"
  obtains toQuery rest where "take_query c = (toQuery, c\<lparr>logMsgBuffer := rest\<rparr>)"
    "toQuery @ rest = logMsgBuffer c" "toQuery \<noteq> []" "length toQuery \<le> maxQueryExec"
proof (cases "length (logMsgBuffer c) > maxQueryExec")
  case True
  then show ?thesis
    using assms that [of "take maxQueryExec (logMsgBuffer c)" "drop maxQueryExec (logMsgBuffer c)"]
    by (simp add: take_query_def maxQueryExec_def)
next
  case False
  then show ?thesis using assms that [of "logMsgBuffer c" "[]"] by (simp add: take_query_def)
qed

lemma checkQueryQueue_keeps:
  assumes L: "pq_lawful (prioQueue env) content"
    and K: "kept content r its (logMsgBuffer c) (queryQueue c)"
    and C: "checkQueryQueue env c = (c', ops)"
  shows "kept content r (its @ pending ops) (logMsgBuffer c') (queryQueue c')"
    and "pending (tl ops) = []" and "executed (oraOut c') = executed (oraOut c)"
    and "execQueryChan c' = execQueryChan c" and "todo c' = todo c"
proof -
  let ?P = "prioQueue env" and ?q = "queryQueue c"
  have "kept content r (its @ pending ops) (logMsgBuffer c') (queryQueue c') \<and> pending (tl ops) = [] \<and>
    executed (oraOut c') = executed (oraOut c) \<and> execQueryChan c' = execQueryChan c \<and> todo c' = todo c"
  proof (cases "canExecute c")
    case False
    then show ?thesis using C K by (auto simp: checkQueryQueue_def)
  next
    case True
    show ?thesis
    proof (cases "content ?q = {#}")
      case False
      then obtain it q' where g: "pqGet ?P 1 ?q = ([it], q')" "content ?q = add_mset it (content q')"
        by (rule lawful_get [OF L])
      have "\<not> pqEmpty ?P ?q" using L False by (simp add: pq_lawful_def)
      then have "c' = c\<lparr>queryQueue := q', canExecute := False\<rparr>" "ops = [SendQuery it]"
        using C True g(1) by (auto simp: checkQueryQueue_def queue_empty_def Let_def)
      moreover have "kept content r (its @ [it]) (logMsgBuffer c) q'"
        using K g(2) by (auto simp: kept_def)
      ultimately show ?thesis by simp
    next
      case empty: True
      then have e: "pqEmpty ?P ?q" using L by (simp add: pq_lawful_def)
      show ?thesis
      proof (cases "logMsgBuffer c = []")
        case True
        then have "c' = ora_emit RequestMsgs c" "ops = []"
          using C \<open>canExecute c\<close> e by (auto simp: checkQueryQueue_def queue_empty_def next_log_query_def Let_def)
        then show ?thesis using K by simp
      next
        case False
        obtain b rest where t: "take_query c = (b, c\<lparr>logMsgBuffer := rest\<rparr>)"
          and tq: "b @ rest = logMsgBuffer c" "b \<noteq> []" "length b \<le> maxQueryExec"
          by (rule take_query_props [OF False])
        let ?it = "\<lparr>queryText = oraInsertLogQuery b, priority = LogPriority, countMsg = int (length b)\<rparr>"
        obtain q' where g: "pqGet ?P 1 (pqPut ?P ?it ?q) = ([?it], q')" "content q' = {#}"
          using lawful_put_get [OF L empty] by blast
        have ne: "\<not> pqEmpty ?P (pqPut ?P ?it ?q)" using L by (simp add: pq_lawful_def)
        have "next_log_query env c = put_query env ?it (c\<lparr>logMsgBuffer := rest\<rparr>)"
          using False tq(2) by (simp add: next_log_query_def t)
        then have c': "c' = c\<lparr>logMsgBuffer := rest, queryQueue := q', canExecute := False\<rparr>" "ops = [SendQuery ?it]"
          using C \<open>canExecute c\<close> e ne g(1)
          by (auto simp: checkQueryQueue_def queue_empty_def put_query_def Let_def)
        obtain bs where bs: "log_texts its = map oraInsertLogQuery bs"
          "\<forall>b \<in> set bs. b \<noteq> [] \<and> length b \<le> maxQueryExec" "concat bs @ logMsgBuffer c = r"
          using K by (auto simp: kept_def)
        have "concat bs @ b @ rest = r" using bs(3) tq(1) by simp
        then have "kept content r (its @ [?it]) rest q'"
          unfolding kept_def using bs(1,2) tq(2,3) g(2) by (intro conjI exI [of _ "bs @ [b]"]) auto
        then show ?thesis by (simp add: c')
      qed
    qed
  qed
  then show "kept content r (its @ pending ops) (logMsgBuffer c') (queryQueue c')"
    and "pending (tl ops) = []" and "executed (oraOut c') = executed (oraOut c)"
    and "execQueryChan c' = execQueryChan c" and "todo c' = todo c" by auto
qed

lemma put_query_simps [simp]:
  "logMsgBuffer (put_query env it c) = logMsgBuffer c" "execQueryChan (put_query env it c) = execQueryChan c"
  "todo (put_query env it c) = todo c" "oraOut (put_query env it c) = oraOut c"
  "executors (put_query env it c) = executors c" "canExecute (put_query env it c) = canExecute c"
  "dbSuccess (put_query env it c) = dbSuccess c" "execTermChan (put_query env it c) = execTermChan c"
  "oraPanic (put_query env it c) = oraPanic c" "curSetts (put_query env it c) = curSetts c"
  "dbNil (put_query env it c) = dbNil c" "execResultChan (put_query env it c) = execResultChan c"
  "curInsertCount (put_query env it c) = curInsertCount c"
  "queryQueue (put_query env it c) = pqPut (prioQueue env) it (queryQueue c)"
  by (simp_all add: put_query_def)

lemma run_op_keeps:
  assumes L: "pq_lawful (prioQueue env) content" and R: "run_op env x c = Some (c', ops)"
    and K: "kept content r (executed (oraOut c) @ execQueryChan c @ pending [x]) (logMsgBuffer c) (queryQueue c)"
  shows "kept content r (executed (oraOut c') @ execQueryChan c' @ pending ops) (logMsgBuffer c') (queryQueue c') \<and>
    pending (tl ops) = [] \<and> todo c' = todo c"
proof (cases x)
  case CheckQueryQueue
  then have C: "checkQueryQueue env c = (c', ops)" using R by simp
  show ?thesis
    using checkQueryQueue_keeps [OF L _ C, of r "executed (oraOut c) @ execQueryChan c"] K CheckQueryQueue by simp
next
  case (Connect a b)
  then show ?thesis using R K by (auto simp: connectToDb_def Let_def split: option.splits)
next
  case CheckHeartbeat
  then show ?thesis using R K kept_put [OF L]
    by (auto simp: checkHeatrbeat_def Let_def priority_defs split: if_splits)
qed (use R K kept_put [OF L] in
  \<open>auto simp: checkLogCount_def checkLogLivetime_def disconnectFromDb_def priority_defs split: if_splits\<close>)

fun received_by :: "ora_action \<Rightarrow> LogMessage list" where
  "received_by (OraCase (NewMsgs ms)) = ms"
| "received_by _ = []"

lemma pending_tl: "pending xs = [] \<Longrightarrow> pending (tl xs) = []"
  by (cases xs) simp_all

lemma ora_inv_step:
  assumes L: "pq_lawful (prioQueue env) content" and S: "ora_step env a c = Some c'" and I: "ora_inv content r c"
  shows "ora_inv content (r @ received_by a) c'"
proof (cases a)
  case (OraCase x)
  then obtain d ops where d: "run_case x c = Some (d, ops)" "c' = d\<lparr>todo := ops\<rparr>" "todo c = []"
    using S by (auto split: if_splits option.splits)
  then show ?thesis
    using I OraCase kept_buffer [of content r]
    by (cases x) (auto simp: ora_inv_def Let_def split: if_splits option.splits list.splits prod.splits)
next
  case OraOp
  then obtain x rest d ops where d: "todo c = x # rest" "run_op env x c = Some (d, ops)" "c' = d\<lparr>todo := ops @ rest\<rparr>"
    using S by (auto split: if_splits option.splits list.splits)
  from I have p: "pending rest = []" and K: "kept content r (executed (oraOut c) @ execQueryChan c @ pending [x])
      (logMsgBuffer c) (queryQueue c)"
    by (auto simp: ora_inv_def d(1))
  from run_op_keeps [OF L d(2) K] p OraOp show ?thesis
    by (cases ops) (auto simp: ora_inv_def d(3) pending_tl)
next
  case (ExecTake i err)
  then show ?thesis using S I
    by (auto simp: ora_inv_def exec_take_def Let_def split: if_splits list.splits option.splits)
next
  case (ExecGive i)
  then show ?thesis using S I by (auto simp: ora_inv_def exec_give_def split: if_splits exec_pc.splits)
next
  case (ExecStop i)
  then show ?thesis using S I by (auto simp: ora_inv_def exec_stop_def split: if_splits)
qed

lemma ora_inv_run:
  assumes "pq_lawful (prioQueue env) content"
  shows "run_steps (ora_step env) as c = Some c' \<Longrightarrow> ora_inv content r c \<Longrightarrow>
    ora_inv content (r @ concat (map received_by as)) c'"
proof (induction "as" arbitrary: c r)
  case (Cons a "as")
  then obtain d where d: "ora_step env a c = Some d" "run_steps (ora_step env) as d = Some c'"
    by (auto split: option.splits)
  from Cons.IH [OF d(2) ora_inv_step [OF assms d(1) Cons.prems(2)]] show ?case by simp
qed simp

lemma ora_inv_start:
  assumes "pq_lawful (prioQueue env) content"
  shows "ora_inv content [] (Run_start (NewOraController env))"
  using assms by (auto simp: ora_inv_def Run_start_def NewOraController_def kept_def pq_lawful_def ora_emit_def)

section \<open>The texts of inserts\<close>

definition no_quote :: "string \<Rightarrow> bool" where
  "no_quote s \<longleftrightarrow> CHR 0x27 \<notin> set s"

definition quote_free :: "LogMessage \<Rightarrow> bool" where
  "quote_free m \<longleftrightarrow> (\<forall>f \<in> {ControllerIP m, ChannelLocName m, ChannelRemName m, logDataType m, logSource m,
     Severity m, FmtpType m, Direction m, DateTime m, logText m}. no_quote f)"

lemma Itoa_no_quote: "no_quote (Itoa i)"
proof -
  have "digit_val (CHR 0x27) = None" by (simp add: digit_val_def)
  then have "CHR 0x27 \<notin> set (nat_digits n)" for n
    using parse_digits_digits [OF parse_digits_nat_digits [of n], of "CHR 0x27"] by blast
  then show ?thesis by (simp add: no_quote_def Itoa_def)
qed

lemma sep_cancel:
  "c \<notin> set s \<Longrightarrow> c \<notin> set t \<Longrightarrow> s @ c # x = t @ c # y \<Longrightarrow> s = t \<and> x = y"
proof (induction s arbitrary: t)
  case Nil
  then show ?case by (cases t) auto
next
  case (Cons a s)
  then show ?case by (cases t) auto
qed

lemma quoted_cancel:
  assumes "no_quote s" "no_quote t" "quoted s @ x = quoted t @ y"
  shows "s = t \<and> x = y"
  using assms by (intro sep_cancel [of "CHR 0x27"]) (simp_all add: quoted_def no_quote_def)

lemma comma_list_cancel:
  "length ss = length ts \<Longrightarrow> ss \<noteq> [] \<Longrightarrow> \<forall>s \<in> set ss. no_quote s \<Longrightarrow> \<forall>t \<in> set ts. no_quote t \<Longrightarrow>
   comma_list (map quoted ss) @ x = comma_list (map quoted ts) @ y \<Longrightarrow> ss = ts \<and> x = y"
proof (induction ss ts rule: list_induct2)
  case (Cons s ss t ts)
  show ?case
  proof (cases ss)
    case Nil
    then show ?thesis using Cons quoted_cancel [of s t x y] by simp
  next
    case (Cons s' ss')
    then obtain t' ts' where ts: "ts = t' # ts'" using Cons.hyps by (cases ts) auto
    have "quoted s @ '', '' @ comma_list (map quoted ss) @ x = quoted t @ '', '' @ comma_list (map quoted ts) @ y"
      using Cons.prems(4) by (simp add: Cons ts)
    moreover have "no_quote s" "no_quote t" using Cons.prems(2,3) by simp_all
    ultimately have st: "s = t \<and>
      '', '' @ comma_list (map quoted ss) @ x = '', '' @ comma_list (map quoted ts) @ y"
      by (intro quoted_cancel)
    then have "comma_list (map quoted ss) @ x = comma_list (map quoted ts) @ y" by simp
    moreover have "\<forall>s \<in> set ss. no_quote s" "\<forall>t \<in> set ts. no_quote t" using Cons.prems(2,3) by simp_all
    ultimately have "ss = ts \<and> x = y" using Cons Cons.IH by blast
    then show ?thesis using st by simp
  qed
qed simp

lemma sql_values_cancel:
  assumes "quote_free m" "quote_free n" "sql_values m @ x = sql_values n @ y"
  shows "m = n \<and> x = y"
proof -
  let ?f = "\<lambda>m. [ControllerIP m, Itoa (logChannelId m), ChannelLocName m, ChannelRemName m, logDataType m,
      logSource m, Severity m, FmtpType m, Direction m, DateTime m, logText m]"
  have "comma_list (map quoted (?f m)) @ '') '' @ x = comma_list (map quoted (?f n)) @ '') '' @ y"
    using assms(3) by (simp add: sql_values_def del: comma_list.simps)
  moreover have "\<forall>s \<in> set (?f m). no_quote s" "\<forall>s \<in> set (?f n). no_quote s"
    using assms(1,2) Itoa_no_quote by (auto simp: quote_free_def)
  ultimately have "?f m = ?f n \<and> '') '' @ x = '') '' @ y"
    by (intro comma_list_cancel) simp_all
  then show ?thesis using Itoa_inj [of "logChannelId m" "logChannelId n"] by (cases m, cases n) simp
qed

lemma insert_rows_cancel:
  assumes "quote_free m" "quote_free n" "insert_rows m @ x = insert_rows n @ y"
  shows "m = n \<and> x = y"
proof -
  from assms(3) have "sql_values m @ ''INTO '' @ storageLogTableName @ '' '' @ line_break @ log_columns @ '' '' @
      line_break @ ''VALUES '' @ sql_values m @ x =
    sql_values n @ ''INTO '' @ storageLogTableName @ '' '' @ line_break @ log_columns @ '' '' @
      line_break @ ''VALUES '' @ sql_values n @ y"
    by (simp add: insert_rows_def)
  from sql_values_cancel [OF assms(1,2) this] have "m = n" by blast
  with assms(3) show ?thesis by simp
qed

lemma hd_insert_rows: "hd (insert_rows m @ x) = CHR ''I''"
  by (simp add: insert_rows_def)

lemma rows_not_tail: "concat (map insert_rows (m # ms)) @ x \<noteq> '' SELECT 1 FROM dual''"
proof
  assume "concat (map insert_rows (m # ms)) @ x = '' SELECT 1 FROM dual''"
  then have "insert_rows m @ concat (map insert_rows ms) @ x = '' SELECT 1 FROM dual''" by simp
  from arg_cong [OF this, of hd] show False by (simp add: hd_insert_rows)
qed

lemma inserts_cancel:
  "\<forall>m \<in> set ms \<union> set ns. quote_free m \<Longrightarrow>
   concat (map insert_rows ms) @ '' SELECT 1 FROM dual'' = concat (map insert_rows ns) @ '' SELECT 1 FROM dual'' \<Longrightarrow>
   ms = ns"
proof (induction ms arbitrary: ns)
  case Nil
  then show ?case 
  proof (cases ns)
    case (Cons n ns')
    then show ?thesis using Nil.prems(2) rows_not_tail [of n ns' "'' SELECT 1 FROM dual''"]
      by (simp only: list.map(1) concat.simps(1) append_Nil)
  qed simp
next
  case (Cons m ms)
  show ?case
  proof (cases ns)
    case Nil
    then show ?thesis using Cons.prems(2) rows_not_tail [of m ms "'' SELECT 1 FROM dual''"]
      by (simp only: list.map(1) concat.simps(1) append_Nil)
  next
    case n: (Cons n ns')
    have "m = n \<and> concat (map insert_rows ms) @ '' SELECT 1 FROM dual'' = concat (map insert_rows ns') @ '' SELECT 1 FROM dual''"
      using Cons.prems by (intro insert_rows_cancel) (simp_all add: n)
    then show ?thesis using Cons.IH [of ns'] Cons.prems(1) by (simp add: n)
  qed
qed

section \<open>Connections\<close>

text \<open>A state in which no step is possible any more.\<close>

definition ora_dead :: "'q ora_env \<Rightarrow> 'q OraCntrlr \<Rightarrow> bool" where
  "ora_dead env c \<longleftrightarrow> (\<forall>a. ora_step env a c = None)"

lemma dead_no_executor:
  assumes "executors c = []" "todo c = SendTerm # rest" "execTermChan c = 1"
  shows "ora_dead env c"
proof -
  have "ora_step env a c = None" for a
    using assms by (cases a) (auto simp: exec_take_def exec_give_def exec_stop_def)
  then show ?thesis by (simp add: ora_dead_def)
qed

text \<open>Offline: no connection, no goroutine, and nothing of the operations to be done needs one.\<close>

definition offline :: "nat \<Rightarrow> 'q OraCntrlr \<Rightarrow> bool" where
  "offline n c \<longleftrightarrow> executors c = [] \<and> execTermChan c = n \<and> \<not> dbSuccess c \<and> \<not> canExecute c \<and> \<not> oraPanic c \<and>
     \<not> dbNil c"

definition harmless :: "ora_op \<Rightarrow> bool" where
  "harmless x \<longleftrightarrow> x \<in> {CheckLogCount, CheckLogLivetime, CheckHeartbeat, CheckQueryQueue, ResetInsertCount} \<or>
     (\<exists>st err. x = ReportState st err) \<or> (\<exists>err. x = ConnectFailed err) \<or> x = CloseDb"

lemma harmless_op:
  assumes "offline n c" "harmless x"
  shows "\<exists>c' ops. run_op env x c = Some (c', ops) \<and> offline n c' \<and> (\<forall>y \<in> set ops. harmless y) \<and>
    (ops \<noteq> [] \<longrightarrow> x \<in> {CheckLogCount, CheckLogLivetime, CheckHeartbeat} \<and> ops = [CheckQueryQueue] \<or>
      (\<exists>err. x = ConnectFailed err) \<and> (\<exists>st err. ops = [ReportState st err])) \<and> curSetts c' = curSetts c \<and>
    executed (oraOut c') = executed (oraOut c)"
  using assms by (auto simp: offline_def harmless_def checkLogCount_def checkLogLivetime_def checkHeatrbeat_def
      checkQueryQueue_def)

fun op_weight :: "ora_op \<Rightarrow> nat" where
  "op_weight (Connect errOpen errPing) = 6" | "op_weight (ConnectFailed err) = 2" | "op_weight Connected = 2"
| "op_weight Disconnect = 3" | "op_weight CheckLogCount = 3" | "op_weight CheckLogLivetime = 3"
| "op_weight CheckHeartbeat = 3" | "op_weight CheckQueryQueue = 2" | "op_weight _ = 1"

lemma op_weight_drops: "run_op env x c = Some (c', ops) \<Longrightarrow> sum_list (map op_weight ops) < op_weight x"
  by (cases x) (auto simp: connectToDb_def disconnectFromDb_def checkLogCount_def checkLogLivetime_def
      checkHeatrbeat_def checkQueryQueue_def Let_def split: option.splits if_splits list.splits prod.splits)

text \<open>Where the operations of a case stop: none is left, or the first one waits for room in its
  channel.\<close>

definition case_over :: "'q OraCntrlr \<Rightarrow> bool" where
  "case_over c \<longleftrightarrow> todo c = [] \<or> oraPanic c \<or>
     (\<exists>rest. todo c = SendTerm # rest \<and> 1 \<le> execTermChan c) \<or>
     (\<exists>it rest. todo c = SendQuery it # rest \<and> execQueryChan c \<noteq> [])"

lemma op_blocked:
  assumes "run_op env x c = None"
  shows "x = SendTerm \<and> 1 \<le> execTermChan c \<or> (\<exists>it. x = SendQuery it \<and> execQueryChan c \<noteq> [])"
  using assms by (cases x) (auto split: if_splits)

lemma ops_end:
  "\<exists>k \<le> sum_list (map op_weight (todo c)). \<exists>c'.
     run_steps (ora_step env) (replicate k OraOp) c = Some c' \<and> case_over c'"
proof (induction "sum_list (map op_weight (todo c))" arbitrary: c rule: less_induct)
  case less
  show ?case
  proof (cases "ora_step env OraOp c")
    case None
    then have "case_over c" using op_blocked [of env _ c]
      by (fastforce simp: case_over_def split: if_splits list.splits option.splits)
    then show ?thesis by (intro exI [of _ 0]) simp
  next
    case (Some d)
    then obtain x rest e ops where x: "todo c = x # rest" "run_op env x c = Some (e, ops)" "d = e\<lparr>todo := ops @ rest\<rparr>"
      by (auto split: if_splits list.splits option.splits)
    have w: "sum_list (map op_weight (todo d)) < sum_list (map op_weight (todo c))"
      using op_weight_drops [OF x(2)] by (simp add: x(1,3))
    then obtain k c' where k: "k \<le> sum_list (map op_weight (todo d))"
      "run_steps (ora_step env) (replicate k OraOp) d = Some c'" "case_over c'"
      using less by blast
    have "run_steps (ora_step env) (replicate (Suc k) OraOp) c = Some c'" using Some k(2) by simp
    moreover have "Suc k \<le> sum_list (map op_weight (todo c))" using k(1) w by simp
    ultimately show ?thesis using k(3) by blast
  qed
qed

lemma case_weight:
  "run_case x c = Some (c', ops) \<Longrightarrow> sum_list (map op_weight ops) \<le> 15"
  by (cases x) (auto simp: Let_def split: prod.splits if_splits list.splits option.splits)

lemma harmless_ops_end:
  assumes "offline n c" "\<forall>x \<in> set (todo c). harmless x"
  shows "\<exists>k c'. run_steps (ora_step env) (replicate k OraOp) c = Some c' \<and> offline n c' \<and> todo c' = [] \<and>
    curSetts c' = curSetts c \<and> executed (oraOut c') = executed (oraOut c)"
  using assms
proof (induction "sum_list (map op_weight (todo c))" arbitrary: c rule: less_induct)
  case less
  show ?case
  proof (cases "todo c")
    case Nil
    then show ?thesis using less.prems by (intro exI [of _ 0] exI [of _ c]) simp
  next
    case (Cons x rest)
    then have hx: "harmless x" using less.prems(2) by simp
    obtain d ops where d: "run_op env x c = Some (d, ops)" "offline n d" "\<forall>y \<in> set ops. harmless y"
      "ops \<noteq> [] \<longrightarrow> x \<in> {CheckLogCount, CheckLogLivetime, CheckHeartbeat} \<and> ops = [CheckQueryQueue] \<or>
        (\<exists>err. x = ConnectFailed err) \<and> (\<exists>st err. ops = [ReportState st err])" "curSetts d = curSetts c"
      "executed (oraOut d) = executed (oraOut c)"
      using harmless_op [OF less.prems(1) hx, of env] by blast
    let ?e = "d\<lparr>todo := ops @ rest\<rparr>"
    have "0 < op_weight x" by (cases x) simp_all
    then have "sum_list (map op_weight (todo ?e)) < sum_list (map op_weight (todo c))"
      using d(4) by (cases "ops = []") (auto simp: Cons)
    moreover have "offline n ?e" using d(2) by (simp add: offline_def)
    moreover have "\<forall>x \<in> set (todo ?e). harmless x" using d(3) less.prems(2) Cons by auto
    ultimately obtain k c' where k: "run_steps (ora_step env) (replicate k OraOp) ?e = Some c'" "offline n c'"
      "todo c' = []" "curSetts c' = curSetts c" "executed (oraOut c') = executed (oraOut c)"
      using less.hyps [of ?e] d(5,6) by auto
    have "ora_step env OraOp c = Some ?e" using less.prems(1) d(1) by (simp add: Cons offline_def)
    then have "run_steps (ora_step env) (replicate (Suc k) OraOp) c = Some c'" using k(1) by simp
    then show ?thesis using k(2-5) by blast
  qed
qed

text \<open>A connection that fails leaves the signal for a goroutine that does not exist.\<close>

lemma failed_connection:
  assumes "executors c = []" "execTermChan c = 0" "\<not> dbSuccess c" "\<not> oraPanic c" "todo c = []"
    and "\<not> fst (setts_equal (curSetts c) s)"
  shows "\<exists>k c'. run_steps (ora_step env) (OraCase (NewOraSettings s None (Some e)) # replicate k OraOp) c = Some c' \<and>
    offline 1 c' \<and> todo c' = [] \<and> curSetts c' = s \<and> executed (oraOut c') = executed (oraOut c)"
proof -
  let ?rest = "if snd (setts_equal (curSetts c) s) then [] else [CheckLogCount, CheckLogLivetime]"
  obtain st where st: "setts_equal (curSetts c) s = (False, st)"
    using assms(6) by (cases "setts_equal (curSetts c) s") simp
  let ?c3 = "(ora_emit (OpenDb (ConnString s)) (c\<lparr>curSetts := s, dbSuccess := False, dbNil := False\<rparr>))
      \<lparr>canExecute := False, execTermChan := 1, todo := CloseDb # ConnectFailed e # ?rest\<rparr>"
  have "run_steps (ora_step env) [OraCase (NewOraSettings s None (Some e)), OraOp, OraOp, OraOp] c = Some ?c3"
    using assms(1-5) by (simp add: st connectToDb_def disconnectFromDb_def Let_def ora_emit_def)
  moreover have "offline 1 ?c3" using assms(1,4) by (simp add: offline_def)
  moreover have "\<forall>x \<in> set (todo ?c3). harmless x" by (auto simp: harmless_def)
  ultimately obtain k c' where k: "run_steps (ora_step env) (replicate k OraOp) ?c3 = Some c'" "offline 1 c'"
      "todo c' = []" "curSetts c' = s" "executed (oraOut c') = executed (oraOut c)"
    using harmless_ops_end [of 1 ?c3 env] by auto
  have "run_steps (ora_step env) (OraCase (NewOraSettings s None (Some e)) # replicate (3 + k) OraOp) c = Some c'"
  proof -
    have "OraCase (NewOraSettings s None (Some e)) # replicate (3 + k) OraOp =
        [OraCase (NewOraSettings s None (Some e)), OraOp, OraOp, OraOp] @ replicate k OraOp"
      by (simp add: eval_nat_numeral)
    with \<open>run_steps _ [_, OraOp, OraOp, OraOp] c = _\<close> k(1) show ?thesis by (simp only: run_steps_append option.case)
  qed
  with k(2-5) show ?thesis by blast
qed

lemma second_failure:
  assumes "offline 1 c" "todo c = []" "\<not> fst (setts_equal (curSetts c) s)"
  shows "\<exists>c'. run_steps (ora_step env) [OraCase (NewOraSettings s None (Some e)), OraOp, OraOp] c = Some c' \<and>
    ora_dead env c'"
proof -
  obtain st where st: "setts_equal (curSetts c) s = (False, st)"
    using assms(3) by (cases "setts_equal (curSetts c) s") simp
  let ?c' = "(ora_emit (OpenDb (ConnString s)) (c\<lparr>curSetts := s, dbSuccess := False, dbNil := False\<rparr>))
      \<lparr>canExecute := False, todo := SendTerm # CloseDb # ConnectFailed e #
         (if st then [] else [CheckLogCount, CheckLogLivetime])\<rparr>"
  have "run_steps (ora_step env) [OraCase (NewOraSettings s None (Some e)), OraOp, OraOp] c = Some ?c'"
    using assms(1,2) by (simp add: st offline_def connectToDb_def disconnectFromDb_def Let_def ora_emit_def)
  moreover have "ora_dead env ?c'"
    using assms(1) by (intro dead_no_executor [where rest = "CloseDb # ConnectFailed e #
         (if st then [] else [CheckLogCount, CheckLogLivetime])"]) (simp_all add: offline_def)
  ultimately show ?thesis by blast
qed

lemma executed_start [simp]: "executed (oraOut (Run_start (NewOraController env))) = []"
  by (simp add: Run_start_def NewOraController_def ora_emit_def)

lemma start_idle:
  "executors (Run_start (NewOraController env)) = []" "execTermChan (Run_start (NewOraController env)) = 0"
  "\<not> dbSuccess (Run_start (NewOraController env))" "\<not> oraPanic (Run_start (NewOraController env))"
  "todo (Run_start (NewOraController env)) = []" "curSetts (Run_start (NewOraController env)) = zeroOraSettings"
  by (simp_all add: Run_start_def NewOraController_def)

definition same_db :: "OraCntrlSettings \<Rightarrow> OraCntrlSettings \<Rightarrow> bool" where
  "same_db s t \<longleftrightarrow> fst (setts_equal s t)"

lemma same_db_trans: "same_db s t \<Longrightarrow> same_db s u \<Longrightarrow> same_db t u"
  by (simp add: same_db_def setts_equal_def Let_def)

definition keeps_db :: "OraCntrlSettings \<Rightarrow> ora_action list \<Rightarrow> bool" where
  "keeps_db s as \<longleftrightarrow>
     list_all (\<lambda>a. case a of OraCase (NewOraSettings t x y) \<Rightarrow> same_db s t | _ \<Rightarrow> True) as"

definition opened :: "ora_effect list \<Rightarrow> string list" where
  "opened es = concat (map (\<lambda>e. case e of OpenDb txt \<Rightarrow> [txt] | _ \<Rightarrow> []) es)"

lemma opened_simps [simp]:
  "opened [] = []" "opened (es @ fs) = opened es @ opened fs"
  "opened (e # es) = (case e of OpenDb txt \<Rightarrow> [txt] | _ \<Rightarrow> []) @ opened es"
  by (simp_all add: opened_def)

text \<open>With no goroutine and no new database nothing is executed, and no connection opened.\<close>

definition quiet :: "OraCntrlSettings \<Rightarrow> queueItem list \<Rightarrow> string list \<Rightarrow> 'q OraCntrlr \<Rightarrow> bool" where
  "quiet s its txts c \<longleftrightarrow> executors c = [] \<and> same_db s (curSetts c) \<and>
     list_all (\<lambda>x. case x of Connect a b \<Rightarrow> False | _ \<Rightarrow> True) (todo c) \<and>
     executed (oraOut c) = its \<and> opened (oraOut c) = txts"

lemma checkQueryQueue_quiet:
  assumes "checkQueryQueue env c = (c', ops)"
  shows "executors c' = executors c" "curSetts c' = curSetts c" "executed (oraOut c') = executed (oraOut c)"
    "opened (oraOut c') = opened (oraOut c)" "list_all (\<lambda>x. case x of Connect a b \<Rightarrow> False | _ \<Rightarrow> True) ops"
  using assms
  by (auto simp: checkQueryQueue_def next_log_query_def take_query_def Let_def split: if_splits list.splits prod.splits)

lemma run_op_quiet:
  assumes "run_op env x c = Some (c', ops)" "\<nexists>a b. x = Connect a b"
  shows "executors c' = executors c" "curSetts c' = curSetts c" "executed (oraOut c') = executed (oraOut c)"
    "opened (oraOut c') = opened (oraOut c)" "list_all (\<lambda>x. case x of Connect a b \<Rightarrow> False | _ \<Rightarrow> True) ops"
proof -
  have "executors c' = executors c \<and> curSetts c' = curSetts c \<and> executed (oraOut c') = executed (oraOut c) \<and>
    opened (oraOut c') = opened (oraOut c) \<and> list_all (\<lambda>x. case x of Connect a b \<Rightarrow> False | _ \<Rightarrow> True) ops"
  proof (cases x)
    case CheckQueryQueue
    then show ?thesis using assms(1) checkQueryQueue_quiet [of env c c' ops] by simp
  next
    case (Connect a b)
    then show ?thesis using assms(2) by blast
  qed (use assms(1) in \<open>auto simp: checkLogCount_def checkLogLivetime_def checkHeatrbeat_def
         disconnectFromDb_def split: if_splits\<close>)
  then show "executors c' = executors c" "curSetts c' = curSetts c" "executed (oraOut c') = executed (oraOut c)"
    "opened (oraOut c') = opened (oraOut c)" "list_all (\<lambda>x. case x of Connect a b \<Rightarrow> False | _ \<Rightarrow> True) ops"
    by auto
qed

lemma run_case_quiet:
  assumes "run_case x c = Some (d, ops)" "keeps_db s [OraCase x]" "same_db s (curSetts c)"
  shows "executors d = executors c" "same_db s (curSetts d)" "oraOut d = oraOut c"
    "list_all (\<lambda>x. case x of Connect a b \<Rightarrow> False | _ \<Rightarrow> True) ops"
proof -
  have "executors d = executors c \<and> same_db s (curSetts d) \<and> oraOut d = oraOut c \<and>
    list_all (\<lambda>x. case x of Connect a b \<Rightarrow> False | _ \<Rightarrow> True) ops"
  proof (cases x)
    case (NewOraSettings t a b)
    then have "same_db s t" using assms(2) by (simp add: keeps_db_def)
    then have "same_db (curSetts c) t" by (rule same_db_trans [OF assms(3)])
    then obtain st where "setts_equal (curSetts c) t = (True, st)"
      by (cases "setts_equal (curSetts c) t") (simp add: same_db_def)
    then show ?thesis using assms(1,3) NewOraSettings \<open>same_db s t\<close> by (auto split: if_splits)
  qed (use assms(1,3) in \<open>auto simp: Let_def split: if_splits option.splits list.splits\<close>)
  then show "executors d = executors c" "same_db s (curSetts d)" "oraOut d = oraOut c"
    "list_all (\<lambda>x. case x of Connect a b \<Rightarrow> False | _ \<Rightarrow> True) ops" by auto
qed

lemma quiet_step:
  assumes "ora_step env a c = Some c'" "keeps_db s [a]" "quiet s its txts c"
  shows "quiet s its txts c'"
proof (cases a)
  case (OraCase x)
  then obtain d ops where d: "run_case x c = Some (d, ops)" "c' = d\<lparr>todo := ops\<rparr>"
    using assms(1) by (auto split: if_splits option.splits)
  have k: "keeps_db s [OraCase x]" "same_db s (curSetts c)" using assms(2,3) OraCase by (simp_all add: quiet_def)
  show ?thesis using run_case_quiet [OF d(1) k] assms(3) by (simp add: d(2) quiet_def)
next
  case OraOp
  then obtain x rest d ops where d: "todo c = x # rest" "run_op env x c = Some (d, ops)" "c' = d\<lparr>todo := ops @ rest\<rparr>"
    using assms(1) by (auto split: if_splits option.splits list.splits)
  have nc: "\<nexists>a b. x = Connect a b" and r: "list_all (\<lambda>x. case x of Connect a b \<Rightarrow> False | _ \<Rightarrow> True) rest"
    using assms(3) by (auto simp: quiet_def d(1))
  show ?thesis using run_op_quiet [OF d(2) nc] r assms(3) by (simp add: quiet_def d(3))
qed (use assms in \<open>auto simp: quiet_def exec_take_def exec_give_def exec_stop_def split: if_splits\<close>)

lemma quiet_run:
  assumes "run_steps (ora_step env) as c = Some c'" "keeps_db s as" "quiet s its txts c"
  shows "quiet s its txts c'"
proof (rule run_steps_invariant [where I = "quiet s its txts" and f = "ora_step env", OF _ assms(1,3)])
  fix a d e assume "a \<in> set as" "quiet s its txts d" "ora_step env a d = Some e"
  then show "quiet s its txts e"
    using assms(2) by (intro quiet_step [of env a d e s]) (auto simp: keeps_db_def list_all_iff)
qed

text \<open>A connection made after one has failed may end before it has done anything: its goroutine
  takes the signal that was meant for the other.\<close>

lemma connection_deaf:
  assumes "offline 1 c" "todo c = []" "\<not> same_db (curSetts c) s" "executed (oraOut c) = []"
  shows "\<exists>c'. run_steps (ora_step env) [OraCase (NewOraSettings s None None), OraOp, ExecStop 0] c = Some c' \<and>
    dbSuccess c' \<and> (\<exists>txts. quiet s [] txts c')"
  using assms
  by (auto simp: same_db_def offline_def connectToDb_def Let_def exec_stop_def quiet_def setts_equal_def
      ora_emit_def split: prod.splits)

section \<open>The buffer empties\<close>

definition ora_ready :: "('q \<Rightarrow> queueItem multiset) \<Rightarrow> 'q OraCntrlr \<Rightarrow> bool" where
  "ora_ready content c \<longleftrightarrow> todo c = [CheckQueryQueue] \<and> executors c = [ExecSelect] \<and> canExecute c \<and>
     execQueryChan c = [] \<and> execResultChan c = [] \<and> \<not> oraPanic c \<and> content (queryQueue c) = {#}"

text \<open>The next query goes to the database, which answers it, and \<open>Run\<close> takes the result.\<close>

definition answer_cycle :: "ora_action list" where
  "answer_cycle = [OraOp, OraOp, ExecTake 0 None, ExecGive 0, OraCase TakeResult]"

lemma answer_cycle_runs:
  assumes L: "pq_lawful (prioQueue env) content" and R: "ora_ready content c" and B: "logMsgBuffer c \<noteq> []"
  shows "\<exists>b rest c'. run_steps (ora_step env) answer_cycle c = Some c' \<and> ora_ready content c' \<and>
    b @ rest = logMsgBuffer c \<and> b \<noteq> [] \<and> logMsgBuffer c' = rest \<and>
    log_texts (executed (oraOut c')) = log_texts (executed (oraOut c)) @ [oraInsertLogQuery b]"
proof -
  let ?P = "prioQueue env" and ?q = "queryQueue c"
  obtain b rest where t: "take_query c = (b, c\<lparr>logMsgBuffer := rest\<rparr>)" "b @ rest = logMsgBuffer c" "b \<noteq> []"
    by (rule take_query_props [OF B])
  let ?it = "\<lparr>queryText = oraInsertLogQuery b, priority = LogPriority, countMsg = int (length b)\<rparr>"
  have e: "pqEmpty ?P ?q" "\<not> pqEmpty ?P (pqPut ?P ?it ?q)" using L R by (simp_all add: pq_lawful_def ora_ready_def)
  obtain q' where g: "pqGet ?P 1 (pqPut ?P ?it ?q) = ([?it], q')" "content q' = {#}"
    using lawful_put_get [OF L, of ?q ?it] R by (auto simp: ora_ready_def)
  have C: "checkQueryQueue env c =
      (c\<lparr>logMsgBuffer := rest, queryQueue := q', canExecute := False\<rparr>, [SendQuery ?it])"
    using R B e g(1) t(1,3) by (simp add: checkQueryQueue_def queue_empty_def next_log_query_def put_query_def ora_ready_def)
  obtain c' where c': "run_steps (ora_step env) answer_cycle c = Some c'" "ora_ready content c'"
    "logMsgBuffer c' = rest" "executed (oraOut c') = executed (oraOut c) @ [?it]"
    using R C g(2)
    by (auto simp: answer_cycle_def ora_ready_def exec_take_def exec_give_def ora_emit_def Let_def)
  then show ?thesis using t(2,3) by (intro exI [of _ b] exI [of _ rest] exI [of _ c']) simp
qed

lemma buffer_drains:
  assumes L: "pq_lawful (prioQueue env) content"
  shows "ora_ready content c \<Longrightarrow>
    \<exists>k c' bs. run_steps (ora_step env) (concat (replicate k answer_cycle)) c = Some c' \<and>
      logMsgBuffer c' = [] \<and> concat bs = logMsgBuffer c \<and>
      log_texts (executed (oraOut c')) = log_texts (executed (oraOut c)) @ map oraInsertLogQuery bs"
proof (induction "length (logMsgBuffer c)" arbitrary: c rule: less_induct)
  case less
  show ?case
  proof (cases "logMsgBuffer c = []")
    case True
    then show ?thesis by (intro exI [of _ 0] exI [of _ c] exI [of _ "[]"]) simp
  next
    case False
    obtain b rest d where d: "run_steps (ora_step env) answer_cycle c = Some d" "ora_ready content d"
      "b @ rest = logMsgBuffer c" "b \<noteq> []" "logMsgBuffer d = rest"
      "log_texts (executed (oraOut d)) = log_texts (executed (oraOut c)) @ [oraInsertLogQuery b]"
      using answer_cycle_runs [OF L less.prems False] by blast
    have "length (logMsgBuffer d) < length (logMsgBuffer c)"
      using arg_cong [OF d(3), of length] d(4,5) by (cases b) simp_all
    then obtain k c' bs where k: "run_steps (ora_step env) (concat (replicate k answer_cycle)) d = Some c'"
      "logMsgBuffer c' = []" "concat bs = logMsgBuffer d"
      "log_texts (executed (oraOut c')) = log_texts (executed (oraOut d)) @ map oraInsertLogQuery bs"
      using less.hyps [OF _ d(2)] by blast
    have "run_steps (ora_step env) (concat (replicate (Suc k) answer_cycle)) c = Some c'"
      using d(1) k(1) by (simp add: run_steps_append)
    moreover have "concat (b # bs) = logMsgBuffer c" using d(3,5) k(3) by simp
    ultimately show ?thesis using k(2,4) d(6)
      by (intro exI [of _ "Suc k"] exI [of _ c'] exI [of _ "b # bs"]) simp
  qed
qed

section \<open>Properties\<close>

definition example_ora_env :: "queueItem list ora_env" where
  "example_ora_env = \<lparr>prioQueue = list_pq, daysAgo = (\<lambda>n d. ''2022-01-01 00:00:00'')\<rparr>"

definition example_db :: OraCntrlSettings where
  "example_db = zeroOraSettings\<lparr>osHostname := ''ora'', osPort := 1521, LogStoreMaxCount := 1000, LogStoreDays := 30\<rparr>"

text \<open>C17: The writer of the logger loses and repeats no message on its way to the database, in
  whatever order its cases, its sends and its goroutines run: the log queries executed, on their way or
  about to be sent are the inserts of batches of at most a hundred messages, and these batches and then
  the buffer are the messages received, in their order.\<close>

theorem ora_journal:
  assumes "pq_lawful (prioQueue env) content"
    and "run_steps (ora_step env) as (Run_start (NewOraController env)) = Some c"
  shows "\<exists>bs. log_texts (executed (oraOut c) @ execQueryChan c @ pending (todo c)) = map oraInsertLogQuery bs \<and>
    list_all (\<lambda>b. b \<noteq> [] \<and> length b \<le> 100) bs \<and>
    concat bs @ logMsgBuffer c = concat (map received_by as)"
  using ora_inv_run [OF assms(1,2) ora_inv_start [OF assms(1)]]
  by (auto simp: ora_inv_def kept_def list_all_iff maxQueryExec_def)

lemma example_ora_run:
  "run_steps (ora_step example_ora_env)
     [OraCase (NewMsgs [zeroLogMessage]), OraOp, OraCase (NewOraSettings example_db None None), OraOp, OraOp, OraOp,
      ExecTake 0 None] (Run_start (NewOraController example_ora_env)) \<noteq> None"
  by (simp add: example_ora_env_def example_db_def zeroOraSettings_def Run_start_def NewOraController_def Let_def
      ora_emit_def list_pq_def checkQueryQueue_def insertCountCheck_def setts_equal_def connectToDb_def
      queue_empty_def next_log_query_def take_query_def maxQueryExec_def put_query_def exec_take_def)

theorem ora_journal_witness:
  "let as = [OraCase (NewMsgs [zeroLogMessage]), OraOp, OraCase (NewOraSettings example_db None None), OraOp,
       OraOp, OraOp, ExecTake 0 None];
     c = the (run_steps (ora_step example_ora_env) as (Run_start (NewOraController example_ora_env)))
   in \<exists>bs. log_texts (executed (oraOut c) @ execQueryChan c @ pending (todo c)) = map oraInsertLogQuery bs \<and>
    list_all (\<lambda>b. b \<noteq> [] \<and> length b \<le> 100) bs \<and>
    concat bs @ logMsgBuffer c = concat (map received_by as)"
  unfolding Let_def
  by (rule ora_journal [where content = mset, OF _ option.collapse [OF example_ora_run, symmetric]])
    (simp_all add: example_ora_env_def list_pq_lawful del: run_steps.simps)

text \<open>C32: While the database answers, the buffer of the writer empties: with one goroutine at rest,
  finitely many rounds of sending a query, executing it and taking its result execute the inserts of
  all messages of the buffer, in their order.\<close>

theorem ora_drains:
  assumes "pq_lawful (prioQueue env) content" and "ora_ready content c"
  shows "\<exists>k c' bs. run_steps (ora_step env) (concat (replicate k answer_cycle)) c = Some c' \<and>
    logMsgBuffer c' = [] \<and> concat bs = logMsgBuffer c \<and>
    log_texts (executed (oraOut c')) = log_texts (executed (oraOut c)) @ map oraInsertLogQuery bs"
  using buffer_drains [OF assms] .

theorem ora_drains_witness:
  "let c = (NewOraController example_ora_env)\<lparr>todo := [CheckQueryQueue], executors := [ExecSelect],
       canExecute := True, logMsgBuffer := replicate 150 zeroLogMessage\<rparr>
   in \<exists>k c' bs. run_steps (ora_step example_ora_env) (concat (replicate k answer_cycle)) c = Some c' \<and>
    logMsgBuffer c' = [] \<and> concat bs = logMsgBuffer c \<and>
    log_texts (executed (oraOut c')) = log_texts (executed (oraOut c)) @ map oraInsertLogQuery bs"
  unfolding Let_def
  by (rule ora_drains [where content = mset])
    (simp_all add: example_ora_env_def list_pq_lawful ora_ready_def NewOraController_def, simp add: list_pq_def)

text \<open>Where queries wait in the queue, the writer sends one of the highest priority
  among them (heartbeat, then the checks of age and of number), takes no message out of the buffer and
  executes nothing more before a result.\<close>

theorem ora_maintenance_first:
  assumes "pq_lawful (prioQueue env) content" and "canExecute c" and "content (queryQueue c) \<noteq> {#}"
  shows "\<exists>it q. checkQueryQueue env c = (c\<lparr>queryQueue := q, canExecute := False\<rparr>, [SendQuery it]) \<and>
    content (queryQueue c) = add_mset it (content q) \<and>
    (\<forall>other \<in># content q. priority other \<le> priority it)"
proof -
  obtain it q where g: "pqGet (prioQueue env) 1 (queryQueue c) = ([it], q)"
    "content (queryQueue c) = add_mset it (content q)" "\<forall>other \<in># content q. Compare it other < 0"
    by (rule lawful_get [OF assms(1,3)])
  have "\<not> pqEmpty (prioQueue env) (queryQueue c)" using assms(1,3) by (simp add: pq_lawful_def)
  then have "checkQueryQueue env c = (c\<lparr>queryQueue := q, canExecute := False\<rparr>, [SendQuery it])"
    using assms(2) g(1) by (simp add: checkQueryQueue_def queue_empty_def)
  then show ?thesis using g(2,3) by (intro exI [of _ it] exI [of _ q]) (simp add: Compare_neg)
qed

definition waiting_items :: "queueItem list" where
  "waiting_items = [\<lparr>queryText = ''a'', priority = CheckLogCountPriority, countMsg = 1\<rparr>,
     \<lparr>queryText = oraHeartbeatQuery, priority = HeartbeatPriority, countMsg = 1\<rparr>]"

theorem ora_maintenance_first_witness:
  "let c = (NewOraController example_ora_env)\<lparr>canExecute := True, queryQueue := waiting_items\<rparr>
   in \<exists>it q. checkQueryQueue example_ora_env c = (c\<lparr>queryQueue := q, canExecute := False\<rparr>, [SendQuery it]) \<and>
    mset (queryQueue c) = add_mset it (mset q) \<and>
    (\<forall>other \<in># mset q. priority other \<le> priority it)"
  unfolding Let_def
  by (rule ora_maintenance_first) (simp_all add: example_ora_env_def list_pq_lawful waiting_items_def)



text \<open>After a connection to the database has failed at its first ping, the writer goes on
  without one: settings with the same database open no connection again and no query is executed, and
  with settings of another database whose connection fails too the writer stops for ever, in the
  send of a signal that nobody takes.\<close>

theorem ora_failed_connection:
  assumes "\<not> same_db zeroOraSettings s"
  shows "\<exists>k c. run_steps (ora_step env) (OraCase (NewOraSettings s None (Some e)) # replicate k OraOp)
      (Run_start (NewOraController env)) = Some c \<and> todo c = [] \<and>
    (\<forall>as c'. keeps_db s as \<and> run_steps (ora_step env) as c = Some c' \<longrightarrow>
      executed (oraOut c') = executed (oraOut c) \<and> opened (oraOut c') = opened (oraOut c)) \<and>
    (\<forall>t f. same_db s t \<or> (\<exists>c'. run_steps (ora_step env) [OraCase (NewOraSettings t None (Some f)), OraOp, OraOp] c =
      Some c' \<and> ora_dead env c'))"
proof -
  obtain k c where k: "run_steps (ora_step env) (OraCase (NewOraSettings s None (Some e)) # replicate k OraOp)
      (Run_start (NewOraController env)) = Some c" "offline 1 c" "todo c = []" "curSetts c = s"
    using failed_connection [OF start_idle(1-5), of env s env e] assms by (auto simp: same_db_def start_idle(6))
  have q: "quiet s (executed (oraOut c)) (opened (oraOut c)) c"
    using k(2-4) by (simp add: quiet_def offline_def same_db_def setts_equal_def)
  have "\<forall>as c'. keeps_db s as \<and> run_steps (ora_step env) as c = Some c' \<longrightarrow>
      executed (oraOut c') = executed (oraOut c) \<and> opened (oraOut c') = opened (oraOut c)"
    using quiet_run [OF _ _ q] unfolding quiet_def by blast
  moreover have "\<forall>t f. same_db s t \<or>
      (\<exists>c'. run_steps (ora_step env) [OraCase (NewOraSettings t None (Some f)), OraOp, OraOp] c = Some c' \<and> ora_dead env c')"
    using second_failure [OF k(2,3)] k(4) unfolding same_db_def by blast
  ultimately show ?thesis using k(1,3) by blast
qed

theorem ora_failed_connection_witness:
  "\<exists>k c. run_steps (ora_step example_ora_env)
      (OraCase (NewOraSettings example_db None (Some ''down'')) # replicate k OraOp)
      (Run_start (NewOraController example_ora_env)) = Some c \<and> todo c = [] \<and>
    (\<forall>as c'. keeps_db example_db as \<and> run_steps (ora_step example_ora_env) as c = Some c' \<longrightarrow>
      executed (oraOut c') = executed (oraOut c) \<and> opened (oraOut c') = opened (oraOut c)) \<and>
    (\<forall>t f. same_db example_db t \<or>
      (\<exists>c'. run_steps (ora_step example_ora_env) [OraCase (NewOraSettings t None (Some f)), OraOp, OraOp] c =
        Some c' \<and> ora_dead example_ora_env c'))"
  by (rule ora_failed_connection) (simp add: same_db_def setts_equal_def example_db_def zeroOraSettings_def)

text \<open>A connection that succeeds after one has failed can be without effect: there is a run in which
  the goroutine of the new connection takes the signal to end that was meant for the old one, and then
  no query is ever executed while the database stays the same, although the writer reports it as connected.\<close>

theorem ora_deaf:
  assumes "\<not> same_db zeroOraSettings s" and "\<not> same_db s t"
  shows "\<exists>as c. run_steps (ora_step env) as (Run_start (NewOraController env)) = Some c \<and> dbSuccess c \<and>
    (\<forall>bs c'. keeps_db t bs \<and> run_steps (ora_step env) bs c = Some c' \<longrightarrow> executed (oraOut c') = [])"
proof -
  let ?start = "Run_start (NewOraController env)"
  obtain k c where k: "run_steps (ora_step env) (OraCase (NewOraSettings s None (Some [])) # replicate k OraOp) ?start = Some c"
    "offline 1 c" "todo c = []" "curSetts c = s" "executed (oraOut c) = []"
    using failed_connection [OF start_idle(1-5), of env s env "[]"] assms(1) by (auto simp: same_db_def start_idle(6))
  let ?as = "OraCase (NewOraSettings s None (Some [])) # replicate k OraOp"
  obtain d txts where d: "run_steps (ora_step env) [OraCase (NewOraSettings t None None), OraOp, ExecStop 0] c = Some d"
    "dbSuccess d" "quiet t [] txts d"
    using connection_deaf [OF k(2,3) _ k(5), of t env] k(4) assms(2) by blast
  have "run_steps (ora_step env) (?as @ [OraCase (NewOraSettings t None None), OraOp, ExecStop 0]) ?start = Some d"
    using k(1) d(1) by (simp only: run_steps_append option.case)
  moreover have "\<forall>bs c'. keeps_db t bs \<and> run_steps (ora_step env) bs d = Some c' \<longrightarrow> executed (oraOut c') = []"
    using quiet_run [OF _ _ d(3)] unfolding quiet_def by blast
  ultimately show ?thesis using d(2) by blast
qed

theorem ora_deaf_witness:
  "\<exists>as c. run_steps (ora_step example_ora_env) as (Run_start (NewOraController example_ora_env)) = Some c \<and>
    dbSuccess c \<and>
    (\<forall>bs c'. keeps_db (example_db\<lparr>osHostname := ''ora2''\<rparr>) bs \<and>
      run_steps (ora_step example_ora_env) bs c = Some c' \<longrightarrow> executed (oraOut c') = [])"
  by (rule ora_deaf [of example_db])
    (simp_all add: same_db_def setts_equal_def example_db_def zeroOraSettings_def)

text \<open>The text of an insert determines its messages, with all their fields and their order,
  as long as no field has a quote.\<close>

theorem insert_injective:
  assumes "list_all quote_free ms" and "list_all quote_free ns"
  shows "oraInsertLogQuery ms = oraInsertLogQuery ns \<longleftrightarrow> ms = ns"
  using assms inserts_cancel [of ms ns] by (auto simp: oraInsertLogQuery_def list_all_iff)

theorem insert_injective_witness:
  "oraInsertLogQuery [zeroLogMessage] \<noteq> oraInsertLogQuery [zeroLogMessage, zeroLogMessage]"
proof -
  have "quote_free zeroLogMessage" by (simp add: quote_free_def zeroLogMessage_def no_quote_def)
  then show ?thesis using insert_injective [of "[zeroLogMessage]" "[zeroLogMessage, zeroLogMessage]"] by simp
qed

text \<open>With quotes two messages can have the same insert: the source does not escape them.\<close>

lemma insert_ambiguous:
  "\<exists>m n. m \<noteq> n \<and> oraInsertLogQuery [m] = oraInsertLogQuery [n]"
proof -
  let ?sep = "[CHR 0x27, CHR '','', CHR '' '', CHR 0x27]"
  let ?m = "zeroLogMessage\<lparr>DateTime := ''a'' @ ?sep @ ''b'', logText := ''c''\<rparr>"
  let ?n = "zeroLogMessage\<lparr>DateTime := ''a'', logText := ''b'' @ ?sep @ ''c''\<rparr>"
  have "sql_values ?m = sql_values ?n" by (simp add: sql_values_def quoted_def)
  then have "oraInsertLogQuery [?m] = oraInsertLogQuery [?n]" by (simp add: oraInsertLogQuery_def insert_rows_def)
  moreover have "DateTime ?m \<noteq> DateTime ?n" by simp
  ultimately show ?thesis by metis
qed

end
