(* ===== verification/Logger_Main.thy ===== *)
theory Logger_Main
  imports Ora_Runs
begin

text \<open>
  The logger: its settings, \<open>ora_logger/logger_settings/logger_settings.go\<close>, its metrics,
  \<open>ora_logger/metrics_cntrl/metrics_cntrl.go\<close>, and the loop of \<open>main\<close> in
  \<open>ora_logger/ora_logger.go\<close>, which joins the reader of the Redis stream, the writer to the
  database and the metrics. The channels between them are first-in first-out queues with the
  capacities of the code; a step that would have to wait for room is not possible. What \<open>main\<close>
  hands on to the metrics they take at once.
\<close>

section \<open>Settings\<close>

record LoggerCfg =
  lcInitialised :: bool
  lcIPAddr :: string
  lcLoggerID :: string
  lcTimestamp :: string
  OraHostname :: string
  OraPort :: int
  OraServiceName :: string
  OraUser :: string
  OraPassword :: string
  OraMaxLogStoreCount :: int
  OraStoreDays :: int
  RedisHostname :: string
  RedisPort :: int
  RedisDbId :: int
  RedisUserName :: string
  RedisPassword :: string
  RedisMaxReadCount :: int
  MetricsIntervalSec :: int
  MetricsGatewayUrl :: string

definition logger_setDefault :: "LoggerCfg \<Rightarrow> LoggerCfg" where
  "logger_setDefault s = s\<lparr>
     lcInitialised := False, lcIPAddr := ''127.0.0.1'', lcLoggerID := ''-1'', lcTimestamp := [],
     OraHostname := ''192.168.1.30'', OraPort := 1521, OraServiceName := ''metplan'', OraUser := ''fmtp_log'',
     OraPassword := ''log'', OraMaxLogStoreCount := 1000000, OraStoreDays := 30,
     RedisHostname := ''192.168.1.24'', RedisPort := 6389, RedisDbId := 0, RedisUserName := [], RedisPassword := [],
     RedisMaxReadCount := 100, MetricsIntervalSec := 1, MetricsGatewayUrl := ''http://192.168.1.24:9100''\<rparr>"

definition ora_settings :: "LoggerCfg \<Rightarrow> OraCntrlSettings" where
  "ora_settings cfg =
     \<lparr>osHostname = OraHostname cfg, osPort = OraPort cfg, ServiceName = OraServiceName cfg,
      osUserName = OraUser cfg, osPassword = OraPassword cfg,
      LogStoreMaxCount = OraMaxLogStoreCount cfg, LogStoreDays = OraStoreDays cfg\<rparr>"

definition redis_settings :: "LoggerCfg \<Rightarrow> RedisCntrlSettings" where
  "redis_settings cfg =
     \<lparr>rdHostname = RedisHostname cfg, rdPort = RedisPort cfg, rdDbId = RedisDbId cfg,
      rdUserName = RedisUserName cfg, rdPassword = RedisPassword cfg, MaxReadCount = RedisMaxReadCount cfg\<rparr>"

section \<open>Metrics\<close>

text \<open>What is passed to the package of the metrics.\<close>

record PusherSettings =
  PusherIntervalSec :: int
  GatewayUrl :: string
  GatewayJob :: string
  CollectNamespace :: string
  CollectSubsystem :: string
  CollectLabels :: "(string \<times> string) list"

definition metrics_settings :: "LoggerCfg \<Rightarrow> PusherSettings" where
  "metrics_settings cfg =
     \<lparr>PusherIntervalSec = MetricsIntervalSec cfg, GatewayUrl = MetricsGatewayUrl cfg, GatewayJob = ''fmtp'',
      CollectNamespace = ''fmtp'', CollectSubsystem = ''logger'', CollectLabels = [(''host'', lcIPAddr cfg)]\<rparr>"

datatype prom_effect =
  PromSettings PusherSettings
| AppendCounter string string
| AppendCounterVec string string "string list"
| AppendGauge string string
| PromInitialize
| AddToCollector string int
| AddToCounterVec string int "(string \<times> string) list"
| SetToGauge string int

definition metricRedisMsg :: string where "metricRedisMsg = ''redis_read_msg''"
definition metricOraQueries :: string where "metricOraQueries = ''ora_exec_queries''"
definition metricOraMsgBuffer :: string where "metricOraMsgBuffer = ''ora_msg_buffer''"
definition metricOraQueriesQueue :: string where "metricOraQueriesQueue = ''ora_queries_queue''"
definition OraTypeLabel :: string where "OraTypeLabel = ''tp''"

record OraMetrics =
  omCount :: int
  omLabels :: "(string \<times> string) list"
  omMsgBuffer :: int
  omQueriesQueue :: int

datatype metrics_input =
  MetricsSettings PusherSettings
| RedisMetricsIn int
| OraMetricsIn OraMetrics

text \<open>The state of the metrics in the state of the logger, by the error of the last push.\<close>

definition check_push :: "string option \<Rightarrow> LoggerState \<Rightarrow> LoggerState" where
  "check_push pushErr s =
     (case pushErr of
        None \<Rightarrow> SetMetricsState LoggerStateOk [] s
      | Some err \<Rightarrow> SetMetricsState LoggerStateError err s)"

fun metrics_step ::
  "string option \<Rightarrow> metrics_input \<Rightarrow> LoggerState \<Rightarrow> prom_effect list \<times> LoggerState" where
  "metrics_step pushErr (MetricsSettings setts) s =
     ([PromSettings setts,
       AppendCounter metricRedisMsg ((ru ''Kol-vo s4itannyh soobqenij xurnala iz potoka '') @ ''Redis''),
       AppendCounterVec metricOraQueries ((ru ''Kol-vo vypolnennyh zaprosov k '') @ ''Oracle'') [OraTypeLabel],
       AppendGauge metricOraMsgBuffer ((ru ''Razmer bufera soobqenij xurnala kontrollera '') @ ''Oracle''),
       AppendGauge metricOraQueriesQueue ((ru ''Razmer o4eredi zaprosov kontrollera '') @ ''Oracle''),
       PromInitialize], s)"
| "metrics_step pushErr (RedisMetricsIn n) s = ([AddToCollector metricRedisMsg n], check_push pushErr s)"
| "metrics_step pushErr (OraMetricsIn m) s =
     ([AddToCounterVec metricOraQueries (omCount m) (omLabels m), SetToGauge metricOraMsgBuffer (omMsgBuffer m),
       SetToGauge metricOraQueriesQueue (omQueriesQueue m)], check_push pushErr s)"

section \<open>The loop of main\<close>

record 'q logger_sys =
  lgReader :: RedisCntrl
  lgOra :: "'q OraCntrlr"
  lgState :: LoggerState
  oraRequests :: nat
  redisRequests :: nat
  sendMsgChan :: "LogMessage list list"
  receiveMsgChan :: "LogMessage list list"
  oraSettsChan :: "OraCntrlSettings list"
  redisSettsChan :: "RedisCntrlSettings list"
  oraMetricsChan :: "OraMetrics list"
  redisMetricsChan :: "int list"
  promOut :: "prom_effect list"

text \<open>What the effects of the reader and of the writer put into the channels.\<close>

fun reader_sends :: "reader_effect \<Rightarrow> 'q logger_sys \<Rightarrow> 'q logger_sys" where
  "reader_sends (SendMsgs ms) l = l\<lparr>sendMsgChan := sendMsgChan l @ [ms]\<rparr>"
| "reader_sends (ReaderMetric n) l = l\<lparr>redisMetricsChan := redisMetricsChan l @ [n]\<rparr>"
| "reader_sends (ReaderState st err) l = l\<lparr>lgState := SetRedisState st err (lgState l)\<rparr>"
| "reader_sends _ l = l"

fun ora_sends :: "ora_effect \<Rightarrow> 'q logger_sys \<Rightarrow> 'q logger_sys" where
  "ora_sends RequestMsgs l = l\<lparr>oraRequests := oraRequests l + 1\<rparr>"
| "ora_sends (OraMetric n label buf queries) l =
     l\<lparr>oraMetricsChan := oraMetricsChan l @
        [\<lparr>omCount = n, omLabels = [(OraTypeLabel, label)], omMsgBuffer = buf, omQueriesQueue = queries\<rparr>]\<rparr>"
| "ora_sends (OraState st err) l = l\<lparr>lgState := SetOraState st err (lgState l)\<rparr>"
| "ora_sends _ l = l"

text \<open>Both controllers begin with their metrics.\<close>

definition new_logger :: "'q ora_env \<Rightarrow> LoggerState \<Rightarrow> 'q logger_sys" where
  "new_logger env s =
     fold ora_sends (oraOut (Run_start (NewOraController env)))
     \<lparr>lgReader = NewRedisCntrl, lgOra = Run_start (NewOraController env), lgState = s, oraRequests = 0,
      redisRequests = 0, sendMsgChan = [], receiveMsgChan = [], oraSettsChan = [], redisSettsChan = [],
      oraMetricsChan = [], redisMetricsChan = [0], promOut = []\<rparr>"

definition has_room :: "'q logger_sys \<Rightarrow> bool" where
  "has_room l \<longleftrightarrow> oraRequests l \<le> 10 \<and> redisRequests l \<le> 10 \<and> length (sendMsgChan l) \<le> 10 \<and>
     length (receiveMsgChan l) \<le> 1024 \<and> length (oraSettsChan l) \<le> 1 \<and> length (redisSettsChan l) \<le> 1 \<and>
     length (oraMetricsChan l) \<le> 10 \<and> length (redisMetricsChan l) \<le> 10"

definition with_reader :: "RedisCntrl \<Rightarrow> 'q logger_sys \<Rightarrow> 'q logger_sys" where
  "with_reader r l = fold reader_sends (drop (length (rcOut (lgReader l))) (rcOut r)) (l\<lparr>lgReader := r\<rparr>)"

definition with_ora :: "'q OraCntrlr \<Rightarrow> 'q logger_sys \<Rightarrow> 'q logger_sys" where
  "with_ora c l = fold ora_sends (drop (length (oraOut (lgOra l))) (oraOut c)) (l\<lparr>lgOra := c\<rparr>)"

datatype logger_action =
  SettsChanged LoggerCfg
| ForwardRequest
| ForwardMsgs
| ForwardRedisMetric "string option"
| ForwardOraMetric "string option"
| ReaderSetts "string option"
| ReaderRequest "string option" "stream_entry list" "string option"
| OraSetts "string option" "string option"
| OraMsgs
| OraOther ora_action

text \<open>The cases of the loop of \<open>main\<close> and the steps of the three controllers.\<close>

fun logger_move :: "'q ora_env \<Rightarrow> logger_action \<Rightarrow> 'q logger_sys \<Rightarrow> 'q logger_sys option" where
  "logger_move env (SettsChanged cfg) l =
     Some (l\<lparr>promOut := promOut l @ fst (metrics_step None (MetricsSettings (metrics_settings cfg)) (lgState l)),
             oraSettsChan := oraSettsChan l @ [ora_settings cfg],
             redisSettsChan := redisSettsChan l @ [redis_settings cfg]\<rparr>)"
| "logger_move env ForwardRequest l =
     (if oraRequests l = 0 then None
      else Some (l\<lparr>oraRequests := oraRequests l - 1, redisRequests := redisRequests l + 1\<rparr>))"
| "logger_move env ForwardMsgs l =
     (case sendMsgChan l of
        [] \<Rightarrow> None
      | logMsg # rest \<Rightarrow> Some (l\<lparr>sendMsgChan := rest, receiveMsgChan := receiveMsgChan l @ [logMsg]\<rparr>))"
| "logger_move env (ForwardRedisMetric pushErr) l =
     (case redisMetricsChan l of
        [] \<Rightarrow> None
      | redisMt # rest \<Rightarrow>
          (let (es, s) = metrics_step pushErr (RedisMetricsIn redisMt) (lgState l)
           in Some (l\<lparr>redisMetricsChan := rest, promOut := promOut l @ es, lgState := s\<rparr>)))"
| "logger_move env (ForwardOraMetric pushErr) l =
     (case oraMetricsChan l of
        [] \<Rightarrow> None
      | oraMt # rest \<Rightarrow>
          (let (es, s) = metrics_step pushErr (OraMetricsIn oraMt) (lgState l)
           in Some (l\<lparr>oraMetricsChan := rest, promOut := promOut l @ es, lgState := s\<rparr>)))"
| "logger_move env (ReaderSetts pingErr) l =
     (case redisSettsChan l of
        [] \<Rightarrow> None
      | setts # rest \<Rightarrow>
          Some (with_reader (reader_new_setts pingErr setts (lgReader l)) (l\<lparr>redisSettsChan := rest\<rparr>)))"
| "logger_move env (ReaderRequest delErr vals readErr) l =
     (if redisRequests l = 0 then None
      else Some (with_reader (request_msgs delErr vals readErr (lgReader l))
                   (l\<lparr>redisRequests := redisRequests l - 1\<rparr>)))"
| "logger_move env (OraSetts errOpen errPing) l =
     (case oraSettsChan l of
        [] \<Rightarrow> None
      | setts # rest \<Rightarrow>
          (case ora_step env (OraCase (NewOraSettings setts errOpen errPing)) (lgOra l) of
             None \<Rightarrow> None
           | Some c \<Rightarrow> Some (with_ora c (l\<lparr>oraSettsChan := rest\<rparr>))))"
| "logger_move env OraMsgs l =
     (case receiveMsgChan l of
        [] \<Rightarrow> None
      | logMsg # rest \<Rightarrow>
          (case ora_step env (OraCase (NewMsgs logMsg)) (lgOra l) of
             None \<Rightarrow> None
           | Some c \<Rightarrow> Some (with_ora c (l\<lparr>receiveMsgChan := rest\<rparr>))))"
| "logger_move env (OraOther a) l =
     (case a of
        OraCase (NewOraSettings s x y) \<Rightarrow> None
      | OraCase (NewMsgs ms) \<Rightarrow> None
      | _ \<Rightarrow> (case ora_step env a (lgOra l) of None \<Rightarrow> None | Some c \<Rightarrow> Some (with_ora c l)))"

definition logger_step :: "'q ora_env \<Rightarrow> logger_action \<Rightarrow> 'q logger_sys \<Rightarrow> 'q logger_sys option" where
  "logger_step env a l =
     (case logger_move env a l of None \<Rightarrow> None | Some l' \<Rightarrow> if has_room l' then Some l' else None)"

section \<open>From the stream to the database\<close>

lemma ora_sends_frame [simp]:
  "lgReader (ora_sends e l) = lgReader l" "lgOra (ora_sends e l) = lgOra l"
  "sendMsgChan (ora_sends e l) = sendMsgChan l" "receiveMsgChan (ora_sends e l) = receiveMsgChan l"
  by (cases e; simp)+

lemma reader_sends_frame [simp]:
  "lgReader (reader_sends e l) = lgReader l" "lgOra (reader_sends e l) = lgOra l"
  "sendMsgChan (reader_sends e l) = sendMsgChan l @ (case e of SendMsgs ms \<Rightarrow> [ms] | _ \<Rightarrow> [])"
  "receiveMsgChan (reader_sends e l) = receiveMsgChan l"
  by (cases e; simp)+

lemma fold_ora_sends [simp]:
  "lgReader (fold ora_sends es l) = lgReader l" "lgOra (fold ora_sends es l) = lgOra l"
  "sendMsgChan (fold ora_sends es l) = sendMsgChan l" "receiveMsgChan (fold ora_sends es l) = receiveMsgChan l"
  by (induction es arbitrary: l) simp_all

lemma fold_reader_sends [simp]:
  "lgReader (fold reader_sends es l) = lgReader l" "lgOra (fold reader_sends es l) = lgOra l"
  "sendMsgChan (fold reader_sends es l) =
     sendMsgChan l @ concat (map (\<lambda>e. case e of SendMsgs ms \<Rightarrow> [ms] | _ \<Rightarrow> []) es)"
  "receiveMsgChan (fold reader_sends es l) = receiveMsgChan l"
  by (induction es arbitrary: l) simp_all

lemma with_ora_frame [simp]:
  "lgReader (with_ora c l) = lgReader l" "lgOra (with_ora c l) = c"
  "sendMsgChan (with_ora c l) = sendMsgChan l" "receiveMsgChan (with_ora c l) = receiveMsgChan l"
  by (simp_all add: with_ora_def)

lemma concat_sends:
  "concat (concat (map (\<lambda>e. case e of SendMsgs ms \<Rightarrow> [ms] | _ \<Rightarrow> []) es)) =
   concat (map (\<lambda>e. case e of SendMsgs ms \<Rightarrow> ms | _ \<Rightarrow> []) es)"
  by (induction es) (auto split: reader_effect.split)

lemma with_reader_frame:
  assumes "rcOut r = rcOut (lgReader l) @ es"
  shows "lgReader (with_reader r l) = r" "lgOra (with_reader r l) = lgOra l"
    "receiveMsgChan (with_reader r l) = receiveMsgChan l"
    "concat (sendMsgChan (with_reader r l)) = concat (sendMsgChan l) @
       concat (map (\<lambda>e. case e of SendMsgs ms \<Rightarrow> ms | _ \<Rightarrow> []) es)"
  by (simp_all add: with_reader_def assms concat_sends)

lemma request_msgs_appends: "\<exists>es. rcOut (request_msgs delErr vals readErr c) = rcOut c @ es"
  by (auto simp: request_msgs_def readLogsFromStream_def delLogsFromStream_def rc_emit_def Let_def
      split: option.split)

lemma new_setts_appends: "\<exists>es. rcOut (reader_new_setts pingErr setts c) = rcOut c @ es"
  by (auto simp: reader_new_setts_def reader_connectToServer_def rc_emit_def Let_def split: option.split)

text \<open>Every message the reader sent is on its way, or received by the writer.\<close>

definition logger_inv :: "('q \<Rightarrow> queueItem multiset) \<Rightarrow> 'q logger_sys \<Rightarrow> bool" where
  "logger_inv content l \<longleftrightarrow>
     (\<exists>r. ora_inv content r (lgOra l) \<and>
          r @ concat (receiveMsgChan l) @ concat (sendMsgChan l) = sent_msgs (lgReader l))"

lemma logger_inv_reader:
  assumes "logger_inv content l" "\<exists>es. rcOut r = rcOut (lgReader l) @ es"
    and "lgReader l' = lgReader l" "lgOra l' = lgOra l" "receiveMsgChan l' = receiveMsgChan l"
    and "sendMsgChan l' = sendMsgChan l"
  shows "logger_inv content (with_reader r l')"
proof -
  obtain es where es: "rcOut r = rcOut (lgReader l') @ es" using assms(2,3) by auto
  obtain q where q: "ora_inv content q (lgOra l)"
    "q @ concat (receiveMsgChan l) @ concat (sendMsgChan l) = sent_msgs (lgReader l)"
    using assms(1) unfolding logger_inv_def by blast
  have "sent_msgs r = sent_msgs (lgReader l) @ concat (map (\<lambda>e. case e of SendMsgs ms \<Rightarrow> ms | _ \<Rightarrow> []) es)"
    using es assms(3) by (simp add: sent_msgs_def)
  then show ?thesis
    using q unfolding logger_inv_def
    by (intro exI [of _ q]) (simp add: with_reader_frame [OF es] assms(4-6) flip: append_assoc)
qed

lemma logger_inv_ora:
  assumes L: "pq_lawful (prioQueue env) content" and I: "ora_inv content r (lgOra l)"
    and S: "ora_step env a (lgOra l) = Some c"
    and M: "r @ received_by a @ concat (receiveMsgChan l') @ concat (sendMsgChan l') = sent_msgs (lgReader l')"
  shows "logger_inv content (with_ora c l')"
  unfolding logger_inv_def
  using ora_inv_step [OF L S I] M by (intro exI [of _ "r @ received_by a"]) simp

lemma logger_inv_step:
  assumes L: "pq_lawful (prioQueue env) content" and S: "logger_step env a l = Some l'" and I: "logger_inv content l"
  shows "logger_inv content l'"
proof -
  from S have M: "logger_move env a l = Some l'" by (auto simp: logger_step_def split: option.splits if_splits)
  obtain r where r: "ora_inv content r (lgOra l)"
    "r @ concat (receiveMsgChan l) @ concat (sendMsgChan l) = sent_msgs (lgReader l)"
    using I unfolding logger_inv_def by blast
  have keep: "logger_inv content k"
    if "lgOra k = lgOra l" "concat (receiveMsgChan k) @ concat (sendMsgChan k) =
      concat (receiveMsgChan l) @ concat (sendMsgChan l)" "lgReader k = lgReader l" for k
    using r that unfolding logger_inv_def by auto
  show ?thesis
  proof (cases a)
    case (ReaderSetts pingErr)
    then show ?thesis using M logger_inv_reader [OF I new_setts_appends]
      by (auto split: list.splits)
  next
    case (ReaderRequest delErr vals readErr)
    then show ?thesis using M logger_inv_reader [OF I request_msgs_appends] by (auto split: if_splits)
  next
    case (OraSetts x y)
    then obtain setts rest c where c: "oraSettsChan l = setts # rest"
      "ora_step env (OraCase (NewOraSettings setts x y)) (lgOra l) = Some c" "l' = with_ora c (l\<lparr>oraSettsChan := rest\<rparr>)"
      using M by (auto split: list.splits option.splits simp del: ora_step.simps)
    show ?thesis unfolding c(3) by (rule logger_inv_ora [OF L r(1) c(2)]) (simp add: r(2))
  next
    case OraMsgs
    then obtain logMsg rest c where c: "receiveMsgChan l = logMsg # rest"
      "ora_step env (OraCase (NewMsgs logMsg)) (lgOra l) = Some c" "l' = with_ora c (l\<lparr>receiveMsgChan := rest\<rparr>)"
      using M by (auto split: list.splits option.splits simp del: ora_step.simps)
    show ?thesis unfolding c(3) using r(2) by (intro logger_inv_ora [OF L r(1) c(2)]) (simp add: c(1))
  next
    case (OraOther b)
    then obtain c where c: "received_by b = []" "ora_step env b (lgOra l) = Some c" "l' = with_ora c l"
      using M by (auto split: ora_action.splits ora_input.splits option.splits simp del: ora_step.simps)
    show ?thesis unfolding c(3) by (rule logger_inv_ora [OF L r(1) c(2)]) (simp add: r(2) c(1))
  qed (use M keep in \<open>auto split: if_splits list.splits prod.splits\<close>)
qed

lemma logger_inv_start:
  assumes "pq_lawful (prioQueue env) content"
  shows "logger_inv content (new_logger env s)"
  using ora_inv_start [OF assms]
  by (auto simp: logger_inv_def new_logger_def NewRedisCntrl_def sent_msgs_def)

section \<open>The state of the logger\<close>

definition state_right :: "LoggerState \<Rightarrow> LoggerState \<Rightarrow> bool" where
  "state_right s0 s \<longleftrightarrow> s = s0 \<or> common_right s"

lemma ora_sends_state: "state_right s0 (lgState l) \<Longrightarrow> state_right s0 (lgState (ora_sends e l))"
  by (cases e) (simp_all add: state_right_def setters_common_right)

lemma reader_sends_state: "state_right s0 (lgState l) \<Longrightarrow> state_right s0 (lgState (reader_sends e l))"
  by (cases e) (simp_all add: state_right_def setters_common_right)

lemma fold_sends_state:
  "state_right s0 (lgState l) \<Longrightarrow> state_right s0 (lgState (fold ora_sends es l))"
  "state_right s0 (lgState l) \<Longrightarrow> state_right s0 (lgState (fold reader_sends fs l))"
  by (induction es arbitrary: l, simp_all add: ora_sends_state)
    (induction fs arbitrary: l, simp_all add: reader_sends_state)

lemma metrics_state:
  "metrics_step err x s = (es, s') \<Longrightarrow> state_right s0 s \<Longrightarrow> state_right s0 s'"
  by (cases x) (auto simp: check_push_def state_right_def setters_common_right split: option.splits)

lemma logger_state_step:
  assumes "logger_step env a l = Some l'" "state_right s0 (lgState l)"
  shows "state_right s0 (lgState l')"
proof -
  from assms(1) have M: "logger_move env a l = Some l'" by (auto simp: logger_step_def split: option.splits if_splits)
  have w: "state_right s0 (lgState (with_ora c k))" "state_right s0 (lgState (with_reader r k))"
    if "lgState k = lgState l" for c r k
    using assms(2) that unfolding with_ora_def with_reader_def by (auto intro!: fold_sends_state)
  show ?thesis
    using M assms(2)
    by (cases a)
      (auto intro: w dest: metrics_state split: if_splits list.splits option.splits prod.splits ora_action.splits
        ora_input.splits simp del: ora_step.simps metrics_step.simps)
qed

section \<open>Properties\<close>

text \<open>No journal message is lost or repeated inside the logger, whatever the order in which its
  goroutines run: the messages the reader has taken out of the stream are, in their order, those of the
  inserts executed or on their way to the database, then the buffer of the writer, then the two
  channels between the reader and the writer.\<close>

theorem journal_stored:
  assumes "pq_lawful (prioQueue env) content"
    and "run_steps (logger_step env) as (new_logger env s) = Some l"
  shows "\<exists>bs. log_texts (executed (oraOut (lgOra l)) @ execQueryChan (lgOra l) @ pending (todo (lgOra l))) =
      map oraInsertLogQuery bs \<and>
    concat bs @ logMsgBuffer (lgOra l) @ concat (receiveMsgChan l) @ concat (sendMsgChan l) =
      sent_msgs (lgReader l)"
proof -
  have "logger_inv content l"
    by (rule run_steps_invariant [where I = "logger_inv content" and f = "logger_step env",
          OF _ assms(2) logger_inv_start [OF assms(1)]]) (rule logger_inv_step [OF assms(1)])
  then show ?thesis by (auto simp: logger_inv_def ora_inv_def kept_def)
qed

definition example_logger_cfg :: LoggerCfg where
  "example_logger_cfg = logger_setDefault
     \<lparr>lcInitialised = False, lcIPAddr = [], lcLoggerID = [], lcTimestamp = [], OraHostname = [], OraPort = 0,
      OraServiceName = [], OraUser = [], OraPassword = [], OraMaxLogStoreCount = 0, OraStoreDays = 0,
      RedisHostname = [], RedisPort = 0, RedisDbId = 0, RedisUserName = [], RedisPassword = [],
      RedisMaxReadCount = 0, MetricsIntervalSec = 0, MetricsGatewayUrl = []\<rparr>"

definition zeroLoggerState :: LoggerState where
  "zeroLoggerState = \<lparr>LoggerID = [], loggerIPAddr = [], loggerCommonState = [], OraConnected = [], OraError = [],
     RedisConnected = [], RedisError = [], MetricsState = [], MetricsError = []\<rparr>"

definition example_logger_run :: "logger_action list" where
  "example_logger_run =
     [SettsChanged example_logger_cfg, ReaderSetts None, OraSetts None None, OraOther OraOp, OraOther OraOp,
      ForwardRequest, ReaderRequest None [\<lparr>entryID = ''1-0'', entryMsg = Some (MarshalToString zeroLogMessage)\<rparr>] None,
      ForwardMsgs]"

lemma example_logger_runs:
  "run_steps (logger_step example_ora_env) example_logger_run (new_logger example_ora_env zeroLoggerState) \<noteq> None"
proof -
  have u: "UnmarshalFromString (MarshalToString zeroLogMessage) = Inr zeroLogMessage"
    by (rule unmarshal_marshal) (simp_all add: zeroLogMessage_def comma_free_def log_fields_def id_in_range_def
        int_min_def int_max_def Itoa_no_comma)
  show ?thesis
    by (simp add: u example_logger_run_def logger_step_def new_logger_def NewRedisCntrl_def example_logger_cfg_def
        logger_setDefault_def zeroLoggerState_def example_ora_env_def list_pq_def Run_start_def NewOraController_def
        zeroOraSettings_def zeroRedisSettings_def Let_def ora_emit_def rc_emit_def checkQueryQueue_def
        setts_equal_def connectToDb_def queue_empty_def next_log_query_def with_ora_def with_reader_def has_room_def
        ora_settings_def redis_settings_def reader_new_setts_def reader_connectToServer_def request_msgs_def
        readLogsFromStream_def)
qed

theorem journal_stored_witness:
  "let l = the (run_steps (logger_step example_ora_env) example_logger_run (new_logger example_ora_env zeroLoggerState))
   in \<exists>bs. log_texts (executed (oraOut (lgOra l)) @ execQueryChan (lgOra l) @ pending (todo (lgOra l))) =
      map oraInsertLogQuery bs \<and>
    concat bs @ logMsgBuffer (lgOra l) @ concat (receiveMsgChan l) @ concat (sendMsgChan l) =
      sent_msgs (lgReader l)"
  unfolding Let_def
  by (rule journal_stored [where content = mset, OF _ option.collapse [OF example_logger_runs, symmetric]])
    (simp add: example_ora_env_def list_pq_lawful)

text \<open>Whatever the goroutines of the logger do, its common state is the one it started with
  or it is right: ``ok'' exactly when the database, the stream and the metrics are all ``ok''.\<close>

theorem logger_common_state:
  assumes "run_steps (logger_step env) as (new_logger env s) = Some l" and "lgState l \<noteq> s"
  shows "loggerCommonState (lgState l) = LoggerStateOk \<longleftrightarrow>
    OraConnected (lgState l) = LoggerStateOk \<and> RedisConnected (lgState l) = LoggerStateOk \<and>
    MetricsState (lgState l) = LoggerStateOk"
proof -
  have "state_right s (lgState (new_logger env s))"
    unfolding new_logger_def by (rule fold_sends_state) (simp add: state_right_def)
  from run_steps_invariant [where I = "\<lambda>l. state_right s (lgState l)" and f = "logger_step env", OF _ assms(1) this]
  have "state_right s (lgState l)" using logger_state_step by blast
  then show ?thesis using assms(2) by (auto simp: state_right_def common_right_def)
qed

theorem logger_common_state_witness:
  "\<exists>l. run_steps (logger_step example_ora_env) [SettsChanged example_logger_cfg, ReaderSetts None]
      (new_logger example_ora_env zeroLoggerState) = Some l \<and>
    (loggerCommonState (lgState l) = LoggerStateOk \<longleftrightarrow>
      OraConnected (lgState l) = LoggerStateOk \<and> RedisConnected (lgState l) = LoggerStateOk \<and>
      MetricsState (lgState l) = LoggerStateOk)"
proof -
  obtain l where l: "run_steps (logger_step example_ora_env) [SettsChanged example_logger_cfg, ReaderSetts None]
      (new_logger example_ora_env zeroLoggerState) = Some l" "RedisConnected (lgState l) = LoggerStateOk"
    by (simp add: logger_step_def new_logger_def NewRedisCntrl_def example_logger_cfg_def
        logger_setDefault_def zeroLoggerState_def Run_start_def NewOraController_def
        zeroRedisSettings_def Let_def ora_emit_def rc_emit_def with_reader_def has_room_def
        redis_settings_def reader_new_setts_def reader_connectToServer_def logger_setters LoggerStateOk_def)
  have "lgState l \<noteq> zeroLoggerState" using l(2) by (auto simp: zeroLoggerState_def LoggerStateOk_def)
  from logger_common_state [OF l(1) this] l(1) show ?thesis by blast
qed

end
