(* ===== verification/Configurator.thy ===== *)
theory Configurator
  imports Chief_Data Chief_Protocol Logger_Main
begin

text \<open>
  The exchange with the configurator, \<open>configurator/\<close>: the POST of a message and what becomes
  of its answer, the client of the chief and the client of the logger. The configurator,
  the files, Docker and the list of own addresses are outside: what they answer is an
  argument. A POST runs in a goroutine of its own; it is an effect, and its result comes
  back as an input. The package variable with the settings is part of the state.
\<close>

section \<open>POST\<close>

record ConfiguratorUrls =
  HeartbeatURLStr :: string
  SettingsURLStr :: string

text \<open>A result: the error, or the text from the first brace of the body on.\<close>

type_synonym httpResult = "string + string"

datatype http_answer =
  PostFailed string
| ReadFailed string string string
| Answered string string

fun index_brace :: "string \<Rightarrow> string option" where
  "index_brace [] = None"
| "index_brace (c # s) = (if c = CHR ''{'' then Some (c # s) else index_brace s)"

text \<open>The results a POST of the text \<open>jsonValue\<close> to \<open>url\<close> gives, in their order. An \<open>Answered\<close> has
  the status and the body, a \<open>ReadFailed\<close> the status, what was read of the body and the error.\<close>

definition postToConfigurator :: "string \<Rightarrow> string \<Rightarrow> http_answer \<Rightarrow> httpResult list" where
  "postToConfigurator url jsonValue answer =
     (let bad_status = (\<lambda>status.
            Inl ((''HTPP '' @ ru ''zapros vypolnen s owibkoj. Zapros: '') @ jsonValue @ ''. URL: '' @ url @
                 (''. '' @ ru ''Status otveta: '') @ status));
          bad_body = (\<lambda>body. Inl ((ru ''Ne validnoe telo '') @ ''http '' @ (ru ''paketa. Telo paketa: '') @ body))
      in case answer of
           PostFailed postErr \<Rightarrow>
             [Inl ((ru ''Owibka vypolneni9 '') @ ''HTPP '' @ (ru ''zaprosa. Zapros: '') @ jsonValue @ ''. URL: '' @ url @
                   (''. '' @ ru ''Owibka: '') @ postErr)]
         | ReadFailed status body readErr \<Rightarrow>
             if sublist ''200'' status then
               [Inl ((ru ''Owibka 4teni9 otveta '') @ ''http '' @ (ru ''zaprosa. Telo paketa: '') @ body @ (''. '' @ ru ''Owibka: '') @ readErr)]
             else [bad_status status]
         | Answered status body \<Rightarrow>
             if sublist ''200'' status then
               (if sublist ''error'' body then [bad_body body] else []) @
               (case index_brace body of Some json \<Rightarrow> [Inr json] | None \<Rightarrow> [bad_body body])
             else [bad_status status])"

section \<open>Messages\<close>

definition ChiefSettsRequestHdr :: string where "ChiefSettsRequestHdr = ''SettingsRequest''"
definition ChiefSettsAnswerHdr :: string where "ChiefSettsAnswerHdr = ''SettingsAnswer''"
definition ChiefHbtHdr :: string where "ChiefHbtHdr = ''ControllerState''"
definition ChiefHbtAnswerHdr :: string where "ChiefHbtAnswerHdr = ''WebServerState''"
definition LoggerSettRequestHdr :: string where "LoggerSettRequestHdr = ''LoggerSettingsRequest''"
definition LogggerSettsAnswerHdr :: string where "LogggerSettsAnswerHdr = ''LoggerSettingsAnswer''"
definition LoggerHbtHdr :: string where "LoggerHbtHdr = ''LoggerState''"
definition LoggerHbtAnswerHdr :: string where "LoggerHbtAnswerHdr = ''LoggerStateAnswer''"

lemmas conf_headers =
  ChiefSettsRequestHdr_def ChiefSettsAnswerHdr_def ChiefHbtHdr_def ChiefHbtAnswerHdr_def
  LoggerSettRequestHdr_def LogggerSettsAnswerHdr_def LoggerHbtHdr_def LoggerHbtAnswerHdr_def

record ChiefHdr =
  confHeader :: string

record ChiefSettsRequestMsg = ChiefHdr +
  Versions :: "string list"
  reqIPAddresses :: "string list"

record ChiefHbtMsg = ChiefHdr +
  hbtChiefState :: ChiefState

record HbtAnswerMsg = ChiefHdr +
  ansTimestamp :: string
  ansWebState :: string

record LoggerSettsRequestMsg = ChiefHdr +
  logIPAddresses :: "string list"

record LoggerHbtMsg = ChiefHdr +
  hbtLoggerState :: LoggerState

definition CreateChiefSettsRequestMsg :: "string list \<Rightarrow> string list \<Rightarrow> ChiefSettsRequestMsg" where
  "CreateChiefSettsRequestMsg localIPs versions =
     \<lparr>confHeader = ChiefSettsRequestHdr, Versions = versions, reqIPAddresses = localIPs\<rparr>"

definition CreateLoggerSettsRequestMsg :: "string list \<Rightarrow> LoggerSettsRequestMsg" where
  "CreateLoggerSettsRequestMsg localIPs = \<lparr>confHeader = LoggerSettRequestHdr, logIPAddresses = localIPs\<rparr>"

definition hdr_fields :: "(string \<times> 'a ChiefHdr_scheme setter) list" where
  "hdr_fields = [(''MessageHeader'', set_str (\<lambda>v. confHeader_update (\<lambda>_. v)))]"

definition hbt_answer_fields :: "(string \<times> HbtAnswerMsg setter) list" where
  "hbt_answer_fields = hdr_fields @
     [(''ConfigTimestamp'', set_str (\<lambda>v. ansTimestamp_update (\<lambda>_. v))),
      (''WebServerState'', set_str (\<lambda>v. ansWebState_update (\<lambda>_. v)))]"

definition zeroHdr :: ChiefHdr where "zeroHdr = \<lparr>confHeader = []\<rparr>"
definition zeroHbtAnswer :: HbtAnswerMsg where
  "zeroHbtAnswer = \<lparr>confHeader = [], ansTimestamp = [], ansWebState = []\<rparr>"

section \<open>The settings of the chief in JSON\<close>

definition zeroProviderSettings :: ProviderSettings where
  "zeroProviderSettings = \<lparr>provID = 0, IPAddresses = [], provStatus = [], provDataType = [],
     ProviderEncoding = [], provLocalPort = 0\<rparr>"

definition provider_fields :: "(string \<times> ProviderSettings decoder) list" where
  "provider_fields =
     [(''ProviderID'', plain (set_int (\<lambda>v. provID_update (\<lambda>_. v)))),
      (''ProviderIPs'', decode_list (\<lambda>v. IPAddresses_update (\<lambda>_. v)) [] decode_string),
      (''ProviderStatus'', plain (set_str (\<lambda>v. provStatus_update (\<lambda>_. v)))),
      (''ProviderType'', plain (set_str (\<lambda>v. provDataType_update (\<lambda>_. v)))),
      (''ProviderEncoding'', plain (set_str (\<lambda>v. ProviderEncoding_update (\<lambda>_. v)))),
      (''LocalPort'', plain (set_int (\<lambda>v. provLocalPort_update (\<lambda>_. v))))]"

definition logger_setts_fields :: "(string \<times> LoggerSettings decoder) list" where
  "logger_setts_fields = plain_fields
     [(''FileSizeKB'', set_int (\<lambda>v. FileSizeKB_update (\<lambda>_. v))),
      (''FolderSizeGB'', set_int (\<lambda>v. FolderSizeGB_update (\<lambda>_. v))),
      (''LoggerPort'', set_int (\<lambda>v. LoggerPort_update (\<lambda>_. v))),
      (''DbServiceName'', set_str (\<lambda>v. DbServiceName_update (\<lambda>_. v))),
      (''DbHostname'', set_str (\<lambda>v. DbHostname_update (\<lambda>_. v))),
      (''DbMaxLogStoreCount'', set_int (\<lambda>v. DbMaxLogStoreCount_update (\<lambda>_. v))),
      (''DbPassword'', set_str (\<lambda>v. DbPassword_update (\<lambda>_. v))),
      (''DbPort'', set_int (\<lambda>v. DbPort_update (\<lambda>_. v))),
      (''DbStoreDays'', set_int (\<lambda>v. DbStoreDays_update (\<lambda>_. v))),
      (''DbUser'', set_str (\<lambda>v. DbUser_update (\<lambda>_. v)))]"

definition chief_settings_fields :: "(string \<times> ChiefSettings decoder) list" where
  "chief_settings_fields =
     [(''ControllerIP'', plain (set_str (\<lambda>v. cfIPAddr_update (\<lambda>_. v)))),
      (''ControllerID'', plain (set_int (\<lambda>v. cfCntrlID_update (\<lambda>_. v)))),
      (''ConfigTimestamp'', plain (set_str (\<lambda>v. Timestamp_update (\<lambda>_. v)))),
      (''DaemonsPort'', plain (set_int (\<lambda>v. ChannelsPort_update (\<lambda>_. v)))),
      (''OldiProviderPort'', plain (set_int (\<lambda>v. OldiProviderPort_update (\<lambda>_. v)))),
      (''OldiProviderEncoding'', plain (set_str (\<lambda>v. OldiProviderEncoding_update (\<lambda>_. v)))),
      (''AodbProviderPort'', plain (set_int (\<lambda>v. AodbProviderPort_update (\<lambda>_. v)))),
      (''DockerRegistry'', plain (set_str (\<lambda>v. DockerRegistry_update (\<lambda>_. v)))),
      (''LoggerSettings'', decode_field (\<lambda>v. LoggerSetts_update (\<lambda>_. v)) LoggerSetts (decode_object logger_setts_fields)),
      (''FmtpDaemons'', decode_list (\<lambda>v. ChannelSetts_update (\<lambda>_. v)) zeroChannelSettings
         (decode_object (plain_fields settings_fields))),
      (''Providers'', decode_list (\<lambda>v. ProvidersSetts_update (\<lambda>_. v)) zeroProviderSettings
         (decode_object provider_fields))]"

definition zeroChiefSettings :: ChiefSettings where
  "zeroChiefSettings = \<lparr>cfIPAddr = [], cfCntrlID = 0, Timestamp = [], ChannelsPort = 0, OldiProviderPort = 0,
     OldiProviderEncoding = [], AodbProviderPort = 0, DockerRegistry = [],
     LoggerSetts = \<lparr>FileSizeKB = 0, FolderSizeGB = 0, LoggerPort = 0, DbServiceName = [], DbHostname = [],
       DbMaxLogStoreCount = 0, DbPassword = [], DbPort = 0, DbStoreDays = 0, DbUser = []\<rparr>,
     ChannelSetts = [], ProvidersSetts = [], IsInitialised = False\<rparr>"

definition decode_chief :: "json option \<Rightarrow> ChiefSettings \<Rightarrow> ChiefSettings \<times> bool" where
  "decode_chief doc s = (case doc of None \<Rightarrow> (s, False) | Some j \<Rightarrow> decode_object chief_settings_fields j s)"

section \<open>The client of the chief\<close>

text \<open>
  What the client learns from outside in a step: the document a text denotes, the own
  addresses, the first port of the web pages of channels, and whether the pull of the
  images and the query of their versions succeed (\<open>Inl\<close> an error).
\<close>

record conf_env =
  jsonDoc :: "string \<Rightarrow> json option"
  localIPs :: "string list"
  startWebPort :: int
  pullResult :: "string option"
  dockerVersions :: "string + string list"
  binaryVersions :: "string + string list"
  stopContainers :: "string option"
  versionsText :: "string list \<Rightarrow> string"
  cfgText :: "ChiefSettings \<Rightarrow> string"
  jsonError :: "string \<Rightarrow> string"

datatype conf_effect =
  PostSettsRequest string ChiefSettsRequestMsg
| PostHeartbeat string ChiefHbtMsg
| PostLoggerRequest string LoggerSettsRequestMsg
| PostLoggerHbt string LoggerHbtMsg
| AfterMinute
| SaveChief ChiefSettings
| SaveLogger LoggerCfg
| SaveUrls ConfiguratorUrls
| StopTimer
| SettChanged
| PullImages string
| StopContainers string
| SetPageUrls ConfiguratorUrls
| ConfPrint print_level string
| ConfDebugParam string string

record chief_conf =
  ChiefCfg :: ChiefSettings
  configUrls :: ConfiguratorUrls
  confWithDocker :: bool
  channelVersions :: "string list"
  commonState :: ChiefState
  confOut :: "conf_effect list"

definition conf_emit :: "conf_effect \<Rightarrow> chief_conf \<Rightarrow> chief_conf" where
  "conf_emit e c = c\<lparr>confOut := confOut c @ [e]\<rparr>"

definition ChannelImageName :: string where "ChannelImageName = ''fmtp_channel''"

definition initialChiefCfg :: ChiefSettings where
  "initialChiefCfg = zeroChiefSettings\<lparr>cfCntrlID := -1, cfIPAddr := ''127.0.0.1'', IsInitialised := False\<rparr>"

definition NewChiefClient :: "bool \<Rightarrow> ChiefState \<Rightarrow> chief_conf" where
  "NewChiefClient workWithDocker st =
     \<lparr>ChiefCfg = initialChiefCfg, configUrls = \<lparr>HeartbeatURLStr = [], SettingsURLStr = []\<rparr>,
      confWithDocker = workWithDocker, channelVersions = [], commonState = st, confOut = []\<rparr>"

definition request_config :: "conf_env \<Rightarrow> chief_conf \<Rightarrow> chief_conf" where
  "request_config env c =
     conf_emit (PostSettsRequest (SettingsURLStr (configUrls c))
       (CreateChiefSettsRequestMsg (localIPs env) (channelVersions c))) c"

definition initBeforeGetSettings :: "conf_env \<Rightarrow> chief_conf \<Rightarrow> chief_conf" where
  "initBeforeGetSettings env cc =
     (let cc = conf_emit (ConfDebugParam ((ru ''Versii '') @ ''FMTP '' @ (ru ''kanalov'')) ''-'') cc
      in if \<not> confWithDocker cc then
           (case binaryVersions env of
              Inl versErr \<Rightarrow>
                conf_emit (ConfPrint PrintErr ((ru ''Owibka polu4eni9 spiska versij priloxeni9 '') @ ''FMTP '' @
                  (ru ''kanal. Owibka: '') @ versErr)) (cc\<lparr>channelVersions := []\<rparr>)
            | Inr versions \<Rightarrow>
                conf_emit (ConfPrint PrintDebug ((ru ''Polu4eny versii priloxeni9 '') @ ''FMTP '' @ (ru ''kanal. Versii: '') @
                    versionsText env versions @ ''.''))
                  (conf_emit (ConfDebugParam ((ru ''Versii '') @ ''FMTP '' @ (ru ''kanalov'')) (versionsText env versions))
                    (cc\<lparr>channelVersions := versions\<rparr>)))
         else
           (case dockerVersions env of
              Inl versErr \<Rightarrow>
                conf_emit (ConfPrint PrintErr ((ru ''Owibka polu4eni9 spiska versij '') @ ''docker '' @ (ru ''obrazov '') @
                  ''FMTP '' @ (ru ''kanal. Owibka: '') @ versErr)) (cc\<lparr>channelVersions := []\<rparr>)
            | Inr versions \<Rightarrow>
                conf_emit (ConfPrint PrintDebug ((ru ''Polu4eny versii '') @ ''do'' @ (ru ''s'') @ ''ker '' @ (ru ''obrazov priloxeni9 '') @
                    ''FMTP '' @ (ru ''kanal. Versii: '') @ versionsText env versions))
                  (conf_emit (ConfDebugParam ((ru ''Versii '') @ ''FMTP '' @ (ru ''kanalov'')) (versionsText env versions))
                    (cc\<lparr>channelVersions := versions\<rparr>))))"

definition Start_client :: "conf_env \<Rightarrow> ConfiguratorUrls \<Rightarrow> chief_conf \<Rightarrow> chief_conf" where
  "Start_client env urls c =
     (let c = conf_emit (SetPageUrls urls) (c\<lparr>configUrls := urls\<rparr>);
          c = initBeforeGetSettings env c;
          c = conf_emit (ConfPrint PrintDebug ((ru ''Sobstvennye '') @ ''IP '' @ (ru ''adresa: '') @ versionsText env (localIPs env))) c
      in request_config env c)"

definition initAfterGetSettings :: "conf_env \<Rightarrow> chief_conf \<Rightarrow> chief_conf" where
  "initAfterGetSettings env cc =
     (if confWithDocker cc then
        (let cc = (if DockerRegistry (ChiefCfg cc) \<noteq> [] then
                     (let cc = conf_emit (PullImages (DockerRegistry (ChiefCfg cc) @ ''/'' @ ChannelImageName)) cc
                      in case pullResult env of
                           Some pullErr \<Rightarrow>
                             conf_emit (ConfPrint PrintErr ((ru ''Owibka zagruzki obrazov '') @ ''(pull) docker '' @
                               (ru ''priloxeni9 '') @ ''FMTP '' @ (ru ''kanal. Owibka: '') @ pullErr)) cc
                         | None \<Rightarrow> cc)
                   else cc)
         in case dockerVersions env of
              Inl versErr \<Rightarrow>
                conf_emit (ConfPrint PrintErr ((ru ''Owibka polu4eni9 spiska versij '') @ ''docker '' @
                  (ru ''obrazov priloxeni9 '') @ ''FMTP '' @ (ru ''kanal '') @ ''('' @ (ru ''Povtornyj zapros'') @ '')'' @ (''. '' @ ru ''Owibka: '') @
                  versErr @ ''.'')) cc
            | Inr newVersions \<Rightarrow>
                if channelVersions cc \<noteq> newVersions then request_config env (cc\<lparr>channelVersions := newVersions\<rparr>)
                else cc)
      else cc)"

definition channel_with_url :: "conf_env \<Rightarrow> ChiefSettings \<Rightarrow> ChannelSettings \<Rightarrow> ChannelSettings" where
  "channel_with_url env cfg s =
     s\<lparr>URLAddress := cfIPAddr cfg, URLPath := ''channel'', URLPort := startWebPort env + csId s\<rparr>"

definition provider_with_port :: "ChiefSettings \<Rightarrow> ProviderSettings \<Rightarrow> ProviderSettings" where
  "provider_with_port cfg p =
     (let p = (if provDataType p = OLDIProvider then p\<lparr>ProviderEncoding := OldiProviderEncoding cfg\<rparr> else p)
      in if provDataType p = AODBProvider then p\<lparr>provLocalPort := AodbProviderPort cfg\<rparr>
         else if provDataType p = OLDIProvider then p\<lparr>provLocalPort := OldiProviderPort cfg\<rparr>
         else p)"

definition sendSettings :: "conf_env \<Rightarrow> chief_conf \<Rightarrow> chief_conf" where
  "sendSettings env cc =
     (let cfg = ChiefCfg cc;
          cfg = cfg\<lparr>ChannelSetts := map (channel_with_url env cfg) (ChannelSetts cfg),
                    ProvidersSetts := map (provider_with_port cfg) (ProvidersSetts cfg)\<rparr>;
          cc = conf_emit SettChanged (cc\<lparr>ChiefCfg := cfg\<rparr>)
      in cc\<lparr>commonState := (commonState cc)\<lparr>CntrlID := cfCntrlID cfg, IPAddr := cfIPAddr cfg\<rparr>\<rparr>)"

text \<open>An answer with settings: the old ones are gone even if the new ones have an error.\<close>

definition settings_answered :: "conf_env \<Rightarrow> string \<Rightarrow> chief_conf \<Rightarrow> chief_conf" where
  "settings_answered env result c =
     (let (cfg, ok) = decode_chief (jsonDoc env result)
                        (zeroChiefSettings\<lparr>cfCntrlID := -1, cfIPAddr := [], IsInitialised := False\<rparr>)
      in if \<not> ok then
           conf_emit (ConfPrint PrintErr ((ru ''Owibka razbora '') @ ''(unmarshall) '' @
             (ru ''otveta na zapros nastroek. Soobqenie: '') @ result @ (''. '' @ ru ''Owibka: '') @ jsonError env result @ ''.''))
             (c\<lparr>ChiefCfg := cfg\<rparr>)
         else
           (let cfg = cfg\<lparr>IsInitialised := True\<rparr>;
                c = c\<lparr>ChiefCfg := cfg\<rparr>;
                c = conf_emit (ConfPrint PrintDebug ((ru ''Polu4eny nastrojki ot konfiguratora. '') @ cfgText env cfg @ ''.'')) c;
                c = conf_emit StopTimer c;
                c = conf_emit (SaveChief cfg) c;
                c = initAfterGetSettings env c
            in sendSettings env c))"

definition heartbeat_answered :: "conf_env \<Rightarrow> string \<Rightarrow> chief_conf \<Rightarrow> chief_conf" where
  "heartbeat_answered env result c =
     (let (curMsg, ok) = Unmarshal hbt_answer_fields (jsonDoc env result) zeroHbtAnswer
      in if \<not> ok then
           conf_emit (ConfPrint PrintErr ((ru ''Owibka razbora '') @ ''(unmarshall) '' @
             (ru ''otveta na soobqenie o sosto9nii kontrollera. Soobqenie: '') @ result @ (''. '' @ ru ''Owibka: '') @
             jsonError env result @ ''.'')) c
         else if ansTimestamp curMsg \<noteq> Timestamp (ChiefCfg c) then request_config env c else c)"

definition post_result :: "conf_env \<Rightarrow> httpResult \<Rightarrow> chief_conf \<Rightarrow> chief_conf" where
  "post_result env postRes c =
     (case postRes of
        Inr result \<Rightarrow>
          (let (msgHeader, ok) = Unmarshal hdr_fields (jsonDoc env result) zeroHdr
           in if \<not> ok then
                conf_emit (ConfPrint PrintErr ((ru ''Owibka razbora '') @ ''(unmarshall) '' @
                  (ru ''soobqeni9 ot konfiguratora. Soobqenie: '') @ result @ (''. '' @ ru ''Owibka: '') @ jsonError env result @ ''.'')) c
              else if confHeader msgHeader = ChiefSettsAnswerHdr then settings_answered env result c
              else if confHeader msgHeader = ChiefHbtAnswerHdr then heartbeat_answered env result c
              else conf_emit (ConfPrint PrintErr ((ru ''Polu4eno soobqenie s neizvestnym zagolovkom ot '') @
                     (ru ''konfiguratora. Zagolovok: '') @ confHeader msgHeader @ ''.'')) c)
      | Inl err \<Rightarrow>
          conf_emit AfterMinute
            ((conf_emit (ConfPrint PrintErr err) c)\<lparr>ChiefCfg := (ChiefCfg c)\<lparr>IsInitialised := False\<rparr>\<rparr>))"

text \<open>The cases of the loop, and the function of the timer set a minute before. A file that
  can be read leaves its settings in the variable, in part where it has an error.\<close>

datatype 'c file_read = NoFile string | BadFile string 'c | GoodFile 'c

datatype conf_input =
  PostResult httpResult
| HeartbeatTick
| LocalTimer "ChiefSettings file_read"
| UrlConfig ConfiguratorUrls
| MinuteOver

fun conf_step :: "conf_env \<Rightarrow> conf_input \<Rightarrow> chief_conf \<Rightarrow> chief_conf" where
  "conf_step env (PostResult postRes) c = post_result env postRes c"
| "conf_step env HeartbeatTick c =
     (if IsInitialised (ChiefCfg c) then
        conf_emit (PostHeartbeat (HeartbeatURLStr (configUrls c))
          \<lparr>confHeader = ChiefHbtHdr, hbtChiefState = commonState c\<rparr>) c
      else c)"
| "conf_step env (LocalTimer file) c =
     (let load = (\<lambda>cfg. c\<lparr>ChiefCfg := cfg\<lparr>IsInitialised := IsInitialised (ChiefCfg c)\<rparr>\<rparr>);
          failed = (\<lambda>err. conf_emit (ConfPrint PrintErr
            ((ru ''Owibka 4teni9 nastroek kontrollera iz fajla. Owibka: '') @ err @ ''.'')))
      in case file of
           NoFile err \<Rightarrow> failed err c
         | BadFile err cfg \<Rightarrow> failed err (load cfg)
         | GoodFile cfg \<Rightarrow>
             sendSettings env (conf_emit (ConfPrint PrintWarn (ru ''Nastrojki kontrollera s4itany iz fajla.'')) (load cfg)))"
| "conf_step env (UrlConfig urls) c = conf_emit (SaveUrls urls) (c\<lparr>configUrls := urls\<rparr>)"
| "conf_step env MinuteOver c = request_config env c"

text \<open>The beginning of \<open>Work\<close>: containers of an earlier run are stopped.\<close>

definition conf_work_start :: "conf_env \<Rightarrow> chief_conf \<Rightarrow> chief_conf" where
  "conf_work_start env c =
     (if confWithDocker c then
        (let c = conf_emit (StopContainers ChannelImageName) c
         in case stopContainers env of
              Some stopErr \<Rightarrow>
                conf_emit (ConfPrint PrintErr ((ru ''Owibka ostanovki '') @ ''docker '' @ (ru ''kontejnerov priloxeni9 '') @
                  ''FMTP '' @ (ru ''kanal. Owibka: '') @ stopErr @ ''.'')) c
            | None \<Rightarrow> c)
      else c)"

section \<open>The client of the logger\<close>

record logger_conf =
  LoggerCfgV :: LoggerCfg
  loggerUrls :: ConfiguratorUrls
  loggerStateV :: LoggerState
  lcOut :: "conf_effect list"

definition lc_emit :: "conf_effect \<Rightarrow> logger_conf \<Rightarrow> logger_conf" where
  "lc_emit e c = c\<lparr>lcOut := lcOut c @ [e]\<rparr>"

definition logger_cfg_fields :: "(string \<times> LoggerCfg setter) list" where
  "logger_cfg_fields =
     [(''IsInitialised'', set_bool (\<lambda>v. lcInitialised_update (\<lambda>_. v))),
      (''LoggerIP'', set_str (\<lambda>v. lcIPAddr_update (\<lambda>_. v))),
      (''LoggerID'', set_str (\<lambda>v. lcLoggerID_update (\<lambda>_. v))),
      (''LoggerConfigTimestamp'', set_str (\<lambda>v. lcTimestamp_update (\<lambda>_. v))),
      (''OraHostname'', set_str (\<lambda>v. OraHostname_update (\<lambda>_. v))),
      (''OraPort'', set_int (\<lambda>v. OraPort_update (\<lambda>_. v))),
      (''OraServiceName'', set_str (\<lambda>v. OraServiceName_update (\<lambda>_. v))),
      (''OraUser'', set_str (\<lambda>v. OraUser_update (\<lambda>_. v))),
      (''OraPassword'', set_str (\<lambda>v. OraPassword_update (\<lambda>_. v))),
      (''OraMaxLogStoreCount'', set_int (\<lambda>v. OraMaxLogStoreCount_update (\<lambda>_. v))),
      (''OraStoreDays'', set_int (\<lambda>v. OraStoreDays_update (\<lambda>_. v))),
      (''RedisHostname'', set_str (\<lambda>v. RedisHostname_update (\<lambda>_. v))),
      (''RedisPort'', set_int (\<lambda>v. RedisPort_update (\<lambda>_. v))),
      (''RedisId'', set_int (\<lambda>v. RedisDbId_update (\<lambda>_. v))),
      (''RedisUser'', set_str (\<lambda>v. RedisUserName_update (\<lambda>_. v))),
      (''RedisPassword'', set_str (\<lambda>v. RedisPassword_update (\<lambda>_. v))),
      (''RedisMaxReadCount'', set_int (\<lambda>v. RedisMaxReadCount_update (\<lambda>_. v))),
      (''MetricsIntervalSec'', set_int (\<lambda>v. MetricsIntervalSec_update (\<lambda>_. v))),
      (''MetricsGatewayUrl'', set_str (\<lambda>v. MetricsGatewayUrl_update (\<lambda>_. v)))]"

definition request_logger :: "conf_env \<Rightarrow> logger_conf \<Rightarrow> logger_conf" where
  "request_logger env c =
     lc_emit (PostLoggerRequest (SettingsURLStr (loggerUrls c)) (CreateLoggerSettsRequestMsg (localIPs env))) c"

definition Start_logger :: "conf_env \<Rightarrow> ConfiguratorUrls \<Rightarrow> logger_conf \<Rightarrow> logger_conf" where
  "Start_logger env urls c =
     request_logger env
       (lc_emit (ConfPrint PrintDebug ((ru ''Sobstvennye '') @ ''IP '' @ (ru ''adresa: '') @ versionsText env (localIPs env)))
         (c\<lparr>loggerUrls := urls\<rparr>))"

definition logger_sendSettings :: "logger_conf \<Rightarrow> logger_conf" where
  "logger_sendSettings c =
     (let c = lc_emit SettChanged c
      in c\<lparr>loggerStateV := (loggerStateV c)\<lparr>LoggerID := lcLoggerID (LoggerCfgV c),
                                            loggerIPAddr := lcIPAddr (LoggerCfgV c)\<rparr>\<rparr>)"

definition logger_settings_answered :: "conf_env \<Rightarrow> string \<Rightarrow> logger_conf \<Rightarrow> logger_conf" where
  "logger_settings_answered env result c =
     (let (cfg, ok) = Unmarshal logger_cfg_fields (jsonDoc env result) ((LoggerCfgV c)\<lparr>lcInitialised := False\<rparr>)
      in if \<not> ok then
           lc_emit (ConfPrint PrintErr ((ru ''Owibka razbora '') @ ''(unmarshall) '' @
             (ru ''otveta na zapros nastroek. Soobqenie: '') @ result @ (''. '' @ ru ''Owibka: '') @ jsonError env result @ ''.''))
             (c\<lparr>LoggerCfgV := cfg\<rparr>)
         else
           (let cfg = cfg\<lparr>lcInitialised := True\<rparr>
            in logger_sendSettings (lc_emit (SaveLogger cfg) (lc_emit StopTimer (c\<lparr>LoggerCfgV := cfg\<rparr>)))))"

definition logger_hbt_answered :: "conf_env \<Rightarrow> string \<Rightarrow> logger_conf \<Rightarrow> logger_conf" where
  "logger_hbt_answered env result c =
     (let (curMsg, ok) = Unmarshal hbt_answer_fields (jsonDoc env result) zeroHbtAnswer
      in if \<not> ok then
           lc_emit (ConfPrint PrintErr ((ru ''Owibka razbora '') @ ''(unmarshall) '' @
             (ru ''otveta na soobqenie o sosto9nii kontrollera. Soobqenie: '') @ result @ (''. '' @ ru ''Owibka: '') @
             jsonError env result @ ''.'')) c
         else if ansTimestamp curMsg \<noteq> lcTimestamp (LoggerCfgV c) then request_logger env c else c)"

definition logger_post_result :: "conf_env \<Rightarrow> httpResult \<Rightarrow> logger_conf \<Rightarrow> logger_conf" where
  "logger_post_result env postRes c =
     (case postRes of
        Inr result \<Rightarrow>
          (let (msgHeader, ok) = Unmarshal hdr_fields (jsonDoc env result) zeroHdr
           in if \<not> ok then
                lc_emit (ConfPrint PrintErr ((ru ''Owibka razbora '') @ ''(unmarshall) '' @
                  (ru ''soobqeni9 ot konfiguratora. Soobqenie: '') @ result @ (''. '' @ ru ''Owibka: '') @ jsonError env result @ ''.'')) c
              else if confHeader msgHeader = LogggerSettsAnswerHdr then logger_settings_answered env result c
              else if confHeader msgHeader = LoggerHbtAnswerHdr then logger_hbt_answered env result c
              else lc_emit (ConfPrint PrintErr ((ru ''Polu4eno soobqenie s neizvestnym zagolovkom ot '') @
                     (ru ''konfiguratora. Zagolovok: '') @ confHeader msgHeader @ ''.'')) c)
      | Inl err \<Rightarrow>
          lc_emit AfterMinute
            ((lc_emit (ConfPrint PrintErr err) c)\<lparr>LoggerCfgV := (LoggerCfgV c)\<lparr>lcInitialised := False\<rparr>\<rparr>))"

datatype lconf_input =
  LPostResult httpResult
| LHeartbeatTick
| LLocalTimer "LoggerCfg file_read"
| LMinuteOver

text \<open>Where there is no file the settings are set to their defaults, and saved.\<close>

fun lconf_step :: "conf_env \<Rightarrow> lconf_input \<Rightarrow> logger_conf \<Rightarrow> logger_conf" where
  "lconf_step env (LPostResult postRes) c = logger_post_result env postRes c"
| "lconf_step env LHeartbeatTick c =
     (if lcInitialised (LoggerCfgV c) then
        lc_emit (PostLoggerHbt (HeartbeatURLStr (loggerUrls c))
          \<lparr>confHeader = LoggerHbtHdr, hbtLoggerState = loggerStateV c\<rparr>) c
      else c)"
| "lconf_step env (LLocalTimer file) c =
     (let failed = (\<lambda>err. lc_emit (ConfPrint PrintErr
            ((ru ''Owibka 4teni9 nastroek loggera iz fajla. Owibka: '') @ err @ ''.'')))
      in case file of
           NoFile err \<Rightarrow>
             (let cfg = logger_setDefault (LoggerCfgV c)
              in failed err (lc_emit (SaveLogger cfg) (c\<lparr>LoggerCfgV := cfg\<rparr>)))
         | BadFile err cfg \<Rightarrow> failed err (c\<lparr>LoggerCfgV := cfg\<rparr>)
         | GoodFile cfg \<Rightarrow>
             logger_sendSettings (lc_emit (ConfPrint PrintWarn (ru ''Nastrojki loggera s4itany iz fajla.''))
               (c\<lparr>LoggerCfgV := cfg\<rparr>)))"
| "lconf_step env LMinuteOver c = request_logger env c"

section \<open>Lemmas\<close>

lemma conf_emit_simps [simp]:
  "ChiefCfg (conf_emit e c) = ChiefCfg c" "configUrls (conf_emit e c) = configUrls c"
  "confWithDocker (conf_emit e c) = confWithDocker c" "channelVersions (conf_emit e c) = channelVersions c"
  "commonState (conf_emit e c) = commonState c" "confOut (conf_emit e c) = confOut c @ [e]"
  by (simp_all add: conf_emit_def)

lemma request_config_simps [simp]:
  "ChiefCfg (request_config env c) = ChiefCfg c" "commonState (request_config env c) = commonState c"
  "configUrls (request_config env c) = configUrls c"
  "confOut (request_config env c) = confOut c @
     [PostSettsRequest (SettingsURLStr (configUrls c)) (CreateChiefSettsRequestMsg (localIPs env) (channelVersions c))]"
  by (simp_all add: request_config_def)

lemma initAfter_simps [simp]:
  "ChiefCfg (initAfterGetSettings env c) = ChiefCfg c" "commonState (initAfterGetSettings env c) = commonState c"
  "configUrls (initAfterGetSettings env c) = configUrls c"
  by (simp_all add: initAfterGetSettings_def Let_def split: sum.split option.split)

text \<open>The results of a POST.\<close>

lemma post_results_count:
  "length (postToConfigurator url txt answer) =
     (case answer of
        Answered status body \<Rightarrow> if sublist ''200'' status \<and> sublist ''error'' body then 2 else 1
      | _ \<Rightarrow> 1)"
  by (simp add: postToConfigurator_def Let_def split: http_answer.split option.split)

definition heartbeats :: "conf_effect list \<Rightarrow> ChiefHbtMsg list" where
  "heartbeats es = concat (map (\<lambda>e. case e of PostHeartbeat url m \<Rightarrow> [m] | _ \<Rightarrow> []) es)"

definition minute_timers :: "conf_effect list \<Rightarrow> nat" where
  "minute_timers es = length (filter (\<lambda>e. e = AfterMinute) es)"

lemma effect_lists [simp]:
  "heartbeats [] = []" "heartbeats (es @ fs) = heartbeats es @ heartbeats fs"
  "heartbeats (e # es) = (case e of PostHeartbeat url m \<Rightarrow> [m] | _ \<Rightarrow> []) @ heartbeats es"
  "minute_timers [] = 0" "minute_timers (es @ fs) = minute_timers es + minute_timers fs"
  "minute_timers (e # es) = (if e = AfterMinute then 1 else 0) + minute_timers es"
  by (simp_all add: heartbeats_def minute_timers_def)

lemma init_heartbeats [simp]:
  "heartbeats (confOut (initAfterGetSettings env c)) = heartbeats (confOut c)"
  "minute_timers (confOut (initAfterGetSettings env c)) = minute_timers (confOut c)"
  by (simp_all add: initAfterGetSettings_def Let_def split: sum.split option.split)

text \<open>An answer with settings, as the client takes it.\<close>

definition is_settings_answer :: "conf_env \<Rightarrow> httpResult \<Rightarrow> bool" where
  "is_settings_answer env r =
     (case r of
        Inr result \<Rightarrow> (case Unmarshal hdr_fields (jsonDoc env result) zeroHdr of
                         (h, ok) \<Rightarrow> ok \<and> confHeader h = ChiefSettsAnswerHdr)
      | Inl err \<Rightarrow> False)"

definition no_settings_answer :: "conf_env \<Rightarrow> conf_input \<Rightarrow> bool" where
  "no_settings_answer env x = (case x of PostResult r \<Rightarrow> \<not> is_settings_answer env r | _ \<Rightarrow> True)"

lemma conf_step_silent:
  assumes "no_settings_answer env x" "\<not> IsInitialised (ChiefCfg c)"
  shows "\<not> IsInitialised (ChiefCfg (conf_step env x c)) \<and>
    heartbeats (confOut (conf_step env x c)) = heartbeats (confOut c)"
  using assms
  by (cases x)
    (auto simp: post_result_def no_settings_answer_def is_settings_answer_def heartbeat_answered_def
      sendSettings_def Let_def split: sum.splits prod.splits file_read.splits)

lemma conf_run_silent:
  "list_all (no_settings_answer env) xs \<Longrightarrow> \<not> IsInitialised (ChiefCfg c) \<Longrightarrow>
   \<not> IsInitialised (ChiefCfg (fold (conf_step env) xs c)) \<and>
   heartbeats (confOut (fold (conf_step env) xs c)) = heartbeats (confOut c)"
  by (induction xs arbitrary: c) (simp_all add: conf_step_silent)

section \<open>Requests after errors\<close>

definition requests :: "conf_effect list \<Rightarrow> nat" where
  "requests es = length (filter (\<lambda>e. case e of PostSettsRequest url m \<Rightarrow> True | _ \<Rightarrow> False) es)"

lemma conf_requests_simps [simp]:
  "requests [] = 0" "requests (es @ fs) = requests es + requests fs"
  "requests (e # es) = (case e of PostSettsRequest url m \<Rightarrow> 1 | _ \<Rightarrow> 0) + requests es"
  by (simp_all add: requests_def split: conf_effect.split)

text \<open>A minute: the timers that were set ask for the settings, each request is answered in the
  same way, and the results are taken. The rounds go on with the timers set in the last one.\<close>

definition minute_round :: "conf_env \<Rightarrow> string \<Rightarrow> string \<Rightarrow> http_answer \<Rightarrow> nat \<Rightarrow> chief_conf \<Rightarrow> chief_conf" where
  "minute_round env url txt answer k c =
     fold (conf_step env)
       (replicate k MinuteOver @ concat (replicate k (map PostResult (postToConfigurator url txt answer)))) c"

fun minutes :: "conf_env \<Rightarrow> string \<Rightarrow> string \<Rightarrow> http_answer \<Rightarrow> nat \<Rightarrow> nat \<Rightarrow> chief_conf \<Rightarrow> chief_conf" where
  "minutes env url txt answer 0 k c = c"
| "minutes env url txt answer (Suc n) k c =
     (let c' = minute_round env url txt answer k c
      in minutes env url txt answer n (minute_timers (confOut c') - minute_timers (confOut c)) c')"

lemma minutes_over:
  "requests (confOut (fold (conf_step env) (replicate k MinuteOver) c)) = requests (confOut c) + k"
  "minute_timers (confOut (fold (conf_step env) (replicate k MinuteOver) c)) = minute_timers (confOut c)"
  by (induction k arbitrary: c) simp_all

lemma error_results:
  "requests (confOut (fold (conf_step env) (map (\<lambda>e. PostResult (Inl e)) es) c)) = requests (confOut c)"
  "minute_timers (confOut (fold (conf_step env) (map (\<lambda>e. PostResult (Inl e)) es) c)) =
     minute_timers (confOut c) + length es"
  by (induction es arbitrary: c) (simp_all add: post_result_def)

lemma error_body_results:
  assumes "sublist ''200'' status" "sublist ''error'' body" "index_brace body = None"
  shows "\<exists>e. postToConfigurator url txt (Answered status body) = [Inl e, Inl e]"
  using assms by (simp add: postToConfigurator_def Let_def)

lemma minute_round_doubles:
  assumes "sublist ''200'' status" "sublist ''error'' body" "index_brace body = None"
  shows "requests (confOut (minute_round env url txt (Answered status body) k c)) = requests (confOut c) + k"
    and "minute_timers (confOut (minute_round env url txt (Answered status body) k c)) =
      minute_timers (confOut c) + 2 * k"
proof -
  obtain e where e: "postToConfigurator url txt (Answered status body) = [Inl e, Inl e]"
    using error_body_results [OF assms] by blast
  have r: "concat (replicate k (map PostResult [Inl e, Inl e])) = map (\<lambda>e. PostResult (Inl e)) (replicate (2 * k) e)"
    by (induction k) simp_all
  show "requests (confOut (minute_round env url txt (Answered status body) k c)) = requests (confOut c) + k"
    and "minute_timers (confOut (minute_round env url txt (Answered status body) k c)) = minute_timers (confOut c) + 2 * k"
    by (simp_all only: minute_round_def e r fold_append comp_apply error_results minutes_over length_replicate)
qed

section \<open>Properties\<close>

text \<open>While the configurator answers with an error that is not JSON, the chief asks it
  twice as often every minute: each answer counts as two failures and each failure sets a timer of its
  own, so that one timer makes \<open>2^n - 1\<close> requests in \<open>n\<close> minutes.\<close>

theorem error_answers_double:
  assumes "sublist ''200'' status" and "sublist ''error'' body" and "index_brace body = None"
  shows "requests (confOut (minutes env url txt (Answered status body) n 1 c)) + 1 = requests (confOut c) + 2 ^ n"
proof -
  have key: "requests (confOut (minutes env url txt (Answered status body) n k c)) + k = requests (confOut c) + k * 2 ^ n" for k
  proof (induction n arbitrary: k c)
    case (Suc n)
    let ?c = "minute_round env url txt (Answered status body) k c"
    have "requests (confOut (minutes env url txt (Answered status body) n (2 * k) ?c)) + 2 * k =
      requests (confOut ?c) + 2 * k * 2 ^ n" by (rule Suc.IH)
    then show ?case
      using minute_round_doubles [OF assms, of env url _ k c] by (simp add: Let_def)
  qed simp
  show ?thesis using key [of 1] by simp
qed

definition example_conf_env :: conf_env where
  "example_conf_env = \<lparr>jsonDoc = (\<lambda>t. None), localIPs = [''10.0.0.1''], startWebPort = 13000, pullResult = None,
     dockerVersions = Inr [], binaryVersions = Inr [''1.0''], stopContainers = None, versionsText = concat,
     cfgText = (\<lambda>c. []), jsonError = (\<lambda>t. ''bad'')\<rparr>"

definition zeroChiefState :: ChiefState where
  "zeroChiefState = \<lparr>CntrlID = 0, IPAddr = [], CommonState = [], CommonErrorMessage = [], ControllerVersion = [],
     DockerVersion = [], ChannelStates = None, ProviderStates = [], ChannelStatesMap = (\<lambda>_. None)\<rparr>"

theorem error_answers_double_witness:
  "requests (confOut (minutes example_conf_env ''/settings'' ''{}'' (Answered ''200 OK'' ''error: no such controller'') 5 1
      (NewChiefClient False zeroChiefState))) + 1 =
    requests (confOut (NewChiefClient False zeroChiefState)) + 2 ^ 5"
  by (rule error_answers_double) (simp_all add: sublist_code)

text \<open>C37: The chief reports its state to the configurator only on the strength of settings
  it has got from it: from the start, and from any failure of a POST on, no heartbeat is sent before an
  answer with settings has come, not even with settings read from the file.\<close>

theorem heartbeat_needs_settings:
  assumes "list_all (no_settings_answer env) xs"
  shows "heartbeats (confOut (fold (conf_step env) xs (NewChiefClient docker st))) = [] \<and>
    heartbeats (confOut (fold (conf_step env) (PostResult (Inl err) # xs) c)) = heartbeats (confOut c)"
proof -
  have "\<not> IsInitialised (ChiefCfg (NewChiefClient docker st))"
    by (simp add: NewChiefClient_def initialChiefCfg_def zeroChiefSettings_def)
  from conf_run_silent [OF assms this] have "heartbeats (confOut (fold (conf_step env) xs (NewChiefClient docker st))) = []"
    by (simp add: NewChiefClient_def)
  moreover have "\<not> IsInitialised (ChiefCfg (conf_step env (PostResult (Inl err)) c))"
    "heartbeats (confOut (conf_step env (PostResult (Inl err)) c)) = heartbeats (confOut c)"
    by (simp_all add: post_result_def)
  ultimately show ?thesis using conf_run_silent [OF assms] by simp
qed

theorem heartbeat_needs_settings_witness:
  "let xs = [HeartbeatTick, LocalTimer (GoodFile initialChiefCfg), HeartbeatTick]
   in heartbeats (confOut (fold (conf_step example_conf_env) xs (NewChiefClient False zeroChiefState))) = [] \<and>
    heartbeats (confOut (fold (conf_step example_conf_env) (PostResult (Inl ''down'') # xs)
      (NewChiefClient False zeroChiefState))) = heartbeats (confOut (NewChiefClient False zeroChiefState))"
  unfolding Let_def by (rule heartbeat_needs_settings) (simp add: no_settings_answer_def)

lemma initAfter_extends: "\<exists>es. confOut (initAfterGetSettings env d) = confOut d @ es"
  by (auto simp: initAfterGetSettings_def request_config_def Let_def split: sum.split option.split)

text \<open>What an answer with settings leaves, and that it is saved first.\<close>

lemma answer_taken:
  assumes "Unmarshal hdr_fields (jsonDoc env result) zeroHdr = (\<lparr>confHeader = ChiefSettsAnswerHdr\<rparr>, True)"
    and "decode_chief (jsonDoc env result) (zeroChiefSettings\<lparr>cfCntrlID := -1\<rparr>) = (cfg, True)"
  shows "ChiefCfg (conf_step env (PostResult (Inr result)) c) =
      cfg\<lparr>IsInitialised := True,
        ChannelSetts := map (channel_with_url env (cfg\<lparr>IsInitialised := True\<rparr>)) (ChannelSetts cfg),
        ProvidersSetts := map (provider_with_port (cfg\<lparr>IsInitialised := True\<rparr>)) (ProvidersSetts cfg)\<rparr>"
    and "SaveChief (cfg\<lparr>IsInitialised := True\<rparr>) \<in> set (confOut (conf_step env (PostResult (Inr result)) c))"
    and "last (confOut (conf_step env (PostResult (Inr result)) c)) = SettChanged"
    and "CntrlID (commonState (conf_step env (PostResult (Inr result)) c)) = cfCntrlID cfg"
proof -
  have ini: "zeroChiefSettings\<lparr>cfCntrlID := -1, cfIPAddr := [], IsInitialised := False\<rparr> =
    zeroChiefSettings\<lparr>cfCntrlID := -1\<rparr>" by (simp add: zeroChiefSettings_def)
  let ?d = "conf_emit (SaveChief (cfg\<lparr>IsInitialised := True\<rparr>)) (conf_emit StopTimer (conf_emit (ConfPrint PrintDebug
    ((ru ''Polu4eny nastrojki ot konfiguratora. '') @ cfgText env (cfg\<lparr>IsInitialised := True\<rparr>) @ ''.''))
    (c\<lparr>ChiefCfg := cfg\<lparr>IsInitialised := True\<rparr>\<rparr>)))"
  have step: "conf_step env (PostResult (Inr result)) c = sendSettings env (initAfterGetSettings env ?d)"
    using assms by (simp add: post_result_def settings_answered_def ini Let_def)
  obtain es where "confOut (initAfterGetSettings env ?d) = confOut ?d @ es" using initAfter_extends by blast
  then show "SaveChief (cfg\<lparr>IsInitialised := True\<rparr>) \<in> set (confOut (conf_step env (PostResult (Inr result)) c))"
    by (simp add: step sendSettings_def Let_def del: conf_step.simps)
  show "ChiefCfg (conf_step env (PostResult (Inr result)) c) =
      cfg\<lparr>IsInitialised := True,
        ChannelSetts := map (channel_with_url env (cfg\<lparr>IsInitialised := True\<rparr>)) (ChannelSetts cfg),
        ProvidersSetts := map (provider_with_port (cfg\<lparr>IsInitialised := True\<rparr>)) (ProvidersSetts cfg)\<rparr>"
    and "last (confOut (conf_step env (PostResult (Inr result)) c)) = SettChanged"
    and "CntrlID (commonState (conf_step env (PostResult (Inr result)) c)) = cfCntrlID cfg"
    by (simp_all add: step sendSettings_def Let_def del: conf_step.simps)
qed

text \<open>An answer with settings is applied as a whole: the settings become those of the
  document, with the addresses of the channels' pages and the ports and encodings of the providers
  filled in, they are saved as they came, and announced once; from then on the next heartbeat answer
  asks for the settings again exactly if its time stamp differs from theirs.\<close>

theorem settings_answered_applied:
  assumes "Unmarshal hdr_fields (jsonDoc env result) zeroHdr = (\<lparr>confHeader = ChiefSettsAnswerHdr\<rparr>, True)"
    and "decode_chief (jsonDoc env result) (zeroChiefSettings\<lparr>cfCntrlID := -1\<rparr>) = (cfg, True)"
    and "Unmarshal hdr_fields (jsonDoc env hbt) zeroHdr = (\<lparr>confHeader = ChiefHbtAnswerHdr\<rparr>, True)"
    and "Unmarshal hbt_answer_fields (jsonDoc env hbt) zeroHbtAnswer = (ans, True)"
  shows "let c' = conf_step env (PostResult (Inr result)) c; cfg' = cfg\<lparr>IsInitialised := True\<rparr>
   in ChiefCfg c' = cfg'\<lparr>ChannelSetts := map (channel_with_url env cfg') (ChannelSetts cfg),
        ProvidersSetts := map (provider_with_port cfg') (ProvidersSetts cfg)\<rparr> \<and>
      SaveChief cfg' \<in> set (confOut c') \<and> last (confOut c') = SettChanged \<and>
      CntrlID (commonState c') = cfCntrlID cfg \<and>
      conf_step env (PostResult (Inr hbt)) c' =
        (if ansTimestamp ans = Timestamp cfg then c' else request_config env c')"
proof -
  let ?c' = "conf_step env (PostResult (Inr result)) c"
  have "conf_step env (PostResult (Inr hbt)) ?c' =
      (if ansTimestamp ans = Timestamp cfg then ?c' else request_config env ?c')"
  proof -
    have "Timestamp (ChiefCfg ?c') = Timestamp cfg" by (simp add: answer_taken(1) [OF assms(1,2)] del: conf_step.simps)
    moreover have "ChiefHbtAnswerHdr \<noteq> ChiefSettsAnswerHdr" by (simp add: conf_headers)
    ultimately show ?thesis
      using assms(3,4) by (simp add: post_result_def [of env "Inr hbt"] heartbeat_answered_def conf_step.simps(1) [of env "Inr hbt"] del: conf_step.simps)
  qed
  then show ?thesis using answer_taken [OF assms(1,2), of c] by (simp add: Let_def del: conf_step.simps)
qed

definition example_settings_doc :: json where
  "example_settings_doc = JObj
     [(''MessageHeader'', JStr ''SettingsAnswer''), (''ControllerID'', JInt 7), (''ConfigTimestamp'', JStr ''t1''),
      (''DaemonsPort'', JInt 13100),
      (''FmtpDaemons'', JArr [JObj [(''DaemonID'', JInt 1), (''State'', JBool True), (''DataType'', JStr ''OLDI'')]])]"

definition example_hbt_doc :: json where
  "example_hbt_doc = JObj [(''MessageHeader'', JStr ''WebServerState''), (''ConfigTimestamp'', JStr ''t2'')]"

definition example_answer_env :: conf_env where
  "example_answer_env = example_conf_env\<lparr>jsonDoc :=
     (\<lambda>t. if t = ''s'' then Some example_settings_doc else if t = ''h'' then Some example_hbt_doc else None)\<rparr>"

definition example_answer_cfg :: ChiefSettings where
  "example_answer_cfg = zeroChiefSettings\<lparr>cfCntrlID := 7, Timestamp := ''t1'', ChannelsPort := 13100,
     ChannelSetts := [zeroChannelSettings\<lparr>csId := 1, IsWorking := True, csDataType := ''OLDI''\<rparr>]\<rparr>"

lemma example_headers:
  "Unmarshal hdr_fields (Some example_settings_doc) zeroHdr = (\<lparr>confHeader = ChiefSettsAnswerHdr\<rparr>, True)"
  "Unmarshal hdr_fields (Some example_hbt_doc) zeroHdr = (\<lparr>confHeader = ChiefHbtAnswerHdr\<rparr>, True)"
  by (simp_all add: Unmarshal_def example_settings_doc_def example_hbt_doc_def hdr_fields_def zeroHdr_def
      find_field_def fold_name_def lower_def conf_headers)

lemma example_hbt_answer:
  "Unmarshal hbt_answer_fields (Some example_hbt_doc) zeroHbtAnswer =
    (\<lparr>confHeader = ''WebServerState'', ansTimestamp = ''t2'', ansWebState = []\<rparr>, True)"
  by (simp add: Unmarshal_def example_hbt_doc_def hbt_answer_fields_def hdr_fields_def zeroHbtAnswer_def
      find_field_def)

lemma example_decoded:
  "decode_chief (Some example_settings_doc) (zeroChiefSettings\<lparr>cfCntrlID := -1\<rparr>) = (example_answer_cfg, True)"
  by (simp add: decode_chief_def decode_object_def example_settings_doc_def chief_settings_fields_def
      find_field_def fold_name_def lower_def plain_def plain_fields_def decode_list_def settings_fields_def
      example_answer_cfg_def zeroChiefSettings_def zeroChannelSettings_def int_min_def int_max_def)

theorem settings_answered_applied_witness:
  "let env = example_answer_env; c = NewChiefClient False zeroChiefState; cfg = example_answer_cfg;
     c' = conf_step env (PostResult (Inr ''s'')) c; cfg' = cfg\<lparr>IsInitialised := True\<rparr>
   in ChiefCfg c' = cfg'\<lparr>ChannelSetts := map (channel_with_url env cfg') (ChannelSetts cfg),
        ProvidersSetts := map (provider_with_port cfg') (ProvidersSetts cfg)\<rparr> \<and>
      SaveChief cfg' \<in> set (confOut c') \<and> last (confOut c') = SettChanged \<and>
      CntrlID (commonState c') = cfCntrlID cfg \<and>
      conf_step env (PostResult (Inr ''h'')) c' =
        (if ''t2'' = Timestamp cfg then c' else request_config env c')"
  using settings_answered_applied [of example_answer_env "''s''" example_answer_cfg "''h''"
      "\<lparr>confHeader = ''WebServerState'', ansTimestamp = ''t2'', ansWebState = []\<rparr>" "NewChiefClient False zeroChiefState"]
  by (simp add: example_answer_env_def example_headers example_hbt_answer example_decoded Let_def del: conf_step.simps)

end
