(* ===== verification/Chief_Server_Runs.thy ===== *)
theory Chief_Server_Runs
  imports Chief_Server
begin

text \<open>
  What the server of the chief does with its channels. New settings stop and start exactly
  the channels they change (\<open>settings_applied\<close>); data go to a channel that is ready, and
  back to the provider with the identifiers 1 to 1000 in turn; a channel whose process did
  not start makes the server wait for ever when it has to stop it.
\<close>

section \<open>Frames\<close>

lemma srv_emit_simps [simp]:
  "srvSetts (srv_emit e cc) = srvSetts cc" "ChannelBinMap (srv_emit e cc) = ChannelBinMap cc"
  "runners (srv_emit e cc) = runners cc" "nextKill (srv_emit e cc) = nextKill cc"
  "wsClients (srv_emit e cc) = wsClients cc" "chStates (srv_emit e cc) = chStates cc"
  "oldiIdent (srv_emit e cc) = oldiIdent cc" "withDocker (srv_emit e cc) = withDocker cc"
  "delayed (srv_emit e cc) = delayed cc" "srvOut (srv_emit e cc) = srvOut cc @ [e]"
  by (simp_all add: srv_emit_def)

lemma init_simps [simp]:
  "srvSetts (initChannelState now s cc) = srvSetts cc"
  "ChannelBinMap (initChannelState now s cc) = ChannelBinMap cc"
  "runners (initChannelState now s cc) = runners cc"
  "nextKill (initChannelState now s cc) = nextKill cc"
  "withDocker (initChannelState now s cc) = withDocker cc"
  "delayed (initChannelState now s cc) = delayed cc"
  "oldiIdent (initChannelState now s cc) = oldiIdent cc"
  by (simp_all add: initChannelState_def Let_def)

text \<open>The messages handed to the provider.\<close>

definition to_fdps :: "ChiefChannelServer \<Rightarrow> pb_msg list" where
  "to_fdps cc = concat (map (\<lambda>e. case e of ToFdps m \<Rightarrow> [m] | _ \<Rightarrow> []) (srvOut cc))"

lemma to_fdps_emit [simp]:
  "to_fdps (srv_emit e cc) = to_fdps cc @ (case e of ToFdps m \<Rightarrow> [m] | _ \<Rightarrow> [])"
  by (simp add: to_fdps_def)

lemma to_fdps_updates [simp]:
  "to_fdps (cc\<lparr>srvSetts := a\<rparr>) = to_fdps cc" "to_fdps (cc\<lparr>ChannelBinMap := b\<rparr>) = to_fdps cc"
  "to_fdps (cc\<lparr>runners := c\<rparr>) = to_fdps cc" "to_fdps (cc\<lparr>nextKill := k\<rparr>) = to_fdps cc"
  "to_fdps (cc\<lparr>wsClients := w\<rparr>) = to_fdps cc" "to_fdps (cc\<lparr>chStates := x\<rparr>) = to_fdps cc"
  "to_fdps (cc\<lparr>oldiIdent := n\<rparr>) = to_fdps cc" "to_fdps (cc\<lparr>delayed := y\<rparr>) = to_fdps cc"
  by (simp_all add: to_fdps_def)

lemma to_fdps_init [simp]: "to_fdps (initChannelState now s cc) = to_fdps cc"
  by (simp add: initChannelState_def Let_def)

text \<open>The part of the server that the settings themselves leave alone: the channels that run
  and what goes to the provider.\<close>

definition engine :: "ChiefChannelServer \<Rightarrow>
    (int \<rightharpoonup> channelBin) \<times> runner list \<times> nat \<times> bool \<times> int list list \<times> int \<times> pb_msg list" where
  "engine cc = (ChannelBinMap cc, runners cc, nextKill cc, withDocker cc, delayed cc, oldiIdent cc, to_fdps cc)"

lemma engine_init [simp]: "engine (initChannelState now s cc) = engine cc"
  by (simp add: engine_def)

lemma engine_emit [simp]: "\<forall>m. e \<noteq> ToFdps m \<Longrightarrow> engine (srv_emit e cc) = engine cc"
  by (simp add: engine_def split: srv_effect.split)

lemma engine_setts [simp]: "engine (cc\<lparr>srvSetts := st\<rparr>) = engine cc"
  by (simp add: engine_def)

lemma restart_all_result:
  "fst (restart_all now new cc) = map csId (filter IsWorking new) \<and>
   engine (snd (restart_all now new cc)) = engine cc \<and>
   srvSetts (snd (restart_all now new cc)) = srvSetts cc"
proof (induction new arbitrary: cc)
  case (Cons v vs)
  show ?case using Cons.IH [of "initChannelState now v cc"]
    by (cases "restart_all now vs (initChannelState now v cc)") simp
qed simp

definition changed_stops :: "ChannelSettings list \<Rightarrow> ChannelSettings list \<Rightarrow> int list" where
  "changed_stops old new =
     map csId (filter (\<lambda>n. \<exists>o'. find_setts (csId n) old = Some o' \<and> o' \<noteq> n \<and> IsWorking o') new)"

definition changed_starts :: "ChannelSettings list \<Rightarrow> ChannelSettings list \<Rightarrow> int list" where
  "changed_starts old new =
     map csId (filter (\<lambda>n. find_setts (csId n) old \<noteq> Some n \<and> IsWorking n) new)"

lemma find_setts_id: "find_setts i ss = Some s \<Longrightarrow> csId s = i \<and> s \<in> set ss"
  by (auto simp: find_setts_def find_Some_iff)

lemma compare_new_result:
  "fst (compare_new now old new cc) = changed_stops old new \<and>
   fst (snd (compare_new now old new cc)) = changed_starts old new \<and>
   engine (snd (snd (compare_new now old new cc))) = engine cc \<and>
   srvSetts (snd (snd (compare_new now old new cc))) = srvSetts cc"
proof (induction new arbitrary: cc)
  case Nil
  then show ?case by (simp add: changed_stops_def changed_starts_def)
next
  case (Cons n new)
  let ?i = "initChannelState now n cc"
  obtain stops starts d where c: "compare_new now old new ?i = (stops, starts, d)"
    by (cases "compare_new now old new ?i") auto
  have i: "stops = changed_stops old new" "starts = changed_starts old new" "engine d = engine cc"
    "srvSetts d = srvSetts cc"
    using Cons.IH [of ?i] by (auto simp: c)
  show ?case
  proof (cases "find_setts (csId n) old")
    case None
    then show ?thesis by (simp add: c i changed_stops_def changed_starts_def)
  next
    case (Some o')
    then have "csId o' = csId n" using find_setts_id by blast
    then show ?thesis using Some Cons.IH [of cc]
      by (cases "o' = n") (auto simp: c i changed_stops_def changed_starts_def)
  qed
qed

section \<open>The channels that run\<close>

text \<open>Every entry of the map has its goroutine at the \<open>select\<close>, and no two share a channel for
  the signal to stop.\<close>

definition all_stoppable :: "ChiefChannelServer \<Rightarrow> bool" where
  "all_stoppable cc \<longleftrightarrow>
     (\<forall>i b. ChannelBinMap cc i = Some b \<longrightarrow>
        (\<exists>r \<in> set (runners cc). rnBin r = b \<and> rnPc r = Running)) \<and>
     (\<forall>i j b d. ChannelBinMap cc i = Some b \<longrightarrow> ChannelBinMap cc j = Some d \<longrightarrow>
        killChan b = killChan d \<longrightarrow> i = j)"

lemma kill_runner_frame [simp]:
  "srvSetts (kill_runner env r cc) = srvSetts cc"
  "ChannelBinMap (kill_runner env r cc) = ChannelBinMap cc"
  "runners (kill_runner env r cc) =
     filter (\<lambda>q. killChan (rnBin q) \<noteq> killChan (rnBin r)) (runners cc)"
  "nextKill (kill_runner env r cc) = nextKill cc" "withDocker (kill_runner env r cc) = withDocker cc"
  "delayed (kill_runner env r cc) = delayed cc"
  by (simp_all add: kill_runner_def runner_stops drop_runner_def Let_def split: option.split)

lemma stop_one_stoppable:
  assumes s: "all_stoppable cc" and rm: "\<And>p. RemoveBinary env p = None"
  shows "\<exists>cc'. stop_one env i cc = Some cc' \<and> ChannelBinMap cc' = (ChannelBinMap cc)(i := None) \<and>
    all_stoppable cc' \<and> srvSetts cc' = srvSetts cc \<and> withDocker cc' = withDocker cc \<and>
    delayed cc' = delayed cc \<and> nextKill cc' = nextKill cc"
proof (cases "ChannelBinMap cc i")
  case None
  then have "(ChannelBinMap cc)(i := None) = ChannelBinMap cc" by auto
  then show ?thesis using None s by (simp add: stop_one_def)
next
  case (Some b)
  let ?P = "\<lambda>r. killChan (rnBin r) = killChan b \<and> rnPc r = Running"
  obtain r0 where "r0 \<in> set (runners cc)" "?P r0"
    using s Some unfolding all_stoppable_def by blast
  then have "find ?P (runners cc) \<noteq> None" unfolding find_None_iff by blast
  then obtain r where r: "find ?P (runners cc) = Some r" by blast
  then have k: "killChan (rnBin r) = killChan b" by (auto simp: find_Some_iff)
  let ?cc = "(kill_runner env r cc)\<lparr>ChannelBinMap := (ChannelBinMap cc)(i := None)\<rparr>"
  have stop: "stop_one env i cc = Some ?cc"
    unfolding stop_one_def Some option.case r Let_def rm if_cancel kill_runner_frame by (rule refl)
  have "all_stoppable ?cc"
    unfolding all_stoppable_def
  proof (intro conjI allI impI)
    fix j d assume "ChannelBinMap ?cc j = Some d"
    then have j: "ChannelBinMap cc j = Some d" "j \<noteq> i" by (auto split: if_splits)
    obtain q where q: "q \<in> set (runners cc)" "rnBin q = d" "rnPc q = Running"
      using s j(1) unfolding all_stoppable_def by blast
    have "killChan d \<noteq> killChan b" using s j Some unfolding all_stoppable_def by blast
    then show "\<exists>q \<in> set (runners ?cc). rnBin q = d \<and> rnPc q = Running" using q k by auto
  next
    fix j l d e
    assume "ChannelBinMap ?cc j = Some d" "ChannelBinMap ?cc l = Some e" "killChan d = killChan e"
    then have "ChannelBinMap cc j = Some d" "ChannelBinMap cc l = Some e" "killChan d = killChan e"
      by (auto split: if_splits)
    then show "j = l" using s unfolding all_stoppable_def by blast
  qed
  with stop show ?thesis by simp
qed

lemma stop_all_stoppable:
  assumes rm: "\<And>p. RemoveBinary env p = None"
  shows "all_stoppable cc \<Longrightarrow>
    \<exists>cc'. stopChannelsByIDs env is cc = Some cc' \<and>
      ChannelBinMap cc' = (\<lambda>i. if i \<in> set is then None else ChannelBinMap cc i) \<and>
      all_stoppable cc' \<and> srvSetts cc' = srvSetts cc \<and> withDocker cc' = withDocker cc \<and>
      delayed cc' = delayed cc \<and> nextKill cc' = nextKill cc"
proof (induction "is" arbitrary: cc)
  case (Cons i "is")
  obtain c where c: "stop_one env i cc = Some c" "ChannelBinMap c = (ChannelBinMap cc)(i := None)"
    "all_stoppable c" "srvSetts c = srvSetts cc" "withDocker c = withDocker cc"
    "delayed c = delayed cc" "nextKill c = nextKill cc"
    using stop_one_stoppable [OF Cons.prems rm] by blast
  from Cons.IH [OF c(3)] obtain c' where c': "stopChannelsByIDs env is c = Some c'"
    "ChannelBinMap c' = (\<lambda>j. if j \<in> set is then None else ChannelBinMap c j)"
    "all_stoppable c'" "srvSetts c' = srvSetts c" "withDocker c' = withDocker c"
    "delayed c' = delayed c" "nextKill c' = nextKill c" by blast
  have "ChannelBinMap c' = (\<lambda>j. if j \<in> set (i # is) then None else ChannelBinMap cc j)"
    by (auto simp: c'(2) c(2))
  then show ?case using c(1,4-) c'(1,3-) by simp
qed simp

lemma start_one_frame:
  "srvSetts (start_one env i cc) = srvSetts cc \<and> withDocker (start_one env i cc) = withDocker cc \<and>
   (\<forall>j. j \<noteq> i \<longrightarrow> ChannelBinMap (start_one env i cc) j = ChannelBinMap cc j)"
  by (simp add: start_one_def store_bin_def Let_def split: option.split sum.split)

lemma start_one_dom:
  assumes "\<And>v i l r. \<exists>p. CopyBinary env v i l r = Inr p"
  shows "dom (ChannelBinMap (start_one env i cc)) =
    dom (ChannelBinMap cc) \<union> (if find_setts i (ChSettings (srvSetts cc)) = None then {} else {i})"
proof (cases "find_setts i (ChSettings (srvSetts cc))")
  case None
  then show ?thesis by (simp add: start_one_def)
next
  case (Some s)
  obtain p where "CopyBinary env (csVersion s) (csId s) (LocalATC s) (RemoteATC s) = Inr p"
    using assms by blast
  with Some show ?thesis by (auto simp: start_one_def store_bin_def Let_def)
qed

lemma start_all:
  assumes "\<And>v i l r. \<exists>p. CopyBinary env v i l r = Inr p"
  shows "srvSetts (startChannelsByIDs env is cc) = srvSetts cc \<and>
    dom (ChannelBinMap (startChannelsByIDs env is cc)) =
      dom (ChannelBinMap cc) \<union> {i \<in> set is. find_setts i (ChSettings (srvSetts cc)) \<noteq> None} \<and>
    (\<forall>j. j \<notin> set is \<longrightarrow> ChannelBinMap (startChannelsByIDs env is cc) j = ChannelBinMap cc j)"
proof (induction "is" arbitrary: cc)
  case (Cons i "is")
  show ?case
    using Cons.IH [of "start_one env i cc"] start_one_frame [of env i cc] start_one_dom [OF assms, of i cc]
    by (auto simp: startChannelsByIDs_def split: if_splits)
qed (simp add: startChannelsByIDs_def)

section \<open>New settings\<close>

lemma find_setts_member:
  "distinct (map csId ss) \<Longrightarrow> s \<in> set ss \<Longrightarrow> find_setts (csId s) ss = Some s"
  unfolding find_setts_def by (rule find_unique) (auto simp: distinct_map dest: inj_onD)

lemma find_setts_None: "find_setts i ss = None \<longleftrightarrow> i \<notin> csId ` set ss"
  by (auto simp: find_setts_def find_None_iff)

definition working_ids :: "ChannelSettings list \<Rightarrow> int set" where
  "working_ids ss = csId ` {s \<in> set ss. IsWorking s}"

text \<open>The identifiers to stop and to start.\<close>

definition stops_of :: "ChannelSettingsWithPort \<Rightarrow> ChannelSettingsWithPort \<Rightarrow> int list" where
  "stops_of old new =
     (if ChPort old \<noteq> ChPort new then map csId (filter IsWorking (ChSettings old))
      else if ChSettings old \<noteq> ChSettings new then
        changed_stops (ChSettings old) (ChSettings new) @ removed_ids (ChSettings old) (ChSettings new)
      else [])"

definition starts_of :: "ChannelSettingsWithPort \<Rightarrow> ChannelSettingsWithPort \<Rightarrow> int list" where
  "starts_of old new =
     (if ChPort old \<noteq> ChPort new then map csId (filter IsWorking (ChSettings new))
      else if ChSettings old \<noteq> ChSettings new then changed_starts (ChSettings old) (ChSettings new)
      else [])"

lemma new_settings_stops:
  "\<exists>c. engine c = engine cc \<and> srvSetts c = newSetts \<and>
     new_settings env now newSetts cc =
       map_option (\<lambda>d. d\<lparr>delayed := delayed d @ [starts_of (srvSetts cc) newSetts]\<rparr>)
         (stopChannelsByIDs env (stops_of (srvSetts cc) newSetts) c)"
proof -
  let ?old = "ChSettings (srvSetts cc)" and ?new = "ChSettings newSetts"
  consider (port) "ChPort (srvSetts cc) \<noteq> ChPort newSetts"
    | (changed) "ChPort (srvSetts cc) = ChPort newSetts" "?old \<noteq> ?new"
    | (same) "ChPort (srvSetts cc) = ChPort newSetts" "?old = ?new" by blast
  then show ?thesis
  proof cases
    case port
    let ?c = "srv_emit (WsServerPort (ChPort newSetts)) cc"
    obtain starts d where d: "restart_all now ?new ?c = (starts, d)" by fastforce
    have "starts = map csId (filter IsWorking ?new)" "engine d = engine cc"
      using restart_all_result [of now ?new ?c] by (auto simp: d)
    then show ?thesis using port
      by (intro exI [of _ "d\<lparr>srvSetts := newSetts\<rparr>"])
        (simp add: new_settings_def d stops_of_def starts_of_def map_option_case Let_def)
  next
    case changed
    obtain stops starts d where d: "compare_new now ?old ?new cc = (stops, starts, d)"
      by (cases "compare_new now ?old ?new cc") auto
    have "stops = changed_stops ?old ?new" "starts = changed_starts ?old ?new" "engine d = engine cc"
      using compare_new_result [of now ?old ?new cc] by (auto simp: d)
    then show ?thesis using changed
      by (intro exI [of _ "d\<lparr>srvSetts := newSetts\<rparr>"])
        (simp add: new_settings_def d stops_of_def starts_of_def map_option_case Let_def)
  next
    case same
    then show ?thesis
      by (intro exI [of _ "cc\<lparr>srvSetts := newSetts\<rparr>"])
        (simp add: new_settings_def stops_of_def starts_of_def map_option_case Let_def)
  qed
qed

lemma all_stoppable_engine: "engine c = engine cc \<Longrightarrow> all_stoppable c = all_stoppable cc"
  by (simp add: engine_def all_stoppable_def)

text \<open>What is stopped and started, for settings in which no identifier comes twice.\<close>

lemma set_stops_starts:
  assumes "distinct (map csId (ChSettings old))" "distinct (map csId (ChSettings new))"
  shows "set (stops_of old new) =
      csId ` {s \<in> set (ChSettings old). IsWorking s \<and> (ChPort old \<noteq> ChPort new \<or> s \<notin> set (ChSettings new))}"
    and "set (starts_of old new) =
      csId ` {s \<in> set (ChSettings new). IsWorking s \<and> (ChPort old \<noteq> ChPort new \<or> s \<notin> set (ChSettings old))}"
proof -
  have old: "find_setts (csId n) (ChSettings old) = Some s \<longleftrightarrow> s \<in> set (ChSettings old) \<and> csId s = csId n" for n s
    using find_setts_member [OF assms(1), of s] find_setts_id [of "csId n" "ChSettings old" s] by auto
  have uniq: "s = t" if "s \<in> set (ChSettings new)" "t \<in> set (ChSettings new)" "csId s = csId t" for s t
    using that assms(2) by (auto simp: distinct_map dest: inj_onD)
  have "csId ` {s \<in> set (ChSettings old). IsWorking s \<and> s \<notin> set (ChSettings new)} =
      set (changed_stops (ChSettings old) (ChSettings new)) \<union> set (removed_ids (ChSettings old) (ChSettings new))"
    (is "?l = ?r")
  proof
    show "?l \<subseteq> ?r"
    proof
      fix i assume "i \<in> ?l"
      then obtain s where s: "s \<in> set (ChSettings old)" "IsWorking s" "s \<notin> set (ChSettings new)" "i = csId s"
        by blast
      show "i \<in> ?r"
      proof (cases "find_setts i (ChSettings new)")
        case None
        with s show ?thesis by (auto simp: removed_ids_def)
      next
        case (Some n)
        then have n: "csId n = csId s" "n \<in> set (ChSettings new)" using find_setts_id s(4) by metis+
        then have "find_setts (csId n) (ChSettings old) = Some s" "s \<noteq> n" using old s by auto
        then have "csId n \<in> set (changed_stops (ChSettings old) (ChSettings new))"
          using n(2) s(2) by (auto simp: changed_stops_def)
        then show ?thesis using n(1) s(4) by simp
      qed
    qed
    show "?r \<subseteq> ?l"
    proof
      fix i assume "i \<in> ?r"
      then consider n s where "n \<in> set (ChSettings new)" "find_setts (csId n) (ChSettings old) = Some s"
          "s \<noteq> n" "IsWorking s" "i = csId n"
        | s where "s \<in> set (ChSettings old)" "find_setts (csId s) (ChSettings new) = None" "IsWorking s" "i = csId s"
        by (auto simp: changed_stops_def removed_ids_def)
      then show "i \<in> ?l"
      proof cases
        case 1
        then have "s \<in> set (ChSettings old)" "csId s = csId n" using old by auto
        moreover have "s \<notin> set (ChSettings new)" using uniq [of s n] 1(1,3) \<open>csId s = csId n\<close> by auto
        ultimately show ?thesis using 1(4,5) by (intro image_eqI [of _ _ s]) auto
      next
        case 2
        then show ?thesis by (auto simp: find_setts_None)
      qed
    qed
  qed
  then show "set (stops_of old new) =
      csId ` {s \<in> set (ChSettings old). IsWorking s \<and> (ChPort old \<noteq> ChPort new \<or> s \<notin> set (ChSettings new))}"
    by (auto simp: stops_of_def)
  show "set (starts_of old new) =
      csId ` {s \<in> set (ChSettings new). IsWorking s \<and> (ChPort old \<noteq> ChPort new \<or> s \<notin> set (ChSettings old))}"
    by (auto simp: starts_of_def changed_starts_def old)
qed

text \<open>The settings are in force: exactly the channels that should work have an entry.\<close>

definition in_force :: "ChiefChannelServer \<Rightarrow> bool" where
  "in_force cc \<longleftrightarrow> dom (ChannelBinMap cc) = working_ids (ChSettings (srvSetts cc))"

definition binaries_ok :: "srv_env \<Rightarrow> bool" where
  "binaries_ok env \<longleftrightarrow> (\<forall>p. RemoveBinary env p = None) \<and> (\<forall>v i l r. \<exists>p. CopyBinary env v i l r = Inr p)"

lemma delayed_start_last:
  "delayed_start env (length ds) (cc\<lparr>delayed := ds @ [is]\<rparr>) =
     Some (startChannelsByIDs env is (cc\<lparr>delayed := ds\<rparr>))"
  by (simp add: delayed_start_def)

lemma working_split:
  assumes "distinct (map csId old)"
  shows "working_ids old - csId ` {s \<in> set old. IsWorking s \<and> (p \<or> s \<notin> set new)} =
    (if p then {} else csId ` {s \<in> set old. IsWorking s \<and> s \<in> set new})"
  using assms by (auto simp: working_ids_def distinct_map dest: inj_onD)

lemma new_settings_force:
  assumes stop: "all_stoppable cc" and force: "in_force cc" and env: "binaries_ok env"
    and old: "distinct (map csId (ChSettings (srvSetts cc)))"
    and new: "distinct (map csId (ChSettings newSetts))"
  shows "\<exists>cc' cc''. new_settings env now newSetts cc = Some cc' \<and>
    delayed_start env (length (delayed cc)) cc' = Some cc'' \<and>
    srvSetts cc'' = newSetts \<and> in_force cc'' \<and>
    (ChPort (srvSetts cc) = ChPort newSetts \<longrightarrow>
      (\<forall>s \<in> set (ChSettings (srvSetts cc)) \<inter> set (ChSettings newSetts).
         ChannelBinMap cc'' (csId s) = ChannelBinMap cc (csId s)))"
proof -
  have rm: "RemoveBinary env p = None" for p using env by (simp add: binaries_ok_def)
  have copy: "\<exists>p. CopyBinary env v i l r = Inr p" for v i l r using env by (simp add: binaries_ok_def)
  let ?stops = "stops_of (srvSetts cc) newSetts" and ?starts = "starts_of (srvSetts cc) newSetts"
  obtain c where c: "engine c = engine cc" "srvSetts c = newSetts"
    "new_settings env now newSetts cc =
       map_option (\<lambda>d. d\<lparr>delayed := delayed d @ [?starts]\<rparr>) (stopChannelsByIDs env ?stops c)"
    using new_settings_stops by blast
  have "all_stoppable c" using stop all_stoppable_engine [OF c(1)] by simp
  from stop_all_stoppable [OF rm this] obtain d where d: "stopChannelsByIDs env ?stops c = Some d"
    "ChannelBinMap d = (\<lambda>i. if i \<in> set ?stops then None else ChannelBinMap c i)"
    "srvSetts d = srvSetts c" "delayed d = delayed c" by blast
  have bins: "ChannelBinMap c = ChannelBinMap cc" "delayed c = delayed cc"
    using c(1) by (simp_all add: engine_def)
  let ?e = "startChannelsByIDs env ?starts d"
  have start: "srvSetts ?e = srvSetts d"
    "dom (ChannelBinMap ?e) = dom (ChannelBinMap d) \<union> {i \<in> set ?starts. find_setts i (ChSettings (srvSetts d)) \<noteq> None}"
    "\<forall>j. j \<notin> set ?starts \<longrightarrow> ChannelBinMap ?e j = ChannelBinMap d j"
    using start_all [OF copy, of ?starts d] by blast+
  note sets = set_stops_starts [OF old new]
  have found: "{i \<in> set ?starts. find_setts i (ChSettings newSetts) \<noteq> None} = set ?starts"
    by (auto simp: sets(2) find_setts_None)
  have "dom (ChannelBinMap d) = working_ids (ChSettings (srvSetts cc)) - set ?stops"
    using force by (auto simp: d(2) bins in_force_def dom_def)
  then have dom_d: "dom (ChannelBinMap d) =
      (if ChPort (srvSetts cc) \<noteq> ChPort newSetts then {}
       else csId ` {s \<in> set (ChSettings (srvSetts cc)). IsWorking s \<and> s \<in> set (ChSettings newSetts)})"
    by (simp only: sets(1) working_split [OF old])
  have dom_e: "dom (ChannelBinMap ?e) = dom (ChannelBinMap d) \<union> set ?starts"
    using start(2) found by (simp add: d(3) c(2))
  have "dom (ChannelBinMap ?e) = working_ids (ChSettings newSetts)"
    unfolding dom_e dom_d sets(2) working_ids_def
    by (cases "ChPort (srvSetts cc) = ChPort newSetts") auto
  then have force': "in_force ?e" by (simp add: in_force_def start(1) d(3) c(2))
  have keep: "ChannelBinMap ?e (csId s) = ChannelBinMap cc (csId s)"
    if "ChPort (srvSetts cc) = ChPort newSetts" and s: "s \<in> set (ChSettings (srvSetts cc)) \<inter> set (ChSettings newSetts)" for s
  proof -
    have eq: "t = s" if "t \<in> set (ChSettings (srvSetts cc)) \<or> t \<in> set (ChSettings newSetts)" "csId t = csId s" for t
      using that s old new by (auto simp: distinct_map dest: inj_onD)
    have "csId s \<notin> csId ` {t. (t \<in> set (ChSettings (srvSetts cc)) \<or> t \<in> set (ChSettings newSetts)) \<and> t \<noteq> s}"
      using eq by (auto dest: sym)
    then have "csId s \<notin> set ?stops" "csId s \<notin> set ?starts"
      unfolding sets using that(1) s by blast+
    then show ?thesis by (simp add: start(3) d(2) bins)
  qed
  have new_eq: "new_settings env now newSetts cc = Some (d\<lparr>delayed := delayed cc @ [?starts]\<rparr>)"
    by (simp add: c(3) d(1,4) bins)
  have "d\<lparr>delayed := delayed cc\<rparr> = d" using d(4) bins(2) by simp
  then have "delayed_start env (length (delayed cc)) (d\<lparr>delayed := delayed cc @ [?starts]\<rparr>) = Some ?e"
    by (simp add: delayed_start_last)
  then show ?thesis using new_eq force' keep start(1) d(3) c(2) by auto
qed

section \<open>A channel that did not start\<close>

text \<open>The signals to stop are told apart: no two goroutines wait for the same one.\<close>

definition distinct_kills :: "ChiefChannelServer \<Rightarrow> bool" where
  "distinct_kills cc \<longleftrightarrow> distinct (map (killChan \<circ> rnBin) (runners cc))"

lemma stop_waits:
  assumes "ChannelBinMap cc i = Some b" "\<forall>r \<in> set (runners cc). killChan (rnBin r) \<noteq> killChan b"
  shows "stop_one env i cc = None"
proof -
  have "find (\<lambda>r. killChan (rnBin r) = killChan b \<and> rnPc r = Running) (runners cc) = None"
    using assms(2) by (auto simp: find_None_iff)
  with assms(1) show ?thesis by (simp add: stop_one_def)
qed

lemma process_start_failed:
  "ChannelBinMap (process_start env r (Some e) cc) = ChannelBinMap cc"
  "runners (process_start env r (Some e) cc) =
     filter (\<lambda>q. killChan (rnBin q) \<noteq> killChan (rnBin r)) (runners cc)"
  by (simp_all add: process_start_def drop_runner_def Let_def)

lemma start_failure_blocks:
  assumes "ChannelBinMap cc (csId (rnSetts r)) = Some (rnBin r)"
  shows "stop_one env (csId (rnSetts r)) (process_start env r (Some e) cc) = None"
  by (rule stop_waits [where b = "rnBin r"]) (simp_all add: process_start_failed assms)

lemma check_runners [simp]: "runners (checkChannelWorking i cc) = runners cc"
  by (simp add: checkChannelWorking_def split: option.split)

lemma check_bins [simp]: "ChannelBinMap (checkChannelWorking i cc) = ChannelBinMap cc"
  by (simp add: checkChannelWorking_def split: option.split)

lemma clean_exit_blocks:
  assumes "ChannelBinMap cc (csId (rnSetts r)) = Some (rnBin r)"
  shows "stop_one env (csId (rnSetts r)) (process_exit r None cc) = None"
  by (rule stop_waits [where b = "rnBin r"]) (simp_all add: process_exit_def drop_runner_def assms Let_def)

text \<open>A process that exits without an error is not started again.\<close>

lemma clean_exit_not_restarted:
  assumes "ChannelBinMap cc (csId (rnSetts r)) = Some (rnBin r)"
  shows "delayed (process_exit r None cc) = delayed cc"
proof -
  let ?i = "csId (rnSetts r)"
  have "delayed (checkChannelWorking ?i d) = delayed d" if "ChannelBinMap d ?i \<noteq> None" for d
  proof (cases "find (\<lambda>s. csId s = ?i \<and> IsWorking s) (ChSettings (srvSetts d))")
    case (Some s)
    then have "csId s = ?i" by (auto simp: find_Some_iff)
    with Some that show ?thesis by (auto simp: checkChannelWorking_def)
  qed (simp add: checkChannelWorking_def)
  then show ?thesis using assms by (simp add: process_exit_def drop_runner_def Let_def)
qed

lemma crash_restarted:
  assumes "find_setts (csId (rnSetts r)) (ChSettings (srvSetts cc)) = Some s" "IsWorking s"
  shows "delayed (process_exit r (Some e) cc) = delayed cc @ [[csId (rnSetts r)]]"
proof -
  let ?i = "csId (rnSetts r)"
  have set_state: "srvSetts (set_state_error ?i d) = srvSetts d" "delayed (set_state_error ?i d) = delayed d"
    "ChannelBinMap (set_state_error ?i d) = ChannelBinMap d" for d
    by (simp_all add: set_state_error_def split: option.split)
  have w: "find (\<lambda>s. csId s = ?i \<and> IsWorking s) (ChSettings (srvSetts cc)) \<noteq> None"
    using assms find_setts_id [OF assms(1)] unfolding find_None_iff by blast
  then obtain t where t: "find (\<lambda>s. csId s = ?i \<and> IsWorking s) (ChSettings (srvSetts cc)) = Some t" by blast
  then have "csId t = ?i" by (auto simp: find_Some_iff)
  with t show ?thesis
    by (simp add: process_exit_def drop_runner_def delete_bin_def checkChannelWorking_def set_state Let_def)
qed

section \<open>Messages\<close>

definition to_channels :: "ChiefChannelServer \<Rightarrow> (json \<times> socket option) list" where
  "to_channels cc = concat (map (\<lambda>e. case e of SendWs j s \<Rightarrow> [(j, s)] | _ \<Rightarrow> []) (srvOut cc))"

lemma to_channels_emit [simp]:
  "to_channels (srv_emit e cc) = to_channels cc @ (case e of SendWs j s \<Rightarrow> [(j, s)] | _ \<Rightarrow> [])"
  by (simp add: to_channels_def)

lemma other_headers [simp]:
  "ChannelMessageHeader \<noteq> RequestSettingsHeader" "ChannelMessageHeader \<noteq> ChannelHeartbeatHeader"
  "ChannelMessageHeader \<noteq> ChannelLogHeader" "ChannelHeartbeatHeader \<noteq> RequestSettingsHeader"
  "ChannelLogHeader \<noteq> RequestSettingsHeader" "ChannelLogHeader \<noteq> ChannelHeartbeatHeader"
  by (simp_all add: header_defs)

text \<open>A data message of an OLDI channel goes to the provider with the name of the remote side
  and the next identifier, and without a time of reception.\<close>

lemma channel_message:
  assumes "int64 (csId s)" "find_setts (csId s) (ChSettings (srvSetts cc)) = Some s"
    "csDataType s = OLDIProvider"
    "wsDoc d = Some (marshal_data (CreateChannelDataMsg (csId s) m))"
  shows "to_fdps (ws_received env now sock d cc) = to_fdps cc @
      [zeroPbMsg\<lparr>pbId := Itoa (oldiIdent cc), pbCid := RemoteATC s, pbTxt := msgText m\<rparr>]"
    and "oldiIdent (ws_received env now sock d cc) = (if oldiIdent cc + 1 > 1000 then 1 else oldiIdent cc + 1)"
    and "srvSetts (ws_received env now sock d cc) = srvSetts cc"
proof -
  let ?m = "CreateChannelDataMsg (csId s) m"
  have m: "Header ?m = ChannelMessageHeader" "dataChannelID ?m = csId s" "dataMessage ?m = m"
    by (simp_all add: CreateChannelDataMsg_def)
  have w: "ws_received env now sock d cc = message_received d cc"
    by (simp add: ws_received_def assms(4) read_headers m)
  have r: "Unmarshal data_fields (wsDoc d) zeroDataMsg = (?m, True)"
    using read_data [of ?m] assms(1) by (simp add: assms(4) m)
  have fd: "to_fdps (cc\<lparr>oldiIdent := n\<rparr>) = to_fdps cc" for n by (simp add: to_fdps_def)
  show "to_fdps (ws_received env now sock d cc) = to_fdps cc @
      [zeroPbMsg\<lparr>pbId := Itoa (oldiIdent cc), pbCid := RemoteATC s, pbTxt := msgText m\<rparr>]"
    "oldiIdent (ws_received env now sock d cc) = (if oldiIdent cc + 1 > 1000 then 1 else oldiIdent cc + 1)"
    "srvSetts (ws_received env now sock d cc) = srvSetts cc"
    using assms(2,3) by (simp_all add: w message_received_def r m Let_def fd)
qed

text \<open>A packet of the provider goes to a channel that has a client and is ready, as a message
  the channel reads back.\<close>

lemma provider_packet:
  "to_channels (ProcessOldiPacket p cc) = to_channels cc @
    (case wsClients cc (ChanId p) of
       None \<Rightarrow> []
     | Some sock \<Rightarrow>
         (case map_of (chStates cc) (ChanId p) of
            Some st \<Rightarrow>
              if stFmtpState (chState st) = FmtpState_ToString DataReady
              then [(marshal_data (CreateChiefDataMsg (ChanId p) (pbTxt (PbMsg p))), sock)] else []
          | None \<Rightarrow> []))"
  by (simp add: ProcessOldiPacket_def Let_def split: option.split)

text \<open>The answer to a channel the settings do not have.\<close>

lemma unknown_channel_answer:
  assumes "int64 i" "i \<noteq> 0" "find_setts i (ChSettings (srvSetts cc)) = None"
    and "wsDoc d = Some (marshal_request (CreateSettingsRequestMsg i))"
  shows "to_channels (ws_received env now sock d cc) = to_channels cc @
    [(marshal_answer (CreateSettingsAnswerMsg zeroChannelSettings),
      case wsClients cc 0 of Some s \<Rightarrow> s | None \<Rightarrow> None)]"
proof -
  let ?m = "CreateSettingsRequestMsg i"
  have m: "Header ?m = RequestSettingsHeader" "reqChannelID ?m = i"
    by (simp_all add: CreateSettingsRequestMsg_def)
  have z: "csId zeroChannelSettings = 0" by (simp add: zeroChannelSettings_def)
  have tc: "to_channels (cc\<lparr>wsClients := w\<rparr>) = to_channels cc" for w by (simp add: to_channels_def)
  have "ws_received env now sock d cc = request_received sock d cc"
    by (simp add: ws_received_def assms(4) read_headers m)
  then show ?thesis
    using assms(1-3) by (simp add: request_received_def assms(4) read_request m Let_def z tc split: option.split)
qed

lemma known_channel_answer:
  assumes "int64 (csId s)" "find_setts (csId s) (ChSettings (srvSetts cc)) = Some s"
    and "wsDoc d = Some (marshal_request (CreateSettingsRequestMsg (csId s)))"
  shows "to_channels (ws_received env now sock d cc) = to_channels cc @
    [(marshal_answer (CreateSettingsAnswerMsg s), Some sock)]"
proof -
  let ?m = "CreateSettingsRequestMsg (csId s)"
  have m: "Header ?m = RequestSettingsHeader" "reqChannelID ?m = csId s"
    by (simp_all add: CreateSettingsRequestMsg_def)
  have tc: "to_channels (cc\<lparr>wsClients := w\<rparr>) = to_channels cc" for w by (simp add: to_channels_def)
  have "ws_received env now sock d cc = request_received sock d cc"
    by (simp add: ws_received_def assms(3) read_headers m)
  then show ?thesis
    using assms(1,2) by (simp add: request_received_def assms(3) read_request m Let_def tc)
qed

section \<open>Reported states\<close>

lemma init_state_of:
  "map_of (chStates (initChannelState now s cc)) =
     (map_of (chStates cc))(csId s \<mapsto>
       \<lparr>chState = \<lparr>ChannelID = csId s, stLocalName = LocalATC s, stRemoteName = RemoteATC s,
                   DaemonState = (if IsWorking s then ChannelStateError else ChannelStateStopped),
                   stFmtpState = ''disabled'',
                   ChannelURL = concat [''http://'', URLAddress s, '':'', Itoa (URLPort s), ''/'', URLPath s],
                   StateColor = []\<rparr>,
        chTime = now\<rparr>)"
  by (simp add: initChannelState_def Let_def update_conv')

lemma refresh_other:
  "j \<noteq> i \<Longrightarrow> map_of (chStates (refresh_state now i cc)) j = map_of (chStates cc) j"
  by (auto simp: refresh_state_def init_state_of delete_conv' find_Some_iff split: option.split)

lemma refresh_setts [simp]: "srvSetts (refresh_state now i cc) = srvSetts cc"
  by (simp add: refresh_state_def split: option.split)

lemma refresh_removed:
  "find (\<lambda>s. csId s = i \<and> IsWorking s) (ChSettings (srvSetts cc)) = None \<Longrightarrow>
   refresh_state now i cc = cc"
  by (simp add: refresh_state_def split: option.split)

lemma fold_refresh_removed:
  assumes "\<forall>s \<in> set (ChSettings (srvSetts cc)). csId s \<noteq> i"
  shows "map_of (chStates (fold (refresh_state now) is cc)) i = map_of (chStates cc) i \<and>
    srvSetts (fold (refresh_state now) is cc) = srvSetts cc"
  using assms
proof (induction "is" arbitrary: cc)
  case (Cons j "is")
  have "find (\<lambda>s. csId s = i \<and> IsWorking s) (ChSettings (srvSetts cc)) = None"
    using Cons.prems by (auto simp: find_None_iff)
  then have "map_of (chStates (refresh_state now j cc)) i = map_of (chStates cc) i"
    using refresh_removed refresh_other by (cases "i = j") auto
  with Cons.IH [of "refresh_state now j cc"] Cons.prems show ?case by simp
qed simp

text \<open>A channel that is no longer in the settings is still reported.\<close>

lemma removed_still_reported:
  assumes "\<forall>s \<in> set (ChSettings (srvSetts cc)). csId s \<noteq> i" "map_of (chStates cc) i = Some st"
  shows "\<exists>xs. srvOut (states_tick now cc) = srvOut (fold (refresh_state now) (map fst (chStates cc)) cc) @ [SetStates (Some xs)] \<and>
    chState st \<in> set xs \<and> map_of (chStates (states_tick now cc)) i = Some st"
proof -
  let ?d = "fold (refresh_state now) (map fst (chStates cc)) cc"
  have "map_of (chStates ?d) i = Some st" using fold_refresh_removed [OF assms(1)] assms(2) by simp
  then have "(i, st) \<in> set (chStates ?d)" by (rule map_of_SomeD)
  then have "chState st \<in> set (map (chState \<circ> snd) (chStates ?d))" by force
  then show ?thesis
    using \<open>map_of (chStates ?d) i = Some st\<close> by (auto simp: states_tick_def Let_def)
qed

text \<open>After a tick no channel that should work is reported from more than ten seconds ago.\<close>

definition fresh :: "time \<Rightarrow> channelStateTime \<Rightarrow> bool" where
  "fresh now st \<longleftrightarrow> \<not> chTime st + 10 * StateSendInterval < now"

lemma refresh_fresh:
  assumes "s \<in> set (ChSettings (srvSetts cc))" "IsWorking s" "csId s = i"
    and "map_of (chStates (refresh_state now i cc)) i = Some st"
  shows "fresh now st"
proof -
  have "find (\<lambda>s. csId s = i \<and> IsWorking s) (ChSettings (srvSetts cc)) \<noteq> None"
    using assms(1-3) unfolding find_None_iff by blast
  then obtain t where t: "find (\<lambda>s. csId s = i \<and> IsWorking s) (ChSettings (srvSetts cc)) = Some t" by blast
  then have "csId t = i" by (auto simp: find_Some_iff)
  with assms(4) t show ?thesis
    by (auto simp: refresh_state_def init_state_of fresh_def StateSendInterval_def split: option.splits if_splits)
qed

lemma fold_refresh_fresh:
  assumes "s \<in> set (ChSettings (srvSetts cc))" "IsWorking s" "csId s = i"
    and "i \<in> set is \<or> (\<forall>st. map_of (chStates cc) i = Some st \<longrightarrow> fresh now st)"
    and "map_of (chStates (fold (refresh_state now) is cc)) i = Some st"
  shows "fresh now st"
  using assms
proof (induction "is" arbitrary: cc)
  case (Cons j "is")
  show ?case
  proof (rule Cons.IH [of "refresh_state now j cc"])
    show "i \<in> set is \<or> (\<forall>st. map_of (chStates (refresh_state now j cc)) i = Some st \<longrightarrow> fresh now st)"
    proof (cases "i = j")
      case True
      then show ?thesis using refresh_fresh Cons.prems(1-3) by blast
    next
      case False
      then show ?thesis using Cons.prems(4) refresh_other by auto
    qed
  qed (use Cons.prems in auto)
qed auto

lemma tick_fresh:
  assumes "s \<in> set (ChSettings (srvSetts cc))" "IsWorking s"
    and "map_of (chStates (states_tick now cc)) (csId s) = Some st"
  shows "fresh now st"
proof (rule fold_refresh_fresh [OF assms(1,2) refl])
  show "map_of (chStates (fold (refresh_state now) (map fst (chStates cc)) cc)) (csId s) = Some st"
    using assms(3) by (simp add: states_tick_def Let_def)
  show "csId s \<in> set (map fst (chStates cc)) \<or> (\<forall>st. map_of (chStates cc) (csId s) = Some st \<longrightarrow> fresh now st)"
    by (metis map_of_eq_None_iff option.distinct(1) set_map)
qed

section \<open>The identifiers of the messages to the provider\<close>

text \<open>What the other operations leave alone.\<close>

definition fdps_view :: "ChiefChannelServer \<Rightarrow> int \<times> pb_msg list" where
  "fdps_view cc = (oldiIdent cc, to_fdps cc)"

lemma view_emit [simp]: "\<forall>m. e \<noteq> ToFdps m \<Longrightarrow> fdps_view (srv_emit e cc) = fdps_view cc"
  by (simp add: fdps_view_def split: srv_effect.split)

lemma view_init [simp]: "fdps_view (initChannelState now s cc) = fdps_view cc"
  by (simp add: fdps_view_def)

lemma view_updates [simp]:
  "fdps_view (cc\<lparr>srvSetts := a\<rparr>) = fdps_view cc" "fdps_view (cc\<lparr>ChannelBinMap := b\<rparr>) = fdps_view cc"
  "fdps_view (cc\<lparr>runners := c\<rparr>) = fdps_view cc" "fdps_view (cc\<lparr>nextKill := k\<rparr>) = fdps_view cc"
  "fdps_view (cc\<lparr>wsClients := w\<rparr>) = fdps_view cc" "fdps_view (cc\<lparr>chStates := x\<rparr>) = fdps_view cc"
  "fdps_view (cc\<lparr>delayed := y\<rparr>) = fdps_view cc"
  by (simp_all add: fdps_view_def)

lemma view_kill [simp]: "fdps_view (kill_runner env r cc) = fdps_view cc"
  by (simp add: kill_runner_def runner_stops drop_runner_def Let_def split: option.split)

lemma view_stop_one: "stop_one env i cc = Some d \<Longrightarrow> fdps_view d = fdps_view cc"
  by (auto simp: stop_one_def Let_def split: option.splits if_splits)

lemma view_stop: "stopChannelsByIDs env is cc = Some d \<Longrightarrow> fdps_view d = fdps_view cc"
  by (induction "is" arbitrary: cc) (auto dest: view_stop_one split: option.splits)

lemma view_start [simp]: "fdps_view (startChannelsByIDs env is cc) = fdps_view cc"
proof -
  have "fdps_view (start_one env i c) = fdps_view c" for i c
    by (simp add: start_one_def store_bin_def Let_def split: option.split sum.split)
  then show ?thesis unfolding startChannelsByIDs_def by (induction "is" arbitrary: cc) simp_all
qed

lemma view_engine: "engine c = engine cc \<Longrightarrow> fdps_view c = fdps_view cc"
  by (simp add: engine_def fdps_view_def)

lemma view_new_settings:
  assumes "new_settings env now st cc = Some d"
  shows "fdps_view d = fdps_view cc"
proof -
  obtain c where "engine c = engine cc" "new_settings env now st cc =
       map_option (\<lambda>d. d\<lparr>delayed := delayed d @ [starts_of (srvSetts cc) st]\<rparr>)
         (stopChannelsByIDs env (stops_of (srvSetts cc) st) c)"
    using new_settings_stops by blast
  with assms show ?thesis using view_engine [of c cc] view_stop [of env _ c] by auto
qed

lemma view_delayed: "delayed_start env k cc = Some d \<Longrightarrow> fdps_view d = fdps_view cc"
  by (auto simp: delayed_start_def split: if_splits)

lemma view_check [simp]: "fdps_view (checkChannelWorking i cc) = fdps_view cc"
  by (simp add: checkChannelWorking_def split: option.split)

lemma view_process [simp]:
  "fdps_view (process_start env r e cc) = fdps_view cc" "fdps_view (process_exit r e cc) = fdps_view cc"
  by (simp_all add: process_start_def process_exit_def drop_runner_def set_running_def delete_bin_def
      set_state_error_def Let_def split: option.split)

lemma view_container [simp]:
  "fdps_view (container_start env r s cc) = fdps_view cc" "fdps_view (container_end r t cc) = fdps_view cc"
  by (simp_all add: container_start_def container_end_def drop_runner_def set_running_def delete_bin_def
      Let_def split: docker_start.split docker_end.split option.split)

lemma view_packet [simp]: "fdps_view (ProcessOldiPacket m cc) = fdps_view cc"
  by (simp add: ProcessOldiPacket_def Let_def split: option.split)

lemma view_refresh [simp]: "fdps_view (fold (refresh_state now) is cc) = fdps_view cc"
proof -
  have "fdps_view (refresh_state now i c) = fdps_view c" for i c
    by (simp add: refresh_state_def split: option.split)
  then show ?thesis by (induction "is" arbitrary: cc) simp_all
qed

lemma view_tick [simp]: "fdps_view (states_tick now cc) = fdps_view cc"
  by (simp add: states_tick_def Let_def)

lemma view_reported [simp]: "fdps_view (ws_reported env r cc) = fdps_view cc"
  by (cases r) (simp_all add: Let_def)

lemma view_ws:
  "fdps_view (ws_received env now sock d cc) = fdps_view cc \<or>
   (\<exists>m. pbId m = Itoa (oldiIdent cc) \<and>
     fdps_view (ws_received env now sock d cc) =
       (if oldiIdent cc + 1 > 1000 then 1 else oldiIdent cc + 1, to_fdps cc @ [m]))"
proof -
  have "fdps_view (request_received sock d cc) = fdps_view cc" "fdps_view (log_received d cc) = fdps_view cc"
    "fdps_view (heartbeat_received now sock d cc) = fdps_view cc"
    by (simp_all add: request_received_def log_received_def heartbeat_received_def Let_def case_prod_beta')
  moreover have "fdps_view (message_received d cc) = fdps_view cc \<or>
   (\<exists>m. pbId m = Itoa (oldiIdent cc) \<and>
     fdps_view (message_received d cc) =
       (if oldiIdent cc + 1 > 1000 then 1 else oldiIdent cc + 1, to_fdps cc @ [m]))"
    by (auto simp: message_received_def Let_def case_prod_beta' fdps_view_def split: option.split)
  ultimately show ?thesis by (simp add: ws_received_def Let_def case_prod_beta')
qed

definition ident_ok :: "ChiefChannelServer \<Rightarrow> bool" where
  "ident_ok cc \<longleftrightarrow> 1 \<le> oldiIdent cc \<and> oldiIdent cc \<le> 1000 \<and>
     (\<forall>m \<in> set (to_fdps cc). \<exists>n. 1 \<le> n \<and> n \<le> 1000 \<and> pbId m = Itoa n)"

lemma ident_view: "fdps_view d = fdps_view cc \<Longrightarrow> ident_ok cc \<Longrightarrow> ident_ok d"
  by (simp add: fdps_view_def ident_ok_def)

lemma ident_ws: "ident_ok cc \<Longrightarrow> ident_ok (ws_received env now sock d cc)"
  using view_ws [of env now sock d cc]
proof
  assume c: "ident_ok cc"
  assume "\<exists>m. pbId m = Itoa (oldiIdent cc) \<and>
     fdps_view (ws_received env now sock d cc) =
       (if oldiIdent cc + 1 > 1000 then 1 else oldiIdent cc + 1, to_fdps cc @ [m])"
  with c show ?thesis by (auto simp: ident_ok_def fdps_view_def)
qed (rule ident_view)

lemma ident_step: "srv_step env now i cc = Some d \<Longrightarrow> ident_ok cc \<Longrightarrow> ident_ok d"
  by (cases i)
    (auto split: if_splits dest: view_new_settings view_delayed intro: ident_ws ident_view)

text \<open>A run of the server, over the inputs with the times they come at.\<close>

fun srv_run :: "srv_env \<Rightarrow> (time \<times> srv_input) list \<Rightarrow> ChiefChannelServer \<Rightarrow> ChiefChannelServer option" where
  "srv_run env [] cc = Some cc"
| "srv_run env ((t, i) # is) cc =
     (case srv_step env t i cc of None \<Rightarrow> None | Some d \<Rightarrow> srv_run env is d)"

lemma ident_run: "srv_run env is cc = Some d \<Longrightarrow> ident_ok cc \<Longrightarrow> ident_ok d"
  by (induction env "is" cc rule: srv_run.induct) (auto split: option.splits dest: ident_step)

section \<open>An example\<close>

definition example_srv_env :: srv_env where
  "example_srv_env = \<lparr>CopyBinary = (\<lambda>v i l r. Inr ''/channels/fmtp_channel''), RemoveBinary = (\<lambda>p. None),
     KillError = (\<lambda>p. None), ContainerStop = (\<lambda>n. None), cfgDockerRegistry = [], WsUrlPath = ''channels'',
     srvJsonError = (\<lambda>t. []), StateOkColor = [], StateErrorColor = []\<rparr>"

definition example_settings :: ChannelSettingsWithPort where
  "example_settings = \<lparr>ChSettings = [example_client, example_server], ChPort = 13000\<rparr>"

definition example_runner :: runner where
  "example_runner = \<lparr>rnSetts = example_client, rnBin = \<lparr>filePath = ''/channels/fmtp_channel'', killChan = 0\<rparr>,
     rnPc = Running\<rparr>"

text \<open>The server with the process of one channel at work.\<close>

definition example_srv :: ChiefChannelServer where
  "example_srv = (NewChiefChannelServer False)
     \<lparr>srvSetts := example_settings, ChannelBinMap := [1 \<mapsto> rnBin example_runner],
      runners := [example_runner], nextKill := 1\<rparr>"

lemmas example_srv_defs =
  example_srv_env_def example_settings_def example_runner_def example_srv_def NewChiefChannelServer_def

section \<open>Properties\<close>



text \<open>C34: A channel whose process could not be started, or has exited without an error,
  keeps its entry though nobody serves it: it is not started again, and when the server has to stop it,
  it waits for ever for an answer.\<close>

theorem lost_channel_blocks:
  assumes "ChannelBinMap cc (csId (rnSetts r)) = Some (rnBin r)"
  shows "stop_one env (csId (rnSetts r)) (process_start env r (Some e) cc) = None \<and>
    stop_one env (csId (rnSetts r)) (process_exit r None cc) = None \<and>
    delayed (process_exit r None cc) = delayed cc"
  using start_failure_blocks [OF assms] clean_exit_blocks [OF assms] clean_exit_not_restarted [OF assms]
  by blast

theorem lost_channel_blocks_witness:
  "stop_one example_srv_env 1 (process_start example_srv_env example_runner (Some ''no such file'') example_srv) = None \<and>
    stop_one example_srv_env 1 (process_exit example_runner None example_srv) = None \<and>
    delayed (process_exit example_runner None example_srv) = delayed example_srv"
proof -
  have i: "csId (rnSetts example_runner) = 1" by (simp add: example_srv_defs example_defs)
  have "ChannelBinMap example_srv (csId (rnSetts example_runner)) = Some (rnBin example_runner)"
    by (simp add: i) (simp add: example_srv_def)
  from lost_channel_blocks [OF this, of example_srv_env "''no such file''"] show ?thesis by (simp only: i)
qed

text \<open>C33: A channel that should work and whose process ends with an error loses its entry
  and is put down for a restart two seconds later, which starts it anew.\<close>

theorem crash_restarts:
  assumes "find_setts (csId (rnSetts r)) (ChSettings (srvSetts cc)) = Some s" and "IsWorking s"
    and "binaries_ok env"
  shows "\<exists>d. delayed_start env (length (delayed cc)) (process_exit r (Some e) cc) = Some d \<and>
    delayed d = delayed cc \<and> ChannelBinMap (process_exit r (Some e) cc) (csId (rnSetts r)) = None \<and>
    (\<exists>b. ChannelBinMap d (csId (rnSetts r)) = Some b)"
proof -
  let ?x = "process_exit r (Some e) cc" and ?i = "csId (rnSetts r)"
  have dl: "delayed ?x = delayed cc @ [[?i]]" by (rule crash_restarted [OF assms(1,2)])
  have st: "srvSetts ?x = srvSetts cc" "ChannelBinMap ?x ?i = None"
    by (simp_all add: process_exit_def drop_runner_def delete_bin_def set_state_error_def
        checkChannelWorking_def Let_def split: option.split)
  have cp: "\<exists>p. CopyBinary env v i l r = Inr p" for v i l r using assms(3) by (simp add: binaries_ok_def)
  let ?d = "startChannelsByIDs env [?i] (?x\<lparr>delayed := delayed cc\<rparr>)"
  have "delayed_start env (length (delayed cc)) ?x = Some ?d" by (simp add: delayed_start_def dl)
  moreover have "?i \<in> dom (ChannelBinMap ?d)"
    using start_all [OF cp, of "[?i]" "?x\<lparr>delayed := delayed cc\<rparr>"] assms(1) by (simp add: st)
  moreover have "delayed ?d = delayed cc"
    by (simp add: startChannelsByIDs_def start_one_def store_bin_def Let_def split: option.split sum.split)
  ultimately show ?thesis using st(2) by blast
qed

theorem crash_restarts_witness:
  "\<exists>d. delayed_start example_srv_env (length (delayed example_srv))
      (process_exit example_runner (Some ''exit status 2'') example_srv) = Some d \<and>
    delayed d = delayed example_srv \<and>
    ChannelBinMap (process_exit example_runner (Some ''exit status 2'') example_srv)
      (csId (rnSetts example_runner)) = None \<and>
    (\<exists>b. ChannelBinMap d (csId (rnSetts example_runner)) = Some b)"
  by (rule crash_restarts [where s = example_client])
    (simp_all add: example_srv_defs example_defs find_setts_def binaries_ok_def)

text \<open>A channel that asks for its settings gets them on its own connection.
  For an identifier the settings do not have, the answer is settings with nothing set, and it is sent to
  whatever client has the identifier 0, on no connection at all where there is none: the channel that
  asked hears nothing.\<close>

theorem settings_request_answered:
  assumes "int64 i" and "i \<noteq> 0" and "wsDoc d = Some (marshal_request (CreateSettingsRequestMsg i))"
  shows "to_channels (ws_received env now sock d cc) = to_channels cc @
    (case find_setts i (ChSettings (srvSetts cc)) of
       Some s \<Rightarrow> [(marshal_answer (CreateSettingsAnswerMsg s), Some sock)]
     | None \<Rightarrow> [(marshal_answer (CreateSettingsAnswerMsg zeroChannelSettings),
                 case wsClients cc 0 of Some s \<Rightarrow> s | None \<Rightarrow> None)])"
proof (cases "find_setts i (ChSettings (srvSetts cc))")
  case None
  then show ?thesis using unknown_channel_answer [OF assms(1,2) None assms(3)] by simp
next
  case (Some s)
  then have "csId s = i" using find_setts_id by blast
  with Some assms known_channel_answer [of s cc d env now sock] show ?thesis by simp
qed

theorem settings_request_answered_witness:
  "to_channels (ws_received example_srv_env 0 5
      \<lparr>wsText = [], wsDoc = Some (marshal_request (CreateSettingsRequestMsg 7))\<rparr> example_srv) =
    to_channels example_srv @
    (case find_setts 7 (ChSettings (srvSetts example_srv)) of
       Some s \<Rightarrow> [(marshal_answer (CreateSettingsAnswerMsg s), Some 5)]
     | None \<Rightarrow> [(marshal_answer (CreateSettingsAnswerMsg zeroChannelSettings),
                 case wsClients example_srv 0 of Some s \<Rightarrow> s | None \<Rightarrow> None)])"
  by (rule settings_request_answered) (simp_all add: int64_def int_min_def int_max_def)

text \<open>At every tick the server reports the states it keeps. No channel that should
  work is then reported from more than ten seconds ago; and the state of a channel that is no longer in
  the settings stays among those reported as it was last heard of.\<close>

theorem reported_states:
  "let cc' = states_tick now cc
   in last (srvOut cc') = SetStates (if chStates cc' = [] then None else Some (map (chState \<circ> snd) (chStates cc'))) \<and>
    (\<forall>s \<in> {s \<in> set (ChSettings (srvSetts cc)). IsWorking s}. \<forall>st.
       map_of (chStates cc') (csId s) = Some st \<longrightarrow> now \<le> chTime st + 10 * StateSendInterval) \<and>
    (\<forall>i. (\<forall>s \<in> set (ChSettings (srvSetts cc)). csId s \<noteq> i) \<longrightarrow>
       map_of (chStates cc') i = map_of (chStates cc) i)"
proof -
  have "last (srvOut (states_tick now cc)) = SetStates (if chStates (states_tick now cc) = [] then None
      else Some (map (chState \<circ> snd) (chStates (states_tick now cc))))"
    by (simp add: states_tick_def Let_def)
  moreover have "now \<le> chTime st + 10 * StateSendInterval"
    if "s \<in> set (ChSettings (srvSetts cc))" "IsWorking s"
      "map_of (chStates (states_tick now cc)) (csId s) = Some st" for s st
    using tick_fresh [OF that] by (simp add: fresh_def)
  moreover have "map_of (chStates (states_tick now cc)) i = map_of (chStates cc) i"
    if "\<forall>s \<in> set (ChSettings (srvSetts cc)). csId s \<noteq> i" for i
    using fold_refresh_removed [OF that] by (simp add: states_tick_def Let_def)
  ultimately show ?thesis unfolding Let_def by blast
qed

theorem reported_states_witness:
  "let cc = example_srv; now = 20000000000; cc' = states_tick now cc
   in last (srvOut cc') = SetStates (if chStates cc' = [] then None else Some (map (chState \<circ> snd) (chStates cc'))) \<and>
    (\<forall>s \<in> {s \<in> set (ChSettings (srvSetts cc)). IsWorking s}. \<forall>st.
       map_of (chStates cc') (csId s) = Some st \<longrightarrow> now \<le> chTime st + 10 * StateSendInterval) \<and>
    (\<forall>i. (\<forall>s \<in> set (ChSettings (srvSetts cc)). csId s \<noteq> i) \<longrightarrow>
       map_of (chStates cc') i = map_of (chStates cc) i)"
  using reported_states [of 20000000000 example_srv] unfolding Let_def .

text \<open>Over any run of the server, the next identifier for a message to the provider and the
  identifiers of all messages handed to it lie between 1 and 1000.\<close>

theorem ident_cycle:
  assumes "srv_run env is (NewChiefChannelServer docker) = Some cc"
  shows "1 \<le> oldiIdent cc \<and> oldiIdent cc \<le> 1000 \<and>
    (\<forall>m \<in> set (to_fdps cc). \<exists>n. 1 \<le> n \<and> n \<le> 1000 \<and> pbId m = Itoa n)"
proof -
  have "ident_ok (NewChiefChannelServer docker)"
    by (simp add: ident_ok_def NewChiefChannelServer_def to_fdps_def)
  from ident_run [OF assms this] show ?thesis by (simp add: ident_ok_def)
qed

theorem ident_cycle_witness:
  "let cc = states_tick 1 (NewChiefChannelServer False)
   in 1 \<le> oldiIdent cc \<and> oldiIdent cc \<le> 1000 \<and>
    (\<forall>m \<in> set (to_fdps cc). \<exists>n. 1 \<le> n \<and> n \<le> 1000 \<and> pbId m = Itoa n)"
  unfolding Let_def
  by (rule ident_cycle [of example_srv_env "[(1, StatesTick)]" False]) simp

text \<open>The arguments the server starts the process of a channel with are read by the
  channel as what they were made from: the port of the server, the identifier, names and type of the
  channel, and the path and port of its web page.\<close>

theorem process_args:
  assumes "int64 (ChPort (srvSetts cc))" and "int64 (csId (rnSetts r))" and "int64 (URLPort (rnSetts r))"
  shows "\<exists>args. StartProcess (filePath (rnBin r)) args \<in> set (srvOut (process_start env r e cc)) \<and>
    mainStart (filePath (rnBin r) # args) = Inr
      \<lparr>channelSetts = zeroChannelSettings\<lparr>csId := csId (rnSetts r), LocalATC := LocalATC (rnSetts r),
         RemoteATC := RemoteATC (rnSetts r), csDataType := csDataType (rnSetts r)\<rparr>,
       webPath = URLPath (rnSetts r), webPort = URLPort (rnSetts r),
       appOut = [ClientStart \<lparr>ChiefAddress = ''127.0.0.1'', ChiefPort = ChPort (srvSetts cc),
                              clChannelID = csId (rnSetts r)\<rparr>]\<rparr>"
proof -
  let ?p = "filePath (rnBin r)"
  let ?a = "channel_args ?p (ChPort (srvSetts cc)) (rnSetts r)"
  have a: "?p # tl ?a = ?a" by (simp add: channel_args_def)
  have "StartProcess ?p (tl ?a) \<in> set (srvOut (process_start env r e cc))"
    by (simp add: process_start_def drop_runner_def set_running_def Let_def split: option.split)
  then show ?thesis using mainStart_args [OF assms, of ?p] by (intro exI [of _ "tl ?a"]) (simp add: a)
qed

theorem process_args_witness:
  "\<exists>args. StartProcess ''/channels/fmtp_channel'' args \<in>
      set (srvOut (process_start example_srv_env example_runner None example_srv)) \<and>
    mainStart (''/channels/fmtp_channel'' # args) = Inr
      \<lparr>channelSetts = zeroChannelSettings\<lparr>csId := 1, LocalATC := ''UUWV'', RemoteATC := ''ULLL'', csDataType := ''OLDI''\<rparr>,
       webPath = ''channel'', webPort = 13001,
       appOut = [ClientStart \<lparr>ChiefAddress = ''127.0.0.1'', ChiefPort = 13000, clChannelID = 1\<rparr>]\<rparr>"
  using process_args [of example_srv example_runner example_srv_env None]
  by (simp add: example_srv_defs example_defs int64_def int_min_def int_max_def)

end
