(* ===== verification/Oldi_Grpc.thy ===== *)
theory Oldi_Grpc
  imports Chief_Server Batch_Queue
begin

text \<open>
  The exchange with the OLDI provider over gRPC, \<open>chief/oldi/fmtp_grpc_server_impl.go\<close> and
  \<open>chief/oldi/oldi_grpc_controller.go\<close>: the provider sends messages for channels and fetches
  the messages for itself from a queue, out of which old ones are cleaned. Times are
  nanoseconds since 1970; the time of reception of a message is \<open>None\<close> where nobody set
  it, and reads as 0, as a nil timestamp of protobuf does.
\<close>

section \<open>The service\<close>

definition providerValidDur :: time where "providerValidDur = 10 * 1000000000"
definition msgValidDur :: time where "msgValidDur = 30 * 1000000000"
definition maxMsgToSend :: nat where "maxMsgToSend = 1000"

record ProvMetrics =
  SendCount :: int
  RecvCount :: int
  MissedCount :: int
  TimeoutCount :: int

definition zeroProvMetrics :: ProvMetrics where
  "zeroProvMetrics = \<lparr>SendCount = 0, RecvCount = 0, MissedCount = 0, TimeoutCount = 0\<rparr>"

datatype grpc_effect =
  GrpcMetrics ProvMetrics
| GrpcPrint print_level string
| GrpcLog print_level LogMessage
| GrpcPanic

record fmtpGrpcServer =
  msgToFdps :: "pb_msg list"
  clntActivity :: "(string \<times> time) list"
  FromFdpsChan :: "MsgWithChanId list"
  grpcOut :: "grpc_effect list"

definition newFmtpGrpcServerImpl :: fmtpGrpcServer where
  "newFmtpGrpcServerImpl = \<lparr>msgToFdps = [], clntActivity = [], FromFdpsChan = [], grpcOut = []\<rparr>"

definition grpc_emit :: "grpc_effect \<Rightarrow> fmtpGrpcServer \<Rightarrow> fmtpGrpcServer" where
  "grpc_emit e s = s\<lparr>grpcOut := grpcOut s @ [e]\<rparr>"

text \<open>The host of the caller, where its address has one.\<close>

definition note_activity :: "string option \<Rightarrow> time \<Rightarrow> fmtpGrpcServer \<Rightarrow> fmtpGrpcServer" where
  "note_activity host now s =
     (case host of None \<Rightarrow> s | Some h \<Rightarrow> s\<lparr>clntActivity := AList.update h now (clntActivity s)\<rparr>)"

fun send_each ::
  "ChannelSettings list \<Rightarrow> pb_msg list \<Rightarrow> string \<times> int \<times> fmtpGrpcServer \<Rightarrow> string \<times> int \<times> fmtpGrpcServer" where
  "send_each cfg [] (err, missed, s) = (err, missed, s)"
| "send_each cfg (val # vals) (err, missed, s) =
     (let chId = GetChannelIdByCid cfg (pbCid val)
      in if chId \<noteq> -1 then
           send_each cfg vals (err, missed, s\<lparr>FromFdpsChan := FromFdpsChan s @ [\<lparr>PbMsg = val, ChanId = chId\<rparr>]\<rparr>)
         else
           (let errNoChannel = (ru ''Ne najden '') @ ''FMTP '' @ (ru ''kanal dl9 otpravki soobqeni9. '') @ ''CID (remote ATC): '' @ pbCid val
            in send_each cfg vals (err @ errNoChannel @ [CHR 0x0A], missed + 1,
                 grpc_emit (GrpcPrint PrintErr errNoChannel) s)))"

definition SendMsg ::
  "ChannelSettings list \<Rightarrow> string option \<Rightarrow> time \<Rightarrow> pb_msg list \<Rightarrow> fmtpGrpcServer \<Rightarrow> string \<times> fmtpGrpcServer" where
  "SendMsg cfg host now msgs s =
     (let s = note_activity host now s;
          (errorString, missed, s) = send_each cfg msgs ([], 0, s);
          metric = zeroProvMetrics\<lparr>RecvCount := int (length msgs), MissedCount := missed\<rparr>
      in (errorString, grpc_emit (GrpcMetrics metric) s))"

definition sent_log :: "string \<Rightarrow> pb_msg \<Rightarrow> grpc_effect" where
  "sent_log now val = GrpcLog PrintInfo (LogCntrlSDT now SeverityInfo OLDIProvider
     ((ru ''Planovoj podsisteme otpravleno soobqenie: '') @ pbTxt val @ ''.''))"

definition RecvMsq ::
  "(nat \<Rightarrow> string) \<Rightarrow> string option \<Rightarrow> time \<Rightarrow> fmtpGrpcServer \<Rightarrow> pb_msg list \<times> fmtpGrpcServer" where
  "RecvMsq clk host now s =
     (let s = note_activity host now s;
          (toSend, rest) =
            (if length (msgToFdps s) > maxMsgToSend
             then (take maxMsgToSend (msgToFdps s), drop maxMsgToSend (msgToFdps s))
             else (msgToFdps s, []));
          s = s\<lparr>msgToFdps := rest\<rparr>;
          s = grpc_emit (GrpcMetrics (zeroProvMetrics\<lparr>SendCount := int (length toSend)\<rparr>)) s;
          s = fold (\<lambda>val s. grpc_emit (sent_log (clk (length (grpcOut s))) val) s) toSend s
      in (toSend, s))"

definition getActiveProviders :: "time \<Rightarrow> fmtpGrpcServer \<Rightarrow> string list" where
  "getActiveProviders now s =
     map fst (filter (\<lambda>(key, value). value + providerValidDur > now) (clntActivity s))"

definition appendMsg :: "pb_msg \<Rightarrow> fmtpGrpcServer \<Rightarrow> fmtpGrpcServer" where
  "appendMsg msg s = s\<lparr>msgToFdps := msgToFdps s @ [msg]\<rparr>"

definition AsTime :: "time option \<Rightarrow> time" where
  "AsTime t = (case t of None \<Rightarrow> 0 | Some n \<Rightarrow> n)"

definition expired :: "time \<Rightarrow> pb_msg \<Rightarrow> bool" where
  "expired now val \<longleftrightarrow> AsTime (Rrtime val) + msgValidDur < now"

text \<open>The loop that looks for the first message that is not old: the index of the last old
  one before it, or \<open>acc\<close>.\<close>

fun last_expired :: "time \<Rightarrow> int \<Rightarrow> int \<Rightarrow> pb_msg list \<Rightarrow> int" where
  "last_expired now idx maxIdx [] = maxIdx"
| "last_expired now idx maxIdx (val # vals) =
     (if expired now val then last_expired now (idx + 1) idx vals else maxIdx)"

definition clean_logs :: "(nat \<Rightarrow> string) \<Rightarrow> (time \<Rightarrow> string) \<Rightarrow> time \<Rightarrow> pb_msg list \<Rightarrow> fmtpGrpcServer \<Rightarrow> fmtpGrpcServer" where
  "clean_logs clk fmt now vals s = fold (\<lambda>val s.
     (let s = grpc_emit (GrpcPrint PrintErr (concat
            [''now time '', fmt now, [CHR 0x0A], ''time grpc '', fmt (AsTime (Rrtime val)), [CHR 0x0A],
             ''time grpc TO UTC '', fmt (AsTime (Rrtime val)), [CHR 0x0A],
             ''time grpc TO UTC + 30 '', fmt (AsTime (Rrtime val) + msgValidDur), [CHR 0x0A]])) s
      in grpc_emit (GrpcLog PrintWarn (LogCntrlSDT (clk (length (grpcOut s))) SeverityWarning OLDIProvider
           ((ru ''Soobqenie udaleno iz o4eredi na otpravku provajderu po iste4enii '') @ ''30 '' @ (ru ''sek.: '') @ pbTxt val))) s)) vals s"

definition cleanOldMsg ::
  "(nat \<Rightarrow> string) \<Rightarrow> (time \<Rightarrow> string) \<Rightarrow> time \<Rightarrow> fmtpGrpcServer \<Rightarrow> fmtpGrpcServer" where
  "cleanOldMsg clk fmt now s =
     (let maxIdx = last_expired now 0 (-1) (msgToFdps s);
          s = clean_logs clk fmt now (take (nat (maxIdx + 1)) (msgToFdps s)) s
      in if maxIdx \<noteq> -1 then
           grpc_emit (GrpcMetrics (zeroProvMetrics\<lparr>TimeoutCount := maxIdx\<rparr>))
             (if maxIdx = int (length (msgToFdps s)) - 1 then s\<lparr>msgToFdps := []\<rparr>
              else s\<lparr>msgToFdps := drop (nat (maxIdx + 1)) (msgToFdps s)\<rparr>)
         else s)"

section \<open>The controller\<close>

definition active_among :: "string list \<Rightarrow> string list \<Rightarrow> bool" where
  "active_among activeProviders ips \<longleftrightarrow> (\<exists>a \<in> set activeProviders. \<exists>i \<in> set ips. a = i)"

definition provider_state :: "string list \<Rightarrow> ProviderSettings \<Rightarrow> ProviderState" where
  "provider_state activeProviders val =
     \<lparr>ProviderID = provID val, ProviderType = provDataType val, ProviderIPs = IPAddresses val,
      provState = (if active_among activeProviders (IPAddresses val) then StateOk else StateError),
      ProviderErrorMessage = [], ClientAddresses = [], ProviderURL = [], provStateColor = []\<rparr>"

definition check_state_tick ::
  "ProviderSettings list \<Rightarrow> time \<Rightarrow> fmtpGrpcServer \<Rightarrow> ChiefState \<Rightarrow> ChiefState" where
  "check_state_tick cfg now s st =
     SetOldiProviderState (map (provider_state (getActiveProviders now s)) cfg) st"

text \<open>
  The controller and the goroutines of \<open>startGrpcServer\<close>. A gRPC server is numbered by its
  creation; what of the servers counts here is whether \<open>Stop\<close> was called on it. A goroutine
  listens on the address the controller has at that moment, makes its server and serves until the
  library returns; what \<open>Listen\<close> and \<open>Serve\<close> return are arguments.
\<close>

datatype start_pc = StartListen | StartServing nat | StartEnded

record OldiGrpcController =
  grpcAddress :: string
  grpcServed :: bool
  grpcServer :: "nat option"
  grpcStopped :: "bool list"
  grpcListens :: "string list"
  startPcs :: "start_pc list"
  fmtpServer :: fmtpGrpcServer
  fromProvider :: "MsgWithChanId list"
  grpcChief :: ChiefState
  ctlOut :: "grpc_effect list"

definition NewOldiGrpcController :: "ChiefState \<Rightarrow> OldiGrpcController" where
  "NewOldiGrpcController st =
     \<lparr>grpcAddress = [], grpcServed = False, grpcServer = None, grpcStopped = [], grpcListens = [], startPcs = [],
      fmtpServer = newFmtpGrpcServerImpl, fromProvider = [], grpcChief = st, ctlOut = []\<rparr>"

definition ctl_emit :: "grpc_effect \<Rightarrow> OldiGrpcController \<Rightarrow> OldiGrpcController" where
  "ctl_emit e c = c\<lparr>ctlOut := ctlOut c @ [e]\<rparr>"

definition stopGrpcServer :: "OldiGrpcController \<Rightarrow> OldiGrpcController" where
  "stopGrpcServer c =
     (case grpcServer c of
        None \<Rightarrow> ctl_emit GrpcPanic c
      | Some k \<Rightarrow> c\<lparr>grpcStopped := (grpcStopped c)[k := True]\<rparr>)"

definition grpc_settings_changed :: "int \<Rightarrow> OldiGrpcController \<Rightarrow> OldiGrpcController" where
  "grpc_settings_changed port c =
     (let newGrpcAddress = '':'' @ Itoa port
      in if newGrpcAddress \<noteq> grpcAddress c then
           (let c = c\<lparr>grpcAddress := newGrpcAddress\<rparr>;
                c = (if grpcServed c then stopGrpcServer c else c)
            in c\<lparr>startPcs := startPcs c @ [StartListen]\<rparr>)
         else c)"

definition start_listen :: "nat \<Rightarrow> string option \<Rightarrow> OldiGrpcController \<Rightarrow> OldiGrpcController option" where
  "start_listen i err c =
     (if i < length (startPcs c) \<and> startPcs c ! i = StartListen then
        (let c = (case err of
                    Some e \<Rightarrow> ctl_emit (GrpcPrint PrintErr ((ru ''Owibka zapuska '') @ ''TCP '' @ (ru ''servera '') @ ''GRPC: '' @ e)) c
                  | None \<Rightarrow> c\<lparr>grpcListens := grpcListens c @ [grpcAddress c]\<rparr>);
             k = length (grpcStopped c)
         in Some (c\<lparr>grpcServer := Some k, grpcStopped := grpcStopped c @ [False], grpcServed := True,
                    startPcs := (startPcs c)[i := StartServing k]\<rparr>))
      else None)"

definition serve_ends :: "nat \<Rightarrow> string option \<Rightarrow> OldiGrpcController \<Rightarrow> OldiGrpcController option" where
  "serve_ends i err c =
     (if i < length (startPcs c) \<and> (\<exists>k < length (grpcStopped c). startPcs c ! i = StartServing k) then
        (let c = c\<lparr>startPcs := (startPcs c)[i := StartEnded]\<rparr>
         in Some (case err of
                    Some e \<Rightarrow> ctl_emit (GrpcPrint PrintErr ((ru ''Owibka zapuska '') @ ''GRPC '' @ (ru ''servera: '') @ e))
                                (c\<lparr>grpcServed := False\<rparr>)
                  | None \<Rightarrow> c))
      else None)"

text \<open>A message of the provider is handed on to the controller of the channels.\<close>

definition forward_fdps :: "string \<Rightarrow> fmtpGrpcServer \<Rightarrow> (MsgWithChanId \<times> fmtpGrpcServer) option" where
  "forward_fdps now s =
     (case FromFdpsChan s of
        [] \<Rightarrow> None
      | m # ms \<Rightarrow> Some (m, grpc_emit (GrpcLog PrintInfo (LogCntrlSDT now SeverityInfo OLDIProvider
          ((ru ''Polu4eno soobqenie ot planovoj podsistemy: '') @ pbTxt (PbMsg m)))) (s\<lparr>FromFdpsChan := ms\<rparr>)))"

text \<open>The cases of the loop, the calls of a provider and the goroutines of the servers.\<close>

record grpc_env =
  grpcClock :: "nat \<Rightarrow> string"
  grpcFormat :: "time \<Rightarrow> string"

datatype grpc_action =
  GrpcSetts int
| GrpcToFdps pb_msg
| GrpcStateTick "ProviderSettings list" time
| GrpcCleanTick time
| GrpcFromFdps
| CallSendMsg "ChannelSettings list" "string option" time "pb_msg list"
| CallRecvMsq "string option" time
| StartListens nat "string option"
| ServeEnds nat "string option"

fun grpc_step :: "grpc_env \<Rightarrow> grpc_action \<Rightarrow> OldiGrpcController \<Rightarrow> OldiGrpcController option" where
  "grpc_step env (GrpcSetts port) c = Some (grpc_settings_changed port c)"
| "grpc_step env (GrpcToFdps incomeData) c = Some (c\<lparr>fmtpServer := appendMsg incomeData (fmtpServer c)\<rparr>)"
| "grpc_step env (GrpcStateTick cfg now) c =
     Some (c\<lparr>grpcChief := check_state_tick cfg now (fmtpServer c) (grpcChief c)\<rparr>)"
| "grpc_step env (GrpcCleanTick now) c =
     Some (c\<lparr>fmtpServer := cleanOldMsg (grpcClock env) (grpcFormat env) now (fmtpServer c)\<rparr>)"
| "grpc_step env GrpcFromFdps c =
     (case forward_fdps (grpcClock env (length (grpcOut (fmtpServer c)))) (fmtpServer c) of
        None \<Rightarrow> None
      | Some (msgFromFdps, s) \<Rightarrow> Some (c\<lparr>fmtpServer := s, fromProvider := fromProvider c @ [msgFromFdps]\<rparr>))"
| "grpc_step env (CallSendMsg cfg host now msgs) c =
     Some (c\<lparr>fmtpServer := snd (SendMsg cfg host now msgs (fmtpServer c))\<rparr>)"
| "grpc_step env (CallRecvMsq host now) c =
     Some (c\<lparr>fmtpServer := snd (RecvMsq (grpcClock env) host now (fmtpServer c))\<rparr>)"
| "grpc_step env (StartListens i err) c = start_listen i err c"
| "grpc_step env (ServeEnds i err) c = serve_ends i err c"

section \<open>Lemmas\<close>

lemma grpc_emit_simps [simp]:
  "msgToFdps (grpc_emit e s) = msgToFdps s" "clntActivity (grpc_emit e s) = clntActivity s"
  "FromFdpsChan (grpc_emit e s) = FromFdpsChan s" "grpcOut (grpc_emit e s) = grpcOut s @ [e]"
  by (simp_all add: grpc_emit_def)

lemma note_activity_simps [simp]:
  "msgToFdps (note_activity h now s) = msgToFdps s"
  "FromFdpsChan (note_activity h now s) = FromFdpsChan s"
  by (simp_all add: note_activity_def split: option.split)

lemma fold_emit_queue [simp]:
  "msgToFdps (fold (\<lambda>val s. grpc_emit (f s val) s) vals s) = msgToFdps s"
  by (induction vals arbitrary: s) auto

lemma RecvMsq_split:
  "fst (RecvMsq clk h now s) = fst (split_batch maxMsgToSend (msgToFdps s))"
  "msgToFdps (snd (RecvMsq clk h now s)) = snd (split_batch maxMsgToSend (msgToFdps s))"
  by (simp_all add: RecvMsq_def split_batch_def Let_def)

interpretation grpc_queue: batch_queue appendMsg "RecvMsq clk host now" msgToFdps "\<lambda>s. maxMsgToSend"
    "\<lambda>s. True" "\<lambda>s. True" for clk host now
  by unfold_locales
    (simp_all add: appendMsg_def RecvMsq_split split_batch_append split_batch_length)

text \<open>The messages a call leaves for channels, and those it cannot place.\<close>

definition placed :: "ChannelSettings list \<Rightarrow> pb_msg list \<Rightarrow> MsgWithChanId list" where
  "placed cfg msgs = map (\<lambda>m. \<lparr>PbMsg = m, ChanId = GetChannelIdByCid cfg (pbCid m)\<rparr>)
     (filter (\<lambda>m. GetChannelIdByCid cfg (pbCid m) \<noteq> -1) msgs)"

lemma send_each_result:
  "send_each cfg msgs (err, missed, s) = (err', missed', s') \<Longrightarrow>
   FromFdpsChan s' = FromFdpsChan s @ placed cfg msgs \<and>
   missed' = missed + int (length (filter (\<lambda>m. GetChannelIdByCid cfg (pbCid m) = -1) msgs)) \<and>
   msgToFdps s' = msgToFdps s"
proof (induction cfg msgs "(err, missed, s)" arbitrary: err missed s rule: send_each.induct)
  case (1 cfg err missed s)
  then show ?case by (simp add: placed_def)
next
  case (2 cfg val vals err missed s)
  show ?case
  proof (cases "GetChannelIdByCid cfg (pbCid val) = -1")
    case True
    then show ?thesis using 2(2) [OF refl _ refl] 2(3) by (simp add: placed_def Let_def)
  next
    case False
    then show ?thesis using 2(1) [OF refl] 2(3) by (simp add: placed_def Let_def)
  qed
qed

lemma SendMsg_result:
  "FromFdpsChan (snd (SendMsg cfg h now msgs s)) = FromFdpsChan s @ placed cfg msgs \<and>
   (\<exists>out. grpcOut (snd (SendMsg cfg h now msgs s)) = out @
     [GrpcMetrics (zeroProvMetrics\<lparr>RecvCount := int (length msgs),
        MissedCount := int (length msgs) - int (length (placed cfg msgs))\<rparr>)])"
proof -
  obtain err missed t where t: "send_each cfg msgs ([], 0, note_activity h now s) = (err, missed, t)"
    by (cases "send_each cfg msgs ([], 0, note_activity h now s)") auto
  have "length msgs = length (filter (\<lambda>m. GetChannelIdByCid cfg (pbCid m) \<noteq> -1) msgs) +
      length (filter (\<lambda>m. GetChannelIdByCid cfg (pbCid m) = -1) msgs)"
    using sum_length_filter_compl [of "\<lambda>m. GetChannelIdByCid cfg (pbCid m) \<noteq> -1" msgs] by simp
  with send_each_result [OF t] show ?thesis by (simp add: SendMsg_def t placed_def)
qed

section \<open>Cleaning\<close>

lemma last_expired_count:
  "last_expired now idx maxIdx vals =
     (let n = length (takeWhile (expired now) vals) in if n = 0 then maxIdx else idx + int n - 1)"
  by (induction vals arbitrary: idx maxIdx) (auto simp: Let_def)

lemma clean_logs_queue [simp]: "msgToFdps (clean_logs clk fmt now vals s) = msgToFdps s"
  unfolding clean_logs_def by (induction vals arbitrary: s) (auto simp: Let_def)

lemma clean_queue: "msgToFdps (cleanOldMsg clk fmt now s) = dropWhile (expired now) (msgToFdps s)"
proof -
  let ?q = "msgToFdps s"
  let ?n = "length (takeWhile (expired now) ?q)"
  have d: "dropWhile (expired now) ?q = drop ?n ?q" by (rule dropWhile_eq_drop)
  have "?n \<le> length ?q" by (rule length_takeWhile_le)
  then show ?thesis
    by (auto simp: cleanOldMsg_def last_expired_count Let_def d)
qed

text \<open>The count of the metric is one less than the number of messages removed.\<close>

lemma clean_metric:
  assumes "takeWhile (expired now) (msgToFdps s) \<noteq> []"
  shows "\<exists>out. grpcOut (cleanOldMsg clk fmt now s) = out @
    [GrpcMetrics (zeroProvMetrics\<lparr>TimeoutCount :=
       int (length (msgToFdps s)) - int (length (msgToFdps (cleanOldMsg clk fmt now s))) - 1\<rparr>)]"
proof -
  let ?n = "length (takeWhile (expired now) (msgToFdps s))"
  have le: "?n \<le> length (msgToFdps s)" by (rule length_takeWhile_le)
  have "length (dropWhile (expired now) (msgToFdps s)) = length (msgToFdps s) - ?n"
    by (simp add: dropWhile_eq_drop)
  then have "int (length (msgToFdps s)) - int (length (msgToFdps (cleanOldMsg clk fmt now s))) - 1 = int ?n - 1"
    using le by (simp add: clean_queue)
  moreover have "last_expired now 0 (-1) (msgToFdps s) = int ?n - 1"
    using assms by (simp add: last_expired_count Let_def)
  ultimately show ?thesis using assms by (simp add: cleanOldMsg_def Let_def)
qed

section \<open>From the provider to the channels\<close>

text \<open>The messages of one call reach the channels through the whole controller: those it placed
  but has not handed on wait in the channel of the service.\<close>

fun grpc_placed :: "grpc_action \<Rightarrow> MsgWithChanId list" where
  "grpc_placed (CallSendMsg cfg host now msgs) = placed cfg msgs"
| "grpc_placed _ = []"

lemma recv_clean_channel [simp]:
  "FromFdpsChan (snd (RecvMsq clk host now s)) = FromFdpsChan s"
  "FromFdpsChan (cleanOldMsg clk fmt now s) = FromFdpsChan s"
proof -
  have f: "FromFdpsChan (fold (\<lambda>val s. grpc_emit (f s val) s) vals s) = FromFdpsChan s" for f vals s
    by (induction vals arbitrary: s) auto
  have g: "FromFdpsChan (clean_logs clk fmt now vals s) = FromFdpsChan s" for vals
    unfolding clean_logs_def by (induction vals arbitrary: s) (simp_all add: Let_def)
  show "FromFdpsChan (snd (RecvMsq clk host now s)) = FromFdpsChan s"
    by (simp add: RecvMsq_def f Let_def split: if_split)
  show "FromFdpsChan (cleanOldMsg clk fmt now s) = FromFdpsChan s"
    by (simp add: cleanOldMsg_def g Let_def)
qed

lemma grpc_step_placed:
  assumes "grpc_step env a c = Some c'"
  shows "fromProvider c' @ FromFdpsChan (fmtpServer c') =
    fromProvider c @ FromFdpsChan (fmtpServer c) @ grpc_placed a"
proof (cases a)
  case (CallSendMsg cfg host now msgs)
  then show ?thesis using assms SendMsg_result [of cfg host now msgs "fmtpServer c"] by auto
qed (use assms in \<open>auto simp: grpc_settings_changed_def stopGrpcServer_def ctl_emit_def appendMsg_def forward_fdps_def
       start_listen_def serve_ends_def Let_def split: option.splits if_splits list.splits\<close>)

lemma grpc_run_placed:
  "run_steps (grpc_step env) as c = Some c' \<Longrightarrow>
   fromProvider c' @ FromFdpsChan (fmtpServer c') =
     fromProvider c @ FromFdpsChan (fmtpServer c) @ concat (map grpc_placed as)"
proof (induction "as" arbitrary: c)
  case (Cons a "as")
  then obtain d where d: "grpc_step env a c = Some d" "run_steps (grpc_step env) as d = Some c'"
    by (auto split: option.splits)
  show ?case using Cons.IH [OF d(2)] grpc_step_placed [OF d(1)] by simp
qed simp

text \<open>Two changes of the port before the first server is up: it is never stopped, and both goroutines
  listen on the second address, where the second one fails.\<close>

lemma grpc_twice_started:
  assumes "p \<noteq> q"
  shows "\<exists>c. run_steps (grpc_step env) [GrpcSetts p, GrpcSetts q, StartListens 0 None, StartListens 1 (Some e)]
      (NewOldiGrpcController st) = Some c \<and> grpcStopped c = [False, False] \<and> grpcListens c = ['':'' @ Itoa q]"
  using assms Itoa_inj [of p q]
  by (auto simp: grpc_settings_changed_def NewOldiGrpcController_def start_listen_def ctl_emit_def Let_def)

section \<open>Properties\<close>

text \<open>The provider gets every message queued for it once and in order: over any sequence of
  messages appended and calls of \<open>RecvMsq\<close>, the batches returned and what is left in the queue are the
  messages appended, and no batch has more than a thousand.\<close>

theorem grpc_fifo:
  "let (batches, s) = grpc_queue.run_ops clk host now ops newFmtpGrpcServerImpl
   in concat batches @ msgToFdps s = grpc_queue.pushes ops \<and> (\<forall>b \<in> set batches. length b \<le> maxMsgToSend)"
proof -
  have room: "grpc_queue.all_room clk host now ops s" for s
    by (induction ops arbitrary: s rule: grpc_queue.pushes.induct) simp_all
  have "\<forall>b \<in> set (fst (grpc_queue.run_ops clk host now ops newFmtpGrpcServerImpl)). length b \<le> maxMsgToSend"
    by (rule grpc_queue.batch_sizes) simp_all
  then show ?thesis
    using grpc_queue.run_conserves [OF room, of newFmtpGrpcServerImpl]
    by (simp add: case_prod_beta' newFmtpGrpcServerImpl_def)
qed

theorem grpc_fifo_witness:
  "let (batches, s) = grpc_queue.run_ops (\<lambda>n. []) None 0 [Push zeroPbMsg, Take, Push zeroPbMsg] newFmtpGrpcServerImpl
   in concat batches @ msgToFdps s = grpc_queue.pushes [Push zeroPbMsg, Take, Push zeroPbMsg] \<and>
     (\<forall>b \<in> set batches. length b \<le> maxMsgToSend)"
  by (rule grpc_fifo)

text \<open>Of the messages the provider sends in one call, exactly those whose CID is the
  remote name of a channel are handed on, in their order and with the identifier of that channel; the
  metric of the call counts the others as missed.\<close>

theorem send_placed:
  "FromFdpsChan (snd (SendMsg cfg host now msgs s)) = FromFdpsChan s @
     map (\<lambda>m. \<lparr>PbMsg = m, ChanId = GetChannelIdByCid cfg (pbCid m)\<rparr>)
       (filter (\<lambda>m. GetChannelIdByCid cfg (pbCid m) \<noteq> -1) msgs) \<and>
   last (grpcOut (snd (SendMsg cfg host now msgs s))) = GrpcMetrics (zeroProvMetrics
     \<lparr>RecvCount := int (length msgs),
      MissedCount := int (length (filter (\<lambda>m. GetChannelIdByCid cfg (pbCid m) = -1) msgs))\<rparr>)"
proof -
  have "length msgs = length (filter (\<lambda>m. GetChannelIdByCid cfg (pbCid m) \<noteq> -1) msgs) +
      length (filter (\<lambda>m. GetChannelIdByCid cfg (pbCid m) = -1) msgs)"
    using sum_length_filter_compl [of "\<lambda>m. GetChannelIdByCid cfg (pbCid m) \<noteq> -1" msgs] by simp
  with SendMsg_result [of cfg host now msgs s] show ?thesis by (auto simp: placed_def)
qed

text \<open>C35: The cleaning removes the messages at the front of the queue that were received more
  than thirty seconds ago, and the metric it sends counts one message less than it removed. A message
  without a time of reception counts as received in 1970, so that a queue of such messages is emptied
  whole.\<close>

theorem clean_drops:
  "msgToFdps (cleanOldMsg clk fmt now s) = dropWhile (expired now) (msgToFdps s) \<and>
   (takeWhile (expired now) (msgToFdps s) \<noteq> [] \<longrightarrow>
     last (grpcOut (cleanOldMsg clk fmt now s)) = GrpcMetrics (zeroProvMetrics\<lparr>TimeoutCount :=
       int (length (msgToFdps s)) - int (length (msgToFdps (cleanOldMsg clk fmt now s))) - 1\<rparr>)) \<and>
   (30 * 1000000000 < now \<longrightarrow> (\<forall>m \<in> set (msgToFdps s). Rrtime m = None) \<longrightarrow>
     msgToFdps (cleanOldMsg clk fmt now s) = [])"
proof (intro conjI impI)
  show "msgToFdps (cleanOldMsg clk fmt now s) = dropWhile (expired now) (msgToFdps s)"
    by (rule clean_queue)
  show "last (grpcOut (cleanOldMsg clk fmt now s)) = GrpcMetrics (zeroProvMetrics\<lparr>TimeoutCount :=
       int (length (msgToFdps s)) - int (length (msgToFdps (cleanOldMsg clk fmt now s))) - 1\<rparr>)"
    if "takeWhile (expired now) (msgToFdps s) \<noteq> []"
    using clean_metric [OF that, of clk fmt] by auto
  show "msgToFdps (cleanOldMsg clk fmt now s) = []"
    if "30 * 1000000000 < now" "\<forall>m \<in> set (msgToFdps s). Rrtime m = None"
    using that by (simp add: clean_queue expired_def AsTime_def msgValidDur_def)
qed

theorem clean_drops_witness:
  "let s = appendMsg zeroPbMsg (appendMsg zeroPbMsg newFmtpGrpcServerImpl); now = 31 * 1000000000
   in msgToFdps (cleanOldMsg (\<lambda>n. []) (\<lambda>t. []) now s) = dropWhile (expired now) (msgToFdps s) \<and>
   (takeWhile (expired now) (msgToFdps s) \<noteq> [] \<longrightarrow>
     last (grpcOut (cleanOldMsg (\<lambda>n. []) (\<lambda>t. []) now s)) = GrpcMetrics (zeroProvMetrics\<lparr>TimeoutCount :=
       int (length (msgToFdps s)) - int (length (msgToFdps (cleanOldMsg (\<lambda>n. []) (\<lambda>t. []) now s))) - 1\<rparr>)) \<and>
   (30 * 1000000000 < now \<longrightarrow> (\<forall>m \<in> set (msgToFdps s). Rrtime m = None) \<longrightarrow>
     msgToFdps (cleanOldMsg (\<lambda>n. []) (\<lambda>t. []) now s) = [])"
  unfolding Let_def by (rule clean_drops)

text \<open>Whatever else the controller does meanwhile - restarts of the server, cleaning, calls that
  fetch messages -, the messages of the provider for known channels reach the controller of the channels
  completely, once each and in the order of the calls: those handed on are the beginning of the messages
  placed, and the rest waits in the channel of the service.\<close>

theorem grpc_handed_on:
  assumes "run_steps (grpc_step env) as (NewOldiGrpcController st) = Some c"
  shows "fromProvider c @ FromFdpsChan (fmtpServer c) = concat (map grpc_placed as)"
  using grpc_run_placed [OF assms] by (simp add: NewOldiGrpcController_def newFmtpGrpcServerImpl_def)

definition example_call :: "grpc_action list" where
  "example_call = [GrpcSetts 5050, StartListens 0 None,
     CallSendMsg [zeroChannelSettings\<lparr>csId := 7, RemoteATC := ''UEEE''\<rparr>] (Some ''10.0.0.1'') 5
       [zeroPbMsg\<lparr>pbCid := ''UEEE''\<rparr>], GrpcCleanTick 40]"

theorem grpc_handed_on_witness:
  "\<exists>c. run_steps (grpc_step \<lparr>grpcClock = (\<lambda>n. []), grpcFormat = (\<lambda>t. [])\<rparr>) example_call
      (NewOldiGrpcController example_chief_state) = Some c \<and>
    fromProvider c @ FromFdpsChan (fmtpServer c) = concat (map grpc_placed example_call)"
proof -
  obtain c where c: "run_steps (grpc_step \<lparr>grpcClock = (\<lambda>n. []), grpcFormat = (\<lambda>t. [])\<rparr>) example_call
      (NewOldiGrpcController example_chief_state) = Some c"
    by (simp add: example_call_def grpc_settings_changed_def NewOldiGrpcController_def start_listen_def Let_def)
  show ?thesis using grpc_handed_on [OF c] c by blast
qed

end
