(* ===== verification/Chief_Worker.thy ===== *)
theory Chief_Worker
  imports Configurator Chief_Server_Runs Oldi_Grpc
begin

text \<open>
  What joins the parts of the chief: the loop of \<open>chief/chief_worker/chief_worker.go\<close>, which
  hands the settings of the configurator to the server of the channels, the provider and the
  metrics and the messages of the provider and of the channels to each other, the metrics of
  the chief, \<open>chief/chief_metrics/chief_metrics.go\<close>, the answer to the TKU, \<open>chief/tky/\<close>, and
  the lists of the web page, \<open>chief/chief_web/chief-handler.go\<close>. The theorems join the client
  of the configurator and the server of the channels.
\<close>

section \<open>The loop\<close>

datatype worker_input =
  WorkerSettChanged
| WorkerFromFdps MsgWithChanId
| WorkerToFdps pb_msg
| WorkerDone

datatype worker_effect =
  ToChannelSetts ChannelSettingsWithPort
| ToGrpcSetts
| ToLoggerSetts
| ToMetricsSetts PusherSettings
| ToFdpsPackets MsgWithChanId
| ToGrpcFdps pb_msg
| WorkerReturn

definition channel_settings_of :: "ChiefSettings \<Rightarrow> ChannelSettingsWithPort" where
  "channel_settings_of cfg = \<lparr>ChSettings = ChannelSetts cfg, ChPort = ChannelsPort cfg\<rparr>"

definition chief_metrics_settings :: "ChiefSettings \<Rightarrow> PusherSettings" where
  "chief_metrics_settings cfg =
     \<lparr>PusherIntervalSec = 1, GatewayUrl = ''http://192.168.1.24:9100'', GatewayJob = ''fmtp'',
      CollectNamespace = ''fmtp'', CollectSubsystem = ''controller'', CollectLabels = [(''host'', cfIPAddr cfg)]\<rparr>"

fun worker_step :: "ChiefSettings \<Rightarrow> worker_input \<Rightarrow> worker_effect list" where
  "worker_step cfg WorkerSettChanged =
     [ToChannelSetts (channel_settings_of cfg), ToGrpcSetts, ToLoggerSetts,
      ToMetricsSetts (chief_metrics_settings cfg)]"
| "worker_step cfg (WorkerFromFdps fdpsData) = [ToFdpsPackets fdpsData]"
| "worker_step cfg (WorkerToFdps oldiData) = [ToGrpcFdps oldiData]"
| "worker_step cfg WorkerDone = [WorkerReturn]"

section \<open>The start\<close>

text \<open>
  \<open>chief/fmtp_chief.go\<close>. The variable that \<open>initDockerInfo\<close> assigns the version of Docker to is
  declared in its \<open>if\<close>, so the package variable of the same name, which \<open>main\<close> hands to the
  worker, keeps its zero value.
\<close>

record main_vars =
  workWithDocker :: bool
  mainDockerVersion :: string

datatype main_effect =
  LoggerDockerVersion string
| MainErr string
| InitFileBinUtils

definition initDockerInfo :: "string + string \<Rightarrow> main_vars \<Rightarrow> bool \<times> main_effect list \<times> main_vars" where
  "initDockerInfo answer v =
     (case answer of
        Inl dockErr \<Rightarrow> (False, [LoggerDockerVersion ''???'', MainErr dockErr], v)
      | Inr dockerVersion \<Rightarrow> (True, [LoggerDockerVersion dockerVersion], v\<lparr>workWithDocker := True\<rparr>))"

definition chief_main :: "string + string \<Rightarrow> main_effect list \<times> main_vars" where
  "chief_main answer =
     (let (ok, es, v) = initDockerInfo answer \<lparr>workWithDocker = False, mainDockerVersion = []\<rparr>
      in (es @ (if \<not> ok then [InitFileBinUtils] else []), v))"

definition worker_start :: "string \<Rightarrow> main_vars \<Rightarrow> ChiefState \<Rightarrow> ChiefState" where
  "worker_start release v st = st\<lparr>ControllerVersion := release, DockerVersion := mainDockerVersion v\<rparr>"

lemma docker_version_lost: "DockerVersion (worker_start release (snd (chief_main answer)) st) = []"
  by (simp add: worker_start_def chief_main_def initDockerInfo_def Let_def split: sum.split)

section \<open>Metrics of the chief\<close>

definition metricChan :: string where "metricChan = ''chan''"
definition metricFdps :: string where "metricFdps = ''fdps''"
definition metricRedis :: string where "metricRedis = ''redis''"
definition RedisTpMsg :: string where "RedisTpMsg = ''msg''"
definition RedisTpErr :: string where "RedisTpErr = ''err''"
definition MetricTypeLabel :: string where "MetricTypeLabel = ''tp''"
definition ChanLocAtcLabel :: string where "ChanLocAtcLabel = ''latc''"
definition ChanRemAtcLabel :: string where "ChanRemAtcLabel = ''ratc''"
definition ProvTpSend :: string where "ProvTpSend = ''send''"
definition ProvTpRecv :: string where "ProvTpRecv = ''recv''"
definition ProvTpMiss :: string where "ProvTpMiss = ''miss''"
definition ProvTpTimeout :: string where "ProvTpTimeout = ''tout''"

lemmas prov_labels = ProvTpSend_def ProvTpRecv_def ProvTpMiss_def ProvTpTimeout_def

record RedisMetrics =
  rmMsg :: int
  rmErr :: int

datatype chief_metric =
  SettsMetric PusherSettings
| ChanMetric ChanMetrics
| ProvMetric ProvMetrics
| RedisMetric RedisMetrics

fun chief_metrics_step :: "chief_metric \<Rightarrow> prom_effect list" where
  "chief_metrics_step (SettsMetric setts) =
     [PromSettings setts,
      AppendCounterVec metricChan (ru ''Kanal'') [MetricTypeLabel, ChanLocAtcLabel, ChanRemAtcLabel],
      AppendCounterVec metricFdps (ru ''Provajder'') [MetricTypeLabel],
      AppendCounterVec metricRedis ''Redis'' [MetricTypeLabel],
      PromInitialize]"
| "chief_metrics_step (ChanMetric chMt) =
     [AddToCounterVec metricChan (Count chMt)
        [(MetricTypeLabel, mtTp chMt), (ChanLocAtcLabel, LocAtc chMt), (ChanRemAtcLabel, RemAtc chMt)]]"
| "chief_metrics_step (ProvMetric prMt) =
     [AddToCounterVec metricFdps (SendCount prMt) [(MetricTypeLabel, ProvTpSend)],
      AddToCounterVec metricFdps (RecvCount prMt) [(MetricTypeLabel, ProvTpRecv)],
      AddToCounterVec metricFdps (MissedCount prMt) [(MetricTypeLabel, ProvTpMiss)],
      AddToCounterVec metricFdps (TimeoutCount prMt) [(MetricTypeLabel, ProvTpTimeout)]]"
| "chief_metrics_step (RedisMetric rdMt) =
     (if rmMsg rdMt > 0 then [AddToCounterVec metricRedis (rmMsg rdMt) [(MetricTypeLabel, RedisTpMsg)]] else []) @
     (if rmErr rdMt > 0 then [AddToCounterVec metricRedis (rmErr rdMt) [(MetricTypeLabel, RedisTpErr)]] else [])"

section \<open>The answer to the TKU\<close>

record TkyDaemonState =
  tkDaemonID :: int
  tkLocalName :: string
  tkRemoteName :: string
  tkDaemonState :: string
  tkDaemonType :: string
  tkFmtpState :: string

record TkyProviderState =
  tkProviderID :: int
  tkProviderType :: string
  tkProviderIPs :: "string list"
  tkProviderState :: string
  tkProviderStatus :: string
  tkProviderErrorMessage :: string

record StateForTky =
  DaemonStates :: "TkyDaemonState list"
  TkyProviderStates :: "TkyProviderState list"

definition genTkyState :: "ChiefSettings \<Rightarrow> ChiefState \<Rightarrow> StateForTky" where
  "genTkyState cfg st =
     \<lparr>DaemonStates = map (\<lambda>val.
        \<lparr>tkDaemonID = ChannelID val, tkLocalName = stLocalName val, tkRemoteName = stRemoteName val,
         tkDaemonState = DaemonState val, tkDaemonType = ChannelDataTypeById (ChannelSetts cfg) (ChannelID val),
         tkFmtpState = stFmtpState val\<rparr>) (states_list st),
      TkyProviderStates = map (\<lambda>val.
        \<lparr>tkProviderID = ProviderID val, tkProviderType = ProviderType val, tkProviderIPs = ProviderIPs val,
         tkProviderState = provState val, tkProviderStatus = ProviderStatusById (ProvidersSetts cfg) (ProviderID val),
         tkProviderErrorMessage = ProviderErrorMessage val\<rparr>) (ProviderStates st)\<rparr>"

text \<open>The answer to a request by its method: the state, or a refusal.\<close>

definition tkyStateResponce :: "ChiefSettings \<Rightarrow> ChiefState \<Rightarrow> string \<Rightarrow> string + StateForTky" where
  "tkyStateResponce cfg st method =
     (if method = ''GET'' \<or> method = ''POST'' then Inr (genTkyState cfg st)
      else Inl ''Only GET, POST method are supported.'')"

section \<open>The web page\<close>

definition PageOkColor :: string where "PageOkColor = ''#DFF7DE''"
definition PageErrorColor :: string where "PageErrorColor = ''#F2C4CA''"
definition PageStopColor :: string where "PageStopColor = ''#F4EDBA''"
definition PageDefaultColor :: string where "PageDefaultColor = ''#EAECEE''"

definition channel_color :: "string \<Rightarrow> string" where
  "channel_color st =
     (if st = ChannelStateStopped then PageStopColor
      else if st = ChannelStateError then PageErrorColor
      else if st = ChannelStateOk then PageOkColor
      else PageDefaultColor)"

definition provider_color :: "string \<Rightarrow> string" where
  "provider_color st =
     (if st = StateOk then PageOkColor else if st = StateError then PageErrorColor else PageDefaultColor)"

record chief_page =
  pageChannels :: "ChannelState list"
  pageAodb :: "ProviderState list"
  pageOldi :: "ProviderState list"

text \<open>\<open>sort.Slice\<close> is not stable; here equal identifiers keep their order.\<close>

definition handlerMain :: "ChiefState \<Rightarrow> chief_page" where
  "handlerMain st =
     (let provs = map (\<lambda>val. val\<lparr>provStateColor := provider_color (provState val)\<rparr>) (ProviderStates st)
      in \<lparr>pageChannels = sort_key ChannelID
            (map (\<lambda>val. val\<lparr>StateColor := channel_color (DaemonState val)\<rparr>) (states_list st)),
          pageAodb = sort_key ProviderID (filter (\<lambda>p. ProviderType p \<noteq> OLDIProvider) provs),
          pageOldi = sort_key ProviderID (filter (\<lambda>p. ProviderType p = OLDIProvider) provs)\<rparr>)"

section \<open>From the configurator to the channels\<close>

lemma channel_with_url_simps [simp]:
  "csId (channel_with_url env cfg s) = csId s" "IsWorking (channel_with_url env cfg s) = IsWorking s"
  by (simp_all add: channel_with_url_def)

lemma working_ids_with_url [simp]:
  "working_ids (map (channel_with_url env cfg) ss) = working_ids ss"
proof -
  have "{s \<in> set (map (channel_with_url env cfg) ss). IsWorking s} = channel_with_url env cfg ` {s \<in> set ss. IsWorking s}"
    by auto
  then show ?thesis by (simp add: working_ids_def image_image)
qed

lemma answered_settings:
  assumes "Unmarshal hdr_fields (jsonDoc env result) zeroHdr = (\<lparr>confHeader = ChiefSettsAnswerHdr\<rparr>, True)"
    and "decode_chief (jsonDoc env result) (zeroChiefSettings\<lparr>cfCntrlID := -1\<rparr>) = (cfg, True)"
  shows "channel_settings_of (ChiefCfg (conf_step env (PostResult (Inr result)) c)) =
    \<lparr>ChSettings = map (channel_with_url env (cfg\<lparr>IsInitialised := True\<rparr>)) (ChannelSetts cfg),
     ChPort = ChannelsPort cfg\<rparr>"
  by (simp add: channel_settings_of_def answer_taken(1) [OF assms] del: conf_step.simps)

section \<open>Properties\<close>



text \<open>The page of the chief shows every channel and every provider once, in the order of their
  identifiers, the providers split by their kind, and each with the colour of its state.\<close>

theorem page_lists:
  "sorted (map ChannelID (pageChannels (handlerMain st))) \<and>
   mset (pageChannels (handlerMain st)) =
     image_mset (\<lambda>c. c\<lparr>StateColor := channel_color (DaemonState c)\<rparr>) (mset (states_list st)) \<and>
   sorted (map ProviderID (pageOldi (handlerMain st))) \<and> sorted (map ProviderID (pageAodb (handlerMain st))) \<and>
   mset (pageOldi (handlerMain st)) + mset (pageAodb (handlerMain st)) =
     image_mset (\<lambda>p. p\<lparr>provStateColor := provider_color (provState p)\<rparr>) (mset (ProviderStates st))"
proof -
  have split: "mset (filter (\<lambda>p. P p) ps) + mset (filter (\<lambda>p. \<not> P p) ps) = mset ps" for P and ps :: "ProviderState list"
    by (metis mset_filter multiset_partition)
  show ?thesis
    using split [of "\<lambda>p. ProviderType p = OLDIProvider"
        "map (\<lambda>p. p\<lparr>provStateColor := provider_color (provState p)\<rparr>) (ProviderStates st)"]
    by (simp add: handlerMain_def Let_def)
qed

section \<open>Metrics\<close>

text \<open>What is added to a counter under a label in a list of calls.\<close>

definition counter_total :: "string \<Rightarrow> (string \<times> string) list \<Rightarrow> prom_effect list \<Rightarrow> int" where
  "counter_total name labels es =
     sum_list (map (\<lambda>e. case e of AddToCounterVec n i l \<Rightarrow> if n = name \<and> l = labels then i else 0 | _ \<Rightarrow> 0) es)"

lemma missed_counted:
  "counter_total metricFdps [(MetricTypeLabel, ProvTpMiss)] (concat (map chief_metrics_step ms)) =
   sum_list (map (\<lambda>m. case m of ProvMetric p \<Rightarrow> MissedCount p | _ \<Rightarrow> 0) ms)"
proof (induction ms)
  case (Cons m ms)
  have "metricFdps \<noteq> metricChan" "metricFdps \<noteq> metricRedis" "metricChan \<noteq> metricFdps" "metricRedis \<noteq> metricFdps"
    by (simp_all add: metricFdps_def metricChan_def metricRedis_def)
  moreover have "counter_total n l (es @ fs) = counter_total n l es + counter_total n l fs" for n l es fs
    by (simp add: counter_total_def)
  ultimately show ?case
    using Cons by (cases m) (simp_all add: counter_total_def prov_labels)
qed (simp add: counter_total_def)

end
