(* ===== verification/Fdps_Imit.thy ===== *)
theory Fdps_Imit
  imports Oldi_Grpc Logger_Main
begin

text \<open>
  The imitator of a provider, \<open>fdps_imit/main.go\<close> and \<open>fdps_imit/settings/settings.go\<close>: it makes
  messages for two channels, sends them to the gRPC server of the chief, fetches what comes
  back and counts what does not. The results of the gRPC calls are arguments.
\<close>

record ImitSettings =
  FmtpCntrlAddress :: string
  FmtpCntrlPort :: int
  SendIntervalMsec :: int
  RecvIntervalMsec :: int
  ImitGenMsgIntervalMsec :: int
  ImitGenMsgCount :: int
  imMetricsGatewayUrl :: string
  imMetricsIntervalSec :: int
  MetricsHostLabel :: string

definition imit_setDefault :: "ImitSettings \<Rightarrow> ImitSettings" where
  "imit_setDefault s = s\<lparr>
     FmtpCntrlAddress := ''192.168.1.24'', FmtpCntrlPort := 55566, SendIntervalMsec := 300,
     RecvIntervalMsec := 300, ImitGenMsgIntervalMsec := 500, ImitGenMsgCount := 10,
     imMetricsGatewayUrl := ''http://192.168.1.24:9100'', imMetricsIntervalSec := 1,
     MetricsHostLabel := ''127.0.0.1''\<rparr>"

definition metricImitMsg :: string where "metricImitMsg = ''msg''"
definition metricTypeLabel :: string where "metricTypeLabel = ''tp''"
definition tpSend :: string where "tpSend = ''send''"
definition tpRecv :: string where "tpRecv = ''recv''"
definition tpMissed :: string where "tpMissed = ''miss''"

datatype imit_effect =
  ImitProm prom_effect
| ImitSendMsg "pb_msg list"
| ImitErr string
| ImitPrintln string

record imit =
  imSetts :: ImitSettings
  msgId :: int
  msgsList :: "pb_msg list"
  expectBuffer :: "pb_msg list"
  imOut :: "imit_effect list"

definition im_emit :: "imit_effect \<Rightarrow> imit \<Rightarrow> imit" where
  "im_emit e s = s\<lparr>imOut := imOut s @ [e]\<rparr>"

definition count_msgs :: "int \<Rightarrow> string \<Rightarrow> imit \<Rightarrow> imit" where
  "count_msgs n tp = im_emit (ImitProm (AddToCounterVec metricImitMsg n [(metricTypeLabel, tp)]))"

definition imit_start :: "ImitSettings \<Rightarrow> imit" where
  "imit_start setts =
     (let s = \<lparr>imSetts = setts, msgId = 0, msgsList = [], expectBuffer = [], imOut = []\<rparr>;
          s = im_emit (ImitProm (PromSettings
                \<lparr>PusherIntervalSec = imMetricsIntervalSec setts, GatewayUrl = imMetricsGatewayUrl setts,
                 GatewayJob = ''fmtp'', CollectNamespace = ''fmtp'', CollectSubsystem = ''imit'',
                 CollectLabels = [(''host'', MetricsHostLabel setts)]\<rparr>)) s;
          s = im_emit (ImitProm (AppendCounterVec metricImitMsg ((ru ''Imitator '') @ ''FMTP '' @ (ru ''soobqenij'')) [metricTypeLabel])) s;
          s = im_emit (ImitProm PromInitialize) s
      in count_msgs 0 tpMissed (count_msgs 0 tpRecv (count_msgs 0 tpSend s)))"

text \<open>A message; the sign before its number is U+2116. The text of the time is an argument.\<close>

definition number_sign :: string where
  "number_sign = [CHR 0xE2, CHR 0x84, CHR 0x96]"

definition imit_msg :: "string \<Rightarrow> int \<Rightarrow> time \<Rightarrow> string \<Rightarrow> pb_msg" where
  "imit_msg cid ident curTime timeText =
     \<lparr>pbCid = cid, pbTp = ''operational'',
      pbTxt = ''MSG TO '' @ cid @ '' '' @ number_sign @ Itoa ident @ '' time: '' @ timeText,
      pbId = Itoa ident, Rrtime = Some curTime, Rqtime = Some curTime\<rparr>"

definition gen_pair :: "time \<Rightarrow> string \<Rightarrow> imit \<Rightarrow> imit" where
  "gen_pair curTime timeText s =
     (let ident = msgId s + 1;
          msg1 = imit_msg ''UIII'' ident curTime timeText;
          msg2 = imit_msg ''UEEE'' (ident + 1) curTime timeText
      in s\<lparr>msgId := ident + 1, expectBuffer := expectBuffer s @ [msg1, msg2],
           msgsList := msgsList s @ [msg1, msg2]\<rparr>)"

definition test_tick :: "time \<Rightarrow> string \<Rightarrow> imit \<Rightarrow> imit" where
  "test_tick curTime timeText s = (gen_pair curTime timeText ^^ nat (ImitGenMsgCount (imSetts s))) s"

definition send_tick :: "string option \<Rightarrow> imit \<Rightarrow> imit" where
  "send_tick err s =
     (if msgsList s \<noteq> [] then
        (let s = im_emit (ImitSendMsg (msgsList s)) s
         in case err of
              Some e \<Rightarrow> im_emit (ImitErr (''Error SendMsg: '' @ e)) s
            | None \<Rightarrow> (count_msgs (int (length (msgsList s))) tpSend s)\<lparr>msgsList := []\<rparr>)
      else im_emit (ImitPrintln ''empty list'') s)"

text \<open>A received message takes the first expected one with its text out of the buffer.\<close>

fun remove_expected :: "pb_msg \<Rightarrow> pb_msg list \<Rightarrow> pb_msg list" where
  "remove_expected v [] = []"
| "remove_expected v (e # es) = (if pbTxt e = pbTxt v then es else e # remove_expected v es)"

definition recv_tick :: "string option \<Rightarrow> pb_msg list option \<Rightarrow> imit \<Rightarrow> imit" where
  "recv_tick err r s =
     (let s = (case err of Some e \<Rightarrow> im_emit (ImitErr (''Error RecvMsq: '' @ e)) s | None \<Rightarrow> s)
      in case r of
           None \<Rightarrow> s
         | Some list \<Rightarrow>
             (let s = count_msgs (int (length list)) tpRecv s
              in s\<lparr>expectBuffer := fold remove_expected list (expectBuffer s)\<rparr>))"

text \<open>The expected messages whose number is more than a thousand below the last: the index of
  the last of them before the first that is newer.\<close>

fun last_missed :: "int \<Rightarrow> int \<Rightarrow> int \<Rightarrow> pb_msg list \<Rightarrow> int" where
  "last_missed cur idx maxDelIdx [] = maxDelIdx"
| "last_missed cur idx maxDelIdx (v # vs) =
     (if fst (Atoi (pbId v)) + 1000 < cur then last_missed cur (idx + 1) idx vs else maxDelIdx)"

definition check_expected :: "imit \<Rightarrow> imit" where
  "check_expected s =
     (let maxDelIdx = last_missed (msgId s) 0 (-1) (expectBuffer s);
          s = fold (\<lambda>v. im_emit (ImitErr (''!!!!Error expected msg not recieved '' @ Itoa (fst (Atoi (pbId v))))))
                (take (nat (maxDelIdx + 1)) (expectBuffer s)) s
      in if maxDelIdx \<noteq> -1 then
           (count_msgs maxDelIdx tpMissed s)\<lparr>expectBuffer :=
              (if maxDelIdx < int (length (expectBuffer s)) - 1 then drop (nat (maxDelIdx + 1)) (expectBuffer s)
               else take (length (expectBuffer s) - 1) (expectBuffer s))\<rparr>
         else s)"

datatype imit_input =
  TestTick time string
| SendTick "string option"
| RecvTick "string option" "pb_msg list option"
| CheckExpectedTick

fun imit_step :: "imit_input \<Rightarrow> imit \<Rightarrow> imit" where
  "imit_step (TestTick curTime timeText) s = test_tick curTime timeText s"
| "imit_step (SendTick err) s = send_tick err s"
| "imit_step (RecvTick err r) s = recv_tick err r s"
| "imit_step CheckExpectedTick s = check_expected s"

section \<open>Lemmas\<close>

lemma im_emit_simps [simp]:
  "imSetts (im_emit e s) = imSetts s" "msgId (im_emit e s) = msgId s" "msgsList (im_emit e s) = msgsList s"
  "expectBuffer (im_emit e s) = expectBuffer s" "imOut (im_emit e s) = imOut s @ [e]"
  "imSetts (count_msgs n tp s) = imSetts s" "msgId (count_msgs n tp s) = msgId s"
  "msgsList (count_msgs n tp s) = msgsList s" "expectBuffer (count_msgs n tp s) = expectBuffer s"
  by (simp_all add: im_emit_def count_msgs_def)

lemma fold_emit_frame [simp]:
  "expectBuffer (fold (\<lambda>v. im_emit (f v)) vs s) = expectBuffer s" "msgId (fold (\<lambda>v. im_emit (f v)) vs s) = msgId s"
  by (induction vs arbitrary: s) simp_all

lemma last_missed_all:
  "\<forall>v \<in> set vs. fst (Atoi (pbId v)) + 1000 < cur \<Longrightarrow>
   last_missed cur idx m vs = (if vs = [] then m else idx + int (length vs) - 1)"
  by (induction vs arbitrary: idx m) auto

text \<open>What is expected is what was made and has not come back: the texts of the expected and of
  the received messages are those of the messages made.\<close>

lemma remove_expected_mset:
  "image_mset pbTxt (mset (remove_expected v es)) = image_mset pbTxt (mset es) - {#pbTxt v#}"
  by (induction es) auto

lemma fold_remove_mset:
  "image_mset pbTxt (mset (fold remove_expected vs es)) = image_mset pbTxt (mset es) - image_mset pbTxt (mset vs)"
  by (induction vs arbitrary: es) (simp_all add: remove_expected_mset diff_diff_add_mset)

section \<open>Properties\<close>

text \<open>What the imitator expects after fetching messages is exactly, by their texts, what it
  expected before less what it fetched; messages it never sent take nothing away.\<close>

theorem imit_expects:
  "mset (map pbTxt (expectBuffer (imit_step (RecvTick err (Some list)) s))) =
    mset (map pbTxt (expectBuffer s)) - mset (map pbTxt list)"
  by (simp add: recv_tick_def fold_remove_mset Let_def split: option.split)

text \<open>When all expected messages are overdue the imitator drops only the last of them:
  the others stay and are reported as missed again at every check, and the metric counts one less than
  were overdue.\<close>

theorem imit_keeps_missed:
  assumes "list_all (\<lambda>v. fst (Atoi (pbId v)) + 1000 < msgId s) (expectBuffer s)" and "expectBuffer s \<noteq> []"
  shows "expectBuffer (imit_step CheckExpectedTick s) = butlast (expectBuffer s) \<and>
    last (imOut (imit_step CheckExpectedTick s)) =
      ImitProm (AddToCounterVec metricImitMsg (int (length (expectBuffer s)) - 1) [(metricTypeLabel, tpMissed)])"
proof -
  have m: "last_missed (msgId s) 0 (-1) (expectBuffer s) = int (length (expectBuffer s)) - 1"
    using assms by (simp add: last_missed_all list_all_iff)
  have "int (length (expectBuffer s)) - 1 \<noteq> -1" using assms(2) by simp
  then show ?thesis
    by (simp add: check_expected_def m Let_def butlast_conv_take) (simp add: count_msgs_def)
qed

definition overdue_imit :: imit where
  "overdue_imit = (imit_start (imit_setDefault \<lparr>FmtpCntrlAddress = [], FmtpCntrlPort = 0, SendIntervalMsec = 0,
     RecvIntervalMsec = 0, ImitGenMsgIntervalMsec = 0, ImitGenMsgCount = 0, imMetricsGatewayUrl = [],
     imMetricsIntervalSec = 0, MetricsHostLabel = []\<rparr>))
     \<lparr>msgId := 2000, expectBuffer := [imit_msg ''UIII'' 1 0 ''t'', imit_msg ''UEEE'' 2 0 ''t'']\<rparr>"

theorem imit_keeps_missed_witness:
  "expectBuffer (imit_step CheckExpectedTick overdue_imit) = butlast (expectBuffer overdue_imit) \<and>
    last (imOut (imit_step CheckExpectedTick overdue_imit)) =
      ImitProm (AddToCounterVec metricImitMsg (int (length (expectBuffer overdue_imit)) - 1) [(metricTypeLabel, tpMissed)])"
  by (rule imit_keeps_missed)
    (simp_all add: overdue_imit_def imit_msg_def Atoi_Itoa int_min_def int_max_def)

end
