(* ===== verification/Settings_Files.thy ===== *)
theory Settings_Files
  imports Json_Codec Chief_Worker Fdps_Imit
begin

text \<open>
  The files of the settings: of the chief, \<open>chief/chief_settings/chief_settings.go\<close>, of the
  logger, \<open>ora_logger/logger_settings/logger_settings.go\<close>, of the imitator,
  \<open>fdps_imit/settings/settings.go\<close>, and of the URLs of the configurator,
  \<open>configurator/configurator_urls/configurator_urls.go\<close>. Each structure with its table of
  fields is an instance of the interface \<open>json_codec\<close>, so what was saved is read back.

  The results of reading and writing a file are arguments; so is what the printing of
  a document by \<open>utils.JsonPrettyPrint\<close> gives, the document its text denotes. The slices
  read into are empty, as they are at the start: Go's decoder would use the elements of a slice
  that has some again.
\<close>

section \<open>The structures as documents\<close>

definition marshal_fields :: "(string \<times> 'd) list \<Rightarrow> json list \<Rightarrow> json" where
  "marshal_fields fs values = JObj (zip (map fst fs) values)"

definition marshal_channel :: "ChannelSettings \<Rightarrow> json" where
  "marshal_channel s = marshal_fields settings_fields (settings_values s)"

definition provider_values :: "ProviderSettings \<Rightarrow> json list" where
  "provider_values p =
     [JInt (provID p), JArr (map JStr (IPAddresses p)), JStr (provStatus p), JStr (provDataType p),
      JStr (ProviderEncoding p), JInt (provLocalPort p)]"

definition marshal_provider :: "ProviderSettings \<Rightarrow> json" where
  "marshal_provider p = marshal_fields provider_fields (provider_values p)"

definition logger_setts_values :: "LoggerSettings \<Rightarrow> json list" where
  "logger_setts_values l =
     [JInt (FileSizeKB l), JInt (FolderSizeGB l), JInt (LoggerPort l), JStr (DbServiceName l), JStr (DbHostname l),
      JInt (DbMaxLogStoreCount l), JStr (DbPassword l), JInt (DbPort l), JInt (DbStoreDays l), JStr (DbUser l)]"

definition marshal_logger_setts :: "LoggerSettings \<Rightarrow> json" where
  "marshal_logger_setts l = marshal_fields logger_setts_fields (logger_setts_values l)"

definition chief_values :: "ChiefSettings \<Rightarrow> json list" where
  "chief_values s =
     [JStr (cfIPAddr s), JInt (cfCntrlID s), JStr (Timestamp s), JInt (ChannelsPort s), JInt (OldiProviderPort s),
      JStr (OldiProviderEncoding s), JInt (AodbProviderPort s), JStr (DockerRegistry s),
      marshal_logger_setts (LoggerSetts s), JArr (map marshal_channel (ChannelSetts s)),
      JArr (map marshal_provider (ProvidersSetts s))]"

definition marshal_chief :: "ChiefSettings \<Rightarrow> json" where
  "marshal_chief s = marshal_fields chief_settings_fields (chief_values s)"

definition logger_cfg_values :: "LoggerCfg \<Rightarrow> json list" where
  "logger_cfg_values c =
     [JBool (lcInitialised c), JStr (lcIPAddr c), JStr (lcLoggerID c), JStr (lcTimestamp c),
      JStr (OraHostname c), JInt (OraPort c), JStr (OraServiceName c), JStr (OraUser c), JStr (OraPassword c),
      JInt (OraMaxLogStoreCount c), JInt (OraStoreDays c), JStr (RedisHostname c), JInt (RedisPort c),
      JInt (RedisDbId c), JStr (RedisUserName c), JStr (RedisPassword c), JInt (RedisMaxReadCount c),
      JInt (MetricsIntervalSec c), JStr (MetricsGatewayUrl c)]"

definition marshal_logger_cfg :: "LoggerCfg \<Rightarrow> json" where
  "marshal_logger_cfg c = marshal_fields logger_cfg_fields (logger_cfg_values c)"

definition imit_setts_fields :: "(string \<times> ImitSettings setter) list" where
  "imit_setts_fields =
     [(''FmtpCntrlAddress'', set_str (\<lambda>v. FmtpCntrlAddress_update (\<lambda>_. v))),
      (''FmtpCntrlPort'', set_int (\<lambda>v. FmtpCntrlPort_update (\<lambda>_. v))),
      (''SendIntervalMsec'', set_int (\<lambda>v. SendIntervalMsec_update (\<lambda>_. v))),
      (''RecvIntervalMsec'', set_int (\<lambda>v. RecvIntervalMsec_update (\<lambda>_. v))),
      (''ImitGenMsgIntervalMsec'', set_int (\<lambda>v. ImitGenMsgIntervalMsec_update (\<lambda>_. v))),
      (''ImitGenMsgCount'', set_int (\<lambda>v. ImitGenMsgCount_update (\<lambda>_. v))),
      (''MetricsGatewayUrl'', set_str (\<lambda>v. imMetricsGatewayUrl_update (\<lambda>_. v))),
      (''MetricsIntervalSec'', set_int (\<lambda>v. imMetricsIntervalSec_update (\<lambda>_. v))),
      (''MetricsHostLabel'', set_str (\<lambda>v. MetricsHostLabel_update (\<lambda>_. v)))]"

definition imit_setts_values :: "ImitSettings \<Rightarrow> json list" where
  "imit_setts_values s =
     [JStr (FmtpCntrlAddress s), JInt (FmtpCntrlPort s), JInt (SendIntervalMsec s), JInt (RecvIntervalMsec s),
      JInt (ImitGenMsgIntervalMsec s), JInt (ImitGenMsgCount s), JStr (imMetricsGatewayUrl s),
      JInt (imMetricsIntervalSec s), JStr (MetricsHostLabel s)]"

definition marshal_imit :: "ImitSettings \<Rightarrow> json" where
  "marshal_imit s = marshal_fields imit_setts_fields (imit_setts_values s)"

definition urls_fields :: "(string \<times> ConfiguratorUrls setter) list" where
  "urls_fields =
     [(''HeartbeatUrl'', set_str (\<lambda>v. HeartbeatURLStr_update (\<lambda>_. v))),
      (''SettingsUrl'', set_str (\<lambda>v. SettingsURLStr_update (\<lambda>_. v)))]"

definition marshal_urls :: "ConfiguratorUrls \<Rightarrow> json" where
  "marshal_urls u = marshal_fields urls_fields [JStr (HeartbeatURLStr u), JStr (SettingsURLStr u)]"

definition zeroImitSettings :: ImitSettings where
  "zeroImitSettings = \<lparr>FmtpCntrlAddress = [], FmtpCntrlPort = 0, SendIntervalMsec = 0, RecvIntervalMsec = 0,
     ImitGenMsgIntervalMsec = 0, ImitGenMsgCount = 0, imMetricsGatewayUrl = [], imMetricsIntervalSec = 0,
     MetricsHostLabel = []\<rparr>"

section \<open>What documents can hold\<close>

definition provider_in_range :: "ProviderSettings \<Rightarrow> bool" where
  "provider_in_range p \<longleftrightarrow> int64 (provID p) \<and> int64 (provLocalPort p)"

definition logger_setts_in_range :: "LoggerSettings \<Rightarrow> bool" where
  "logger_setts_in_range l \<longleftrightarrow>
     list_all int64 [FileSizeKB l, FolderSizeGB l, LoggerPort l, DbMaxLogStoreCount l, DbPort l, DbStoreDays l]"

definition chief_in_range :: "ChiefSettings \<Rightarrow> bool" where
  "chief_in_range s \<longleftrightarrow>
     list_all int64 [cfCntrlID s, ChannelsPort s, OldiProviderPort s, AodbProviderPort s] \<and>
     logger_setts_in_range (LoggerSetts s) \<and>
     list_all (\<lambda>c. settings_in_range c \<and> FmtpInitState c = FmtpInitState zeroChannelSettings) (ChannelSetts s) \<and>
     list_all provider_in_range (ProvidersSetts s)"

definition logger_cfg_in_range :: "LoggerCfg \<Rightarrow> bool" where
  "logger_cfg_in_range c \<longleftrightarrow>
     list_all int64 [OraPort c, OraMaxLogStoreCount c, OraStoreDays c, RedisPort c, RedisDbId c, RedisMaxReadCount c,
       MetricsIntervalSec c]"

definition imit_in_range :: "ImitSettings \<Rightarrow> bool" where
  "imit_in_range s \<longleftrightarrow>
     list_all int64 [FmtpCntrlPort s, SendIntervalMsec s, RecvIntervalMsec s, ImitGenMsgIntervalMsec s,
       ImitGenMsgCount s, imMetricsIntervalSec s]"

lemmas in_range_defs =
  settings_in_range_def provider_in_range_def logger_setts_in_range_def chief_in_range_def logger_cfg_in_range_def
  imit_in_range_def int64_def

interpretation channel_codec: json_codec marshal_channel "decode_object (plain_fields settings_fields)"
  settings_in_range "\<lambda>x s. x\<lparr>FmtpInitState := FmtpInitState s\<rparr>"
proof unfold_locales
  fix x s :: ChannelSettings
  assume "settings_in_range x"
  moreover have "length (settings_values x) = length settings_fields"
    by (simp add: settings_values_def settings_fields_def)
  moreover have "distinct (map fst settings_fields)" by (simp add: settings_fields_def)
  ultimately show "decode_object (plain_fields settings_fields) (marshal_channel x) s =
      (x\<lparr>FmtpInitState := FmtpInitState s\<rparr>, True)"
    by (simp add: marshal_channel_def marshal_fields_def decode_flat store_settings)
qed simp

interpretation provider_codec: json_codec marshal_provider "decode_object provider_fields" provider_in_range "\<lambda>x s. x"
proof unfold_locales
  fix x s :: ProviderSettings
  assume x: "provider_in_range x"
  have "decode_object provider_fields (marshal_provider x) s =
      run_decoders (zip (map snd provider_fields) (provider_values x)) s"
    unfolding marshal_provider_def marshal_fields_def
    by (rule decode_object_in_order) (simp_all add: provider_fields_def provider_values_def)
  also have "\<dots> = (x, True)"
    using x by (simp add: provider_fields_def provider_values_def plain_def
        string_codec.decode_encoded_list list.pred_True in_range_defs)
  finally show "decode_object provider_fields (marshal_provider x) s = (x, True)" .
qed simp

interpretation logger_setts_codec: json_codec marshal_logger_setts "decode_object logger_setts_fields"
  logger_setts_in_range "\<lambda>x s. x"
proof unfold_locales
  fix x s :: LoggerSettings
  assume x: "logger_setts_in_range x"
  show "decode_object logger_setts_fields (marshal_logger_setts x) s = (x, True)"
    unfolding marshal_logger_setts_def marshal_fields_def logger_setts_fields_def fst_plain_fields
    by (rule decode_flat) (use x in \<open>simp_all add: logger_setts_values_def in_range_defs\<close>)
qed simp

lemma kept_channels:
  "list_all (\<lambda>c. settings_in_range c \<and> FmtpInitState c = FmtpInitState zeroChannelSettings) cs \<Longrightarrow>
   map (\<lambda>x. x\<lparr>FmtpInitState := FmtpInitState zeroChannelSettings\<rparr>) cs = cs"
  by (induction cs) auto

interpretation chief_codec: json_codec marshal_chief "decode_object chief_settings_fields" chief_in_range
  "\<lambda>x s. x\<lparr>IsInitialised := IsInitialised s\<rparr>"
proof unfold_locales
  fix x s :: ChiefSettings
  assume x: "chief_in_range x"
  then have cs: "list_all settings_in_range (ChannelSetts x)" and ps: "list_all provider_in_range (ProvidersSetts x)"
    and ls: "logger_setts_in_range (LoggerSetts x)"
    and k: "map (\<lambda>x. x\<lparr>FmtpInitState := FmtpInitState zeroChannelSettings\<rparr>) (ChannelSetts x) = ChannelSetts x"
    by (auto simp: chief_in_range_def list_all_iff intro: kept_channels)
  have "decode_object chief_settings_fields (marshal_chief x) s =
      run_decoders (zip (map snd chief_settings_fields) (chief_values x)) s"
    unfolding marshal_chief_def marshal_fields_def
    by (rule decode_object_in_order) (simp_all add: chief_settings_fields_def chief_values_def)
  also have "\<dots> = (x\<lparr>IsInitialised := IsInitialised s\<rparr>, True)"
    using x cs ps ls
    by (simp add: chief_settings_fields_def chief_values_def plain_def channel_codec.decode_encoded_list
      provider_codec.decode_encoded_list logger_setts_codec.decode_encoded_field k)
      (simp add: in_range_defs)
  finally show "decode_object chief_settings_fields (marshal_chief x) s = (x\<lparr>IsInitialised := IsInitialised s\<rparr>, True)" .
qed simp

interpretation logger_cfg_codec: json_codec marshal_logger_cfg "\<lambda>j. Unmarshal logger_cfg_fields (Some j)"
  logger_cfg_in_range "\<lambda>x s. x"
proof unfold_locales
  fix x s :: LoggerCfg
  assume "logger_cfg_in_range x"
  then show "Unmarshal logger_cfg_fields (Some (marshal_logger_cfg x)) s = (x, True)"
    unfolding marshal_logger_cfg_def marshal_fields_def
    by (intro Unmarshal_whole) (simp_all add: logger_cfg_fields_def logger_cfg_values_def in_range_defs)
qed simp

interpretation imit_codec: json_codec marshal_imit "\<lambda>j. Unmarshal imit_setts_fields (Some j)" imit_in_range "\<lambda>x s. x"
proof unfold_locales
  fix x s :: ImitSettings
  assume "imit_in_range x"
  then show "Unmarshal imit_setts_fields (Some (marshal_imit x)) s = (x, True)"
    unfolding marshal_imit_def marshal_fields_def
    by (intro Unmarshal_whole) (simp_all add: imit_setts_fields_def imit_setts_values_def in_range_defs)
qed simp

interpretation urls_codec: json_codec marshal_urls "\<lambda>j. Unmarshal urls_fields (Some j)" "\<lambda>u. True" "\<lambda>x s. x"
proof unfold_locales
  fix x s :: ConfiguratorUrls
  show "Unmarshal urls_fields (Some (marshal_urls x)) s = (x, True)"
    unfolding marshal_urls_def marshal_fields_def
    by (intro Unmarshal_whole) (simp_all add: urls_fields_def)
qed simp

section \<open>Reading and writing\<close>

text \<open>What the calls on files give: the texts of the errors, whether the file is written, and
  the document the printed text of a document denotes.\<close>

record file_env =
  openErr :: string
  docErr :: string
  writeRes :: write_result
  prettyDoc :: "json \<Rightarrow> json option"

definition chief_ReadFromFile :: "file_env \<Rightarrow> json_file \<Rightarrow> ChiefSettings \<Rightarrow> ChiefSettings file_read" where
  "chief_ReadFromFile fe file s =
     (case file of
        None \<Rightarrow> NoFile (openErr fe)
      | Some doc \<Rightarrow>
          (let (t, ok) = read_doc (decode_object chief_settings_fields) doc s
           in if ok then GoodFile t else BadFile (docErr fe) t))"

definition chief_SaveToFile :: "file_env \<Rightarrow> ChiefSettings \<Rightarrow> string option \<times> json_file" where
  "chief_SaveToFile fe s = write_file (writeRes fe) (prettyDoc fe (marshal_chief s))"

text \<open>The settings of the logger and of the imitator: where there is no file, the defaults are
  saved, and the error is returned all the same. The results are the settings, the error and
  the file after it.\<close>

definition logger_SaveToFile :: "file_env \<Rightarrow> LoggerCfg \<Rightarrow> string option \<times> json_file" where
  "logger_SaveToFile fe s = write_file (writeRes fe) (prettyDoc fe (marshal_logger_cfg s))"

definition logger_ReadFromFile :: "file_env \<Rightarrow> json_file \<Rightarrow> LoggerCfg \<Rightarrow> LoggerCfg \<times> string option \<times> json_file" where
  "logger_ReadFromFile fe file s =
     (case file of
        None \<Rightarrow>
          (let s = logger_setDefault s; (_, file) = logger_SaveToFile fe s
           in (s, Some (openErr fe), file))
      | Some doc \<Rightarrow>
          (let (t, ok) = Unmarshal logger_cfg_fields doc s
           in (t, if ok then None else Some (docErr fe), file)))"

definition imit_SaveToFile :: "file_env \<Rightarrow> ImitSettings \<Rightarrow> string option \<times> json_file" where
  "imit_SaveToFile fe s = write_file (writeRes fe) (prettyDoc fe (marshal_imit s))"

definition imit_ReadFromFile :: "file_env \<Rightarrow> json_file \<Rightarrow> ImitSettings \<Rightarrow> ImitSettings \<times> string option \<times> json_file" where
  "imit_ReadFromFile fe file s =
     (case file of
        None \<Rightarrow>
          (let s = imit_setDefault s; (_, file) = imit_SaveToFile fe s
           in (s, Some (openErr fe), file))
      | Some doc \<Rightarrow>
          (let (t, ok) = Unmarshal imit_setts_fields doc s
           in (t, if ok then None else Some (docErr fe), file)))"

text \<open>The start of the imitator. A ticker panics if its interval is not positive; an interval is a
  number of nanoseconds that wraps around at 64 bits. The third is given in nanoseconds at once.\<close>

definition duration :: "int \<Rightarrow> int \<Rightarrow> int" where
  "duration n unit = sint (word_of_int (n * unit) :: 64 word)"

definition imit_main :: "file_env \<Rightarrow> json_file \<Rightarrow> string option \<Rightarrow> imit option \<times> json_file" where
  "imit_main fe file dialErr =
     (let (setts, _, file) = imit_ReadFromFile fe file zeroImitSettings;
          out = (case dialErr of Some e \<Rightarrow> [ImitErr (''did not connect to GRPC: '' @ e)] | None \<Rightarrow> []);
          millisecond = 1000000;
          tickers = [duration (SendIntervalMsec setts) millisecond, duration (RecvIntervalMsec setts) millisecond,
            duration (ImitGenMsgIntervalMsec setts) millisecond, duration (SendIntervalMsec setts * 10) 1];
          s = imit_start setts
      in (if list_all (\<lambda>d. 0 < d) tickers then Some (s\<lparr>imOut := out @ imOut s\<rparr>) else None, file))"

text \<open>The file of the URLs is read and written by a library; what the reading leaves in the
  structure and its error are arguments. The second of the two arguments checks a URL.\<close>

definition urls_ReadFromFile ::
  "ConfiguratorUrls \<times> string option \<Rightarrow> (string \<Rightarrow> string option) \<Rightarrow> ConfiguratorUrls \<times> conf_effect list" where
  "urls_ReadFromFile res parseErr =
     (let (cu, errRead) = res;
          es = (case errRead of
                  Some e \<Rightarrow> [ConfPrint PrintErr ((ru ''Owibka 4teni9 fajla konfiguracij '') @ ''URL'' @ (''. '' @ ru ''Owibka: '') @ e @ ''.'')]
                | None \<Rightarrow> []);
          es = es @ (case parseErr (HeartbeatURLStr cu) of
                  Some e \<Rightarrow> [ConfPrint PrintErr ((ru ''Nevernoe zna4enie '') @ ''URL'' @
                    ('' '' @ ru ''otpravki sosto9ni9 konfiguratoru. '') @ ''URL: '' @ SettingsURLStr cu @ (''. '' @ ru ''Owibka: '') @ e)]
                | None \<Rightarrow> []);
          es = es @ (case parseErr (SettingsURLStr cu) of
                  Some e \<Rightarrow> [ConfPrint PrintErr ((ru ''Nevernoe zna4enie '') @ ''URL'' @
                    ('' '' @ ru ''zaprosa nastroek u konfiguratora. '') @ ''URL: '' @ SettingsURLStr cu @ (''. '' @ ru ''Owibka: '') @ e)]
                | None \<Rightarrow> [])
      in (cu, es))"

definition urls_SaveToFile :: "string option \<Rightarrow> conf_effect list" where
  "urls_SaveToFile errWrite =
     (case errWrite of
        Some e \<Rightarrow> [ConfPrint PrintErr ((ru ''Owibka sohraneni9 konfiguracii '') @ ''URL'' @ ('' '' @ ru ''v fajl. Owibka: '') @ e)]
      | None \<Rightarrow> [])"

text \<open>A file system on which saving works, and printing keeps the document.\<close>

definition files_work :: "file_env \<Rightarrow> bool" where
  "files_work fe \<longleftrightarrow> writeRes fe = Written"

definition prints :: "file_env \<Rightarrow> json \<Rightarrow> bool" where
  "prints fe j \<longleftrightarrow> prettyDoc fe j = Some j"

lemma chief_file:
  assumes "files_work fe" "prints fe (marshal_chief s)" "chief_in_range s"
  shows "chief_SaveToFile fe s = (None, Some (Some (marshal_chief s)))"
    and "chief_ReadFromFile fe' (snd (chief_SaveToFile fe s)) t = GoodFile (s\<lparr>IsInitialised := IsInitialised t\<rparr>)"
  using assms chief_codec.decode_encode [of s t]
  by (simp_all add: chief_SaveToFile_def chief_ReadFromFile_def files_work_def prints_def write_file_def read_doc_def)

lemma logger_file:
  assumes "files_work fe" "prints fe (marshal_logger_cfg s)" "logger_cfg_in_range s"
  shows "logger_SaveToFile fe s = (None, Some (Some (marshal_logger_cfg s)))"
    and "logger_ReadFromFile fe' (snd (logger_SaveToFile fe s)) t = (s, None, snd (logger_SaveToFile fe s))"
  using assms logger_cfg_codec.decode_encode [of s t]
  by (simp_all add: logger_SaveToFile_def logger_ReadFromFile_def files_work_def prints_def write_file_def)

lemma imit_file:
  assumes "files_work fe" "prints fe (marshal_imit s)" "imit_in_range s"
  shows "imit_SaveToFile fe s = (None, Some (Some (marshal_imit s)))"
    and "imit_ReadFromFile fe' (snd (imit_SaveToFile fe s)) t = (s, None, snd (imit_SaveToFile fe s))"
  using assms imit_codec.decode_encode [of s t]
  by (simp_all add: imit_SaveToFile_def imit_ReadFromFile_def files_work_def prints_def write_file_def)

text \<open>A file that is no document leaves the settings empty, and the imitator does not start.\<close>

lemma imit_bad_file: "imit_main fe (Some None) dialErr = (None, Some None)"
  by (simp add: imit_main_def imit_ReadFromFile_def Unmarshal_def zeroImitSettings_def duration_def)

lemma imit_main_runs:
  assumes "imit_ReadFromFile fe file zeroImitSettings = (imit_setDefault s, err, file')"
  shows "\<exists>m. imit_main fe file dialErr = (Some m, file') \<and> imSetts m = imit_setDefault s"
  using assms
  by (simp add: imit_main_def Let_def duration_def imit_setDefault_def imit_start_def count_msgs_def im_emit_def
      sint_word_ariths)

section \<open>What was read stays in range\<close>

lemma channel_keeps:
  "keeps (\<lambda>c. settings_in_range c \<and> FmtpInitState c = z) (decode_object (plain_fields settings_fields))"
  by (rule keeps_object) (simp add: plain_fields_def settings_fields_def settings_in_range_def int64_def keeps_plain)

lemma provider_keeps: "keeps provider_in_range (decode_object provider_fields)"
proof (rule keeps_object)
  have "keeps provider_in_range (decode_list (\<lambda>v. IPAddresses_update (\<lambda>_. v)) [] decode_string)"
    by (rule keeps_list [where J = "\<lambda>x. True"]) (simp_all add: keeps_def in_range_defs)
  then show "\<forall>(k, d) \<in> set provider_fields. keeps provider_in_range d"
    by (simp add: provider_fields_def keeps_plain provider_in_range_def int64_def)
qed

lemma logger_setts_keeps: "keeps logger_setts_in_range (decode_object logger_setts_fields)"
  by (rule keeps_object)
    (simp add: plain_fields_def logger_setts_fields_def logger_setts_in_range_def int64_def keeps_plain)

lemma chief_keeps: "keeps chief_in_range (decode_object chief_settings_fields)"
proof (rule keeps_object)
  let ?J = "\<lambda>c. settings_in_range c \<and> FmtpInitState c = FmtpInitState zeroChannelSettings"
  have "keeps chief_in_range (decode_list (\<lambda>v. ChannelSetts_update (\<lambda>_. v)) zeroChannelSettings
      (decode_object (plain_fields settings_fields)))"
    by (rule keeps_list [where J = ?J, OF channel_keeps])
      (simp_all add: chief_in_range_def zeroChannelSettings_def settings_in_range_def int64_def
        int_min_def int_max_def)
  moreover have "keeps chief_in_range (decode_list (\<lambda>v. ProvidersSetts_update (\<lambda>_. v)) zeroProviderSettings
      (decode_object provider_fields))"
    by (rule keeps_list [where J = provider_in_range, OF provider_keeps])
      (simp_all add: chief_in_range_def zeroProviderSettings_def provider_in_range_def int64_def int_min_def int_max_def)
  moreover have "keeps chief_in_range (decode_field (\<lambda>v. LoggerSetts_update (\<lambda>_. v)) LoggerSetts
      (decode_object logger_setts_fields))"
    by (rule keeps_field [OF logger_setts_keeps]) (simp_all add: chief_in_range_def)
  moreover have "chief_in_range s \<Longrightarrow> chief_in_range (s\<lparr>cfIPAddr := t\<rparr>)" 
    "chief_in_range s \<Longrightarrow> chief_in_range (s\<lparr>Timestamp := t\<rparr>)"
    "chief_in_range s \<Longrightarrow> chief_in_range (s\<lparr>OldiProviderEncoding := t\<rparr>)"
    "chief_in_range s \<Longrightarrow> chief_in_range (s\<lparr>DockerRegistry := t\<rparr>)"
    "chief_in_range s \<Longrightarrow> int64 i \<Longrightarrow> chief_in_range (s\<lparr>cfCntrlID := i\<rparr>)"
    "chief_in_range s \<Longrightarrow> int64 i \<Longrightarrow> chief_in_range (s\<lparr>ChannelsPort := i\<rparr>)"
    "chief_in_range s \<Longrightarrow> int64 i \<Longrightarrow> chief_in_range (s\<lparr>OldiProviderPort := i\<rparr>)"
    "chief_in_range s \<Longrightarrow> int64 i \<Longrightarrow> chief_in_range (s\<lparr>AodbProviderPort := i\<rparr>)" for s t i
    by (simp_all add: chief_in_range_def)
  ultimately show "\<forall>(k, d) \<in> set chief_settings_fields. keeps chief_in_range d"
    by (simp add: chief_settings_fields_def keeps_plain int64_def)
qed

lemma logger_cfg_keeps: "keeps logger_cfg_in_range (decode_object (plain_fields logger_cfg_fields))"
  by (rule keeps_object)
    (simp add: plain_fields_def logger_cfg_fields_def logger_cfg_in_range_def int64_def keeps_plain)

lemma Unmarshal_decode: "Unmarshal fs (Some j) s = decode_object (plain_fields fs) j s"
  by (simp add: Unmarshal_def decode_object_def decode_plain split: json.split)

lemma answered_in_range:
  assumes "decode_chief doc (zeroChiefSettings\<lparr>cfCntrlID := -1\<rparr>) = (cfg, ok)"
  shows "chief_in_range cfg"
proof (cases doc)
  case None
  then show ?thesis
    using assms by (auto simp: decode_chief_def zeroChiefSettings_def in_range_defs int_min_def int_max_def)
next
  case (Some j)
  have "chief_in_range (zeroChiefSettings\<lparr>cfCntrlID := -1\<rparr>)"
    by (simp add: zeroChiefSettings_def in_range_defs int_min_def int_max_def)
  then show ?thesis using keepsD [OF chief_keeps, of _ j] assms Some by (fastforce simp: decode_chief_def)
qed

lemma answered_logger_in_range:
  assumes "Unmarshal logger_cfg_fields doc s = (cfg, True)" "logger_cfg_in_range s"
  shows "logger_cfg_in_range cfg"
proof -
  obtain j where "doc = Some j" using assms(1) by (cases doc) (auto simp: Unmarshal_def)
  then show ?thesis
    using keepsD [OF logger_cfg_keeps assms(2), of j] assms(1) by (simp add: Unmarshal_decode)
qed

text \<open>The outcome of reading the file of the logger, as its client takes it.\<close>

definition logger_read_case :: "file_env \<Rightarrow> json_file \<Rightarrow> LoggerCfg \<Rightarrow> LoggerCfg file_read" where
  "logger_read_case fe file s =
     (case logger_ReadFromFile fe file s of
        (t, None, _) \<Rightarrow> GoodFile t
      | (t, Some e, _) \<Rightarrow> if file = None then NoFile e else BadFile e t)"

lemma logger_timer_reads:
  "LoggerCfgV (lconf_step env (LLocalTimer (logger_read_case fe file (LoggerCfgV c))) c) =
     fst (logger_ReadFromFile fe file (LoggerCfgV c))"
  by (simp add: logger_read_case_def logger_ReadFromFile_def lc_emit_def logger_sendSettings_def Let_def
      split: option.split prod.split)

section \<open>Properties\<close>

text \<open>C12: A chief that is started while the configurator does not answer works as before: the
  settings of the last answer were saved, reading the file gives every one of them back, whatever the
  answer was, and the worker hands on the same settings to the channels and the providers. Only the
  mark that they came from the configurator is not kept.\<close>

theorem restart_from_file:
  assumes "Unmarshal hdr_fields (jsonDoc env result) zeroHdr = (\<lparr>confHeader = ChiefSettsAnswerHdr\<rparr>, True)"
    and "decode_chief (jsonDoc env result) (zeroChiefSettings\<lparr>cfCntrlID := -1\<rparr>) = (cfg, True)"
    and "files_work fe" and "prints fe (marshal_chief (cfg\<lparr>IsInitialised := True\<rparr>))"
    and "startWebPort env' = startWebPort env"
  shows "let c1 = conf_step env (PostResult (Inr result)) c; saved = cfg\<lparr>IsInitialised := True\<rparr>;
      c0 = NewChiefClient docker st;
      c2 = conf_step env' (LocalTimer (chief_ReadFromFile fe' (snd (chief_SaveToFile fe saved)) (ChiefCfg c0))) c0
    in SaveChief saved \<in> set (confOut c1) \<and> ChiefCfg c2 = (ChiefCfg c1)\<lparr>IsInitialised := False\<rparr> \<and>
       last (confOut c2) = SettChanged \<and>
       worker_step (ChiefCfg c2) WorkerSettChanged = worker_step (ChiefCfg c1) WorkerSettChanged"
proof -
  let ?saved = "cfg\<lparr>IsInitialised := True\<rparr>" and ?c0 = "NewChiefClient docker st"
  have "chief_in_range ?saved" using answered_in_range [OF assms(2)] by (simp add: chief_in_range_def)
  from chief_file(2) [OF assms(3,4) this, of fe' "ChiefCfg ?c0"]
  have read: "chief_ReadFromFile fe' (snd (chief_SaveToFile fe ?saved)) (ChiefCfg ?c0) =
      GoodFile (cfg\<lparr>IsInitialised := False\<rparr>)"
    by (simp add: NewChiefClient_def initialChiefCfg_def)
  have url: "channel_with_url env' (cfg\<lparr>IsInitialised := b\<rparr>) = channel_with_url env cfg"
    "channel_with_url env (cfg\<lparr>IsInitialised := b\<rparr>) = channel_with_url env cfg"
    and prov: "provider_with_port (cfg\<lparr>IsInitialised := b\<rparr>) = provider_with_port cfg" for b
    using assms(5) by (simp_all add: fun_eq_iff channel_with_url_def provider_with_port_def Let_def)
  note taken = answer_taken [OF assms(1,2), of c]
  have c2: "ChiefCfg (conf_step env' (LocalTimer (GoodFile (cfg\<lparr>IsInitialised := False\<rparr>))) ?c0) =
      (ChiefCfg (conf_step env (PostResult (Inr result)) c))\<lparr>IsInitialised := False\<rparr>"
    using assms(5)
    by (simp add: url prov taken(1) sendSettings_def Let_def NewChiefClient_def initialChiefCfg_def del: conf_step.simps(1))
  have w: "worker_step (s\<lparr>IsInitialised := b\<rparr>) WorkerSettChanged = worker_step s WorkerSettChanged" for s b
    by (simp add: channel_settings_of_def chief_metrics_settings_def)
  have "last (confOut (conf_step env' (LocalTimer (GoodFile (cfg\<lparr>IsInitialised := False\<rparr>))) ?c0)) = SettChanged"
    by (simp add: sendSettings_def Let_def)
  then show ?thesis
    unfolding Let_def read using c2 w taken(2) by (simp del: conf_step.simps worker_step.simps)
qed

lemma example_file_env:
  "files_work \<lparr>openErr = e, docErr = d, writeRes = Written, prettyDoc = Some\<rparr>"
  "prints \<lparr>openErr = e, docErr = d, writeRes = Written, prettyDoc = Some\<rparr> j"
  by (simp_all add: files_work_def prints_def)

theorem restart_from_file_witness:
  "let fe = \<lparr>openErr = ''no such file'', docErr = ''bad'', writeRes = Written, prettyDoc = Some\<rparr>;
      c1 = conf_step example_answer_env (PostResult (Inr ''s'')) (NewChiefClient False zeroChiefState);
      saved = example_answer_cfg\<lparr>IsInitialised := True\<rparr>;
      c0 = NewChiefClient True zeroChiefState;
      c2 = conf_step example_answer_env
        (LocalTimer (chief_ReadFromFile fe (snd (chief_SaveToFile fe saved)) (ChiefCfg c0))) c0
    in SaveChief saved \<in> set (confOut c1) \<and> ChiefCfg c2 = (ChiefCfg c1)\<lparr>IsInitialised := False\<rparr> \<and>
       last (confOut c2) = SettChanged \<and>
       worker_step (ChiefCfg c2) WorkerSettChanged = worker_step (ChiefCfg c1) WorkerSettChanged"
  unfolding Let_def
  by (rule restart_from_file [unfolded Let_def])
    (simp_all add: example_file_env example_answer_env_def example_headers example_decoded)

text \<open>C30: A logger that is started while the configurator does not answer goes on with the
  settings of the last answer, read from its file, and unlike the chief it sends its heartbeats to the
  configurator at once: the mark that its settings came from the configurator is in the file.\<close>

theorem logger_restart:
  assumes "Unmarshal hdr_fields (jsonDoc env result) zeroHdr = (\<lparr>confHeader = LogggerSettsAnswerHdr\<rparr>, True)"
    and "Unmarshal logger_cfg_fields (jsonDoc env result) ((LoggerCfgV c)\<lparr>lcInitialised := False\<rparr>) = (cfg, True)"
    and "logger_cfg_in_range (LoggerCfgV c)"
    and "files_work fe" and "prints fe (marshal_logger_cfg (cfg\<lparr>lcInitialised := True\<rparr>))"
  shows "let c1 = lconf_step env (LPostResult (Inr result)) c;
      file = snd (logger_SaveToFile fe (LoggerCfgV c1));
      c2 = lconf_step env' (LLocalTimer (logger_read_case fe' file (LoggerCfgV c0))) c0
    in SaveLogger (LoggerCfgV c1) \<in> set (lcOut c1) \<and> LoggerCfgV c2 = LoggerCfgV c1 \<and>
       last (lcOut c2) = SettChanged \<and> LoggerID (loggerStateV c2) = LoggerID (loggerStateV c1) \<and>
       lcOut (lconf_step env' LHeartbeatTick c2) = lcOut c2 @
         [PostLoggerHbt (HeartbeatURLStr (loggerUrls c0)) \<lparr>confHeader = LoggerHbtHdr, hbtLoggerState = loggerStateV c2\<rparr>]"
proof -
  let ?c1 = "lconf_step env (LPostResult (Inr result)) c" and ?s = "cfg\<lparr>lcInitialised := True\<rparr>"
  have c1: "LoggerCfgV ?c1 = ?s" "SaveLogger ?s \<in> set (lcOut ?c1)" "LoggerID (loggerStateV ?c1) = lcLoggerID ?s"
    using assms(1,2)
    by (simp_all add: logger_post_result_def logger_settings_answered_def logger_sendSettings_def lc_emit_def Let_def)
  have "logger_cfg_in_range ?s"
    using answered_logger_in_range [OF assms(2)] assms(3) by (simp add: logger_cfg_in_range_def)
  from logger_file(2) [OF assms(4,5) this, of fe' "LoggerCfgV c0"]
  have read: "logger_read_case fe' (snd (logger_SaveToFile fe ?s)) (LoggerCfgV c0) = GoodFile ?s"
    by (simp add: logger_read_case_def)
  show ?thesis
    unfolding Let_def c1(1) read using c1(2,3) by (simp add: logger_sendSettings_def lc_emit_def Let_def del: lconf_step.simps(1))
qed

definition example_logger_doc :: json where
  "example_logger_doc = JObj
     [(''MessageHeader'', JStr ''LoggerSettingsAnswer''), (''LoggerID'', JStr ''3''), (''OraPort'', JInt 1521)]"

definition example_logger_client :: logger_conf where
  "example_logger_client =
     \<lparr>LoggerCfgV = logger_setDefault example_logger_cfg,
      loggerUrls = \<lparr>HeartbeatURLStr = ''/hbt'', SettingsURLStr = ''/setts''\<rparr>, loggerStateV = zeroLoggerState, lcOut = []\<rparr>"

theorem logger_restart_witness:
  "let env = example_conf_env\<lparr>jsonDoc := (\<lambda>t. Some example_logger_doc)\<rparr>; c = example_logger_client;
      fe = \<lparr>openErr = ''no such file'', docErr = ''bad'', writeRes = Written, prettyDoc = Some\<rparr>;
      c1 = lconf_step env (LPostResult (Inr ''s'')) c;
      file = snd (logger_SaveToFile fe (LoggerCfgV c1));
      c2 = lconf_step env (LLocalTimer (logger_read_case fe file (LoggerCfgV c))) c
    in SaveLogger (LoggerCfgV c1) \<in> set (lcOut c1) \<and> LoggerCfgV c2 = LoggerCfgV c1 \<and>
       last (lcOut c2) = SettChanged \<and> LoggerID (loggerStateV c2) = LoggerID (loggerStateV c1) \<and>
       lcOut (lconf_step env LHeartbeatTick c2) = lcOut c2 @
         [PostLoggerHbt (HeartbeatURLStr (loggerUrls c)) \<lparr>confHeader = LoggerHbtHdr, hbtLoggerState = loggerStateV c2\<rparr>]"
  unfolding Let_def
proof (rule logger_restart [unfolded Let_def])
  show "Unmarshal hdr_fields (jsonDoc (example_conf_env\<lparr>jsonDoc := (\<lambda>t. Some example_logger_doc)\<rparr>) ''s'') zeroHdr =
      (\<lparr>confHeader = LogggerSettsAnswerHdr\<rparr>, True)"
    by (simp add: Unmarshal_def example_logger_doc_def hdr_fields_def zeroHdr_def find_field_def fold_name_def lower_def
      conf_headers)
  show "Unmarshal logger_cfg_fields (jsonDoc (example_conf_env\<lparr>jsonDoc := (\<lambda>t. Some example_logger_doc)\<rparr>) ''s'')
      ((LoggerCfgV example_logger_client)\<lparr>lcInitialised := False\<rparr>) =
      ((LoggerCfgV example_logger_client)\<lparr>lcInitialised := False, lcLoggerID := ''3'', OraPort := 1521\<rparr>, True)"
    by (simp add: Unmarshal_def example_logger_doc_def logger_cfg_fields_def find_field_def fold_name_def lower_def
      int_min_def int_max_def)
qed (simp_all add: example_file_env example_logger_client_def logger_setDefault_def in_range_defs int_min_def int_max_def)

text \<open>Where the logger or the imitator has no file of settings, the first start reports
  an error and works with the defaults, and writes them: every later start reads the same settings
  without an error and leaves the file as it is. The imitator starts with these settings both times.\<close>

theorem defaults_written_once:
  assumes "files_work fe" and "\<forall>j. prints fe j"
  shows "let (l, lerr, lfile) = logger_ReadFromFile fe None ls; (i, ierr, ifile) = imit_ReadFromFile fe None is
    in lerr = Some (openErr fe) \<and> ierr = Some (openErr fe) \<and>
       l = logger_setDefault ls \<and> i = imit_setDefault is \<and>
       logger_ReadFromFile fe' lfile ls' = (l, None, lfile) \<and> imit_ReadFromFile fe' ifile is' = (i, None, ifile) \<and>
       (\<exists>m. imit_main fe None dialErr = (Some m, ifile) \<and> imSetts m = i) \<and>
       (\<exists>m. imit_main fe' ifile dialErr = (Some m, ifile) \<and> imSetts m = i)"
proof -
  have p: "prints fe (marshal_logger_cfg s)" "prints fe (marshal_imit t)" for s t using assms(2) by simp_all
  have l: "logger_cfg_in_range (logger_setDefault ls)" and i: "imit_in_range (imit_setDefault is)"
    by (simp_all add: logger_setDefault_def imit_setDefault_def in_range_defs int_min_def int_max_def)
  note lf = logger_file [OF assms(1) p(1) l] and imf = imit_file [OF assms(1) p(2) i]
  have "logger_ReadFromFile fe None ls = (logger_setDefault ls, Some (openErr fe), snd (logger_SaveToFile fe (logger_setDefault ls)))"
    "imit_ReadFromFile fe None is = (imit_setDefault is, Some (openErr fe), snd (imit_SaveToFile fe (imit_setDefault is)))"
    by (simp_all add: logger_ReadFromFile_def imit_ReadFromFile_def Let_def split: prod.split)
  moreover have "imit_setDefault zeroImitSettings = imit_setDefault is" by (simp add: imit_setDefault_def)
  then have "imit_ReadFromFile fe None zeroImitSettings =
      (imit_setDefault is, Some (openErr fe), snd (imit_SaveToFile fe (imit_setDefault is)))"
    by (simp add: imit_ReadFromFile_def Let_def split: prod.split)
  note runs = imit_main_runs [OF this] imit_main_runs [OF imf(2)]
  ultimately show ?thesis using lf(2) imf(2) runs by simp
qed

theorem defaults_written_once_witness:
  "let fe = \<lparr>openErr = ''no such file'', docErr = ''bad'', writeRes = Written, prettyDoc = Some\<rparr>;
       ls = example_logger_cfg; is = zeroImitSettings;
       (l, lerr, lfile) = logger_ReadFromFile fe None ls; (i, ierr, ifile) = imit_ReadFromFile fe None is
    in lerr = Some (openErr fe) \<and> ierr = Some (openErr fe) \<and>
       l = logger_setDefault ls \<and> i = imit_setDefault is \<and>
       logger_ReadFromFile fe lfile ls = (l, None, lfile) \<and> imit_ReadFromFile fe ifile is = (i, None, ifile) \<and>
       (\<exists>m. imit_main fe None None = (Some m, ifile) \<and> imSetts m = i) \<and>
       (\<exists>m. imit_main fe ifile None = (Some m, ifile) \<and> imSetts m = i)"
  unfolding Let_def
  by (rule defaults_written_once [unfolded Let_def]) (simp_all add: example_file_env)

end
