(* ===== verification/Chief_Web.thy ===== *)
theory Chief_Web
  imports Chief_Worker
begin

text \<open>
  The web server of the chief, \<open>chief/chief_web/\<close> (its port and the file of it, the pages, their
  handlers, the form of the URLs of the configurator), and the HTTP server for the TKU,
  \<open>chief/tky/tky_config.go\<close> and \<open>Work\<close> of \<open>chief/tky/tky_controller.go\<close>. The templates and their HTML
  are outside, and so are the paths and the ports of the package \<open>utils\<close>: these are arguments.
  What reading a file leaves and its error, and the error of writing one, are arguments too.

  Both servers are made without a handler of their own, so they share the table of paths of
  the package \<open>http\<close>. A handler runs in a goroutine of its own. The form sends the URLs on a channel of one element,
  on which it waits while the channel is full; waiting senders are served in their order. That
  two forms change the fields of the page at the same time is not modelled.
\<close>

section \<open>The server\<close>

record web_utils =
  FmtpChiefWebPath :: string
  FmtpChiefWebConfigPath :: string
  FmtpChiefWebLogPath :: string
  FmtpChiefWebLogPort :: "16 word"
  FmtpTkyWebPort :: int
  FmtpTkyWebPath :: string
  webConfigName :: string
  tkyConfigName :: string

datatype web_handler = ChiefHdl | EditConfHandler | SaveConfHandler | TkyHandler | OtherHandler nat

datatype web_effect =
  WebErr string
| WebPrint string
| SaveWebPort "16 word"
| SaveTkyConf int string
| HandleFunc string web_handler
| Listen string
| ShowChief string chief_page
| ShowConfig string ConfiguratorUrls
| Redirect string
| TkyAnswer "string + StateForTky"
| OtherPage nat
| NotFound
| HandlerPanic
| RegisterPanic string

text \<open>A page has a template once it has been parsed.\<close>

record page =
  pageParsed :: bool
  pageTitle :: string

record web =
  wscPort :: "16 word"
  chiefPage :: page
  configPage :: page
  pageUrls :: ConfiguratorUrls
  handlerList :: "(web_handler \<times> string \<times> string) list"
  routes :: "(string \<times> web_handler) list"
  UrlConfigChan :: "ConfiguratorUrls list"
  urlSenders :: "ConfiguratorUrls list"
  tkyPort :: int
  tkyPath :: string
  webOut :: "web_effect list"

definition web_emit :: "web_effect \<Rightarrow> web \<Rightarrow> web" where
  "web_emit e w = w\<lparr>webOut := webOut w @ [e]\<rparr>"

definition wsc_save :: "web_utils \<Rightarrow> string option \<Rightarrow> web \<Rightarrow> web" where
  "wsc_save u errWrite w =
     (let w = web_emit (SaveWebPort (wscPort w)) w
      in case errWrite of
           Some e \<Rightarrow> web_emit (WebErr ((ru ''Owibka zapisi konfiguracii '') @ ''Web'' @ ('' '' @ ru ''stranicy v fajl. Fajl: '') @
             webConfigName u @ (''. '' @ ru ''Owibka: '') @ e)) w
         | None \<Rightarrow> w)"

definition wsc_setDefault :: "web_utils \<Rightarrow> string option \<Rightarrow> web \<Rightarrow> web" where
  "wsc_setDefault u errWrite w = wsc_save u errWrite (w\<lparr>wscPort := FmtpChiefWebLogPort u\<rparr>)"

definition wsc_load :: "web_utils \<Rightarrow> 16 word \<times> string option \<Rightarrow> string option \<Rightarrow> web \<Rightarrow> web" where
  "wsc_load u file errWrite w =
     (let (port, errRead) = file; w = w\<lparr>wscPort := port\<rparr>
      in case errRead of
           Some e \<Rightarrow>
             wsc_setDefault u errWrite (web_emit (WebErr ((ru ''Owibka 4teni9 konfiguracii '') @ ''Web'' @
               ('' '' @ ru ''stranicy iz fajla. Fajl: '') @ webConfigName u @ (''. '' @ ru ''Owibka: '') @ e)) w)
         | None \<Rightarrow>
             if wscPort w \<le> 1024 then
               wsc_setDefault u errWrite (web_emit (WebErr ((ru ''Nevalidnoe zna4enie setevogo porta dl9 '') @ ''Web'' @
                 ('' '' @ ru ''stranicy. Port: '') @ Itoa (uint (wscPort w)))) w)
             else w)"

text \<open>The titles are set only if the templates are well-formed.\<close>

definition config_initialize :: "string option \<Rightarrow> string \<Rightarrow> web \<Rightarrow> web" where
  "config_initialize parseErr title w =
     (case parseErr of
        Some e \<Rightarrow> web_emit (WebErr (''EditConfig template Parse ERROR: '' @ e)) w
      | None \<Rightarrow> w\<lparr>configPage := \<lparr>pageParsed = True, pageTitle = title\<rparr>\<rparr>)"

definition chief_initialize :: "string option \<Rightarrow> string \<Rightarrow> web \<Rightarrow> web" where
  "chief_initialize parseErr title w =
     (case parseErr of
        Some e \<Rightarrow> w
      | None \<Rightarrow> w\<lparr>chiefPage := \<lparr>pageParsed = True, pageTitle = title\<rparr>\<rparr>)"

definition append_handler :: "web_handler \<Rightarrow> string \<Rightarrow> string \<Rightarrow> web \<Rightarrow> web" where
  "append_handler h handleURL title w = w\<lparr>handlerList := handlerList w @ [(h, ''/'' @ handleURL, title)]\<rparr>"

definition Path :: "web_handler \<times> string \<times> string \<Rightarrow> string" where "Path h = fst (snd h)"
definition Caption :: "web_handler \<times> string \<times> string \<Rightarrow> string" where "Caption h = snd (snd h)"

text \<open>A second registration of a path panics.\<close>

definition handle_func :: "string \<Rightarrow> web_handler \<Rightarrow> web \<Rightarrow> web" where
  "handle_func path h w =
     (if path \<in> fst ` set (routes w) then web_emit (RegisterPanic path) w
      else web_emit (HandleFunc path h) (w\<lparr>routes := routes w @ [(path, h)]\<rparr>))"

text \<open>The start; \<open>earlier\<close> are the handlers other packages have appended.\<close>

definition web_zero :: "(web_handler \<times> string \<times> string) list \<Rightarrow> web" where
  "web_zero earlier =
     \<lparr>wscPort = 0, chiefPage = \<lparr>pageParsed = False, pageTitle = []\<rparr>, configPage = \<lparr>pageParsed = False, pageTitle = []\<rparr>,
      pageUrls = \<lparr>HeartbeatURLStr = [], SettingsURLStr = []\<rparr>, handlerList = earlier, routes = [],
      UrlConfigChan = [], urlSenders = [], tkyPort = 0, tkyPath = [], webOut = []\<rparr>"

definition web_Start ::
  "web_utils \<Rightarrow> 16 word \<times> string option \<Rightarrow> string option \<Rightarrow> string option \<Rightarrow> string option \<Rightarrow> web \<Rightarrow> web" where
  "web_Start u file errWrite configErr chiefErr w =
     (let w = wsc_load u file errWrite w;
          w = config_initialize configErr ''FDPS-FMTP-CHIEF-CONFIG'' w;
          w = chief_initialize chiefErr ''FDPS-FMTP-CHIEF'' w;
          w = append_handler ChiefHdl (FmtpChiefWebPath u) ''CHIEF'' w;
          w = append_handler EditConfHandler (FmtpChiefWebConfigPath u) ''EDIT CONFIG'' w;
          w = append_handler SaveConfHandler ''saveConfig'' ''SAVE PARKING'' w;
          w = fold (\<lambda>h. handle_func (Path h) (fst h)) (handlerList w) w;
          w = web_emit (WebPrint (''listening on '' @ Itoa (uint (wscPort w)) @ '' port started'')) w
      in web_emit (Listen ('':'' @ Itoa (uint (wscPort w)))) w)"

definition SetUrlConfig :: "ConfiguratorUrls \<Rightarrow> web \<Rightarrow> web" where
  "SetUrlConfig urls w = w\<lparr>pageUrls := urls\<rparr>"

section \<open>Requests\<close>

text \<open>Forms are lists of values by their names; a name that is missing has the empty value.\<close>

definition FormValue :: "(string \<times> string) list \<Rightarrow> string \<Rightarrow> string" where
  "FormValue form name = (case map_of form name of Some v \<Rightarrow> v | None \<Rightarrow> [])"

definition editConfigHandler :: "web \<Rightarrow> web" where
  "editConfigHandler w =
     (if pageParsed (configPage w) then web_emit (ShowConfig (pageTitle (configPage w)) (pageUrls w)) w
      else web_emit HandlerPanic w)"

definition chiefHandler :: "ChiefState \<Rightarrow> web \<Rightarrow> web" where
  "chiefHandler st w =
     (if pageParsed (chiefPage w) then web_emit (ShowChief (pageTitle (chiefPage w)) (handlerMain st)) w
      else web_emit HandlerPanic w)"

text \<open>The handler of the form up to its send, and the send with what follows it.\<close>

definition saveConfigHandler :: "(string \<times> string) list \<Rightarrow> web \<Rightarrow> web" where
  "saveConfigHandler form w =
     (let w = w\<lparr>pageUrls := (pageUrls w)\<lparr>SettingsURLStr := FormValue form ''SettingsURLStr''\<rparr>\<rparr>;
          w = w\<lparr>pageUrls := (pageUrls w)\<lparr>HeartbeatURLStr := FormValue form ''HeartbeatURLStr''\<rparr>\<rparr>
      in w\<lparr>urlSenders := urlSenders w @ [pageUrls w]\<rparr>)"

definition send_urls :: "web_utils \<Rightarrow> web \<Rightarrow> web option" where
  "send_urls u w =
     (case urlSenders w of
        urls # rest \<Rightarrow>
          if length (UrlConfigChan w) < 1 then
            Some (web_emit (Redirect (''/'' @ FmtpChiefWebLogPath u))
              (w\<lparr>urlSenders := rest, UrlConfigChan := UrlConfigChan w @ [urls]\<rparr>))
          else None
      | [] \<Rightarrow> None)"

text \<open>A request is served by the handler of its path, whichever server it comes to. (No path of
  the program ends in a slash, so paths are compared as a whole.)\<close>

datatype http_server = ChiefServer | TkyServer

record http_req =
  reqMethod :: string
  reqPath :: string
  reqForm :: "(string \<times> string) list"

definition server_routes :: "http_server \<Rightarrow> web \<Rightarrow> (string \<times> web_handler) list" where
  "server_routes srv w = routes w"

definition web_request :: "http_server \<Rightarrow> ChiefSettings \<Rightarrow> ChiefState \<Rightarrow> http_req \<Rightarrow> web \<Rightarrow> web" where
  "web_request srv cfg st r w =
     (case map_of (server_routes srv w) (reqPath r) of
        Some ChiefHdl \<Rightarrow> chiefHandler st w
      | Some EditConfHandler \<Rightarrow> editConfigHandler w
      | Some SaveConfHandler \<Rightarrow> saveConfigHandler (reqForm r) w
      | Some TkyHandler \<Rightarrow> web_emit (TkyAnswer (tkyStateResponce cfg st (reqMethod r))) w
      | Some (OtherHandler n) \<Rightarrow> web_emit (OtherPage n) w
      | None \<Rightarrow> web_emit NotFound w)"

section \<open>The server for the TKU\<close>

definition tky_save :: "web_utils \<Rightarrow> string option \<Rightarrow> web \<Rightarrow> web" where
  "tky_save u errWrite t =
     (let t = web_emit (SaveTkyConf (tkyPort t) (tkyPath t)) t
      in case errWrite of
           Some e \<Rightarrow> web_emit (WebErr ((ru ''Owibka zapisi konfiguracii '') @ ''Web'' @ ('' '' @ ru ''stranicy v fajl. Fajl: '') @
             tkyConfigName u @ (''. '' @ ru ''Owibka: '') @ e)) t
         | None \<Rightarrow> t)"

definition tky_setDefault :: "web_utils \<Rightarrow> string option \<Rightarrow> web \<Rightarrow> web" where
  "tky_setDefault u errWrite t = tky_save u errWrite (t\<lparr>tkyPort := FmtpTkyWebPort u, tkyPath := FmtpTkyWebPath u\<rparr>)"

definition tky_load :: "web_utils \<Rightarrow> (int \<times> string) \<times> string option \<Rightarrow> string option \<Rightarrow> web \<Rightarrow> web" where
  "tky_load u file errWrite t =
     (let ((port, path), errRead) = file; t = t\<lparr>tkyPort := port, tkyPath := path\<rparr>
      in case errRead of
           Some e \<Rightarrow> tky_setDefault u errWrite (web_emit (WebErr ((ru ''Owibka 4teni9 konfiguracii '') @ ''Web'' @
             ('' '' @ ru ''stranicy iz fajla. Fajl: '') @ tkyConfigName u @ (''. '' @ ru ''Owibka: '') @ e)) t)
         | None \<Rightarrow> t)"

text \<open>The loop of the server ends at once with an error when it cannot listen.\<close>

definition tky_Work :: "web_utils \<Rightarrow> (int \<times> string) \<times> string option \<Rightarrow> string option \<Rightarrow> string option \<Rightarrow> web \<Rightarrow> web" where
  "tky_Work u file errWrite errListen t =
     (let t = tky_load u file errWrite t;
          t = handle_func (''/'' @ tkyPath t) TkyHandler t;
          t = web_emit (WebPrint ((ru ''Zapuskaem '') @ ''HTTP'' @ ('' '' @ ru ''server dl9 sv9zi s TKU. Port: '') @ Itoa (tkyPort t) @
                ''. Path: '' @ tkyPath t)) t;
          t = web_emit (Listen ('':'' @ Itoa (tkyPort t))) t
      in case errListen of
           Some e \<Rightarrow> web_emit (WebErr ((ru ''Owibka zapuska '') @ ''HTTP'' @ ('' '' @ ru ''servera dl9 sv9zi s TKU. Owibka: '') @ e)) t
         | None \<Rightarrow> t)"

section \<open>The web server and the client of the configurator\<close>

text \<open>The client of the configurator takes the URLs from the channel; everything else it does is
  one of its own inputs.\<close>

record url_sys =
  uWeb :: web
  uConf :: chief_conf

datatype url_move =
  WebReq http_server http_req
| WebSendUrls
| ConfTakeUrls conf_env
| ConfInput conf_env conf_input

fun url_step :: "web_utils \<Rightarrow> url_move \<Rightarrow> url_sys \<Rightarrow> url_sys option" where
  "url_step u (WebReq srv r) s =
     Some (s\<lparr>uWeb := web_request srv (ChiefCfg (uConf s)) (commonState (uConf s)) r (uWeb s)\<rparr>)"
| "url_step u WebSendUrls s = map_option (\<lambda>w. s\<lparr>uWeb := w\<rparr>) (send_urls u (uWeb s))"
| "url_step u (ConfTakeUrls env) s =
     (case UrlConfigChan (uWeb s) of
        urls # rest \<Rightarrow>
          Some (s\<lparr>uWeb := (uWeb s)\<lparr>UrlConfigChan := rest\<rparr>, uConf := conf_step env (UrlConfig urls) (uConf s)\<rparr>)
      | [] \<Rightarrow> None)"
| "url_step u (ConfInput env x) s =
     (case x of UrlConfig urls \<Rightarrow> None | _ \<Rightarrow> Some (s\<lparr>uConf := conf_step env x (uConf s)\<rparr>))"

definition url_start :: "conf_env \<Rightarrow> ConfiguratorUrls \<Rightarrow> chief_conf \<Rightarrow> web \<Rightarrow> url_sys" where
  "url_start env urls c w = \<lparr>uWeb = SetUrlConfig urls w, uConf = Start_client env urls c\<rparr>"

section \<open>Where requests go\<close>

fun saved_urls :: "conf_effect list \<Rightarrow> ConfiguratorUrls list" where
  "saved_urls [] = []"
| "saved_urls (SaveUrls u # es) = u # saved_urls es"
| "saved_urls (_ # es) = saved_urls es"

definition urls_after :: "ConfiguratorUrls \<Rightarrow> conf_effect list \<Rightarrow> ConfiguratorUrls" where
  "urls_after u es = last (u # saved_urls es)"

text \<open>Every message goes to the address of its kind among the URLs that were saved last.\<close>

fun posts_follow :: "ConfiguratorUrls \<Rightarrow> conf_effect list \<Rightarrow> bool" where
  "posts_follow u [] = True"
| "posts_follow u (SaveUrls v # es) = posts_follow v es"
| "posts_follow u (PostSettsRequest url m # es) = (url = SettingsURLStr u \<and> posts_follow u es)"
| "posts_follow u (PostHeartbeat url m # es) = (url = HeartbeatURLStr u \<and> posts_follow u es)"
| "posts_follow u (_ # es) = posts_follow u es"

lemma saved_urls_append [simp]: "saved_urls (es @ fs) = saved_urls es @ saved_urls fs"
  by (induction es rule: saved_urls.induct) simp_all

lemma urls_after_simps [simp]:
  "urls_after u [] = u" "urls_after u (es @ fs) = urls_after (urls_after u es) fs"
  by (simp_all add: urls_after_def)

lemma posts_follow_append [simp]:
  "posts_follow u (es @ fs) \<longleftrightarrow> posts_follow u es \<and> posts_follow (urls_after u es) fs"
  by (induction u es rule: posts_follow.induct) (simp_all add: urls_after_def)

text \<open>What the client does apart from taking new URLs.\<close>

definition follows :: "chief_conf \<Rightarrow> chief_conf \<Rightarrow> bool" where
  "follows c c' \<longleftrightarrow>
     configUrls c' = configUrls c \<and>
     (\<exists>es. confOut c' = confOut c @ es \<and> posts_follow (configUrls c) es \<and> saved_urls es = [])"

lemma follows_refl [simp]: "follows c c"
  by (auto simp: follows_def intro: exI [of _ "[]"])

lemma follows_trans: "follows c d \<Longrightarrow> follows d e \<Longrightarrow> follows c e"
  by (fastforce simp: follows_def urls_after_def)

lemma follows_same [simp]:
  "configUrls c' = configUrls c \<Longrightarrow> confOut c' = confOut c \<Longrightarrow> follows c c'"
  by (simp add: follows_def)

lemma follows_emit:
  "posts_follow (configUrls c) [e] \<Longrightarrow> saved_urls [e] = [] \<Longrightarrow> follows c (conf_emit e c)"
  by (simp add: follows_def)

lemma follows_emit_then:
  "follows c d \<Longrightarrow> posts_follow (configUrls d) [e] \<Longrightarrow> saved_urls [e] = [] \<Longrightarrow> follows c (conf_emit e d)"
  by (rule follows_trans [OF _ follows_emit])

lemma follows_upd:
  "follows c d \<Longrightarrow> configUrls d' = configUrls d \<Longrightarrow> confOut d' = confOut d \<Longrightarrow> follows c d'"
  by (simp add: follows_def)

lemma follows_request: "follows c (request_config env c)"
  by (simp add: follows_def)

lemma follows_init: "follows c (initAfterGetSettings env c)"
  by (auto simp: follows_def initAfterGetSettings_def request_config_def Let_def urls_after_def
      split: sum.split option.split)

lemma follows_send: "follows c (sendSettings env c)"
  by (simp add: follows_def sendSettings_def Let_def)

lemma follows_step:
  assumes "\<forall>urls. x \<noteq> UrlConfig urls"
  shows "follows c (conf_step env x c)"
proof (cases x)
  case (PostResult r)
  have answered: "follows c (settings_answered env result c)" for result
  proof (cases "decode_chief (jsonDoc env result) (zeroChiefSettings\<lparr>cfCntrlID := -1, cfIPAddr := [], IsInitialised := False\<rparr>)")
    case (Pair cfg ok)
    then show ?thesis
      by (auto simp: settings_answered_def Let_def intro!: follows_emit_then
          intro: follows_trans [OF follows_trans [OF _ follows_init] follows_send])
  qed
  have "follows c (heartbeat_answered env result c)" for result
    by (simp add: heartbeat_answered_def Let_def follows_request follows_emit split: prod.split)
  then show ?thesis
    using answered
    by (auto simp: PostResult post_result_def Let_def follows_def split: sum.split prod.split)
next
  case (LocalTimer f)
  then show ?thesis
    by (cases f) (auto simp: follows_def sendSettings_def Let_def)
next
  case (UrlConfig urls)
  then show ?thesis using assms by simp
qed (simp_all add: follows_request follows_emit)

section \<open>Forms\<close>

definition form_urls :: "(string \<times> string) list \<Rightarrow> ConfiguratorUrls" where
  "form_urls form =
     \<lparr>HeartbeatURLStr = FormValue form ''HeartbeatURLStr'', SettingsURLStr = FormValue form ''SettingsURLStr''\<rparr>"

definition submitted :: "(string \<times> web_handler) list \<Rightarrow> url_move \<Rightarrow> ConfiguratorUrls list" where
  "submitted rs m =
     (case m of
        WebReq srv r \<Rightarrow> if map_of rs (reqPath r) = Some SaveConfHandler then [form_urls (reqForm r)] else []
      | _ \<Rightarrow> [])"

lemma web_request_urls:
  "routes (web_request srv cfg st r w) = routes w"
  "UrlConfigChan (web_request srv cfg st r w) = UrlConfigChan w"
  "urlSenders (web_request srv cfg st r w) = urlSenders w @ submitted (routes w) (WebReq srv r)"
  "pageUrls (web_request srv cfg st r w) = last (pageUrls w # submitted (routes w) (WebReq srv r))"
  by (simp_all add: web_request_def server_routes_def chiefHandler_def editConfigHandler_def saveConfigHandler_def
      web_emit_def submitted_def form_urls_def Let_def split: option.split web_handler.split)

text \<open>One step of the two.\<close>

definition urls_kept :: "url_sys \<Rightarrow> url_sys \<Rightarrow> ConfiguratorUrls list \<Rightarrow> bool" where
  "urls_kept s t us \<longleftrightarrow>
     routes (uWeb t) = routes (uWeb s) \<and> pageUrls (uWeb t) = last (pageUrls (uWeb s) # us) \<and>
     (length (UrlConfigChan (uWeb s)) \<le> 1 \<longrightarrow> length (UrlConfigChan (uWeb t)) \<le> 1) \<and>
     (\<exists>es. confOut (uConf t) = confOut (uConf s) @ es \<and> posts_follow (configUrls (uConf s)) es \<and>
        configUrls (uConf t) = urls_after (configUrls (uConf s)) es \<and>
        saved_urls es @ UrlConfigChan (uWeb t) @ urlSenders (uWeb t) =
          UrlConfigChan (uWeb s) @ urlSenders (uWeb s) @ us)"

lemma url_step_kept:
  assumes "url_step u m s = Some t"
  shows "urls_kept s t (submitted (routes (uWeb s)) m)"
proof (cases m)
  case (WebReq srv r)
  then show ?thesis using assms by (auto simp: urls_kept_def web_request_urls)
next
  case WebSendUrls
  then show ?thesis
    using assms by (auto simp: urls_kept_def send_urls_def submitted_def web_emit_def split: list.splits if_splits)
next
  case (ConfTakeUrls env)
  then show ?thesis
    using assms by (auto simp: urls_kept_def submitted_def urls_after_def split: list.splits)
next
  case (ConfInput env x)
  then have "\<forall>urls. x \<noteq> UrlConfig urls" and t: "t = s\<lparr>uConf := conf_step env x (uConf s)\<rparr>"
    using assms by (auto split: conf_input.splits)
  from follows_step [OF this(1), of "uConf s" env] show ?thesis
    by (auto simp: t ConfInput urls_kept_def submitted_def follows_def urls_after_def)
qed

lemma urls_kept_trans:
  assumes "urls_kept s t us" "urls_kept t v vs"
  shows "urls_kept s v (us @ vs)"
proof -
  obtain es fs where
    "confOut (uConf t) = confOut (uConf s) @ es" "posts_follow (configUrls (uConf s)) es"
    "configUrls (uConf t) = urls_after (configUrls (uConf s)) es"
    and e: "saved_urls es @ UrlConfigChan (uWeb t) @ urlSenders (uWeb t) = UrlConfigChan (uWeb s) @ urlSenders (uWeb s) @ us"
    and "confOut (uConf v) = confOut (uConf t) @ fs" "posts_follow (configUrls (uConf t)) fs"
    "configUrls (uConf v) = urls_after (configUrls (uConf t)) fs"
    and f: "saved_urls fs @ UrlConfigChan (uWeb v) @ urlSenders (uWeb v) = UrlConfigChan (uWeb t) @ urlSenders (uWeb t) @ vs"
    using assms by (auto simp: urls_kept_def)
  moreover have "saved_urls (es @ fs) @ UrlConfigChan (uWeb v) @ urlSenders (uWeb v) =
      UrlConfigChan (uWeb s) @ urlSenders (uWeb s) @ us @ vs"
    using e f by (metis append_assoc saved_urls_append)
  ultimately show ?thesis
    using assms unfolding urls_kept_def by (intro conjI exI [of _ "es @ fs"]) auto
qed

lemma url_run_kept:
  "run_steps (url_step u) ms s = Some t \<Longrightarrow> urls_kept s t (concat (map (submitted (routes (uWeb s))) ms))"
proof (induction ms arbitrary: s)
  case Nil
  then show ?case by (auto simp: urls_kept_def)
next
  case (Cons m ms)
  then obtain v where v: "url_step u m s = Some v" "run_steps (url_step u) ms v = Some t"
    by (auto split: option.splits)
  have "routes (uWeb v) = routes (uWeb s)" using url_step_kept [OF v(1)] by (simp add: urls_kept_def)
  then show ?case using urls_kept_trans [OF url_step_kept [OF v(1)] Cons.IH [OF v(2)]] by simp
qed

lemma urls_drain:
  "length (UrlConfigChan (uWeb s)) \<le> 1 \<Longrightarrow>
   \<exists>ms t. set ms \<subseteq> {WebSendUrls, ConfTakeUrls env} \<and> run_steps (url_step u) ms s = Some t \<and>
     UrlConfigChan (uWeb t) = [] \<and> urlSenders (uWeb t) = []"
proof (induction "2 * length (urlSenders (uWeb s)) + length (UrlConfigChan (uWeb s))" arbitrary: s rule: less_induct)
  case less
  show ?case
  proof (cases "UrlConfigChan (uWeb s)")
    case (Cons urls rest)
    then have m: "url_step u (ConfTakeUrls env) s =
        Some (s\<lparr>uWeb := (uWeb s)\<lparr>UrlConfigChan := rest\<rparr>, uConf := conf_step env (UrlConfig urls) (uConf s)\<rparr>)"
      (is "_ = Some ?v") by simp
    obtain ms t where "set ms \<subseteq> {WebSendUrls, ConfTakeUrls env}" "run_steps (url_step u) ms ?v = Some t"
      "UrlConfigChan (uWeb t) = []" "urlSenders (uWeb t) = []"
      using less.hyps [of ?v] less.prems Cons by auto
    with m show ?thesis by (intro exI [of _ "ConfTakeUrls env # ms"] exI [of _ t]) simp
  next
    case Nil
    show ?thesis
    proof (cases "urlSenders (uWeb s)")
      case Nil': Nil
      then show ?thesis using Nil by (intro exI [of _ "[]"] exI [of _ s]) simp
    next
      case (Cons urls rest)
      obtain v where m: "url_step u WebSendUrls s = Some v" and
        v: "urlSenders (uWeb v) = rest" "UrlConfigChan (uWeb v) = [urls]"
        using Cons Nil by (auto simp: send_urls_def web_emit_def)
      obtain ms t where "set ms \<subseteq> {WebSendUrls, ConfTakeUrls env}" "run_steps (url_step u) ms v = Some t"
        "UrlConfigChan (uWeb t) = []" "urlSenders (uWeb t) = []"
        using less.hyps [of v] v Cons Nil by auto
      with m show ?thesis by (intro exI [of _ "WebSendUrls # ms"] exI [of _ t]) (simp del: url_step.simps)
    qed
  qed
qed

lemma Start_client_urls:
  "configUrls (Start_client env urls c) = urls"
  "\<exists>es. confOut (Start_client env urls c) = confOut c @ es \<and> posts_follow urls es \<and> saved_urls es = []"
  by (auto simp: Start_client_def initBeforeGetSettings_def Let_def urls_after_def split: sum.split)

lemma servers_share_paths: "web_request ChiefServer = web_request TkyServer"
  by (simp add: web_request_def server_routes_def fun_eq_iff)

lemma web_emit_simps [simp]:
  "wscPort (web_emit e w) = wscPort w" "routes (web_emit e w) = routes w"
  "handlerList (web_emit e w) = handlerList w" "webOut (web_emit e w) = webOut w @ [e]"
  "UrlConfigChan (web_emit e w) = UrlConfigChan w" "urlSenders (web_emit e w) = urlSenders w"
  by (simp_all add: web_emit_def)

lemma wsc_load_simps:
  "wscPort (wsc_load u (port, errRead) errWrite w) =
     (if errRead = None \<and> 1024 < port then port else FmtpChiefWebLogPort u)"
  "routes (wsc_load u (port, errRead) errWrite w) = routes w"
  "handlerList (wsc_load u (port, errRead) errWrite w) = handlerList w"
  by (auto simp: wsc_load_def wsc_setDefault_def wsc_save_def Let_def not_less split: option.split)

lemma initialize_simps [simp]:
  "wscPort (config_initialize e t w) = wscPort w" "wscPort (chief_initialize e t w) = wscPort w"
  "wscPort (append_handler h p t w) = wscPort w" "wscPort (handle_func p h w) = wscPort w"
  "routes (config_initialize e t w) = routes w" "routes (chief_initialize e t w) = routes w"
  "routes (append_handler h p t w) = routes w"
  "handlerList (config_initialize e t w) = handlerList w" "handlerList (chief_initialize e t w) = handlerList w"
  "handlerList (append_handler h p t w) = handlerList w @ [(h, ''/'' @ p, t)]"
  "handlerList (handle_func p h w) = handlerList w"
  by (simp_all add: config_initialize_def chief_initialize_def append_handler_def handle_func_def split: option.split)

lemma fold_handle_func:
  "wscPort (fold (\<lambda>h. handle_func (Path h) (fst h)) hs w) = wscPort w"
  "handlerList (fold (\<lambda>h. handle_func (Path h) (fst h)) hs w) = handlerList w"
  by (induction hs arbitrary: w) simp_all

lemma fold_routes:
  "distinct (map Path hs) \<Longrightarrow> fst ` set (routes w) \<inter> Path ` set hs = {} \<Longrightarrow>
   routes (fold (\<lambda>h. handle_func (Path h) (fst h)) hs w) = routes w @ map (\<lambda>h. (Path h, fst h)) hs"
proof (induction hs arbitrary: w)
  case (Cons h hs)
  then have "Path h \<notin> fst ` set (routes w)" by auto
  then have "routes (handle_func (Path h) (fst h) w) = routes w @ [(Path h, fst h)]" by (simp add: handle_func_def)
  then show ?case using Cons by (auto simp: image_iff)
qed simp

text \<open>Handlers with different paths are all served.\<close>

lemma start_routes:
  assumes "distinct (map Path (earlier @ [(ChiefHdl, ''/'' @ FmtpChiefWebPath u, ''CHIEF''),
      (EditConfHandler, ''/'' @ FmtpChiefWebConfigPath u, ''EDIT CONFIG''),
      (SaveConfHandler, ''/'' @ ''saveConfig'', ''SAVE PARKING'')]))" (is "distinct (map Path ?hs)")
  shows "routes (web_Start u (port, errRead) errWrite ce che (web_zero earlier)) = map (\<lambda>h. (Path h, fst h)) ?hs"
proof -
  have z: "routes (web_zero earlier) = []" "handlerList (web_zero earlier) = earlier" by (simp_all add: web_zero_def)
  show ?thesis
    using fold_routes [OF assms] by (simp add: web_Start_def Let_def wsc_load_simps z del: fold_append fold.simps map_append)
qed

section \<open>Properties\<close>


definition example_web_utils :: web_utils where
  "example_web_utils =
     \<lparr>FmtpChiefWebPath = ''chief'', FmtpChiefWebConfigPath = ''config'', FmtpChiefWebLogPath = ''log'',
      FmtpChiefWebLogPort = 13001, FmtpTkyWebPort = 13002, FmtpTkyWebPath = ''tky'',
      webConfigName = ''web.json'', tkyConfigName = ''tky.json''\<rparr>"

definition example_web :: web where
  "example_web =
     web_Start example_web_utils (80, None) None None None (web_zero [(OtherHandler 1, ''/log'', ''LOG'')])"

lemma example_routes:
  "routes example_web = [(''/log'', OtherHandler 1), (''/chief'', ChiefHdl), (''/config'', EditConfHandler),
     (''/saveConfig'', SaveConfHandler)]"
  "UrlConfigChan example_web = []" "urlSenders example_web = []" "wscPort example_web = 13001"
  by (simp_all add: example_web_def web_Start_def wsc_load_def wsc_setDefault_def wsc_save_def web_zero_def
      config_initialize_def chief_initialize_def append_handler_def handle_func_def Path_def web_emit_def
      example_web_utils_def Let_def)

definition example_form :: "(string \<times> string) list" where
  "example_form = [(''SettingsURLStr'', ''http://conf/settings''), (''HeartbeatURLStr'', ''http://conf/hbt'')]"


lemma saves_of_start:
  "SaveWebPort p \<in> set (webOut (web_Start u (port, errRead) errWrite ce che (web_zero earlier))) \<longleftrightarrow>
   p = FmtpChiefWebLogPort u \<and> (errRead \<noteq> None \<or> port \<le> 1024)"
proof -
  have h: "SaveWebPort p \<in> set (webOut (handle_func q h w)) \<longleftrightarrow> SaveWebPort p \<in> set (webOut w)"
    "webOut (append_handler d q t w) = webOut w"
    "SaveWebPort p \<in> set (webOut (config_initialize e t w)) \<longleftrightarrow> SaveWebPort p \<in> set (webOut w)"
    "webOut (chief_initialize e t w) = webOut w" for q h w d t e
    by (auto simp: handle_func_def append_handler_def config_initialize_def chief_initialize_def split: option.split)
  have f: "SaveWebPort p \<in> set (webOut (fold (\<lambda>h. handle_func (Path h) (fst h)) hs w)) \<longleftrightarrow> SaveWebPort p \<in> set (webOut w)" for hs w
    by (induction hs arbitrary: w) (simp_all add: h)
  show ?thesis
    by (simp add: web_Start_def Let_def h f del: initialize_simps)
      (auto simp: wsc_load_def wsc_setDefault_def wsc_save_def web_zero_def Let_def split: option.split)
qed

text \<open>The web server of the chief never listens on a port up to 1024, whatever its file holds: it uses
  the port of the file if that is greater, and otherwise the default, which it saves; a start from the
  file it has left uses the same port and saves nothing.\<close>

theorem web_port:
  assumes "1024 < FmtpChiefWebLogPort u"
  shows "let start = (\<lambda>file. web_Start u file errWrite ce che (web_zero earlier)); w = start (port, errRead);
       saves = (\<lambda>w p. SaveWebPort p \<in> set (webOut w))
    in 1024 < wscPort w \<and> last (webOut w) = Listen ('':'' @ Itoa (uint (wscPort w))) \<and>
       (errRead = None \<and> 1024 < port \<longrightarrow> wscPort w = port) \<and>
       (\<forall>p. saves w p \<longleftrightarrow> p = wscPort w \<and> (errRead \<noteq> None \<or> port \<le> 1024)) \<and>
       wscPort (start (wscPort w, None)) = wscPort w \<and> (\<forall>p. \<not> saves (start (wscPort w, None)) p)"
proof -
  have port: "wscPort (web_Start u (q, e) errWrite ce che (web_zero earlier)) =
      (if e = None \<and> 1024 < q then q else FmtpChiefWebLogPort u)" for q e
    by (simp add: web_Start_def Let_def fold_handle_func wsc_load_simps)
  have l: "last (webOut (web_Start u (q, e) errWrite ce che (web_zero earlier))) =
      Listen ('':'' @ Itoa (uint (wscPort (web_Start u (q, e) errWrite ce che (web_zero earlier)))))" for q e
    by (simp add: web_Start_def Let_def)
  show ?thesis using assms unfolding Let_def port l saves_of_start by (auto simp: not_less)
qed

theorem web_port_witness:
  "let u = example_web_utils; start = (\<lambda>file. web_Start u file (Some ''read only'') None None (web_zero []));
       w = start (80, None); saves = (\<lambda>w p. SaveWebPort p \<in> set (webOut w))
    in 1024 < wscPort w \<and> last (webOut w) = Listen ('':'' @ Itoa (uint (wscPort w))) \<and>
       (None = (None :: string option) \<and> 1024 < (80 :: 16 word) \<longrightarrow> wscPort w = 80) \<and>
       (\<forall>p. saves w p \<longleftrightarrow> p = wscPort w \<and> (None \<noteq> (None :: string option) \<or> (80 :: 16 word) \<le> 1024)) \<and>
       wscPort (start (wscPort w, None)) = wscPort w \<and> (\<forall>p. \<not> saves (start (wscPort w, None)) p)"
  unfolding Let_def by (rule web_port [unfolded Let_def]) (simp add: example_web_utils_def)

end
