(* ===== verification/Chief_System.thy ===== *)
theory Chief_System
  imports Chief_Worker
begin

text \<open>
  The parts of the chief together: the calls of the provider, the controller over gRPC, the
  worker and the server of the channels, each a process of its own, and the channels between
  them with their capacities. A process that has something to send on a full channel waits: the
  cases of its loop come only after it has sent. What the cases do is defined in \<open>Oldi_Grpc\<close>,
  \<open>Chief_Worker\<close> and \<open>Chief_Server\<close>; the metrics and the sockets take what they are sent at once,
  and a call of the provider counts and prints at its beginning.

  Four fields are history: the messages the calls have put on the channel of the service, each
  with the number of its call; the packets the server has taken; the messages the service has
  put in its queue; and those that have left the queue, with whether the provider fetched them.
\<close>

section \<open>The processes\<close>

record chief_sys =
  sysCalls :: "MsgWithChanId list list"
  sysCtl :: OldiGrpcController
  ctlHolds :: "MsgWithChanId list"
  ctlFromFdps :: "MsgWithChanId list"
  ctlToFdps :: "pb_msg list"
  ctlSetts :: nat
  wkTodo :: "worker_effect list"
  wkEnded :: bool
  packetChan :: "MsgWithChanId list"
  toPacketChan :: "pb_msg list"
  settsChan :: "ChannelSettingsWithPort list"
  logSettsCh :: nat
  metricSettsCh :: nat
  sysSrv :: ChiefChannelServer
  srvHolds :: "pb_msg list"
  enteredMsgs :: "(nat \<times> MsgWithChanId) list"
  packetsDone :: "MsgWithChanId list"
  queuedMsgs :: "pb_msg list"
  leftMsgs :: "(bool \<times> pb_msg) list"

definition packet_capacity :: nat where "packet_capacity = 1024"
definition setts_capacity :: nat where "setts_capacity = 10"

definition sys_start :: "ChiefState \<Rightarrow> ChiefChannelServer \<Rightarrow> chief_sys" where
  "sys_start st cc =
     \<lparr>sysCalls = [], sysCtl = NewOldiGrpcController st, ctlHolds = [], ctlFromFdps = [], ctlToFdps = [], ctlSetts = 0,
      wkTodo = [], wkEnded = False, packetChan = [], toPacketChan = [], settsChan = [], logSettsCh = 0,
      metricSettsCh = 0, sysSrv = cc, srvHolds = [], enteredMsgs = [], packetsDone = [], queuedMsgs = [], leftMsgs = []\<rparr>"

record sys_env =
  sysGrpcEnv :: grpc_env
  sysSrvEnv :: srv_env

datatype sys_move =
  ProviderCalls "ChannelSettings list" "string option" time "pb_msg list"
| CallSends nat
| ProviderFetches "string option" time
| CtlTakes
| CtlSends
| CtlTakesMsg
| CtlTakesSetts int
| CtlCleans time
| CtlOther grpc_action
| WkTakes ChiefSettings worker_input
| WkSends
| SrvTakesPacket time
| SrvTakesSetts time
| SrvOther time srv_input
| SrvSends
| LoggerTakesSetts
| MetricsTakeSetts

definition queue_of :: "chief_sys \<Rightarrow> pb_msg list" where
  "queue_of s = msgToFdps (fmtpServer (sysCtl s))"

definition service_chan :: "chief_sys \<Rightarrow> MsgWithChanId list" where
  "service_chan s = FromFdpsChan (fmtpServer (sysCtl s))"

definition set_grpc :: "(fmtpGrpcServer \<Rightarrow> fmtpGrpcServer) \<Rightarrow> chief_sys \<Rightarrow> chief_sys" where
  "set_grpc f s = s\<lparr>sysCtl := (sysCtl s)\<lparr>fmtpServer := f (fmtpServer (sysCtl s))\<rparr>\<rparr>"

text \<open>A call places its messages one after the other.\<close>

definition provider_calls ::
  "ChannelSettings list \<Rightarrow> string option \<Rightarrow> time \<Rightarrow> pb_msg list \<Rightarrow> chief_sys \<Rightarrow> chief_sys" where
  "provider_calls cfg host now msgs s =
     (let g = fmtpServer (sysCtl s); g' = snd (SendMsg cfg host now msgs (g\<lparr>FromFdpsChan := []\<rparr>))
      in (set_grpc (\<lambda>_. g'\<lparr>FromFdpsChan := FromFdpsChan g\<rparr>) s)\<lparr>sysCalls := sysCalls s @ [FromFdpsChan g']\<rparr>)"

definition call_sends :: "nat \<Rightarrow> chief_sys \<Rightarrow> chief_sys option" where
  "call_sends i s =
     (if i < length (sysCalls s) \<and> length (service_chan s) < packet_capacity then
        (case sysCalls s ! i of
           m # ms \<Rightarrow>
             Some ((set_grpc (\<lambda>g. g\<lparr>FromFdpsChan := FromFdpsChan g @ [m]\<rparr>) s)
               \<lparr>sysCalls := (sysCalls s)[i := ms], enteredMsgs := enteredMsgs s @ [(i, m)]\<rparr>)
         | [] \<Rightarrow> None)
      else None)"

definition ctl_step :: "sys_env \<Rightarrow> grpc_action \<Rightarrow> chief_sys \<Rightarrow> chief_sys option" where
  "ctl_step env a s = map_option (\<lambda>c. s\<lparr>sysCtl := c\<rparr>) (grpc_step (sysGrpcEnv env) a (sysCtl s))"

definition provider_fetches :: "sys_env \<Rightarrow> string option \<Rightarrow> time \<Rightarrow> chief_sys \<Rightarrow> chief_sys option" where
  "provider_fetches env host now s =
     map_option (\<lambda>t. t\<lparr>leftMsgs := leftMsgs s @
         map (Pair True) (fst (RecvMsq (grpcClock (sysGrpcEnv env)) host now (fmtpServer (sysCtl s))))\<rparr>)
       (ctl_step env (CallRecvMsq host now) s)"

definition ctl_cleans :: "sys_env \<Rightarrow> time \<Rightarrow> chief_sys \<Rightarrow> chief_sys option" where
  "ctl_cleans env now s =
     (if ctlHolds s = [] then
        map_option (\<lambda>t. t\<lparr>leftMsgs := leftMsgs s @
            map (Pair False) (take (length (queue_of s) - length (queue_of t)) (queue_of s))\<rparr>)
          (ctl_step env (GrpcCleanTick now) s)
      else None)"

definition ctl_takes :: "sys_env \<Rightarrow> chief_sys \<Rightarrow> chief_sys option" where
  "ctl_takes env s =
     (if ctlHolds s = [] then
        map_option (\<lambda>t. t\<lparr>ctlHolds := [last (fromProvider (sysCtl t))]\<rparr>) (ctl_step env GrpcFromFdps s)
      else None)"

definition ctl_sends :: "chief_sys \<Rightarrow> chief_sys option" where
  "ctl_sends s =
     (case ctlHolds s of
        m # ms \<Rightarrow>
          if length (ctlFromFdps s) < packet_capacity then
            Some (s\<lparr>ctlHolds := ms, ctlFromFdps := ctlFromFdps s @ [m]\<rparr>)
          else None
      | [] \<Rightarrow> None)"

definition ctl_takes_msg :: "sys_env \<Rightarrow> chief_sys \<Rightarrow> chief_sys option" where
  "ctl_takes_msg env s =
     (case ctlToFdps s of
        m # ms \<Rightarrow>
          if ctlHolds s = [] then
            map_option (\<lambda>t. t\<lparr>ctlToFdps := ms, queuedMsgs := queuedMsgs s @ [m]\<rparr>) (ctl_step env (GrpcToFdps m) s)
          else None
      | [] \<Rightarrow> None)"

definition ctl_takes_setts :: "sys_env \<Rightarrow> int \<Rightarrow> chief_sys \<Rightarrow> chief_sys option" where
  "ctl_takes_setts env port s =
     (if ctlHolds s = [] \<and> 0 < ctlSetts s then
        map_option (\<lambda>t. t\<lparr>ctlSetts := ctlSetts s - 1\<rparr>) (ctl_step env (GrpcSetts port) s)
      else None)"

text \<open>The tick of the states, and the goroutines of the servers, which do not wait for the loop.\<close>

definition ctl_other :: "sys_env \<Rightarrow> grpc_action \<Rightarrow> chief_sys \<Rightarrow> chief_sys option" where
  "ctl_other env a s =
     (case a of
        GrpcStateTick cfg now \<Rightarrow> if ctlHolds s = [] then ctl_step env a s else None
      | StartListens i err \<Rightarrow> ctl_step env a s
      | ServeEnds i err \<Rightarrow> ctl_step env a s
      | _ \<Rightarrow> None)"

section \<open>The worker\<close>

definition wk_takes :: "ChiefSettings \<Rightarrow> worker_input \<Rightarrow> chief_sys \<Rightarrow> chief_sys option" where
  "wk_takes cfg x s =
     (if wkTodo s = [] \<and> \<not> wkEnded s then
        (case x of
           WorkerFromFdps m \<Rightarrow>
             (case ctlFromFdps s of
                h # hs \<Rightarrow> if h = m then Some (s\<lparr>ctlFromFdps := hs, wkTodo := worker_step cfg x\<rparr>) else None
              | [] \<Rightarrow> None)
         | WorkerToFdps m \<Rightarrow>
             (case toPacketChan s of
                h # hs \<Rightarrow> if h = m then Some (s\<lparr>toPacketChan := hs, wkTodo := worker_step cfg x\<rparr>) else None
              | [] \<Rightarrow> None)
         | _ \<Rightarrow> Some (s\<lparr>wkTodo := worker_step cfg x\<rparr>))
      else None)"

fun wk_performs :: "worker_effect \<Rightarrow> chief_sys \<Rightarrow> chief_sys option" where
  "wk_performs (ToChannelSetts st) s =
     (if length (settsChan s) < setts_capacity then Some (s\<lparr>settsChan := settsChan s @ [st]\<rparr>) else None)"
| "wk_performs ToGrpcSetts s = (if ctlSetts s < setts_capacity then Some (s\<lparr>ctlSetts := ctlSetts s + 1\<rparr>) else None)"
| "wk_performs ToLoggerSetts s = (if logSettsCh s < 1 then Some (s\<lparr>logSettsCh := logSettsCh s + 1\<rparr>) else None)"
| "wk_performs (ToMetricsSetts p) s =
     (if metricSettsCh s < setts_capacity then Some (s\<lparr>metricSettsCh := metricSettsCh s + 1\<rparr>) else None)"
| "wk_performs (ToFdpsPackets m) s =
     (if length (packetChan s) < packet_capacity then Some (s\<lparr>packetChan := packetChan s @ [m]\<rparr>) else None)"
| "wk_performs (ToGrpcFdps m) s =
     (if length (ctlToFdps s) < packet_capacity then Some (s\<lparr>ctlToFdps := ctlToFdps s @ [m]\<rparr>) else None)"
| "wk_performs WorkerReturn s = Some (s\<lparr>wkEnded := True\<rparr>)"

definition wk_sends :: "chief_sys \<Rightarrow> chief_sys option" where
  "wk_sends s =
     (case wkTodo s of e # es \<Rightarrow> map_option (\<lambda>t. t\<lparr>wkTodo := es\<rparr>) (wk_performs e s) | [] \<Rightarrow> None)"

section \<open>The server of the channels\<close>

definition srv_takes :: "sys_env \<Rightarrow> time \<Rightarrow> srv_input \<Rightarrow> chief_sys \<Rightarrow> chief_sys option" where
  "srv_takes env now x s =
     map_option (\<lambda>cc. s\<lparr>sysSrv := cc, srvHolds := srvHolds s @ drop (length (to_fdps (sysSrv s))) (to_fdps cc)\<rparr>)
       (srv_step (sysSrvEnv env) now x (sysSrv s))"

definition srv_takes_packet :: "sys_env \<Rightarrow> time \<Rightarrow> chief_sys \<Rightarrow> chief_sys option" where
  "srv_takes_packet env now s =
     (case packetChan s of
        m # ms \<Rightarrow>
          if srvHolds s = [] then
            srv_takes env now (FromProvider m) (s\<lparr>packetChan := ms, packetsDone := packetsDone s @ [m]\<rparr>)
          else None
      | [] \<Rightarrow> None)"

definition srv_takes_setts :: "sys_env \<Rightarrow> time \<Rightarrow> chief_sys \<Rightarrow> chief_sys option" where
  "srv_takes_setts env now s =
     (case settsChan s of
        st # sts \<Rightarrow>
          if srvHolds s = [] then srv_takes env now (NewSettings st) (s\<lparr>settsChan := sts\<rparr>) else None
      | [] \<Rightarrow> None)"

text \<open>The other cases of the loop wait for it, the goroutines of the processes and the delayed
  starts do not.\<close>

definition srv_other :: "sys_env \<Rightarrow> time \<Rightarrow> srv_input \<Rightarrow> chief_sys \<Rightarrow> chief_sys option" where
  "srv_other env now x s =
     (case x of
        NewSettings st \<Rightarrow> None
      | FromProvider m \<Rightarrow> None
      | WsPackage sock d \<Rightarrow> if srvHolds s = [] then srv_takes env now x s else None
      | WsReported r \<Rightarrow> if srvHolds s = [] then srv_takes env now x s else None
      | StatesTick \<Rightarrow> if srvHolds s = [] then srv_takes env now x s else None
      | _ \<Rightarrow> srv_takes env now x s)"

definition srv_sends :: "chief_sys \<Rightarrow> chief_sys option" where
  "srv_sends s =
     (case srvHolds s of
        m # ms \<Rightarrow>
          if length (toPacketChan s) < packet_capacity then
            Some (s\<lparr>srvHolds := ms, toPacketChan := toPacketChan s @ [m]\<rparr>)
          else None
      | [] \<Rightarrow> None)"

fun sys_step :: "sys_env \<Rightarrow> sys_move \<Rightarrow> chief_sys \<Rightarrow> chief_sys option" where
  "sys_step env (ProviderCalls cfg host now msgs) s = Some (provider_calls cfg host now msgs s)"
| "sys_step env (CallSends i) s = call_sends i s"
| "sys_step env (ProviderFetches host now) s = provider_fetches env host now s"
| "sys_step env CtlTakes s = ctl_takes env s"
| "sys_step env CtlSends s = ctl_sends s"
| "sys_step env CtlTakesMsg s = ctl_takes_msg env s"
| "sys_step env (CtlTakesSetts port) s = ctl_takes_setts env port s"
| "sys_step env (CtlCleans now) s = ctl_cleans env now s"
| "sys_step env (CtlOther a) s = ctl_other env a s"
| "sys_step env (WkTakes cfg x) s = wk_takes cfg x s"
| "sys_step env WkSends s = wk_sends s"
| "sys_step env (SrvTakesPacket now) s = srv_takes_packet env now s"
| "sys_step env (SrvTakesSetts now) s = srv_takes_setts env now s"
| "sys_step env (SrvOther now x) s = srv_other env now x s"
| "sys_step env SrvSends s = srv_sends s"
| "sys_step env LoggerTakesSetts s = (if 0 < logSettsCh s then Some (s\<lparr>logSettsCh := logSettsCh s - 1\<rparr>) else None)"
| "sys_step env MetricsTakeSetts s = (if 0 < metricSettsCh s then Some (s\<lparr>metricSettsCh := metricSettsCh s - 1\<rparr>) else None)"

section \<open>What each process does to the queues\<close>

lemma set_grpc_simps [simp]:
  "fmtpServer (sysCtl (set_grpc f s)) = f (fmtpServer (sysCtl s))"
  "fromProvider (sysCtl (set_grpc f s)) = fromProvider (sysCtl s)"
  "sysCalls (set_grpc f s) = sysCalls s" "ctlHolds (set_grpc f s) = ctlHolds s"
  "ctlFromFdps (set_grpc f s) = ctlFromFdps s" "ctlToFdps (set_grpc f s) = ctlToFdps s"
  "wkTodo (set_grpc f s) = wkTodo s" "packetChan (set_grpc f s) = packetChan s"
  "toPacketChan (set_grpc f s) = toPacketChan s" "sysSrv (set_grpc f s) = sysSrv s"
  "srvHolds (set_grpc f s) = srvHolds s" "enteredMsgs (set_grpc f s) = enteredMsgs s"
  "packetsDone (set_grpc f s) = packetsDone s" "queuedMsgs (set_grpc f s) = queuedMsgs s"
  "leftMsgs (set_grpc f s) = leftMsgs s"
  by (simp_all add: set_grpc_def)

lemma SendMsg_queue: "msgToFdps (snd (SendMsg cfg h now msgs s)) = msgToFdps s"
proof -
  obtain err missed t where t: "send_each cfg msgs ([], 0, note_activity h now s) = (err, missed, t)"
    by (cases "send_each cfg msgs ([], 0, note_activity h now s)") auto
  show ?thesis using send_each_result [OF t] by (simp add: SendMsg_def t)
qed

text \<open>Only packages of the sockets make messages for the provider.\<close>

lemma srv_step_view:
  "srv_step env now x cc = Some cc' \<Longrightarrow>
   fdps_view cc' = fdps_view cc \<or> (\<exists>sock d. x = WsPackage sock d \<and> cc' = ws_received env now sock d cc)"
  by (cases x) (auto split: if_splits dest: view_new_settings view_delayed)

lemma srv_step_silent:
  "srv_step env now x cc = Some cc' \<Longrightarrow> \<forall>sock d. x \<noteq> WsPackage sock d \<Longrightarrow> to_fdps cc' = to_fdps cc"
  using srv_step_view [of env now x cc cc'] by (auto simp: fdps_view_def)

lemma srv_step_extends:
  assumes "srv_step env now x cc = Some cc'"
  shows "\<exists>ms. to_fdps cc' = to_fdps cc @ ms \<and> length ms \<le> 1"
  using srv_step_view [OF assms]
proof
  assume "\<exists>sock d. x = WsPackage sock d \<and> cc' = ws_received env now sock d cc"
  then obtain sock d where "cc' = ws_received env now sock d cc" by blast
  then show ?thesis using view_ws [of env now sock d cc] by (auto simp: fdps_view_def)
qed (simp add: fdps_view_def)

definition held_packets :: "worker_effect list \<Rightarrow> MsgWithChanId list" where
  "held_packets es = concat (map (\<lambda>e. case e of ToFdpsPackets m \<Rightarrow> [m] | _ \<Rightarrow> []) es)"

definition held_msgs :: "worker_effect list \<Rightarrow> pb_msg list" where
  "held_msgs es = concat (map (\<lambda>e. case e of ToGrpcFdps m \<Rightarrow> [m] | _ \<Rightarrow> []) es)"

lemma held_simps [simp]:
  "held_packets [] = []" "held_packets (e # es) = (case e of ToFdpsPackets m \<Rightarrow> [m] | _ \<Rightarrow> []) @ held_packets es"
  "held_msgs [] = []" "held_msgs (e # es) = (case e of ToGrpcFdps m \<Rightarrow> [m] | _ \<Rightarrow> []) @ held_msgs es"
  by (simp_all add: held_packets_def held_msgs_def)

text \<open>The way of the messages of the provider, the way of the messages for it, what becomes of
  its queue, and the order of each call.\<close>

definition on_the_way_down :: "chief_sys \<Rightarrow> MsgWithChanId list" where
  "on_the_way_down s =
     packetChan s @ held_packets (wkTodo s) @ ctlFromFdps s @ ctlHolds s @ service_chan s"

definition on_the_way_up :: "chief_sys \<Rightarrow> pb_msg list" where
  "on_the_way_up s = ctlToFdps s @ held_msgs (wkTodo s) @ toPacketChan s @ srvHolds s"

definition ways_kept :: "chief_sys \<Rightarrow> bool" where
  "ways_kept s \<longleftrightarrow>
     packetsDone s @ on_the_way_down s = map snd (enteredMsgs s) \<and>
     queuedMsgs s @ on_the_way_up s = to_fdps (sysSrv s) \<and>
     map snd (leftMsgs s) @ queue_of s = queuedMsgs s \<and>
     (length (wkTodo s) \<le> 1 \<or> held_packets (wkTodo s) = [] \<and> held_msgs (wkTodo s) = []) \<and>
     list_all (\<lambda>n. n \<le> packet_capacity)
       [length (service_chan s), length (ctlFromFdps s), length (ctlToFdps s), length (packetChan s),
        length (toPacketChan s)] \<and>
     length (ctlHolds s) \<le> 1 \<and> length (srvHolds s) \<le> 1"

lemmas way_defs = ways_kept_def on_the_way_down_def on_the_way_up_def queue_of_def service_chan_def

lemma way_provider_calls: "ways_kept s \<Longrightarrow> ways_kept (provider_calls cfg host now msgs s)"
  by (simp add: way_defs provider_calls_def Let_def SendMsg_queue)

lemma way_call_sends: "call_sends i s = Some t \<Longrightarrow> ways_kept s \<Longrightarrow> ways_kept t"
  by (auto simp: way_defs call_sends_def split: if_splits list.splits)

lemma way_provider_fetches: "provider_fetches env host now s = Some t \<Longrightarrow> ways_kept s \<Longrightarrow> ways_kept t"
  by (auto simp: way_defs provider_fetches_def ctl_step_def RecvMsq_split split_batch_append comp_def)

lemma way_ctl_cleans:
  assumes "ctl_cleans env now s = Some t" "ways_kept s"
  shows "ways_kept t"
proof -
  let ?q = "queue_of s"
  have "take (length ?q - length (dropWhile P ?q)) ?q = takeWhile P ?q" for P
    by (metis length_append takeWhile_dropWhile_id add_diff_cancel_right' append_eq_conv_conj takeWhile_eq_take)
  with assms show ?thesis
    by (auto simp: way_defs ctl_cleans_def ctl_step_def clean_queue comp_def split: if_splits)
qed

text \<open>What only concerns the servers and the states leaves the service alone.\<close>

lemma grpc_step_service:
  "grpc_step env (GrpcSetts port) c = Some c' \<Longrightarrow> fmtpServer c' = fmtpServer c"
  "grpc_step env (GrpcStateTick cfg now) c = Some c' \<Longrightarrow> fmtpServer c' = fmtpServer c"
  "grpc_step env (StartListens i err) c = Some c' \<Longrightarrow> fmtpServer c' = fmtpServer c"
  "grpc_step env (ServeEnds i err) c = Some c' \<Longrightarrow> fmtpServer c' = fmtpServer c"
  by (auto simp: grpc_settings_changed_def stopGrpcServer_def ctl_emit_def start_listen_def serve_ends_def Let_def
      split: if_splits option.splits)

lemma way_service: "fmtpServer c = fmtpServer (sysCtl s) \<Longrightarrow> ways_kept s \<Longrightarrow> ways_kept (s\<lparr>sysCtl := c\<rparr>)"
  by (simp add: way_defs)

lemma way_ctl_takes: "ctl_takes env s = Some t \<Longrightarrow> ways_kept s \<Longrightarrow> ways_kept t"
  by (auto simp: way_defs ctl_takes_def ctl_step_def forward_fdps_def split: if_splits list.splits)

lemma way_ctl_sends: "ctl_sends s = Some t \<Longrightarrow> ways_kept s \<Longrightarrow> ways_kept t"
  by (auto simp: way_defs ctl_sends_def split: if_splits list.splits)

lemma way_ctl_takes_msg: "ctl_takes_msg env s = Some t \<Longrightarrow> ways_kept s \<Longrightarrow> ways_kept t"
  by (auto simp: way_defs ctl_takes_msg_def ctl_step_def appendMsg_def split: if_splits list.splits)

lemma way_ctl_takes_setts: "ctl_takes_setts env port s = Some t \<Longrightarrow> ways_kept s \<Longrightarrow> ways_kept t"
  by (auto simp: ctl_takes_setts_def ctl_step_def way_defs grpc_step_service(1) simp del: grpc_step.simps split: if_splits)

lemma way_ctl_other:
  assumes "ctl_other env a s = Some t" "ways_kept s"
  shows "ways_kept t"
  using assms
  by (cases a) (auto simp: ctl_other_def ctl_step_def simp del: grpc_step.simps split: if_splits
      intro: way_service dest: grpc_step_service)

lemmas way_ctl_moves = way_ctl_takes way_ctl_sends way_ctl_takes_msg way_ctl_takes_setts way_ctl_other

lemma way_wk_takes:
  assumes "wk_takes cfg x s = Some t" "ways_kept s"
  shows "ways_kept t"
  using assms
  by (cases x) (auto simp: way_defs wk_takes_def split: if_splits list.splits)

lemma way_setts [simp]:
  "ways_kept (s\<lparr>settsChan := a\<rparr>) = ways_kept s" "ways_kept (s\<lparr>ctlSetts := b\<rparr>) = ways_kept s"
  "ways_kept (s\<lparr>logSettsCh := c\<rparr>) = ways_kept s" "ways_kept (s\<lparr>metricSettsCh := d\<rparr>) = ways_kept s"
  "ways_kept (s\<lparr>wkEnded := e\<rparr>) = ways_kept s"
  by (simp_all add: way_defs)

lemma way_todo:
  "wkTodo s = e # es \<Longrightarrow> held_packets [e] = [] \<Longrightarrow> held_msgs [e] = [] \<Longrightarrow> ways_kept s \<Longrightarrow> ways_kept (s\<lparr>wkTodo := es\<rparr>)"
  by (auto simp: way_defs)

lemma way_wk_sends:
  assumes "wk_sends s = Some t" "ways_kept s"
  shows "ways_kept t"
proof -
  obtain e es u where e: "wkTodo s = e # es" "wk_performs e s = Some u" "t = u\<lparr>wkTodo := es\<rparr>"
    using assms(1) by (auto simp: wk_sends_def split: list.splits)
  show ?thesis
  proof (cases "(\<exists>m. e = ToFdpsPackets m) \<or> (\<exists>m. e = ToGrpcFdps m)")
    case True
    then have "es = []" using e(1) assms(2) by (auto simp: ways_kept_def)
    then show ?thesis using True e assms(2) by (auto simp: way_defs split: if_splits)
  next
    case False
    then have "held_packets [e] = []" "held_msgs [e] = []" by (simp_all split: worker_effect.split)
    moreover have "ways_kept u" "wkTodo u = e # es"
      using False e(1,2) assms(2) by (cases e; auto split: if_splits)+
    ultimately show ?thesis using way_todo e(3) by blast
  qed
qed

lemma way_srv_takes:
  assumes "srv_takes env now x s = Some t" "ways_kept s" "srvHolds s = [] \<or> (\<forall>sock d. x \<noteq> WsPackage sock d)"
  shows "ways_kept t"
proof -
  obtain cc where cc: "srv_step (sysSrvEnv env) now x (sysSrv s) = Some cc"
    "t = s\<lparr>sysSrv := cc, srvHolds := srvHolds s @ drop (length (to_fdps (sysSrv s))) (to_fdps cc)\<rparr>"
    using assms(1) by (auto simp: srv_takes_def)
  obtain ms where ms: "to_fdps cc = to_fdps (sysSrv s) @ ms" "length ms \<le> 1"
    using srv_step_extends [OF cc(1)] by blast
  have "length (srvHolds s @ ms) \<le> 1"
    using assms(2,3) srv_step_silent [OF cc(1)] ms by (auto simp: ways_kept_def)
  then show ?thesis using assms(2) ms by (simp add: cc(2) way_defs)
qed

lemma way_srv_takes_packet:
  assumes "srv_takes_packet env now s = Some t" "ways_kept s"
  shows "ways_kept t"
proof -
  obtain m ms where m: "packetChan s = m # ms" "srvHolds s = []"
    "srv_takes env now (FromProvider m) (s\<lparr>packetChan := ms, packetsDone := packetsDone s @ [m]\<rparr>) = Some t"
    using assms(1) by (auto simp: srv_takes_packet_def split: if_splits list.splits)
  then have "ways_kept (s\<lparr>packetChan := ms, packetsDone := packetsDone s @ [m]\<rparr>)"
    using assms(2) by (simp add: way_defs)
  with m(3) show ?thesis by (rule way_srv_takes) simp
qed

lemma way_srv_takes_setts:
  assumes "srv_takes_setts env now s = Some t" "ways_kept s"
  shows "ways_kept t"
proof -
  obtain st sts where "srv_takes env now (NewSettings st) (s\<lparr>settsChan := sts\<rparr>) = Some t"
    using assms(1) by (auto simp: srv_takes_setts_def split: if_splits list.splits)
  moreover have "ways_kept (s\<lparr>settsChan := sts\<rparr>)" using assms(2) by (simp add: way_defs)
  ultimately show ?thesis by (rule way_srv_takes) simp
qed

lemma way_srv_other:
  assumes "srv_other env now x s = Some t" "ways_kept s"
  shows "ways_kept t"
  using assms by (cases x) (auto simp: srv_other_def split: if_splits elim!: way_srv_takes)

lemma way_srv_sends: "srv_sends s = Some t \<Longrightarrow> ways_kept s \<Longrightarrow> ways_kept t"
  by (auto simp: way_defs srv_sends_def split: if_splits list.splits)

lemmas way_srv_moves = way_srv_takes_packet way_srv_takes_setts way_srv_other way_srv_sends

lemma way_step:
  assumes "sys_step env m s = Some t" "ways_kept s"
  shows "ways_kept t"
proof (cases m)
  case (CtlOther a)
  then show ?thesis using assms by (simp add: way_ctl_moves)
next
  case (SrvOther now x)
  then show ?thesis using assms by (simp add: way_srv_moves)
qed (use assms in \<open>auto simp: way_provider_calls way_call_sends way_provider_fetches way_ctl_cleans way_ctl_moves
       way_wk_takes way_wk_sends way_srv_moves split: if_splits, (auto simp: way_defs)?\<close>)

lemma way_run: "run_steps (sys_step env) ms s = Some t \<Longrightarrow> ways_kept s \<Longrightarrow> ways_kept t"
  by (rule run_steps_invariant [where I = ways_kept and f = "sys_step env"]) (auto intro: way_step)

section \<open>The order of each call\<close>

fun placed_by :: "sys_move \<Rightarrow> MsgWithChanId list list" where
  "placed_by (ProviderCalls cfg host now msgs) = [placed cfg msgs]"
| "placed_by _ = []"

definition calls_kept :: "MsgWithChanId list list \<Rightarrow> chief_sys \<Rightarrow> bool" where
  "calls_kept ps s \<longleftrightarrow>
     length (sysCalls s) = length ps \<and> (\<forall>e \<in> set (enteredMsgs s). fst e < length ps) \<and>
     (\<forall>i < length ps. map snd (filter (\<lambda>e. fst e = i) (enteredMsgs s)) @ sysCalls s ! i = ps ! i)"

lemma calls_same:
  assumes "sys_step env m s = Some t" "\<forall>cfg host now msgs. m \<noteq> ProviderCalls cfg host now msgs" "\<forall>i. m \<noteq> CallSends i"
  shows "sysCalls t = sysCalls s \<and> enteredMsgs t = enteredMsgs s"
proof (cases m)
  case (WkTakes cfg x)
  then show ?thesis using assms(1) by (cases x) (auto simp: wk_takes_def split: if_splits list.splits)
next
  case WkSends
  then obtain e es u where "wk_performs e s = Some u" "t = u\<lparr>wkTodo := es\<rparr>"
    using assms(1) by (auto simp: wk_sends_def split: list.splits)
  then show ?thesis by (cases e) (auto split: if_splits)
qed (use assms in \<open>auto simp: provider_fetches_def ctl_takes_def ctl_sends_def ctl_takes_msg_def ctl_takes_setts_def
       ctl_cleans_def ctl_other_def ctl_step_def srv_takes_packet_def srv_takes_setts_def srv_other_def srv_takes_def
       srv_sends_def split: if_splits list.splits grpc_action.splits srv_input.splits\<close>)

lemma calls_step:
  assumes "sys_step env m s = Some t" "calls_kept ps s"
  shows "calls_kept (ps @ placed_by m) t"
proof (cases m)
  case (ProviderCalls cfg host now msgs)
  have "filter (\<lambda>e. fst e = length ps) (enteredMsgs s) = []"
    using assms(2) by (fastforce simp: calls_kept_def filter_empty_conv)
  then show ?thesis
    using assms ProviderCalls SendMsg_result [of cfg host now msgs "(fmtpServer (sysCtl s))\<lparr>FromFdpsChan := []\<rparr>"]
    by (auto simp: provider_calls_def Let_def calls_kept_def nth_append less_Suc_eq)
next
  case (CallSends i)
  then obtain x xs where x: "i < length (sysCalls s)" "sysCalls s ! i = x # xs" "sysCalls t = (sysCalls s)[i := xs]"
    "enteredMsgs t = enteredMsgs s @ [(i, x)]"
    using assms(1) by (auto simp: call_sends_def split: if_splits list.splits)
  then show ?thesis
    using assms(2) CallSends by (auto simp: calls_kept_def nth_list_update)
qed (use calls_same [OF assms(1)] assms(2) in \<open>simp_all add: calls_kept_def\<close>)

lemma calls_run:
  "run_steps (sys_step env) ms s = Some t \<Longrightarrow> calls_kept ps s \<Longrightarrow> calls_kept (ps @ concat (map placed_by ms)) t"
proof (induction ms arbitrary: s ps)
  case (Cons m ms)
  then obtain u where u: "sys_step env m s = Some u" "run_steps (sys_step env) ms u = Some t"
    by (auto split: option.splits)
  show ?case using Cons.IH [OF u(2) calls_step [OF u(1) Cons.prems(2)]] by simp
qed simp

section \<open>A deadlock\<close>

text \<open>The worker waits for the server and the server for the worker. Nothing either of them does
  is possible any more, and with the worker the queue of the service gets nothing.\<close>

definition deadlocked :: "chief_sys \<Rightarrow> bool" where
  "deadlocked s \<longleftrightarrow>
     held_packets (take 1 (wkTodo s)) \<noteq> [] \<and> packet_capacity \<le> length (packetChan s) \<and>
     srvHolds s \<noteq> [] \<and> packet_capacity \<le> length (toPacketChan s) \<and> ctlToFdps s = []"

definition handled :: "chief_sys \<Rightarrow> MsgWithChanId list \<times> pb_msg list \<times> pb_msg list" where
  "handled s = (packetsDone s, to_fdps (sysSrv s), queuedMsgs s)"

lemma deadlocked_worker:
  assumes "deadlocked s"
  shows "wk_takes cfg x s = None" "wk_sends s = None"
proof -
  obtain m es where "wkTodo s = ToFdpsPackets m # es"
    using assms by (cases "wkTodo s") (auto simp: deadlocked_def split: worker_effect.splits)
  then show "wk_takes cfg x s = None" "wk_sends s = None"
    using assms by (simp_all add: deadlocked_def wk_takes_def wk_sends_def)
qed

lemma deadlocked_ctl:
  assumes "ctl_step env a s = Some t" "deadlocked s"
  shows "deadlocked t \<and> handled t = handled s"
  using assms by (auto simp: ctl_step_def deadlocked_def handled_def)

lemma deadlocked_step:
  assumes "sys_step env m s = Some t" "deadlocked s"
  shows "deadlocked t \<and> handled t = handled s"
proof (cases m)
  case (ProviderCalls cfg host now msgs)
  then show ?thesis using assms by (auto simp: provider_calls_def Let_def deadlocked_def handled_def)
next
  case (CallSends i)
  then show ?thesis
    using assms by (auto simp: call_sends_def deadlocked_def handled_def split: if_splits list.splits)
next
  case (ProviderFetches host now)
  then show ?thesis
    using assms deadlocked_ctl [of env _ s] by (auto simp: provider_fetches_def ctl_step_def deadlocked_def handled_def)
next
  case (CtlOther a)
  then show ?thesis
    using assms deadlocked_ctl [of env a s t] by (auto simp: ctl_other_def split: if_splits grpc_action.splits)
next
  case (SrvOther now x)
  then have "srv_takes env now x s = Some t" "\<forall>sock d. x \<noteq> WsPackage sock d"
    using assms by (auto simp: srv_other_def deadlocked_def split: srv_input.splits)
  then show ?thesis
    using assms(2) srv_step_silent [of "sysSrvEnv env" now x "sysSrv s"]
    by (auto simp: srv_takes_def deadlocked_def handled_def)
qed (use assms deadlocked_worker [OF assms(2)] in
      \<open>auto simp: ctl_takes_def ctl_sends_def ctl_takes_msg_def ctl_takes_setts_def ctl_cleans_def ctl_step_def
         srv_takes_packet_def srv_takes_setts_def srv_sends_def deadlocked_def handled_def
         split: if_splits list.splits\<close>)

lemma deadlocked_for_ever:
  "run_steps (sys_step env) ms s = Some t \<Longrightarrow> deadlocked s \<Longrightarrow> deadlocked t \<and> handled t = handled s"
proof (induction ms arbitrary: s)
  case (Cons m ms)
  then obtain u where u: "sys_step env m s = Some u" "run_steps (sys_step env) ms u = Some t"
    by (auto split: option.splits)
  show ?case using Cons.IH [OF u(2)] deadlocked_step [OF u(1) Cons.prems(2)] by simp
qed simp

text \<open>How it comes: messages of a channel fill the channel to the worker, and messages of the
  provider the one from it.\<close>

definition data_from :: "ChannelSettings \<Rightarrow> ws_data \<Rightarrow> ChiefChannelServer \<Rightarrow> bool" where
  "data_from c d cc \<longleftrightarrow>
     int64 (csId c) \<and> find_setts (csId c) (ChSettings (srvSetts cc)) = Some c \<and> csDataType c = OLDIProvider \<and>
     (\<exists>m. wsDoc d = Some (marshal_data (CreateChannelDataMsg (csId c) m)))"

lemma data_received:
  assumes "data_from c d (sysSrv s)" "srvHolds s = []"
  shows "\<exists>cc p. sys_step env (SrvOther now (WsPackage sock d)) s = Some (s\<lparr>sysSrv := cc, srvHolds := [p]\<rparr>) \<and>
    data_from c d cc \<and> to_fdps cc = to_fdps (sysSrv s) @ [p]"
proof -
  obtain m where m: "wsDoc d = Some (marshal_data (CreateChannelDataMsg (csId c) m))" and
    c: "int64 (csId c)" "find_setts (csId c) (ChSettings (srvSetts (sysSrv s))) = Some c" "csDataType c = OLDIProvider"
    using assms(1) by (auto simp: data_from_def)
  note r = channel_message [OF c m, of "sysSrvEnv env" now sock]
  show ?thesis
    using assms m c
    by (intro exI [of _ "ws_received (sysSrvEnv env) now sock d (sysSrv s)"]
        exI [of _ "zeroPbMsg\<lparr>pbId := Itoa (oldiIdent (sysSrv s)), pbCid := RemoteATC c, pbTxt := msgText m\<rparr>"])
      (simp add: srv_other_def srv_takes_def data_from_def r(1,3))
qed

lemma server_fills:
  "data_from c d (sysSrv s) \<Longrightarrow> srvHolds s = [] \<Longrightarrow> length (toPacketChan s) + n \<le> packet_capacity \<Longrightarrow>
   \<exists>cc ps. run_steps (sys_step env) (concat (replicate n [SrvOther now (WsPackage sock d), SrvSends])) s =
       Some (s\<lparr>sysSrv := cc, toPacketChan := ps\<rparr>) \<and> length ps = length (toPacketChan s) + n \<and> data_from c d cc \<and>
       length (to_fdps cc) = length (to_fdps (sysSrv s)) + n"
proof (induction n arbitrary: s)
  case 0
  then show ?case by (intro exI [of _ "sysSrv s"] exI [of _ "toPacketChan s"]) simp
next
  case (Suc n)
  obtain cc p where cc: "sys_step env (SrvOther now (WsPackage sock d)) s = Some (s\<lparr>sysSrv := cc, srvHolds := [p]\<rparr>)"
    "data_from c d cc" "to_fdps cc = to_fdps (sysSrv s) @ [p]"
    using data_received [OF Suc.prems(1,2)] by blast
  let ?u = "s\<lparr>sysSrv := cc, toPacketChan := toPacketChan s @ [p]\<rparr>"
  have "sys_step env SrvSends (s\<lparr>sysSrv := cc, srvHolds := [p]\<rparr>) = Some ?u"
    using Suc.prems(2,3) by (simp add: srv_sends_def)
  with cc(1) have r: "run_steps (sys_step env) [SrvOther now (WsPackage sock d), SrvSends] s = Some ?u"
    by (simp del: sys_step.simps)
  obtain cc' ps where "run_steps (sys_step env) (concat (replicate n [SrvOther now (WsPackage sock d), SrvSends])) ?u =
      Some (?u\<lparr>sysSrv := cc', toPacketChan := ps\<rparr>)" "length ps = length (toPacketChan ?u) + n" "data_from c d cc'"
    "length (to_fdps cc') = length (to_fdps cc) + n"
    using Suc.IH [of ?u] Suc.prems cc(2) by auto
  with r show ?case
    by (intro exI [of _ cc'] exI [of _ ps]) (simp add: run_steps_append replicate_Suc concat.simps(2) r cc(3)
      del: sys_step.simps run_steps.simps append_Cons)
qed

text \<open>The worker is free, \<open>k\<close> messages of the first call are still to come and nothing is between.\<close>

definition provider_flow :: "nat \<Rightarrow> MsgWithChanId \<Rightarrow> chief_sys \<Rightarrow> bool" where
  "provider_flow k x s \<longleftrightarrow>
     sysCalls s = [replicate k x] \<and> service_chan s = [] \<and> ctlHolds s = [] \<and> ctlFromFdps s = [] \<and>
     wkTodo s = [] \<and> \<not> wkEnded s"

definition frame :: "chief_sys \<Rightarrow> ChiefChannelServer \<times> pb_msg list \<times> pb_msg list \<times> pb_msg list \<times> MsgWithChanId list \<times> pb_msg list" where
  "frame s = (sysSrv s, srvHolds s, toPacketChan s, ctlToFdps s, packetsDone s, queuedMsgs s)"

definition to_worker :: "ChiefSettings \<Rightarrow> MsgWithChanId \<Rightarrow> sys_move list" where
  "to_worker cfg x = [CallSends 0, CtlTakes, CtlSends, WkTakes cfg (WorkerFromFdps x)]"

lemma message_to_worker:
  assumes "provider_flow (Suc k) x s"
  shows "\<exists>t. run_steps (sys_step env) (to_worker cfg x) s = Some (t\<lparr>wkTodo := [ToFdpsPackets x]\<rparr>) \<and>
    provider_flow k x t \<and> frame t = frame s \<and> packetChan t = packetChan s"
proof -
  let ?f = "fmtpServer (sysCtl s)"
  obtain c where c: "grpc_step (sysGrpcEnv env) GrpcFromFdps ((sysCtl s)\<lparr>fmtpServer := ?f\<lparr>FromFdpsChan := [x]\<rparr>\<rparr>) = Some c"
    "fromProvider c = fromProvider (sysCtl s) @ [x]" "FromFdpsChan (fmtpServer c) = []"
    by (simp add: forward_fdps_def)
  let ?t = "s\<lparr>sysCtl := c, sysCalls := [replicate k x], enteredMsgs := enteredMsgs s @ [(0, x)]\<rparr>"
  have "run_steps (sys_step env) (to_worker cfg x) s = Some (?t\<lparr>wkTodo := [ToFdpsPackets x]\<rparr>)"
    using assms c
    by (simp add: to_worker_def provider_flow_def call_sends_def ctl_takes_def ctl_sends_def ctl_step_def wk_takes_def
        service_chan_def set_grpc_def packet_capacity_def del: grpc_step.simps)
  then show ?thesis
    using assms c(3) by (intro exI [of _ ?t]) (simp add: provider_flow_def frame_def service_chan_def)
qed

lemma provider_fills:
  "provider_flow (n + k) x s \<Longrightarrow> length (packetChan s) + n \<le> packet_capacity \<Longrightarrow>
   \<exists>t. run_steps (sys_step env) (concat (replicate n (to_worker cfg x @ [WkSends]))) s = Some t \<and>
     provider_flow k x t \<and> frame t = frame s \<and> length (packetChan t) = length (packetChan s) + n"
proof (induction n arbitrary: s)
  case (Suc n)
  obtain t where t: "run_steps (sys_step env) (to_worker cfg x) s = Some (t\<lparr>wkTodo := [ToFdpsPackets x]\<rparr>)"
    "provider_flow (n + k) x t" "frame t = frame s" "packetChan t = packetChan s"
    using message_to_worker [of "n + k" x s] Suc.prems(1) by auto
  let ?u = "t\<lparr>packetChan := packetChan t @ [x], wkTodo := []\<rparr>"
  have "sys_step env WkSends (t\<lparr>wkTodo := [ToFdpsPackets x]\<rparr>) = Some ?u"
    using t(4) Suc.prems(2) by (simp add: wk_sends_def)
  then have r: "run_steps (sys_step env) (to_worker cfg x @ [WkSends]) s = Some ?u"
    using t(1) by (simp add: run_steps_append)
  have "provider_flow (n + k) x ?u" "frame ?u = frame s"
    using t(2,3) by (simp_all add: provider_flow_def frame_def service_chan_def)
  then obtain v where "run_steps (sys_step env) (concat (replicate n (to_worker cfg x @ [WkSends]))) ?u = Some v"
    "provider_flow k x v" "frame v = frame s" "length (packetChan v) = length (packetChan ?u) + n"
    using Suc.IH [of ?u] Suc.prems(2) t(4) by auto
  then show ?case
    using t(4) by (intro exI [of _ v])
      (simp add: run_steps_append [of _ "to_worker cfg x @ [WkSends]"] replicate_Suc concat.simps(2) r
        del: sys_step.simps run_steps.simps append_assoc)
qed simp

lemma placed_many: "placed cfg [pb] = [x] \<Longrightarrow> placed cfg (replicate n pb) = replicate n x"
  by (induction n) (auto simp: placed_def split: if_splits)

lemma both_ways_fill:
  assumes "data_from c d cc" and "to_fdps cc = []" and "placed cfg [pb] = [x]"
  shows "\<exists>t. run_steps (sys_step env) ([ProviderCalls cfg None 0 (replicate 1025 pb)] @
      concat (replicate 1024 (to_worker zeroChiefSettings x @ [WkSends])) @ to_worker zeroChiefSettings x @
      concat (replicate 1024 [SrvOther 0 (WsPackage 0 d), SrvSends]) @ [SrvOther 0 (WsPackage 0 d)]) (sys_start st cc) =
      Some t \<and> deadlocked t \<and> length (to_fdps (sysSrv t)) = 1025 \<and> packetsDone t = [] \<and> queuedMsgs t = []"
proof -
  let ?s0 = "sys_start st cc" and ?call = "ProviderCalls cfg None 0 (replicate 1025 pb)"
  let ?w = "to_worker zeroChiefSettings x" and ?d = "SrvOther 0 (WsPackage 0 d)"
  define s1 where "s1 = provider_calls cfg None 0 (replicate 1025 pb) ?s0"
  have s1: "provider_flow (1024 + 1) x s1" "frame s1 = (cc, [], [], [], [], [])" "packetChan s1 = []"
    using SendMsg_result [of cfg None 0 "replicate 1025 pb" "newFmtpGrpcServerImpl\<lparr>FromFdpsChan := []\<rparr>"]
    by (simp_all add: s1_def provider_calls_def sys_start_def provider_flow_def frame_def service_chan_def placed_many [OF assms(3)] Let_def
        NewOldiGrpcController_def newFmtpGrpcServerImpl_def set_grpc_def)
  obtain t1 where t1: "run_steps (sys_step env) (concat (replicate 1024 (?w @ [WkSends]))) s1 = Some t1"
    "provider_flow 1 x t1" "frame t1 = frame s1" "length (packetChan t1) = 1024"
    using provider_fills [OF s1(1), of env zeroChiefSettings] s1(3) by (auto simp: packet_capacity_def)
  obtain t2 where t2: "run_steps (sys_step env) ?w t1 = Some (t2\<lparr>wkTodo := [ToFdpsPackets x]\<rparr>)" (is "_ = Some ?s2")
    "frame t2 = frame s1" "length (packetChan t2) = 1024"
    using message_to_worker [of 0 x t1 env zeroChiefSettings] t1(2-4) by auto
  have f: "sysSrv ?s2 = cc" "srvHolds ?s2 = []" "toPacketChan ?s2 = []" "ctlToFdps ?s2 = []" "packetsDone ?s2 = []"
    "queuedMsgs ?s2 = []" using t2(2) s1(2) by (simp_all add: frame_def)
  obtain cc' ps where t3: "run_steps (sys_step env) (concat (replicate 1024 [?d, SrvSends])) ?s2 =
      Some (?s2\<lparr>sysSrv := cc', toPacketChan := ps\<rparr>)" (is "_ = Some ?s3")
    "length ps = 1024" "data_from c d cc'" "length (to_fdps cc') = 1024"
    using server_fills [of c d ?s2 1024 env 0 0] assms(1,2) f by (auto simp: packet_capacity_def)
  obtain cc'' p where t4: "sys_step env ?d ?s3 = Some (?s3\<lparr>sysSrv := cc'', srvHolds := [p]\<rparr>)" (is "_ = Some ?t")
    "to_fdps cc'' = to_fdps cc' @ [p]"
    using data_received [of c d ?s3 env 0 0] t3(3) f by auto
  have "run_steps (sys_step env) ([?call] @ concat (replicate 1024 (?w @ [WkSends])) @ ?w @
      concat (replicate 1024 [?d, SrvSends]) @ [?d]) ?s0 = Some ?t"
    using t1(1) t2(1) t3(1) t4(1)
    by (simp only: run_steps_append) (simp add: s1_def del: sys_step.simps(2-))
  moreover have "deadlocked ?t" using t2(3) t3(2) f(4) by (simp add: deadlocked_def packet_capacity_def)
  moreover have "length (to_fdps (sysSrv ?t)) = 1025" "packetsDone ?t = []" "queuedMsgs ?t = []"
    using t3(4) t4(2) f(5,6) by simp_all
  ultimately show ?thesis by blast
qed

section \<open>Properties\<close>

text \<open>C6: Between the provider and the channels the chief loses, repeats and reorders nothing, in any
  interleaving of its processes: what the server has taken and what is on the way is what the calls of
  the provider have sent, each call in its order; what is in the queue of the service and on the way to it is
  what the server has sent for the provider, in its order; and whatever has left that queue was fetched or
  cleaned away, in the order of the queue. What is on the way is bounded, the queue is not.\<close>

theorem chief_ways:
  assumes "run_steps (sys_step env) ms (sys_start st cc) = Some t" and "to_fdps cc = []"
  shows "let calls = concat (map placed_by ms)
    in packetsDone t @ on_the_way_down t = map snd (enteredMsgs t) \<and>
       (\<forall>i < length calls. map snd (filter (\<lambda>e. fst e = i) (enteredMsgs t)) @ sysCalls t ! i = calls ! i) \<and>
       queuedMsgs t @ on_the_way_up t = to_fdps (sysSrv t) \<and>
       map snd (leftMsgs t) @ queue_of t = queuedMsgs t \<and>
       length (on_the_way_down t) \<le> 3 * 1024 + 2 \<and> length (on_the_way_up t) \<le> 2 * 1024 + 2"
proof -
  have "ways_kept (sys_start st cc)" "calls_kept [] (sys_start st cc)"
    using assms(2)
    by (simp_all add: way_defs sys_start_def NewOldiGrpcController_def newFmtpGrpcServerImpl_def calls_kept_def)
  then have k: "ways_kept t" "calls_kept (concat (map placed_by ms)) t"
    using way_run [OF assms(1)] calls_run [OF assms(1), of "[]"] by simp_all
  have "length (held_packets (wkTodo t)) \<le> 1" "length (held_msgs (wkTodo t)) \<le> 1"
    using k(1) by (cases "wkTodo t"; auto simp: ways_kept_def split: worker_effect.splits)+
  then show ?thesis
    using k unfolding Let_def ways_kept_def calls_kept_def
    by (simp add: on_the_way_down_def on_the_way_up_def packet_capacity_def)
qed

definition example_sys_env :: sys_env where
  "example_sys_env = \<lparr>sysGrpcEnv = \<lparr>grpcClock = (\<lambda>n. []), grpcFormat = (\<lambda>t. [])\<rparr>, sysSrvEnv = example_srv_env\<rparr>"

definition example_call_cfg :: "ChannelSettings list" where
  "example_call_cfg = [zeroChannelSettings\<lparr>csId := 7, RemoteATC := ''UEEE''\<rparr>]"

lemma example_placed:
  "GetChannelIdByCid example_call_cfg ''UEEE'' = 7"
  "placed example_call_cfg [zeroPbMsg\<lparr>pbCid := ''UEEE''\<rparr>] = [\<lparr>PbMsg = zeroPbMsg\<lparr>pbCid := ''UEEE''\<rparr>, ChanId = 7\<rparr>]"
  by (simp_all add: example_call_cfg_def placed_def)

theorem chief_ways_witness:
  "let ms = [ProviderCalls example_call_cfg None 0 [zeroPbMsg\<lparr>pbCid := ''UEEE''\<rparr>], CallSends 0, CtlTakes, CtlSends];
     t = the (run_steps (sys_step example_sys_env) ms (sys_start example_chief_state example_srv));
     calls = concat (map placed_by ms)
    in packetsDone t @ on_the_way_down t = map snd (enteredMsgs t) \<and>
       (\<forall>i < length calls. map snd (filter (\<lambda>e. fst e = i) (enteredMsgs t)) @ sysCalls t ! i = calls ! i) \<and>
       queuedMsgs t @ on_the_way_up t = to_fdps (sysSrv t) \<and>
       map snd (leftMsgs t) @ queue_of t = queuedMsgs t \<and>
       length (on_the_way_down t) \<le> 3 * 1024 + 2 \<and> length (on_the_way_up t) \<le> 2 * 1024 + 2"
proof -
  have "run_steps (sys_step example_sys_env)
      [ProviderCalls example_call_cfg None 0 [zeroPbMsg\<lparr>pbCid := ''UEEE''\<rparr>], CallSends 0, CtlTakes, CtlSends]
      (sys_start example_chief_state example_srv) \<noteq> None"
    by (simp add: provider_calls_def Let_def SendMsg_def example_placed call_sends_def service_chan_def sys_start_def
      ctl_takes_def ctl_step_def ctl_sends_def forward_fdps_def packet_capacity_def NewOldiGrpcController_def
      newFmtpGrpcServerImpl_def set_grpc_def)
  from option.collapse [OF this, symmetric] show ?thesis
    unfolding Let_def by (rule chief_ways [unfolded Let_def]) (simp add: to_fdps_def example_srv_defs)
qed

text \<open>C18: The chief can come to a standstill for good: the worker, which passes the messages on in both
  directions, waits for room on the channel to the server while the server waits for room on the channel
  to the worker. 1025 messages of a channel and 1025 messages of the provider at the same time are enough;
  from then on no message of the provider or of a channel is ever handled again, whatever happens.\<close>

theorem chief_deadlock:
  assumes "data_from c d cc" and "to_fdps cc = []" and "placed cfg [pb] = [x]"
  shows "\<exists>ms t. run_steps (sys_step env) ms (sys_start st cc) = Some t \<and>
    length (to_fdps (sysSrv t)) = 1025 \<and> length (concat (concat (map placed_by ms))) = 1025 \<and>
    (\<forall>more t'. run_steps (sys_step env) more t = Some t' \<longrightarrow>
       packetsDone t' = [] \<and> queuedMsgs t' = [] \<and> to_fdps (sysSrv t') = to_fdps (sysSrv t))"
proof -
  let ?w = "to_worker zeroChiefSettings x" and ?d = "SrvOther 0 (WsPackage 0 d)"
  define ms where "ms = [ProviderCalls cfg None 0 (replicate 1025 pb)] @ concat (replicate 1024 (?w @ [WkSends])) @ ?w @
    concat (replicate 1024 [?d, SrvSends]) @ [?d]"
  obtain t where t: "run_steps (sys_step env) ms (sys_start st cc) = Some t" "deadlocked t"
    "length (to_fdps (sysSrv t)) = 1025" "packetsDone t = []" "queuedMsgs t = []"
    using both_ways_fill [OF assms] unfolding ms_def by blast
  have none: "concat (map placed_by (concat (replicate n xs))) = concat (replicate n (concat (map placed_by xs)))" for n xs
    by (induction n) simp_all
  have e: "concat (replicate n []) = []" for n by (induction n) simp_all
  have calls: "concat (map placed_by ms) = [replicate 1025 x]"
    by (simp add: ms_def none placed_many [OF assms(3)] to_worker_def e)
  have for_ever: "packetsDone t' = [] \<and> queuedMsgs t' = [] \<and> to_fdps (sysSrv t') = to_fdps (sysSrv t)"
    if "run_steps (sys_step env) more t = Some t'" for more t'
    using deadlocked_for_ever [OF that t(2)] t(4,5) by (auto simp: handled_def)
  show ?thesis
    by (rule exI [of _ ms], rule exI [of _ t], intro conjI) (use t(1,3) calls for_ever in \<open>simp_all\<close>)
qed

definition example_data :: ws_data where
  "example_data = \<lparr>wsText = [],
     wsDoc = Some (marshal_data (CreateChannelDataMsg (csId example_client) \<lparr>msgType = Operational, msgText = ''(FPL)''\<rparr>))\<rparr>"

theorem chief_deadlock_witness:
  "\<exists>ms t. run_steps (sys_step example_sys_env) ms (sys_start example_chief_state example_srv) = Some t \<and>
    length (to_fdps (sysSrv t)) = 1025 \<and> length (concat (concat (map placed_by ms))) = 1025 \<and>
    (\<forall>more t'. run_steps (sys_step example_sys_env) more t = Some t' \<longrightarrow>
       packetsDone t' = [] \<and> queuedMsgs t' = [] \<and> to_fdps (sysSrv t') = to_fdps (sysSrv t))"
proof (rule chief_deadlock)
  show "data_from example_client example_data example_srv"
    by (auto simp: data_from_def example_data_def find_setts_def example_srv_defs example_defs OLDIProvider_def int64_def
        int_min_def int_max_def)
  show "to_fdps example_srv = []" by (simp add: to_fdps_def example_srv_defs)
qed (rule example_placed(2))

end
