(* ===== verification/Chief_Drains.thy ===== *)
theory Chief_Drains
  imports Chief_System
begin

text \<open>
  The chief comes to the end of its work. While the worker and the server are not in the middle of
  a send, as they are in the deadlock of \<open>Chief_System\<close>, everything that is on the way can still be
  handled: the moves below always take a message one stage further, and the weight of what is left,
  \<open>work_left\<close>, bounds their number.
\<close>

section \<open>The work that is left\<close>

definition pending_calls :: "chief_sys \<Rightarrow> nat" where
  "pending_calls s = sum_list (map length (sysCalls s))"

definition work_left :: "chief_sys \<Rightarrow> nat" where
  "work_left s =
     6 * pending_calls s + 5 * length (service_chan s) + 4 * length (ctlHolds s) + 3 * length (ctlFromFdps s) +
     2 * length (held_packets (wkTodo s)) + length (packetChan s) +
     3 * length (toPacketChan s) + 2 * length (held_msgs (wkTodo s)) + length (ctlToFdps s)"

text \<open>The worker is at its \<open>select\<close> or has one message to send, for which there will be room.\<close>

definition at_work :: "chief_sys \<Rightarrow> bool" where
  "at_work s \<longleftrightarrow>
     \<not> wkEnded s \<and> srvHolds s = [] \<and>
     (wkTodo s = [] \<or> (\<exists>m. wkTodo s = [ToFdpsPackets m]) \<or> (\<exists>m. wkTodo s = [ToGrpcFdps m] \<and> ctlToFdps s = []))"

definition advances :: "sys_env \<Rightarrow> chief_sys \<Rightarrow> chief_sys \<Rightarrow> bool" where
  "advances env s t \<longleftrightarrow>
     (\<exists>m. sys_step env m s = Some t \<and> placed_by m = []) \<and> work_left t < work_left s \<and> at_work t \<and>
     to_fdps (sysSrv t) = to_fdps (sysSrv s)"

lemma advancesI:
  "sys_step env m s = Some t \<Longrightarrow> placed_by m = [] \<Longrightarrow> work_left t < work_left s \<Longrightarrow> at_work t \<Longrightarrow>
   to_fdps (sysSrv t) = to_fdps (sysSrv s) \<Longrightarrow> advances env s t"
  unfolding advances_def by blast

lemmas work_defs = work_left_def pending_calls_def service_chan_def

lemma server_advances:
  assumes "at_work s" "packetChan s = m # ms"
  shows "\<exists>t. advances env s t"
proof -
  let ?cc = "ProcessOldiPacket m (sysSrv s)"
  let ?t = "s\<lparr>packetChan := ms, packetsDone := packetsDone s @ [m], sysSrv := ?cc\<rparr>"
  have "srv_step (sysSrvEnv env) 0 (FromProvider m) (sysSrv s) = Some ?cc" by simp
  then have same: "to_fdps ?cc = to_fdps (sysSrv s)" by (rule srv_step_silent) simp
  have h: "srvHolds s = []" using assms(1) by (simp add: at_work_def)
  then have "sys_step env (SrvTakesPacket 0) s = Some ?t"
    using same by (simp add: srv_takes_packet_def assms(2) srv_takes_def)
  then have "advances env s ?t"
    by (rule advancesI) (use assms h same in \<open>simp_all add: work_defs at_work_def\<close>)
  then show ?thesis ..
qed

lemma worker_advances:
  assumes "at_work s" "packetChan s = []" "wkTodo s \<noteq> []"
  shows "\<exists>t. advances env s t"
  using assms(1) unfolding at_work_def
proof (elim conjE disjE exE)
  fix m
  assume m: "wkTodo s = [ToFdpsPackets m]" "\<not> wkEnded s" "srvHolds s = []"
  let ?t = "s\<lparr>packetChan := [m], wkTodo := []\<rparr>"
  have "sys_step env WkSends s = Some ?t" using m assms(2) by (simp add: wk_sends_def packet_capacity_def)
  then have "advances env s ?t" by (rule advancesI) (use m assms(2) in \<open>simp_all add: work_defs at_work_def\<close>)
  then show ?thesis ..
next
  fix m
  assume m: "wkTodo s = [ToGrpcFdps m]" "ctlToFdps s = []" "\<not> wkEnded s" "srvHolds s = []"
  let ?t = "s\<lparr>ctlToFdps := [m], wkTodo := []\<rparr>"
  have "sys_step env WkSends s = Some ?t" using m by (simp add: wk_sends_def packet_capacity_def)
  then have "advances env s ?t" by (rule advancesI) (use m in \<open>simp_all add: work_defs at_work_def\<close>)
  then show ?thesis ..
qed (use assms(3) in simp)

lemma worker_takes:
  assumes "at_work s" "wkTodo s = []"
  shows "ctlFromFdps s = m # ms \<Longrightarrow> \<exists>t. advances env s t"
    and "toPacketChan s = p # ps \<Longrightarrow> ctlToFdps s = [] \<Longrightarrow> \<exists>t. advances env s t"
proof -
  have w: "\<not> wkEnded s" "srvHolds s = []" using assms(1) by (simp_all add: at_work_def)
  show "\<exists>t. advances env s t" if m: "ctlFromFdps s = m # ms"
  proof -
    let ?t = "s\<lparr>ctlFromFdps := ms, wkTodo := [ToFdpsPackets m]\<rparr>"
    have "sys_step env (WkTakes zeroChiefSettings (WorkerFromFdps m)) s = Some ?t"
      using assms(2) w m by (simp add: wk_takes_def)
    then have "advances env s ?t" by (rule advancesI) (use w m assms(2) in \<open>simp_all add: work_defs at_work_def\<close>)
    then show ?thesis ..
  qed
  show "\<exists>t. advances env s t" if p: "toPacketChan s = p # ps" "ctlToFdps s = []"
  proof -
    let ?t = "s\<lparr>toPacketChan := ps, wkTodo := [ToGrpcFdps p]\<rparr>"
    have "sys_step env (WkTakes zeroChiefSettings (WorkerToFdps p)) s = Some ?t"
      using assms(2) w p by (simp add: wk_takes_def)
    then have "advances env s ?t" by (rule advancesI) (use w p assms(2) in \<open>simp_all add: work_defs at_work_def\<close>)
    then show ?thesis ..
  qed
qed

lemma controller_advances:
  assumes "at_work s" "wkTodo s = []"
  shows "ctlHolds s = m # ms \<Longrightarrow> ctlFromFdps s = [] \<Longrightarrow> \<exists>t. advances env s t"
    and "ctlHolds s = [] \<Longrightarrow> service_chan s = x # xs \<Longrightarrow> \<exists>t. advances env s t"
    and "ctlHolds s = [] \<Longrightarrow> ctlToFdps s = p # ps \<Longrightarrow> \<exists>t. advances env s t"
proof -
  have w: "\<not> wkEnded s" "srvHolds s = []" using assms(1) by (simp_all add: at_work_def)
  show "\<exists>t. advances env s t" if m: "ctlHolds s = m # ms" "ctlFromFdps s = []"
  proof -
    let ?t = "s\<lparr>ctlHolds := ms, ctlFromFdps := [m]\<rparr>"
    have "sys_step env CtlSends s = Some ?t" using m by (simp add: ctl_sends_def packet_capacity_def)
    then have "advances env s ?t" by (rule advancesI) (use w m assms(2) in \<open>simp_all add: work_defs at_work_def\<close>)
    then show ?thesis ..
  qed
  show "\<exists>t. advances env s t" if x: "ctlHolds s = []" "service_chan s = x # xs"
  proof -
    obtain c where c: "grpc_step (sysGrpcEnv env) GrpcFromFdps (sysCtl s) = Some c"
      "fromProvider c = fromProvider (sysCtl s) @ [x]" "FromFdpsChan (fmtpServer c) = xs"
      using x(2) by (simp add: forward_fdps_def service_chan_def)
    let ?t = "s\<lparr>sysCtl := c, ctlHolds := [x]\<rparr>"
    have "sys_step env CtlTakes s = Some ?t"
      using x(1) c by (simp add: ctl_takes_def ctl_step_def del: grpc_step.simps)
    then have "advances env s ?t"
      by (rule advancesI) (use w x c(3) assms(2) in \<open>simp_all add: work_defs at_work_def\<close>)
    then show ?thesis ..
  qed
  show "\<exists>t. advances env s t" if p: "ctlHolds s = []" "ctlToFdps s = p # ps"
  proof -
    obtain c where c: "grpc_step (sysGrpcEnv env) (GrpcToFdps p) (sysCtl s) = Some c"
      "FromFdpsChan (fmtpServer c) = FromFdpsChan (fmtpServer (sysCtl s))"
      by (simp add: appendMsg_def)
    let ?t = "s\<lparr>sysCtl := c, ctlToFdps := ps, queuedMsgs := queuedMsgs s @ [p]\<rparr>"
    have "sys_step env CtlTakesMsg s = Some ?t"
      using p c by (simp add: ctl_takes_msg_def ctl_step_def del: grpc_step.simps)
    then have "advances env s ?t"
      by (rule advancesI) (use w p c(2) assms(2) in \<open>simp_all add: work_defs at_work_def\<close>)
    then show ?thesis ..
  qed
qed

lemma call_advances:
  assumes "at_work s" "service_chan s = []" "pending_calls s \<noteq> 0"
  shows "\<exists>t. advances env s t"
proof -
  obtain i where i: "i < length (sysCalls s)" "sysCalls s ! i \<noteq> []"
    using assms(3) by (auto simp: pending_calls_def in_set_conv_nth)
  then obtain x xs where x: "sysCalls s ! i = x # xs" by (cases "sysCalls s ! i") auto
  let ?t = "(set_grpc (\<lambda>g. g\<lparr>FromFdpsChan := FromFdpsChan g @ [x]\<rparr>) s)
      \<lparr>sysCalls := (sysCalls s)[i := xs], enteredMsgs := enteredMsgs s @ [(i, x)]\<rparr>"
  have step: "sys_step env (CallSends i) s = Some ?t"
    using i(1) x assms(2) by (simp add: call_sends_def packet_capacity_def)
  have "pending_calls s = Suc (sum_list (map length ((sysCalls s)[i := xs])))"
    using i(1) x elem_le_sum_list [of i "map length (sysCalls s)"]
    by (simp add: pending_calls_def map_update sum_list_update)
  then have less: "work_left ?t < work_left s" using assms(2) by (simp add: work_defs)
  have "advances env s ?t"
    by (rule advancesI [OF step _ less]) (use assms(1) in \<open>simp_all add: at_work_def set_grpc_def\<close>)
  then show ?thesis ..
qed

lemma some_advance:
  assumes "at_work s" "work_left s \<noteq> 0"
  shows "\<exists>t. advances env s t"
proof (cases "packetChan s = [] \<and> wkTodo s = []")
  case False
  then show ?thesis using server_advances [OF assms(1)] worker_advances [OF assms(1)] by (cases "packetChan s") auto
next
  case True
  then have w: "packetChan s = []" "wkTodo s = []" by simp_all
  note takes = worker_takes [OF assms(1) w(2)] and ctl = controller_advances [OF assms(1) w(2)]
  show ?thesis
  proof (cases "ctlFromFdps s = [] \<and> ctlHolds s = [] \<and> service_chan s = [] \<and> pending_calls s = 0")
    case False
    then show ?thesis
      using takes(1) ctl(1,2) call_advances [OF assms(1)]
      by (cases "ctlFromFdps s"; cases "ctlHolds s"; cases "service_chan s") auto
  next
    case True
    then have "ctlToFdps s \<noteq> [] \<or> toPacketChan s \<noteq> []" using w assms(2) by (auto simp: work_left_def)
    then show ?thesis
      using True takes(2) ctl(3) by (cases "ctlToFdps s"; cases "toPacketChan s") auto
  qed
qed

lemma drains:
  "at_work s \<Longrightarrow> \<exists>ms t. run_steps (sys_step env) ms s = Some t \<and> concat (map placed_by ms) = [] \<and>
     length ms \<le> work_left s \<and> work_left t = 0 \<and> at_work t \<and> to_fdps (sysSrv t) = to_fdps (sysSrv s)"
proof (induction "work_left s" arbitrary: s rule: less_induct)
  case less
  show ?case
  proof (cases "work_left s = 0")
    case True
    then show ?thesis using less.prems by (intro exI [of _ "[]"] exI [of _ s]) simp
  next
    case False
    then obtain u where u: "advances env s u" using some_advance [OF less.prems] by blast
    then obtain m where m: "sys_step env m s = Some u" "placed_by m = []" by (auto simp: advances_def)
    obtain ms t where t: "run_steps (sys_step env) ms u = Some t" "concat (map placed_by ms) = []"
      "length ms \<le> work_left u" "work_left t = 0" "at_work t" "to_fdps (sysSrv t) = to_fdps (sysSrv u)"
      using less.hyps [of u] u by (auto simp: advances_def)
    then show ?thesis
      using m u by (intro exI [of _ "m # ms"] exI [of _ t]) (auto simp: advances_def simp del: sys_step.simps)
  qed
qed

section \<open>Properties\<close>

text \<open>C21: The chief finishes its work unless it is caught in the middle of a send: from every state it
  can reach in which the worker and the server wait at their \<open>select\<close>, it can go on without any new
  call until every call of the provider is served, every message of the provider has been taken by the
  server, and every message of the channels is in the queue of the service.\<close>

theorem chief_drains:
  assumes "run_steps (sys_step env) ms (sys_start st cc) = Some t" and "to_fdps cc = []"
    and "wkTodo t = []" and "srvHolds t = []" and "\<not> wkEnded t"
  shows "\<exists>more t'. run_steps (sys_step env) more t = Some t' \<and> concat (map placed_by more) = [] \<and>
    length more \<le> work_left t \<and>
    (let calls = concat (map placed_by ms)
     in packetsDone t' = map snd (enteredMsgs t') \<and>
        (\<forall>i < length calls. map snd (filter (\<lambda>e. fst e = i) (enteredMsgs t')) = calls ! i) \<and>
        queuedMsgs t' = to_fdps (sysSrv t'))"
proof -
  have "at_work t" using assms(3-5) by (simp add: at_work_def)
  from drains [OF this, of env] obtain more t' where
    t: "run_steps (sys_step env) more t = Some t'" "concat (map placed_by more) = []" "length more \<le> work_left t"
      "work_left t' = 0" "at_work t'" by blast
  have "ways_kept (sys_start st cc)" "calls_kept [] (sys_start st cc)"
    using assms(2)
    by (simp_all add: way_defs sys_start_def NewOldiGrpcController_def newFmtpGrpcServerImpl_def calls_kept_def)
  then have k: "ways_kept t'" "calls_kept (concat (map placed_by ms)) t'"
    using way_run [OF t(1) way_run [OF assms(1)]] calls_run [OF t(1) calls_run [OF assms(1), of "[]"]]
    by (simp_all add: t(2))
  have e: "srvHolds t' = []" "packetChan t' = []" "held_packets (wkTodo t') = []" "ctlFromFdps t' = []" "ctlHolds t' = []"
    "service_chan t' = []" "ctlToFdps t' = []" "held_msgs (wkTodo t') = []" "toPacketChan t' = []" "pending_calls t' = 0"
    using t(4,5) by (simp_all add: work_left_def at_work_def)
  have c: "sysCalls t' ! i = []" if "i < length (sysCalls t')" for i
    using e(10) that by (auto simp: pending_calls_def)
  show ?thesis
    using t(1-3) k c unfolding Let_def calls_kept_def ways_kept_def on_the_way_down_def on_the_way_up_def
    by (intro exI [of _ more] exI [of _ t']) (simp add: e)
qed

theorem chief_drains_witness:
  "let ms = [ProviderCalls example_call_cfg None 0 [zeroPbMsg\<lparr>pbCid := ''UEEE''\<rparr>], CallSends 0, CtlTakes, CtlSends];
     t = the (run_steps (sys_step example_sys_env) ms (sys_start example_chief_state example_srv))
   in \<exists>more t'. run_steps (sys_step example_sys_env) more t = Some t' \<and> concat (map placed_by more) = [] \<and>
    length more \<le> work_left t \<and>
    (let calls = concat (map placed_by ms)
     in packetsDone t' = map snd (enteredMsgs t') \<and>
        (\<forall>i < length calls. map snd (filter (\<lambda>e. fst e = i) (enteredMsgs t')) = calls ! i) \<and>
        queuedMsgs t' = to_fdps (sysSrv t'))"
proof -
  let ?run = "run_steps (sys_step example_sys_env)
      [ProviderCalls example_call_cfg None 0 [zeroPbMsg\<lparr>pbCid := ''UEEE''\<rparr>], CallSends 0, CtlTakes, CtlSends]
      (sys_start example_chief_state example_srv)"
  have r: "?run \<noteq> None \<and> (\<forall>t. ?run = Some t \<longrightarrow> wkTodo t = [] \<and> srvHolds t = [] \<and> \<not> wkEnded t)"
    by (simp add: provider_calls_def Let_def SendMsg_def example_placed call_sends_def service_chan_def sys_start_def
      ctl_takes_def ctl_step_def ctl_sends_def forward_fdps_def packet_capacity_def NewOldiGrpcController_def
      newFmtpGrpcServerImpl_def set_grpc_def)
  then obtain t where t: "?run = Some t" "wkTodo t = []" "srvHolds t = []" "\<not> wkEnded t" by auto
  have "to_fdps example_srv = []" by (simp add: to_fdps_def example_srv_defs)
  from chief_drains [OF t(1) this t(2-4)] show ?thesis unfolding Let_def by (simp only: t(1) option.sel)
qed

end
