(* ===== verification/Chief_Log.thy ===== *)
theory Chief_Log
  imports Log_Pipeline
begin

text \<open>
  The logger of the chief as a whole, \<open>chief/chief_logger/\<close>: the methods of the logger
  interface, which put messages into a channel of 1024, the loop of \<open>Work\<close>, which passes the
  settings of a file on, and the loop of the Redis controller. The steps are interleaved; a
  method waits where its channel is full.
\<close>

section \<open>State\<close>

definition zeroRedisLoggerSettings :: RedisLoggerSettings where
  "zeroRedisLoggerSettings = \<lparr>rsHostname = [], rsPort = 0, DbId = 0, rsUserName = [], rsPassword = [],
     StreamMaxCount = 0, MaxSendCount = 0\<rparr>"

definition NewRedisLogController :: RedisLogController where
  "NewRedisLogController = \<lparr>msgToSend = [], rlSetts = zeroRedisLoggerSettings, successConnect = False,
     rlPanic = False, rlOut = []\<rparr>"

definition NewChiefLogger :: "severity_levels \<Rightarrow> ChiefLogger" where
  "NewChiefLogger lv = \<lparr>minSeverity = SevInfo lv, LogMsgChan = []\<rparr>"

definition SetMinSeverity :: "int \<Rightarrow> ChiefLogger \<Rightarrow> ChiefLogger" where
  "SetMinSeverity sev cl = cl\<lparr>minSeverity := sev\<rparr>"

record chief_log =
  clLogger :: ChiefLogger
  clRedis :: RedisLogController
  clSetts :: "RedisLoggerSettings list"
  clErrs :: "string list"

text \<open>The logger as \<open>main\<close> of the chief sets it up.\<close>

definition new_chief_log :: "severity_levels \<Rightarrow> chief_log" where
  "new_chief_log lv = \<lparr>clLogger = SetMinSeverity (SevDebug lv) (NewChiefLogger lv), clRedis = NewRedisLogController,
     clSetts = [], clErrs = []\<rparr>"

section \<open>Steps\<close>

text \<open>The settings of the file, or those of the code where it cannot be read.\<close>

definition temp_redis_setts :: RedisLoggerSettings where
  "temp_redis_setts = \<lparr>rsHostname = ''192.168.1.24'', rsPort = 6389, DbId = 0, rsUserName = [], rsPassword = [],
     StreamMaxCount = 100000, MaxSendCount = 1000\<rparr>"

definition setts_changed :: "string + RedisLoggerSettings \<Rightarrow> chief_log \<Rightarrow> chief_log" where
  "setts_changed file c =
     (case file of
        Inl errRead \<Rightarrow>
          c\<lparr>clErrs := clErrs c @ [(ru ''Owibka 4teni9 fajla konfiguracij '') @ ''Redis. '' @ (ru ''Owibka: '') @ errRead @ ''.''],
            clSetts := clSetts c @ [temp_redis_setts]\<rparr>
      | Inr setts \<Rightarrow> c\<lparr>clSetts := clSetts c @ [setts]\<rparr>)"

datatype clog_action =
  CPrintf print_level string string string "log_arg list"
| CSettsChanged "string + RedisLoggerSettings"
| CTakeMsg
| CTakeSetts "string option"
| CTick "string option"

fun clog_move :: "severity_levels \<Rightarrow> clog_action \<Rightarrow> chief_log \<Rightarrow> chief_log option" where
  "clog_move lv (CPrintf p ip now rendered a) c =
     (let cl = chief_Printf lv p ip now rendered a (clLogger c)
      in if length (LogMsgChan cl) \<le> 1024 then Some (c\<lparr>clLogger := cl\<rparr>) else None)"
| "clog_move lv (CSettsChanged file) c =
     (if length (clSetts c) < 10 then Some (setts_changed file c) else None)"
| "clog_move lv CTakeMsg c =
     (case LogMsgChan (clLogger c) of
        [] \<Rightarrow> None
      | msg # rest \<Rightarrow> Some (c\<lparr>clLogger := (clLogger c)\<lparr>LogMsgChan := rest\<rparr>, clRedis := redis_new_msg msg (clRedis c)\<rparr>))"
| "clog_move lv (CTakeSetts pingErr) c =
     (case clSetts c of
        [] \<Rightarrow> None
      | setts # rest \<Rightarrow> Some (c\<lparr>clSetts := rest, clRedis := redis_new_setts pingErr setts (clRedis c)\<rparr>))"
| "clog_move lv (CTick errPipe) c = Some (c\<lparr>clRedis := snd (redis_tick errPipe (clRedis c))\<rparr>)"

definition clog_step :: "severity_levels \<Rightarrow> clog_action \<Rightarrow> chief_log \<Rightarrow> chief_log option" where
  "clog_step lv a c = (if rlPanic (clRedis c) then None else clog_move lv a c)"

section \<open>What is logged\<close>

text \<open>The message a call of the logger interface logs, at the severity \<open>main\<close> sets.\<close>

definition logged_msg :: "severity_levels \<Rightarrow> clog_action \<Rightarrow> LogMessage list" where
  "logged_msg lv a =
     (case a of
        CPrintf p ip now rendered args \<Rightarrow>
          LogMsgChan (chief_Printf lv p ip now rendered args \<lparr>minSeverity = SevDebug lv, LogMsgChan = []\<rparr>)
      | _ \<Rightarrow> [])"

definition queue_full :: redis_effect where
  "queue_full = RedisPrint ''!!!!!!!!!!!!!!!!!!Queue FULL''"

lemma Printf_chan:
  "minSeverity cl = m \<Longrightarrow> LogMsgChan (chief_Printf lv p ip now rendered a cl) =
     LogMsgChan cl @ LogMsgChan (chief_Printf lv p ip now rendered a \<lparr>minSeverity = m, LogMsgChan = []\<rparr>)"
  "minSeverity (chief_Printf lv p ip now rendered a cl) = minSeverity cl"
  by (cases p; simp add: chief_Printf_def processNewLogMsg_def Let_def)+

lemma xadds_simps [simp]:
  "xadds [] = []" "xadds (es @ fs) = xadds es @ xadds fs"
  "xadds (e # es) = (case e of XAdd name n txt \<Rightarrow> [txt] | _ \<Rightarrow> []) @ xadds es"
  by (simp_all add: xadds_def)

text \<open>The state between two steps: what was put into the stream, the queue and the channel are
  together what was logged, as long as the queue was never full.\<close>

definition clog_inv :: "severity_levels \<Rightarrow> LogMessage list \<Rightarrow> chief_log \<Rightarrow> bool" where
  "clog_inv lv ms c \<longleftrightarrow> minSeverity (clLogger c) = SevDebug lv \<and>
     (queue_full \<notin> set (rlOut (clRedis c)) \<longrightarrow>
       (\<exists>bs. xadds (rlOut (clRedis c)) = map MarshalToString bs \<and>
          bs @ msgToSend (clRedis c) @ LogMsgChan (clLogger c) = ms))"

lemma tick_out:
  "xadds (rlOut (snd (redis_tick e rc))) = xadds (rlOut rc) @ map MarshalToString (fst (redis_tick e rc))"
  "fst (redis_tick e rc) @ msgToSend (snd (redis_tick e rc)) = msgToSend rc"
  "set (rlOut rc) \<subseteq> set (rlOut (snd (redis_tick e rc)))"
proof -
  have q: "rlOut (rc\<lparr>msgToSend := x\<rparr>) = rlOut rc" for x by simp
  show "xadds (rlOut (snd (redis_tick e rc))) = xadds (rlOut rc) @ map MarshalToString (fst (redis_tick e rc))"
    by (simp add: redis_tick_def Let_def xadds_push q)
  show "fst (redis_tick e rc) @ msgToSend (snd (redis_tick e rc)) = msgToSend rc"
    by (rule redis_queue.take_queue)
  show "set (rlOut rc) \<subseteq> set (rlOut (snd (redis_tick e rc)))"
    by (auto simp: redis_tick_def Let_def pushLogsToStream_def)
qed

text \<open>What a step puts into the stream comes from the front of what was waiting.\<close>

lemma clog_step_adds:
  assumes "clog_step lv a c = Some c'" "minSeverity (clLogger c) = SevDebug lv"
  shows "minSeverity (clLogger c') = SevDebug lv \<and> set (rlOut (clRedis c)) \<subseteq> set (rlOut (clRedis c')) \<and>
    (\<exists>cs. xadds (rlOut (clRedis c')) = xadds (rlOut (clRedis c)) @ map MarshalToString cs \<and>
       ((\<forall>e. a \<noteq> CTick e) \<longrightarrow> cs = []) \<and>
       (queue_full \<notin> set (rlOut (clRedis c')) \<longrightarrow>
          cs @ msgToSend (clRedis c') @ LogMsgChan (clLogger c') =
          msgToSend (clRedis c) @ LogMsgChan (clLogger c) @ logged_msg lv a))"
proof (cases a)
  case (CPrintf p ip now rendered args)
  then show ?thesis using assms
    by (auto simp: clog_step_def logged_msg_def Printf_chan(1) [where cl = "clLogger c" and m = "SevDebug lv"]
        Printf_chan(2) Let_def split: if_splits)
next
  case (CTick e)
  then have "c' = c\<lparr>clRedis := snd (redis_tick e (clRedis c))\<rparr>"
    using assms(1) by (simp add: clog_step_def split: if_splits)
  moreover have "fst (redis_tick e (clRedis c)) @ msgToSend (snd (redis_tick e (clRedis c))) @ ms = msgToSend (clRedis c) @ ms"
    for ms using tick_out(2) [of e "clRedis c"] by (metis append_assoc)
  ultimately show ?thesis
    using assms(2) tick_out(1) [of e "clRedis c"] tick_out(3) [of "clRedis c" e] CTick
    by (auto simp: logged_msg_def intro!: exI [of _ "fst (redis_tick e (clRedis c))"])
qed (use assms in \<open>auto simp: clog_step_def logged_msg_def setts_changed_def redis_new_msg_def
       redis_new_setts_def redis_connectToServer_def queue_full_def
       split: if_splits list.splits sum.splits option.splits\<close>)

lemma clog_inv_step:
  assumes "clog_inv lv ms c" "clog_step lv a c = Some c'"
  shows "clog_inv lv (ms @ logged_msg lv a) c'"
proof -
  have sev: "minSeverity (clLogger c) = SevDebug lv" using assms(1) by (simp add: clog_inv_def)
  obtain cs where cs: "xadds (rlOut (clRedis c')) = xadds (rlOut (clRedis c)) @ map MarshalToString cs"
    "queue_full \<notin> set (rlOut (clRedis c')) \<Longrightarrow> queue_full \<notin> set (rlOut (clRedis c))"
    "queue_full \<notin> set (rlOut (clRedis c')) \<Longrightarrow> cs @ msgToSend (clRedis c') @ LogMsgChan (clLogger c') =
       msgToSend (clRedis c) @ LogMsgChan (clLogger c) @ logged_msg lv a"
    using clog_step_adds [OF assms(2) sev] by blast
  have "\<exists>bs. xadds (rlOut (clRedis c')) = map MarshalToString bs \<and>
      bs @ msgToSend (clRedis c') @ LogMsgChan (clLogger c') = ms @ logged_msg lv a"
    if q: "queue_full \<notin> set (rlOut (clRedis c'))"
  proof -
    obtain bs where "xadds (rlOut (clRedis c)) = map MarshalToString bs"
      "bs @ msgToSend (clRedis c) @ LogMsgChan (clLogger c) = ms"
      using assms(1) cs(2) [OF q] by (auto simp: clog_inv_def)
    then show ?thesis using cs(1) cs(3) [OF q] by (intro exI [of _ "bs @ cs"]) auto
  qed
  then show ?thesis using clog_step_adds [OF assms(2) sev] by (simp add: clog_inv_def)
qed

lemma clog_inv_run:
  "run_steps (clog_step lv) as c = Some c' \<Longrightarrow> clog_inv lv ms c \<Longrightarrow>
   clog_inv lv (ms @ concat (map (logged_msg lv) as)) c'"
proof (induction "as" arbitrary: c ms)
  case (Cons a "as")
  then obtain d where d: "clog_step lv a c = Some d" "run_steps (clog_step lv) as d = Some c'"
    by (auto split: option.splits)
  show ?case using Cons.IH [OF d(2) clog_inv_step [OF Cons.prems(2) d(1)]] by simp
qed simp

section \<open>Properties\<close>

text \<open>Every message the chief logs, at any severity above debugging, goes to the Redis
  stream once and in the order of the calls: the messages put into the stream, the queue of the
  controller and the channel in front of it are together the messages logged, unless the queue was full.\<close>

theorem chief_log_chain:
  assumes "run_steps (clog_step lv) as (new_chief_log lv) = Some c"
    and "queue_full \<notin> set (rlOut (clRedis c))"
  shows "\<exists>bs. xadds (rlOut (clRedis c)) = map MarshalToString bs \<and>
    bs @ msgToSend (clRedis c) @ LogMsgChan (clLogger c) = concat (map (logged_msg lv) as)"
proof -
  have "clog_inv lv [] (new_chief_log lv)"
    by (simp add: clog_inv_def new_chief_log_def SetMinSeverity_def NewChiefLogger_def NewRedisLogController_def)
  from clog_inv_run [OF assms(1) this] show ?thesis using assms(2) by (simp add: clog_inv_def)
qed

definition example_levels :: severity_levels where
  "example_levels = \<lparr>SevDebug = 0, SevInfo = 1, SevWarning = 2, SevError = 3\<rparr>"

definition example_log_run :: "clog_action list" where
  "example_log_run = [CPrintf PrintInfo ''10.0.0.1'' ''t1'' ''started'' [], CSettsChanged (Inl ''no file''),
     CTakeSetts None, CTakeMsg, CPrintf PrintErr ''10.0.0.1'' ''t2'' ''failed'' [], CTick None]"

lemma example_log_runs:
  "\<exists>c. run_steps (clog_step example_levels) example_log_run (new_chief_log example_levels) = Some c \<and>
    queue_full \<notin> set (rlOut (clRedis c)) \<and> length (LogMsgChan (clLogger c)) = 1"
  by (simp add: example_log_run_def example_levels_def new_chief_log_def SetMinSeverity_def NewChiefLogger_def
      NewRedisLogController_def clog_step_def chief_Printf_def processNewLogMsg_def setts_changed_def
      redis_new_msg_def redis_new_setts_def redis_connectToServer_def redis_tick_def pushLogsToStream_def
      temp_redis_setts_def zeroRedisLoggerSettings_def queue_full_def Let_def)

theorem chief_log_chain_witness:
  "\<exists>c bs. run_steps (clog_step example_levels) example_log_run (new_chief_log example_levels) = Some c \<and>
    xadds (rlOut (clRedis c)) = map MarshalToString bs \<and>
    bs @ msgToSend (clRedis c) @ LogMsgChan (clLogger c) = concat (map (logged_msg example_levels) example_log_run) \<and>
    length (LogMsgChan (clLogger c)) = 1"
proof -
  obtain c where c: "run_steps (clog_step example_levels) example_log_run (new_chief_log example_levels) = Some c"
    "queue_full \<notin> set (rlOut (clRedis c))" "length (LogMsgChan (clLogger c)) = 1"
    using example_log_runs by blast
  show ?thesis using chief_log_chain [OF c(1,2)] c by blast
qed

end
