(* ===== verification/Journal_System.thy ===== *)
theory Journal_System
  imports Chief_Log Logger_Main
begin

text \<open>
  The journal from end to end: the logger of the chief, the Redis stream and the logger
  program, as processes that run at the same time. The stream is what Redis documents: an
  \<open>XADD\<close> appends an entry under an identifier of its own and may trim the oldest entries,
  \<open>XREAD\<close> from the beginning returns the oldest entries up to a count, \<open>XDEL\<close> removes the
  entries with the identifiers given. The \<open>n\<close>-th entry has the identifier \<open>sid n\<close>.
\<close>

record 'q journal =
  jChief :: chief_log
  jStream :: "stream_entry list"
  jAdded :: nat
  jLogger :: "'q logger_sys"

text \<open>A step of the chief's logger comes with what the stream does at a tick: how many entries
  it takes of a pipeline that fails, and how many old ones it trims. A request of the reader
  reads the stream after the deletion; a call that fails has done nothing.\<close>

datatype journal_move =
  JChief clog_action nat nat
| JReads "string option" "string option"
| JLogger logger_action

definition add_entries :: "(nat \<Rightarrow> string) \<Rightarrow> string list \<Rightarrow> 'q journal \<Rightarrow> 'q journal" where
  "add_entries sid txts j =
     j\<lparr>jStream := jStream j @ entries (map sid [jAdded j..<jAdded j + length txts]) txts,
       jAdded := jAdded j + length txts\<rparr>"

definition without_ids :: "string list \<Rightarrow> stream_entry list \<Rightarrow> stream_entry list" where
  "without_ids ids es = filter (\<lambda>e. entryID e \<notin> set ids) es"

definition xread :: "int \<Rightarrow> stream_entry list \<Rightarrow> stream_entry list" where
  "xread k es = (if 0 < k then take (nat k) es else es)"

definition xdel :: "string option \<Rightarrow> RedisCntrl \<Rightarrow> stream_entry list \<Rightarrow> stream_entry list" where
  "xdel delErr r es = (if rcConnected r \<and> delErr = None then without_ids (prevReadIds r) es else es)"

fun journal_step ::
  "'q ora_env \<Rightarrow> severity_levels \<Rightarrow> (nat \<Rightarrow> string) \<Rightarrow> journal_move \<Rightarrow> 'q journal \<Rightarrow> 'q journal option" where
  "journal_step env lv sid (JChief a taken trimmed) j =
     (case clog_step lv a (jChief j) of
        None \<Rightarrow> None
      | Some c \<Rightarrow>
          (let new = drop (length (xadds (rlOut (clRedis (jChief j))))) (xadds (rlOut (clRedis c)));
               new = (if a = CTick None then new else take taken new);
               j = add_entries sid new (j\<lparr>jChief := c\<rparr>)
           in Some (j\<lparr>jStream := drop trimmed (jStream j)\<rparr>)))"
| "journal_step env lv sid (JReads delErr readErr) j =
     (let r = lgReader (jLogger j); left = xdel delErr r (jStream j);
          vals = (if readErr = None then xread (MaxReadCount (rdSetts r)) left else [])
      in map_option (\<lambda>l. j\<lparr>jLogger := l, jStream := left\<rparr>)
           (logger_step env (ReaderRequest delErr vals readErr) (jLogger j)))"
| "journal_step env lv sid (JLogger a) j =
     (case a of
        ReaderRequest x y z \<Rightarrow> None
      | _ \<Rightarrow> map_option (\<lambda>l. j\<lparr>jLogger := l\<rparr>) (logger_step env a (jLogger j)))"

definition journal_start :: "'q ora_env \<Rightarrow> severity_levels \<Rightarrow> LoggerState \<Rightarrow> 'q journal" where
  "journal_start env lv s =
     \<lparr>jChief = new_chief_log lv, jStream = [], jAdded = 0, jLogger = new_logger env s\<rparr>"

text \<open>No call to Redis that would lose or repeat something: no pipeline fails, nothing is
  trimmed, no deletion fails.\<close>

definition lossless :: "journal_move \<Rightarrow> bool" where
  "lossless m =
     (case m of
        JChief a taken trimmed \<Rightarrow> (\<forall>e. a \<noteq> CTick (Some e)) \<and> trimmed = 0
      | JReads delErr readErr \<Rightarrow> delErr = None
      | JLogger a \<Rightarrow> True)"

definition journal_logged :: "severity_levels \<Rightarrow> journal_move \<Rightarrow> LogMessage list" where
  "journal_logged lv m = (case m of JChief a taken trimmed \<Rightarrow> logged_msg lv a | _ \<Rightarrow> [])"

section \<open>The stream\<close>

definition stream_part :: "(nat \<Rightarrow> string) \<Rightarrow> LogMessage list \<Rightarrow> nat \<Rightarrow> stream_entry list" where
  "stream_part sid bs d = map (\<lambda>i. \<lparr>entryID = sid i, entryMsg = Some (MarshalToString (bs ! i))\<rparr>) [d..<length bs]"

lemma stream_part_append:
  assumes "d \<le> length bs"
  shows "stream_part sid (bs @ cs) d =
    stream_part sid bs d @ entries (map sid [length bs..<length bs + length cs]) (map MarshalToString cs)"
proof -
  have "map (\<lambda>i. \<lparr>entryID = sid i, entryMsg = Some (MarshalToString ((bs @ cs) ! i))\<rparr>) [length bs..<length bs + length cs] =
      entries (map sid [length bs..<length bs + length cs]) (map MarshalToString cs)"
    by (rule nth_equalityI) (simp_all add: entries_def)
  then show ?thesis
    using assms by (simp add: stream_part_def upt_add_eq_append [of d "length bs"] nth_append)
qed

lemma without_stream:
  assumes "inj sid" "d \<le> r" "r \<le> length bs"
  shows "without_ids (map sid [d..<r]) (stream_part sid bs d) = stream_part sid bs r"
proof -
  have "[d..<length bs] = [d..<r] @ [r..<length bs]"
    using assms(2,3) by (metis le_add_diff_inverse upt_add_eq_append)
  then show ?thesis
    using assms(1) by (auto simp: without_ids_def stream_part_def inj_eq filter_empty_conv filter_id_conv)
qed

lemma xread_stream:
  "\<exists>r'. xread n (stream_part sid bs r) = map (\<lambda>i. \<lparr>entryID = sid i, entryMsg = Some (MarshalToString (bs ! i))\<rparr>) [r..<r'] \<and>
     (r \<le> length bs \<longrightarrow> r \<le> r' \<and> r' \<le> length bs)"
proof (cases "0 < n \<and> r + nat n \<le> length bs")
  case True
  then show ?thesis by (intro exI [of _ "r + nat n"]) (simp add: xread_def stream_part_def take_map take_upt)
next
  case False
  then show ?thesis by (intro exI [of _ "length bs"]) (auto simp: xread_def stream_part_def take_map)
qed

lemma parsed_part:
  assumes "r \<le> r'" "r' \<le> length bs" "\<forall>m \<in> set bs. id_in_range m"
  shows "parsed_entries (map (\<lambda>i. \<lparr>entryID = sid i, entryMsg = Some (MarshalToString (bs ! i))\<rparr>) [r..<r']) =
    filter comma_free (drop r (take r' bs))"
proof -
  let ?ims = "map (\<lambda>i. (sid i, bs ! i)) [r..<r']"
  have "map (\<lambda>i. \<lparr>entryID = sid i, entryMsg = Some (MarshalToString (bs ! i))\<rparr>) [r..<r'] = stream_of ?ims"
    by (simp add: stream_of_def)
  moreover have "map snd ?ims = drop r (take r' bs)"
    using assms(1,2) by (intro nth_equalityI) simp_all
  moreover have "\<forall>m \<in> snd ` set ?ims. id_in_range m" using assms by auto
  ultimately show ?thesis by (simp add: parsed_stream)
qed

section \<open>The invariant\<close>

text \<open>Of the messages put into the stream the first \<open>r\<close> have been read, and the stream holds those
  from \<open>d\<close> on: what has been read in the last request is still to be deleted.\<close>

definition stream_inv :: "(nat \<Rightarrow> string) \<Rightarrow> LogMessage list \<Rightarrow> nat \<Rightarrow> nat \<Rightarrow> 'q journal \<Rightarrow> bool" where
  "stream_inv sid bs d r j \<longleftrightarrow>
     xadds (rlOut (clRedis (jChief j))) = map MarshalToString bs \<and> jAdded j = length bs \<and>
     d \<le> r \<and> r \<le> length bs \<and> jStream j = stream_part sid bs d \<and>
     prevReadIds (lgReader (jLogger j)) = map sid [d..<r] \<and>
     sent_msgs (lgReader (jLogger j)) = filter comma_free (take r bs)"

lemma request_reads:
  assumes "inj sid" "stream_inv sid bs d r j" "\<forall>m \<in> set bs. id_in_range m"
    and "left = xdel None (lgReader (jLogger j)) (jStream j)"
    and "vals = (if readErr = None then xread n left else [])"
    and "rd = request_msgs None vals readErr (lgReader (jLogger j))"
  shows "\<exists>d' r'. d' \<le> r' \<and> r' \<le> length bs \<and> left = stream_part sid bs d' \<and> prevReadIds rd = map sid [d'..<r'] \<and>
    sent_msgs rd = filter comma_free (take r' bs)"
proof (cases "rcConnected (lgReader (jLogger j))")
  case False
  then have "left = jStream j" "prevReadIds rd = prevReadIds (lgReader (jLogger j))"
    "sent_msgs rd = sent_msgs (lgReader (jLogger j))"
    using assms(4,6)
    by (auto simp: xdel_def request_msgs_def delLogsFromStream_def readLogsFromStream_def Let_def)
  then show ?thesis using assms(2) by (intro exI [of _ d] exI [of _ r]) (simp add: stream_inv_def)
next
  case True
  have s: "sent_msgs (c\<lparr>prevReadIds := x\<rparr>) = sent_msgs c" for c :: RedisCntrl and x by (simp add: sent_msgs_def)
  have left: "left = stream_part sid bs r"
    using assms(1,2,4) True without_stream [of sid d r bs] by (simp add: xdel_def stream_inv_def)
  have r: "r \<le> length bs" using assms(2) by (simp add: stream_inv_def)
  obtain r' where r': "vals = map (\<lambda>i. \<lparr>entryID = sid i, entryMsg = Some (MarshalToString (bs ! i))\<rparr>) [r..<r']"
    "r \<le> r'" "r' \<le> length bs" "readErr \<noteq> None \<longrightarrow> r' = r"
  proof (cases readErr)
    case None
    then show ?thesis using xread_stream [of n sid bs r] r that assms(5) left by auto
  next
    case (Some e)
    then show ?thesis using that [of r] r assms(5) by simp
  qed
  have p: "parsed_entries vals = filter comma_free (drop r (take r' bs))"
    unfolding r'(1) by (rule parsed_part [OF r'(2,3) assms(3)])
  have ids: "prevReadIds rd = map sid [r..<r']"
    using True r'(1) assms(6)
    by (auto simp: request_msgs_def delLogsFromStream_def readLogsFromStream_def Let_def comp_def split: option.split)
  have "sent_msgs rd = sent_msgs (lgReader (jLogger j)) @ filter comma_free (drop r (take r' bs))"
  proof (cases readErr)
    case None
    then show ?thesis
      using True p unfolding assms(6)
      by (simp add: request_msgs_def delLogsFromStream_def readLogsFromStream_def Let_def s)
  next
    case (Some e)
    then show ?thesis
      using True r'(4) assms(6) by (auto simp: request_msgs_def delLogsFromStream_def readLogsFromStream_def Let_def s)
  qed
  also have "\<dots> = filter comma_free (take r bs @ drop r (take r' bs))" using assms(2) by (simp add: stream_inv_def)
  also have "take r bs @ drop r (take r' bs) = take r' bs"
    using r'(2) by (metis append_take_drop_id min.absorb1 take_take)
  finally show ?thesis using left ids r'(2,3) by blast
qed

text \<open>The other steps of the logger leave alone what the reader has read.\<close>

definition reader_view :: "'q logger_sys \<Rightarrow> string list \<times> LogMessage list" where
  "reader_view l = (prevReadIds (lgReader l), sent_msgs (lgReader l))"

lemma new_setts_view:
  "prevReadIds (reader_new_setts p st c) = prevReadIds c" "sent_msgs (reader_new_setts p st c) = sent_msgs c"
proof -
  have "sent_msgs (c\<lparr>rdSetts := st\<rparr>) = sent_msgs c" "sent_msgs (c\<lparr>rdSetts := st, rcConnected := b\<rparr>) = sent_msgs c" for b
    by (simp_all add: sent_msgs_def)
  then show "prevReadIds (reader_new_setts p st c) = prevReadIds c" "sent_msgs (reader_new_setts p st c) = sent_msgs c"
    by (simp_all add: reader_new_setts_def reader_connectToServer_def Let_def split: option.split)
qed

lemma with_reader_lgReader [simp]: "lgReader (with_reader r l) = r"
  by (simp add: with_reader_def)

lemma logger_step_request:
  "logger_step env (ReaderRequest delErr vals readErr) l = Some l' \<Longrightarrow>
   lgReader l' = request_msgs delErr vals readErr (lgReader l)"
  by (auto simp: logger_step_def split: if_splits)

lemma logger_step_view:
  assumes "logger_step env a l = Some l'" "\<forall>x y z. a \<noteq> ReaderRequest x y z"
  shows "reader_view l' = reader_view l"
proof -
  have "logger_move env a l = Some l'" using assms(1) by (auto simp: logger_step_def split: option.splits if_splits)
  then show ?thesis
    using assms(2)
    by (cases a)
      (auto simp: reader_view_def new_setts_view split: if_splits list.splits option.splits prod.splits
        ora_action.splits ora_input.splits simp del: ora_step.simps metrics_step.simps)
qed

definition journal_inv ::
  "severity_levels \<Rightarrow> (nat \<Rightarrow> string) \<Rightarrow> ('q \<Rightarrow> queueItem multiset) \<Rightarrow> LogMessage list \<Rightarrow> 'q journal \<Rightarrow> bool" where
  "journal_inv lv sid content ms j \<longleftrightarrow>
     logger_inv content (jLogger j) \<and> minSeverity (clLogger (jChief j)) = SevDebug lv \<and>
     (queue_full \<notin> set (rlOut (clRedis (jChief j))) \<and> (\<forall>m \<in> set ms. id_in_range m) \<longrightarrow>
       (\<exists>bs d r. stream_inv sid bs d r j \<and>
          bs @ msgToSend (clRedis (jChief j)) @ LogMsgChan (clLogger (jChief j)) = ms))"

lemma journal_inv_chief:
  assumes "journal_step env lv sid (JChief a taken trimmed) j = Some j'" "lossless (JChief a taken trimmed)"
    and "journal_inv lv sid content ms j"
  shows "journal_inv lv sid content (ms @ logged_msg lv a) j'"
proof -
  obtain c where c: "clog_step lv a (jChief j) = Some c" using assms(1) by (auto split: option.splits)
  have sev: "minSeverity (clLogger (jChief j)) = SevDebug lv" using assms(3) by (simp add: journal_inv_def)
  obtain cs where cs: "minSeverity (clLogger c) = SevDebug lv"
    "set (rlOut (clRedis (jChief j))) \<subseteq> set (rlOut (clRedis c))"
    "xadds (rlOut (clRedis c)) = xadds (rlOut (clRedis (jChief j))) @ map MarshalToString cs"
    "(\<forall>e. a \<noteq> CTick e) \<longrightarrow> cs = []"
    "queue_full \<notin> set (rlOut (clRedis c)) \<longrightarrow> cs @ msgToSend (clRedis c) @ LogMsgChan (clLogger c) =
       msgToSend (clRedis (jChief j)) @ LogMsgChan (clLogger (jChief j)) @ logged_msg lv a"
    using clog_step_adds [OF c sev] by blast
  have all: "(if a = CTick None then map MarshalToString cs else take taken (map MarshalToString cs)) =
      map MarshalToString cs"
    using assms(2) cs(4) by (cases "\<exists>e. a = CTick e") (auto simp: lossless_def)
  have j': "j' = add_entries sid (map MarshalToString cs) (j\<lparr>jChief := c\<rparr>)"
    using assms(1,2) c cs(3) all by (simp add: lossless_def Let_def)
  have "\<exists>bs d r. stream_inv sid bs d r j' \<and>
      bs @ msgToSend (clRedis (jChief j')) @ LogMsgChan (clLogger (jChief j')) = ms @ logged_msg lv a"
    if q: "queue_full \<notin> set (rlOut (clRedis (jChief j')))" "\<forall>m \<in> set (ms @ logged_msg lv a). id_in_range m"
  proof -
    have q': "queue_full \<notin> set (rlOut (clRedis c))" using q(1) by (simp add: j' add_entries_def)
    then have "queue_full \<notin> set (rlOut (clRedis (jChief j)))" using cs(2) by blast
    then obtain bs d r where b: "stream_inv sid bs d r j"
      "bs @ msgToSend (clRedis (jChief j)) @ LogMsgChan (clLogger (jChief j)) = ms"
      using assms(3) q(2) unfolding journal_inv_def by auto
    have "stream_inv sid (bs @ cs) d r j'"
      using b(1) cs(3) stream_part_append [of d bs sid cs]
      by (simp add: stream_inv_def j' add_entries_def)
    moreover have "(bs @ cs) @ msgToSend (clRedis c) @ LogMsgChan (clLogger c) = ms @ logged_msg lv a"
      using cs(5) q' b(2) by (metis append_assoc)
    ultimately show ?thesis
      by - (rule exI [of _ "bs @ cs"], rule exI [of _ d], rule exI [of _ r],
        simp add: j' add_entries_def)
  qed
  then show ?thesis using assms(3) cs(1) by (simp add: journal_inv_def j' add_entries_def)
qed

lemma journal_inv_reads:
  assumes L: "pq_lawful (prioQueue env) content" and "inj sid"
    and "journal_step env lv sid (JReads delErr readErr) j = Some j'" "lossless (JReads delErr readErr)"
    and I: "journal_inv lv sid content ms j"
  shows "journal_inv lv sid content ms j'"
proof -
  define left where "left = xdel None (lgReader (jLogger j)) (jStream j)"
  define vals where "vals = (if readErr = None then xread (MaxReadCount (rdSetts (lgReader (jLogger j)))) left else [])"
  have e: "delErr = None" using assms(4) by (simp add: lossless_def)
  have "map_option (\<lambda>l. j\<lparr>jLogger := l, jStream := left\<rparr>)
      (logger_step env (ReaderRequest None vals readErr) (jLogger j)) = Some j'"
    using assms(3) unfolding e vals_def left_def by (simp add: Let_def split del: if_split)
  then obtain l where l: "logger_step env (ReaderRequest None vals readErr) (jLogger j) = Some l"
    "j' = j\<lparr>jLogger := l, jStream := left\<rparr>" by auto
  have "logger_inv content l" using logger_inv_step [OF L l(1)] I by (simp add: journal_inv_def)
  moreover have "\<exists>bs d r. stream_inv sid bs d r j' \<and>
      bs @ msgToSend (clRedis (jChief j')) @ LogMsgChan (clLogger (jChief j')) = ms"
    if q: "queue_full \<notin> set (rlOut (clRedis (jChief j')))" "\<forall>m \<in> set ms. id_in_range m"
  proof -
    obtain bs d r where b: "stream_inv sid bs d r j"
      "bs @ msgToSend (clRedis (jChief j)) @ LogMsgChan (clLogger (jChief j)) = ms"
      using I q unfolding journal_inv_def by (auto simp: l(2))
    have "\<forall>m \<in> set bs. id_in_range m" using q(2) b(2) by auto
    from request_reads [OF assms(2) b(1) this left_def vals_def refl]
    obtain d' r' where "d' \<le> r'" "r' \<le> length bs" "left = stream_part sid bs d'"
      "prevReadIds (request_msgs None vals readErr (lgReader (jLogger j))) = map sid [d'..<r']"
      "sent_msgs (request_msgs None vals readErr (lgReader (jLogger j))) = filter comma_free (take r' bs)"
      by blast
    then have "stream_inv sid bs d' r' j'"
      using b(1) by (simp add: stream_inv_def l(2) logger_step_request [OF l(1)])
    then show ?thesis using b(2) by (auto simp: l(2))
  qed
  ultimately show ?thesis using I by (simp add: journal_inv_def l(2))
qed

lemma journal_inv_logger:
  assumes L: "pq_lawful (prioQueue env) content"
    and "journal_step env lv sid (JLogger a) j = Some j'" and I: "journal_inv lv sid content ms j"
  shows "journal_inv lv sid content ms j'"
proof -
  obtain l where l: "logger_step env a (jLogger j) = Some l" "j' = j\<lparr>jLogger := l\<rparr>" "\<forall>x y z. a \<noteq> ReaderRequest x y z"
    using assms(2) by (auto split: logger_action.splits)
  have "reader_view l = reader_view (jLogger j)" by (rule logger_step_view [OF l(1,3)])
  then have "stream_inv sid bs d r j' = stream_inv sid bs d r j" for bs d r
    by (simp add: stream_inv_def l(2) reader_view_def)
  moreover have "logger_inv content l" using logger_inv_step [OF L l(1)] I by (simp add: journal_inv_def)
  ultimately show ?thesis using I by (simp add: journal_inv_def l(2))
qed

lemma journal_inv_run:
  assumes L: "pq_lawful (prioQueue env) content" and S: "inj sid"
  shows "run_steps (journal_step env lv sid) as j = Some j' \<Longrightarrow> list_all lossless as \<Longrightarrow>
    journal_inv lv sid content ms j \<Longrightarrow>
    journal_inv lv sid content (ms @ concat (map (journal_logged lv) as)) j'"
proof (induction "as" arbitrary: j ms)
  case (Cons a "as")
  then obtain k where k: "journal_step env lv sid a j = Some k" "run_steps (journal_step env lv sid) as k = Some j'"
    by (auto split: option.splits)
  have "journal_inv lv sid content (ms @ journal_logged lv a) k"
    using k(1) Cons.prems(2,3) journal_inv_chief journal_inv_reads [OF L S] journal_inv_logger [OF L]
    by (cases a) (auto simp: journal_logged_def simp del: journal_step.simps)
  from Cons.IH [OF k(2) _ this] show ?case using Cons.prems(2) by simp
qed simp

section \<open>Properties\<close>


text \<open>Each of the two programs can run as it does alone.\<close>

lemma chief_alone:
  "run_steps (clog_step lv) as (jChief j) = Some c \<Longrightarrow>
   \<exists>es n. run_steps (journal_step env lv sid) (map (\<lambda>a. JChief a 0 0) as) j =
     Some (j\<lparr>jChief := c, jStream := es, jAdded := n\<rparr>)"
proof (induction "as" arbitrary: j)
  case (Cons a "as")
  then obtain d where d: "clog_step lv a (jChief j) = Some d" "run_steps (clog_step lv) as d = Some c"
    by (auto split: option.splits)
  obtain es n where k: "journal_step env lv sid (JChief a 0 0) j = Some (j\<lparr>jChief := d, jStream := es, jAdded := n\<rparr>)"
    using d(1) by (simp add: add_entries_def Let_def)
  show ?case using Cons.IH [of "j\<lparr>jChief := d, jStream := es, jAdded := n\<rparr>"] d(2) k by (auto simp del: journal_step.simps)
next
  case Nil
  then show ?case by (intro exI [of _ "jStream j"] exI [of _ "jAdded j"]) simp
qed

lemma logger_alone:
  "run_steps (logger_step env) as (jLogger j) = Some l \<Longrightarrow> \<forall>x y z. ReaderRequest x y z \<notin> set as \<Longrightarrow>
   run_steps (journal_step env lv sid) (map JLogger as) j = Some (j\<lparr>jLogger := l\<rparr>)"
proof (induction "as" arbitrary: j)
  case (Cons a "as")
  then obtain k where k: "logger_step env a (jLogger j) = Some k" "run_steps (logger_step env) as k = Some l"
    by (auto split: option.splits)
  moreover have "journal_step env lv sid (JLogger a) j = Some (j\<lparr>jLogger := k\<rparr>)"
    using k(1) Cons.prems(2) by (cases a) auto
  ultimately show ?case using Cons.IH [of "j\<lparr>jLogger := k\<rparr>"] Cons.prems(2) by (simp del: journal_step.simps)
qed simp

text \<open>A run: a message is logged and put into the stream, the logger connects and reads it.\<close>

definition example_sid :: "nat \<Rightarrow> string" where
  "example_sid n = Itoa (int n)"

lemma example_sid_inj: "inj example_sid"
  by (rule injI) (use Itoa_inj in \<open>force simp: example_sid_def\<close>)

definition example_logger_part :: "logger_action list" where
  "example_logger_part = [SettsChanged example_logger_cfg, ReaderSetts None, OraSetts None None,
     OraOther OraOp, OraOther OraOp, ForwardRequest]"

lemma example_logger_ready:
  "\<exists>l. run_steps (logger_step example_ora_env) example_logger_part (new_logger example_ora_env zeroLoggerState) = Some l \<and>
    0 < redisRequests l \<and> has_room l \<and> length (sendMsgChan l) < 10 \<and> length (redisMetricsChan l) < 10"
  by (simp add: example_logger_part_def logger_step_def new_logger_def NewRedisCntrl_def example_logger_cfg_def
      logger_setDefault_def zeroLoggerState_def example_ora_env_def list_pq_def Run_start_def NewOraController_def
      zeroOraSettings_def zeroRedisSettings_def Let_def ora_emit_def rc_emit_def checkQueryQueue_def
      setts_equal_def connectToDb_def queue_empty_def next_log_query_def with_ora_def with_reader_def has_room_def
      ora_settings_def redis_settings_def reader_new_setts_def reader_connectToServer_def)

definition sends_of :: "reader_effect list \<Rightarrow> LogMessage list list" where
  "sends_of es = concat (map (\<lambda>e. case e of SendMsgs ms \<Rightarrow> [ms] | _ \<Rightarrow> []) es)"

definition metrics_of :: "reader_effect list \<Rightarrow> int list" where
  "metrics_of es = concat (map (\<lambda>e. case e of ReaderMetric n \<Rightarrow> [n] | _ \<Rightarrow> []) es)"

lemma request_out:
  "\<exists>es. rcOut (request_msgs d v e c) = rcOut c @ es \<and> length (sends_of es) \<le> 1 \<and> length (metrics_of es) \<le> 1"
  by (auto simp: request_msgs_def readLogsFromStream_def delLogsFromStream_def rc_emit_def Let_def sends_of_def
      metrics_of_def split: option.split)

lemma sends_room:
  "sendMsgChan (fold reader_sends es l) = sendMsgChan l @ sends_of es"
  "redisMetricsChan (fold reader_sends es l) = redisMetricsChan l @ metrics_of es"
  "oraRequests (fold reader_sends es l) = oraRequests l" "redisRequests (fold reader_sends es l) = redisRequests l"
  "receiveMsgChan (fold reader_sends es l) = receiveMsgChan l" "oraSettsChan (fold reader_sends es l) = oraSettsChan l"
  "redisSettsChan (fold reader_sends es l) = redisSettsChan l" "oraMetricsChan (fold reader_sends es l) = oraMetricsChan l"
proof (induction es arbitrary: l)
  case (Cons e es)
  { case 1 show ?case using Cons by (cases e) (simp_all add: sends_of_def) }
  { case 2 show ?case using Cons by (cases e) (simp_all add: metrics_of_def) }
  { case 3 show ?case using Cons by (cases e) simp_all }
  { case 4 show ?case using Cons by (cases e) simp_all }
  { case 5 show ?case using Cons by (cases e) simp_all }
  { case 6 show ?case using Cons by (cases e) simp_all }
  { case 7 show ?case using Cons by (cases e) simp_all }
  { case 8 show ?case using Cons by (cases e) simp_all }
qed (simp_all add: sends_of_def metrics_of_def)

lemma request_possible:
  assumes "0 < redisRequests l" "has_room l" "length (sendMsgChan l) < 10" "length (redisMetricsChan l) < 10"
  shows "logger_step env (ReaderRequest d v e) l \<noteq> None"
proof -
  let ?l = "l\<lparr>redisRequests := redisRequests l - 1\<rparr>" and ?r = "request_msgs d v e (lgReader l)"
  obtain es where "rcOut ?r = rcOut (lgReader l) @ es" "length (sends_of es) \<le> 1" "length (metrics_of es) \<le> 1"
    using request_out by blast
  then have "has_room (with_reader ?r ?l)"
    using assms by (simp add: has_room_def with_reader_def sends_room sends_of_def le_diff_conv trans_le_add1)
  then show ?thesis using assms(1) by (simp add: logger_step_def)
qed

definition example_journal_run :: "journal_move list" where
  "example_journal_run = map (\<lambda>a. JChief a 0 0) example_log_run @ map JLogger example_logger_part @ [JReads None None]"

lemma example_journal_steps:
  "\<exists>j. run_steps (journal_step example_ora_env example_levels example_sid) example_journal_run
      (journal_start example_ora_env example_levels zeroLoggerState) = Some j \<and>
    queue_full \<notin> set (rlOut (clRedis (jChief j)))"
proof -
  let ?s = "journal_start example_ora_env example_levels zeroLoggerState"
  obtain c where c: "run_steps (clog_step example_levels) example_log_run (jChief ?s) = Some c"
    "queue_full \<notin> set (rlOut (clRedis c))"
    using example_log_runs by (auto simp: journal_start_def)
  obtain es n where 1: "run_steps (journal_step example_ora_env example_levels example_sid)
      (map (\<lambda>a. JChief a 0 0) example_log_run) ?s = Some (?s\<lparr>jChief := c, jStream := es, jAdded := n\<rparr>)" (is "_ = Some ?j")
    using chief_alone [OF c(1)] by blast
  have "jLogger ?j = new_logger example_ora_env zeroLoggerState" by (simp add: journal_start_def)
  then obtain l where l: "run_steps (logger_step example_ora_env) example_logger_part (jLogger ?j) = Some l"
    "0 < redisRequests l" "has_room l" "length (sendMsgChan l) < 10" "length (redisMetricsChan l) < 10"
    using example_logger_ready by metis
  have 2: "run_steps (journal_step example_ora_env example_levels example_sid) (map JLogger example_logger_part) ?j =
      Some (?j\<lparr>jLogger := l\<rparr>)" (is "_ = Some ?k")
    by (rule logger_alone [OF l(1)]) (simp add: example_logger_part_def)
  obtain j where 3: "journal_step example_ora_env example_levels example_sid (JReads None None) ?k = Some j"
    "jChief j = c"
    using request_possible [OF l(2-5)] by (fastforce simp: Let_def)
  have "run_steps (journal_step example_ora_env example_levels example_sid) example_journal_run ?s = Some j"
    using 1 2 3(1) by (simp add: example_journal_run_def run_steps_append del: journal_step.simps)
  then show ?thesis using c(2) 3(2) by blast
qed


end
