(* ===== verification/Controller_Outputs.thy ===== *)
theory Controller_Outputs
  imports Controller_Delivery
begin

text \<open>
  What one iteration of the controller adds to what it has put out. The handlers of the state
  controller build on a few things: they send one of the packets of the protocol, put something
  else out, and set a field. A relation between the state before and after that these keep is
  kept by every handler, and by every iteration that is not for a message of the chief.
\<close>

section \<open>A relation the handlers keep\<close>

definition controls :: "StateController \<Rightarrow> FmtpMessage set" where
  "controls c = {ownIdentificationMsg c, AcceptMessage, RejectMessage, StartupMessage, ShutdownMessage, HeartbeatMessage}"

text \<open>The packets of the protocol, with the event after each.\<close>

definition control_packets :: "StateController \<Rightarrow> (FmtpMessage \<times> FmtpEvent) set" where
  "control_packets c =
     {(ownIdentificationMsg c, NoneEvent), (ownIdentificationMsg c, RSetup), (AcceptMessage, NoneEvent),
      (RejectMessage, NoneEvent), (StartupMessage, LStartup), (ShutdownMessage, NoneEvent),
      (HeartbeatMessage, NoneEvent)}"

lemma control_packet_kinds:
  "(m, ev) \<in> control_packets c \<Longrightarrow> m \<in> controls c"
  "(m, RSetup) \<in> control_packets c \<Longrightarrow> m = ownIdentificationMsg c"
  "(m, LStartup) \<in> control_packets c \<Longrightarrow> m = StartupMessage"
  by (auto simp: control_packets_def controls_def)

locale handler_relation =
  fixes R :: "sc_env \<Rightarrow> StateController \<Rightarrow> StateController \<Rightarrow> bool"
  assumes refl: "R env c c"
    and trans: "R env c d \<Longrightarrow> R env d e \<Longrightarrow> R env c e"
    and packet: "(m, ev) \<in> control_packets c \<Longrightarrow> R env c (sendPacket env m ev sv c)"
    and put: "sending x = [] \<Longrightarrow> R env c (emit x c)"
    and set_field: "R env c (c\<lparr>tiTimer := t\<rparr>)" "R env c (c\<lparr>tsTimer := t\<rparr>)" "R env c (c\<lparr>trTimer := t\<rparr>)"
      "R env c (c\<lparr>currentState := st\<rparr>)" "R env c (c\<lparr>receivedBuffer := b\<rparr>)"
begin

lemma then_field:
  assumes "R env c d"
  shows "R env c (restartTi d)" "R env c (stopTi d)" "R env c (restartTs d)" "R env c (stopTs d)"
    "R env c (restartTr d)" "R env c (stopTr d)" "R env c (d\<lparr>currentState := st\<rparr>)" "R env c (d\<lparr>receivedBuffer := b\<rparr>)"
  using assms trans set_field by (simp_all add: timer_calls)

lemma then_put:
  assumes "R env c d"
  shows "sending x = [] \<Longrightarrow> R env c (emit x d)" "R env c (log_ST env' sv t d)" "R env c (log_STDT env' sv f dr t d)"
  using assms trans put by (simp_all add: log_ST_def log_STDT_def)

lemma sends:
  "R env c (sendPacket env (ownIdentificationMsg c) NoneEvent sv c)"
  "R env c (sendPacket env (ownIdentificationMsg c) RSetup sv c)"
  "R env c (sendPacket env AcceptMessage NoneEvent sv c)" "R env c (sendPacket env RejectMessage NoneEvent sv c)"
  "R env c (sendPacket env StartupMessage LStartup sv c)" "R env c (sendPacket env ShutdownMessage NoneEvent sv c)"
  "R env c (sendPacket env HeartbeatMessage NoneEvent sv c)"
  by (rule packet, simp add: control_packets_def)+

definition kept_by :: "transition_fun \<Rightarrow> bool" where
  "kept_by f \<longleftrightarrow> (\<forall>env e c. R env c (f env e c))"

lemma transitions_keep:
  "kept_by IdleStateEnter" "kept_by IdleStateExit" "kept_by SystemIdPendingStateEnter"
  "kept_by SystemIdPendingStateExit" "kept_by ConnectionPendingStateEnter" "kept_by IdPendingStateEnter"
  "kept_by IdPendingStateExit" "kept_by ReadyStateEnter" "kept_by ReadyStateExit"
  "kept_by AssosiationPendingStateExit" "kept_by DataReadyStateExit" "kept_by DisabledStateEnter"
  by (simp_all add: kept_by_def transition_defs Let_def refl sends put then_field)

lemma run_func_kept: "all_funcs kept_by m \<Longrightarrow> R env c (run_func m env e c)"
  by (auto simp: run_func_def all_funcs_def kept_by_def refl split: option.split)

lemmas run_func_maps_kept = func_maps_all [OF transitions_keep, THEN run_func_kept]

lemma force_keeps: "R env c (forceNewEvent env e c)"
proof -
  let ?n = "GetNextState id (stateMachine c) (currentState c) e"
  define c1 where "c1 = (if currentState c \<noteq> ?n then
      log_ST env SeverityInfo ((ru ''Smena '' @ ''FMTP '' @ ru ''sosto9ni9: '' @ ''<'') @ FmtpState_ToString (currentState c) @ ''> -> <'' @
        FmtpState_ToString ?n @ (''> '' @ ru ''po sobyti0 '' @ ''<'') @ FmtpEvent_ToString e @ ''>.'') c else c)"
  have "R env c c1" by (simp add: c1_def refl then_put)
  moreover define c2 where "c2 = (run_func (initExitTransFuncMap (NetRole (curSet c1))) env e c1)\<lparr>currentState := ?n\<rparr>"
  have "R env c1 c2" by (simp add: c2_def run_func_maps_kept then_field)
  moreover have "R env c2 (run_func (initEnterTransFuncMap (NetRole (curSet c2))) env e c2)"
    by (rule run_func_maps_kept)
  ultimately have "R env c (run_func (initEnterTransFuncMap (NetRole (curSet c2))) env e c2)"
    by (blast intro: trans)
  then show ?thesis by (simp add: forceNewEvent_def Let_def c1_def c2_def refl)
qed

lemma then_force: "R env c d \<Longrightarrow> R env c (forceNewEvent env e d)"
  using force_keeps trans by blast

lemma then_event: "R env c d \<Longrightarrow> R env c (processEventMessage env e m sv d)"
  by (simp add: processEventMessage_def Let_def then_force then_put)

lemma then_data: "R env c d \<Longrightarrow> R env c (processDataMessage env m d)"
  by (simp add: processDataMessage_def Let_def then_put)

lemma keep_if: "R env c x \<Longrightarrow> R env c y \<Longrightarrow> R env c (if b then x else y)"
  by simp

lemma message_keeps: "R env c (processFmtpMessage env m c)"
  unfolding processFmtpMessage_def by (intro keep_if then_event then_data then_put refl)

lemma messages_keep: "R env c d \<Longrightarrow> R env c (fold (processFmtpMessage env) ms d)"
proof (induction ms arbitrary: d)
  case (Cons m ms)
  then have "R env c (processFmtpMessage env m d)" using message_keeps trans by blast
  then show ?case using Cons.IH by simp
qed simp

lemma end_timer_keeps: "R env c (end_timer k c)"
  by (cases k) (simp_all add: refl set_field split: option.split)

lemma step_keeps:
  assumes "\<forall>m. i \<noteq> FromChief m"
  shows "R env c (sc_step env i c)"
proof -
  have "R env c (set_buffer [] (c\<lparr>receivedBuffer := b\<rparr>))" for b
    by (simp add: set_field)
  then have "R env c (read_packets env (c\<lparr>receivedBuffer := b\<rparr>))" for b
    unfolding read_packets_fold by (rule messages_keep)
  then show ?thesis
    using assms
    by (cases i) (simp_all add: tcp_state_changed_def receive_data_def Let_def force_keeps then_put then_force
        end_timer_keeps refl)
qed

end

end
