(* ===== verification/Gateways.thy ===== *)
theory Gateways
  imports Association Controller_Outputs Chief_System
begin

text \<open>
  Two gateways joined by an FMTP connection. The controllers of the two channels may do anything
  meanwhile: whatever events, timers and messages of the other side a controller sees, the packets
  it sends are control messages of the protocol and, in their order, the messages of its chief; and
  what it delivers depends on the received bytes only. From the chief of the one side to the
  queue for the provider of the other the parts are put together as in the code: the server of
  the channels, the program of the channel, its controller, and the same on the other side.
\<close>

section \<open>What a controller sends\<close>

definition packets_sent :: "StateController \<Rightarrow> byte list list" where
  "packets_sent c = map DataToSend (sent c)"

definition on_wire :: "sc_env \<Rightarrow> StateController \<Rightarrow> FmtpMessage \<Rightarrow> FmtpMessage" where
  "on_wire env c = wire_message env (DataEncoding (curSet c))"

definition adds_packets :: "sc_env \<Rightarrow> FmtpMessage list \<Rightarrow> StateController \<Rightarrow> StateController \<Rightarrow> bool" where
  "adds_packets env ms c d \<longleftrightarrow>
     packets_sent d = packets_sent c @ map (MakeFmtpPacket \<circ> on_wire env c) ms \<and>
     curSet d = curSet c \<and> ownIdentificationMsg d = ownIdentificationMsg c"

definition ctl_only :: "sc_env \<Rightarrow> StateController \<Rightarrow> StateController \<Rightarrow> bool" where
  "ctl_only env c d \<longleftrightarrow> (\<exists>ms. adds_packets env ms c d \<and> set ms \<subseteq> controls c)"

lemma packets_sent_simps [simp]:
  "packets_sent (emit e c) = packets_sent c @ map DataToSend (sending e)"
  "packets_sent (sendPacket env m ev sv c) = packets_sent c @ [MakeFmtpPacket (on_wire env c m)]"
  "packets_sent (log_ST env sv t c) = packets_sent c" "packets_sent (log_STDT env sv f dr t c) = packets_sent c"
  "packets_sent (restartTi c) = packets_sent c" "packets_sent (stopTi c) = packets_sent c"
  "packets_sent (restartTs c) = packets_sent c" "packets_sent (stopTs c) = packets_sent c"
  "packets_sent (restartTr c) = packets_sent c" "packets_sent (stopTr c) = packets_sent c"
  "packets_sent (c\<lparr>currentState := st\<rparr>) = packets_sent c" "packets_sent (set_buffer b c) = packets_sent c"
  by (simp_all add: packets_sent_def on_wire_def)

lemma adds_trans:
  "adds_packets env ms c d \<Longrightarrow> adds_packets env ns d e \<Longrightarrow> adds_packets env (ms @ ns) c e"
  by (auto simp: adds_packets_def on_wire_def)

lemma ctl_only_refl [simp]: "ctl_only env c c"
  unfolding ctl_only_def by (rule exI [of _ "[]"]) (simp add: adds_packets_def)

lemma ctl_only_trans:
  assumes "ctl_only env c d" "ctl_only env d e"
  shows "ctl_only env c e"
proof -
  obtain ms ns where "adds_packets env ms c d" "set ms \<subseteq> controls c" "adds_packets env ns d e" "set ns \<subseteq> controls d"
    using assms unfolding ctl_only_def by blast
  moreover from this(1) have "controls d = controls c" by (simp add: adds_packets_def controls_def)
  ultimately show ?thesis
    unfolding ctl_only_def by (intro exI [of _ "ms @ ns"]) (auto intro: adds_trans)
qed

lemma ctl_only_silent:
  "packets_sent d = packets_sent c \<Longrightarrow> curSet d = curSet c \<Longrightarrow>
   ownIdentificationMsg d = ownIdentificationMsg c \<Longrightarrow> ctl_only env c d"
  unfolding ctl_only_def by (rule exI [of _ "[]"]) (simp add: adds_packets_def)

interpretation ctl_only: handler_relation ctl_only
proof
  show "(m, ev) \<in> control_packets c \<Longrightarrow> ctl_only env c (sendPacket env m ev sv c)" for m ev c env sv
    using control_packet_kinds(1) unfolding ctl_only_def
    by (intro exI [of _ "[m]"]) (auto simp: adds_packets_def)
qed (auto intro: ctl_only_trans ctl_only_silent simp: packets_sent_def sent_def)

text \<open>The messages of the chief among the inputs, and the chunks of the connection.\<close>

definition chief_messages :: "sc_input list \<Rightarrow> FmtpMessage list" where
  "chief_messages is = concat (map (\<lambda>i. case i of FromChief m \<Rightarrow> [m] | _ \<Rightarrow> []) is)"

definition chunks_in :: "sc_input list \<Rightarrow> byte list list" where
  "chunks_in is = concat (map (\<lambda>i. case i of ReceivedData bs \<Rightarrow> [bs] | _ \<Rightarrow> []) is)"

lemma chief_messages_simps [simp]:
  "chief_messages [] = []" "chief_messages (i # is) = (case i of FromChief m \<Rightarrow> [m] | _ \<Rightarrow> []) @ chief_messages is"
  by (simp_all add: chief_messages_def)

lemma chunks_in_simps [simp]:
  "chunks_in [] = []" "chunks_in (i # is) = (case i of ReceivedData bs \<Rightarrow> [bs] | _ \<Rightarrow> []) @ chunks_in is"
  by (simp_all add: chunks_in_def)

lemma controls_no_data: "\<not> is_data (ownIdentificationMsg c) \<Longrightarrow> m \<in> controls c \<Longrightarrow> \<not> is_data m"
  by (auto simp: controls_def is_data_def message_defs)

definition sends_for :: "sc_env \<Rightarrow> FmtpMessage list \<Rightarrow> StateController \<Rightarrow> StateController \<Rightarrow> bool" where
  "sends_for env given c d \<longleftrightarrow>
     (\<exists>ms. adds_packets env ms c d \<and> set ms \<subseteq> controls c \<union> set given \<and> filter is_data ms = filter is_data given)"

lemma ctl_only_sends_for:
  assumes "ctl_only env c d" "\<not> is_data (ownIdentificationMsg c)"
  shows "sends_for env [] c d"
proof -
  obtain ms where ms: "adds_packets env ms c d" "set ms \<subseteq> controls c" using assms(1) by (auto simp: ctl_only_def)
  then have "filter is_data ms = []" using controls_no_data [OF assms(2)] by (auto simp: filter_empty_conv)
  with ms show ?thesis by (auto simp: sends_for_def)
qed

lemma step_sends_for:
  assumes "\<not> is_data (ownIdentificationMsg c)"
  shows "sends_for env (chief_messages [i]) c (sc_step env i c)"
proof (cases "\<exists>m. i = FromChief m")
  case True
  then obtain m where m: "i = FromChief m" by blast
  have "adds_packets env [m] c (sc_step env i c)" by (simp add: m adds_packets_def)
  then show ?thesis by (auto simp: sends_for_def m intro!: exI [of _ "[m]"])
next
  case False
  then have none: "chief_messages [i] = []" by (cases i) auto
  have "ctl_only env c (sc_step env i c)" by (rule ctl_only.step_keeps) (use False in blast)
  with assms show ?thesis unfolding none by (simp add: ctl_only_sends_for)
qed

lemma run_sends_for:
  "\<not> is_data (ownIdentificationMsg c) \<Longrightarrow> sends_for env (chief_messages is) c (sc_run env is c)"
proof (induction "is" arbitrary: c)
  case Nil
  then show ?case by (auto simp: sends_for_def adds_packets_def)
next
  case (Cons i "is")
  obtain ms where ms: "adds_packets env ms c (sc_step env i c)" "set ms \<subseteq> controls c \<union> set (chief_messages [i])"
    "filter is_data ms = filter is_data (chief_messages [i])"
    using step_sends_for [OF Cons.prems, of env i] by (auto simp: sends_for_def)
  have own: "ownIdentificationMsg (sc_step env i c) = ownIdentificationMsg c" using ms(1) by (simp add: adds_packets_def)
  then have "\<not> is_data (ownIdentificationMsg (sc_step env i c))" using Cons.prems by simp
  from Cons.IH [OF this] obtain ns where ns: "adds_packets env ns (sc_step env i c) (sc_run env (i # is) c)"
    "set ns \<subseteq> controls (sc_step env i c) \<union> set (chief_messages is)"
    "filter is_data ns = filter is_data (chief_messages is)"
    by (auto simp: sends_for_def)
  have "controls (sc_step env i c) = controls c" using own by (simp add: controls_def)
  then show ?case
    using ms(2,3) ns(2,3) adds_trans [OF ms(1) ns(1)] unfolding sends_for_def
    by (intro exI [of _ "ms @ ns"]) auto
qed

section \<open>From controller to controller\<close>

lemma received_of_chunks:
  "concat (map received_of js) = concat (map (\<lambda>bs. filter is_data (messages bs)) (chunks_in js))"
proof (induction js)
  case (Cons j js)
  then show ?case by (cases j) simp_all
qed simp

lemma packets_split:
  "concat pss @ rest = map MakeFmtpPacket ws \<Longrightarrow>
   \<exists>wss us. ws = concat wss @ us \<and> pss = map (map MakeFmtpPacket) wss \<and> rest = map MakeFmtpPacket us"
proof (induction pss arbitrary: ws)
  case (Cons ps pss)
  then have "map MakeFmtpPacket ws = ps @ concat pss @ rest" by simp
  then obtain us vs where ws: "ws = us @ vs" "ps = map MakeFmtpPacket us" "concat pss @ rest = map MakeFmtpPacket vs"
    by (auto simp: map_eq_append_conv)
  from Cons.IH [OF ws(3)] obtain wss xs where
    "vs = concat wss @ xs" "pss = map (map MakeFmtpPacket) wss" "rest = map MakeFmtpPacket xs" by blast
  with ws show ?case by (intro exI [of _ "us # wss"] exI [of _ xs]) simp
qed (use exI [of _ "[]"] in auto)

lemma read_chunks:
  "\<forall>w \<in> set (concat wss). sendable w \<Longrightarrow>
   concat (map (\<lambda>bs. filter is_data (messages bs)) (map concat (map (map MakeFmtpPacket) wss))) =
     filter is_data (concat wss)"
proof (induction wss)
  case (Cons ws wss)
  then show ?case using messages_packets [of ws "[]"] by simp
qed simp

lemma controller_way:
  assumes a: "well_set a" "sent a = []" and b: "receivedBuffer b = []" "delivered b = []"
    and fits: "\<forall>m \<in> controls a \<union> set (chief_messages ins). sendable (on_wire env a m)"
    and texts: "\<forall>m \<in> set (chief_messages ins). is_data m \<longrightarrow>
      read_message env' (DataEncoding (curSet b)) (on_wire env a m) = m"
    and link: "concat chunks @ way = packets_sent (sc_run env ins a)" "chunks_in js = map concat chunks"
  shows "\<exists>unread. delivered (sc_run env' js b) @ unread = filter is_data (chief_messages ins) \<and>
    length unread \<le> length way"
proof -
  have "\<not> is_data (ownIdentificationMsg a)"
    using a(1) by (simp add: well_set_def CreateIdentificationMessage_def is_data_def)
  from run_sends_for [OF this, of env ins] obtain ms where
    ms: "adds_packets env ms a (sc_run env ins a)" "set ms \<subseteq> controls a \<union> set (chief_messages ins)"
    "filter is_data ms = filter is_data (chief_messages ins)"
    by (auto simp: sends_for_def)
  have "concat chunks @ way = map MakeFmtpPacket (map (on_wire env a) ms)"
    using ms(1) link(1) a(2) by (simp add: adds_packets_def packets_sent_def comp_def)
  from packets_split [OF this] obtain wss us where w: "map (on_wire env a) ms = concat wss @ us"
    "chunks = map (map MakeFmtpPacket) wss" "way = map MakeFmtpPacket us" by blast
  from w(1) obtain xs ys where x: "ms = xs @ ys" "concat wss = map (on_wire env a) xs" "us = map (on_wire env a) ys"
    by (metis map_eq_append_conv)
  have ok: "\<forall>x \<in> set (concat wss). sendable x" using fits ms(2) x(1) unfolding x(2) by auto
  have data: "filter is_data (map (on_wire env a) zs) = map (on_wire env a) (filter is_data zs)" for zs
    by (induction zs) (simp_all add: is_data_def on_wire_def)
  have "delivered (sc_run env' js b) =
      map (read_message env' (DataEncoding (curSet b))) (filter is_data (concat wss))"
    unfolding run_delivers [OF b(1)] received_of_chunks link(2) w(2) read_chunks [OF ok] by (simp add: b(2))
  also have "\<dots> = map (\<lambda>m. read_message env' (DataEncoding (curSet b)) (on_wire env a m)) (filter is_data xs)"
    by (simp add: x(2) data comp_def)
  also have "\<dots> = filter is_data xs"
  proof (rule map_idI)
    fix m
    assume "m \<in> set (filter is_data xs)"
    then have m: "is_data m" "m \<in> set (filter is_data ms)" using x(1) by auto
    then have "m \<in> set (chief_messages ins)" unfolding ms(3) by simp
    with m(1) texts show "read_message env' (DataEncoding (curSet b)) (on_wire env a m) = m" by blast
  qed
  finally have "delivered (sc_run env' js b) @ filter is_data ys = filter is_data (chief_messages ins)"
    using ms(3) x(1) by simp
  moreover have "length (filter is_data ys) \<le> length way" by (simp add: w(3) x(3))
  ultimately show ?thesis by blast
qed

section \<open>From provider to provider\<close>

text \<open>What the server of the channels sends to a channel for messages of the provider, what the program
  of the channel makes of it, and the way back on the other side. A web socket carries documents.\<close>

definition carries :: "ws_data list \<Rightarrow> json list \<Rightarrow> bool" where
  "carries ds js \<longleftrightarrow> map wsDoc ds = map Some js"

definition passed_down :: "MsgWithChanId list \<Rightarrow> ChiefChannelServer \<Rightarrow> json list" where
  "passed_down ps cc = map fst (drop (length (to_channels cc)) (to_channels (fold ProcessOldiPacket ps cc)))"

definition app_reads :: "app_env \<Rightarrow> ws_data list \<Rightarrow> channel_app \<Rightarrow> FmtpMessage list" where
  "app_reads env ds a = drop (length (to_controller a)) (to_controller (fold (from_chief env) ds a))"

definition app_reports :: "app_env \<Rightarrow> FmtpMessage list \<Rightarrow> channel_app \<Rightarrow> json list" where
  "app_reports env ms a =
     drop (length (to_chief a)) (to_chief (fold (\<lambda>m. projr \<circ> app_step env (ControllerData m)) ms a))"

definition passed_up :: "srv_env \<Rightarrow> time \<Rightarrow> socket \<Rightarrow> ws_data list \<Rightarrow> ChiefChannelServer \<Rightarrow> pb_msg list" where
  "passed_up env tm sock ds cc = drop (length (to_fdps cc)) (to_fdps (fold (ws_received env tm sock) ds cc))"

definition fetched :: "(nat \<Rightarrow> string) \<Rightarrow> string option \<Rightarrow> time \<Rightarrow> pb_msg list \<Rightarrow> fmtpGrpcServer \<Rightarrow> pb_msg list" where
  "fetched clk host tm ms g = fst (RecvMsq clk host tm (fold appendMsg ms g))"

definition channel_up :: "int \<Rightarrow> socket option \<Rightarrow> ChiefChannelServer \<Rightarrow> bool" where
  "channel_up i sock cc \<longleftrightarrow>
     int64 i \<and> wsClients cc i = Some sock \<and>
     (\<exists>st. map_of (chStates cc) i = Some st \<and> stFmtpState (chState st) = FmtpState_ToString DataReady)"

lemma packet_up:
  assumes "channel_up i sock cc" "ChanId p = i"
  shows "to_channels (ProcessOldiPacket p cc) =
      to_channels cc @ [(marshal_data (CreateChiefDataMsg i (pbTxt (PbMsg p))), sock)]"
    and "channel_up i sock (ProcessOldiPacket p cc)"
proof -
  show "to_channels (ProcessOldiPacket p cc) =
      to_channels cc @ [(marshal_data (CreateChiefDataMsg i (pbTxt (PbMsg p))), sock)]"
    using assms by (auto simp: channel_up_def provider_packet)
  show "channel_up i sock (ProcessOldiPacket p cc)"
    using assms by (auto simp: channel_up_def ProcessOldiPacket_def Let_def srv_emit_def)
qed

lemma packets_up:
  "channel_up i sock cc \<Longrightarrow> \<forall>p \<in> set ps. ChanId p = i \<Longrightarrow>
   to_channels (fold ProcessOldiPacket ps cc) = to_channels cc @
     map (\<lambda>p. (marshal_data (CreateChiefDataMsg i (pbTxt (PbMsg p))), sock)) ps"
proof (induction ps arbitrary: cc)
  case (Cons p ps)
  then show ?case using packet_up [of i sock cc p] Cons.IH [of "ProcessOldiPacket p cc"] by simp
qed simp

definition operational :: "string \<Rightarrow> FmtpMessage" where
  "operational txt = \<lparr>msgType = Operational, msgText = txt\<rparr>"

lemma app_forwards:
  "int64 i \<Longrightarrow> carries ds (map (\<lambda>t. marshal_data (CreateChiefDataMsg i t)) ts) \<Longrightarrow>
   to_controller (fold (from_chief env) ds a) = to_controller a @ map operational ts"
proof (induction ts arbitrary: ds a)
  case (Cons t ts)
  then obtain d ds' where d: "ds = d # ds'" "wsDoc d = Some (marshal_data (CreateChiefDataMsg i t))"
    "carries ds' (map (\<lambda>t. marshal_data (CreateChiefDataMsg i t)) ts)"
    by (auto simp: carries_def)
  have "to_controller (from_chief env d a) = to_controller a @ [operational t]"
    using chief_data_forwarded [OF Cons.prems(1) d(2), of env a] by (simp add: to_controller_def operational_def)
  then show ?case using Cons.IH [OF Cons.prems(1) d(3), of "from_chief env d a"] d(1) by simp
qed (simp add: carries_def)

lemma app_reported:
  "to_chief (fold (\<lambda>m. projr \<circ> app_step env (ControllerData m)) ms a) = to_chief a @
     map (\<lambda>m. marshal_data (CreateChannelDataMsg (csId (channelSetts a)) m)) ms"
  by (induction ms arbitrary: a) (simp_all add: app_emit_def to_chief_def)

lemma server_passes:
  assumes "int64 (csId s)" "csDataType s = OLDIProvider"
  shows "find_setts (csId s) (ChSettings (srvSetts cc)) = Some s \<Longrightarrow>
   carries ds (map (\<lambda>m. marshal_data (CreateChannelDataMsg (csId s) m)) ms) \<Longrightarrow>
   \<exists>ps. to_fdps (fold (ws_received env tm sock) ds cc) = to_fdps cc @ ps \<and> map pbTxt ps = map msgText ms \<and>
     (\<forall>p \<in> set ps. pbCid p = RemoteATC s \<and> Rrtime p = None)"
proof (induction ms arbitrary: ds cc)
  case (Cons m ms)
  then obtain d ds' where d: "ds = d # ds'" "wsDoc d = Some (marshal_data (CreateChannelDataMsg (csId s) m))"
    "carries ds' (map (\<lambda>m. marshal_data (CreateChannelDataMsg (csId s) m)) ms)"
    by (auto simp: carries_def)
  note m = channel_message [OF assms(1) Cons.prems(1) assms(2) d(2), of env tm sock]
  have "find_setts (csId s) (ChSettings (srvSetts (ws_received env tm sock d cc))) = Some s"
    using Cons.prems(1) by (simp add: m(3))
  from Cons.IH [OF this d(3)] obtain ps where ps:
    "to_fdps (fold (ws_received env tm sock) ds' (ws_received env tm sock d cc)) =
      to_fdps (ws_received env tm sock d cc) @ ps" "map pbTxt ps = map msgText ms"
    "\<forall>p \<in> set ps. pbCid p = RemoteATC s \<and> Rrtime p = None" by blast
  then show ?case
    by (intro exI [of _ "zeroPbMsg\<lparr>pbId := Itoa (oldiIdent cc), pbCid := RemoteATC s, pbTxt := msgText m\<rparr> # ps"])
      (simp add: d(1) m(1) zeroPbMsg_def)
qed (simp add: carries_def)

lemma queue_appended: "msgToFdps (fold appendMsg ms g) = msgToFdps g @ ms"
  by (induction ms arbitrary: g) (simp_all add: appendMsg_def)

section \<open>Properties\<close>

text \<open>What one chief hands to its channel arrives at the other chief complete, once and in
  order, whatever else the two controllers do: for any events, timers, connections and messages of
  either side in between, and wherever the connection is at, as long as it hands over whole packets in
  their order, the data messages delivered are a beginning of those the first chief has handed over, and
  all of them once nothing is on the way. No control message of the protocol is taken for data.\<close>

theorem controller_to_controller:
  assumes a: "well_set a" "sent a = []" and b: "receivedBuffer b = []" "delivered b = []"
    and fits: "\<forall>m \<in> controls a \<union> set (chief_messages ins). sendable (on_wire env a m)"
    and texts: "\<forall>m \<in> set (chief_messages ins). is_data m \<longrightarrow>
      read_message env' (DataEncoding (curSet b)) (on_wire env a m) = m"
    and link: "concat chunks @ way = packets_sent (sc_run env ins a)" "chunks_in js = map concat chunks"
  shows "\<exists>unread. delivered (sc_run env' js b) @ unread = filter is_data (chief_messages ins) \<and>
    length unread \<le> length way"
  by (rule controller_way [OF assms])

lemma example_controllers:
  "well_set (Work_start example_client NewStateController)" "well_set (Work_start example_server NewStateController)"
  "sent (Work_start s NewStateController) = []" "delivered (Work_start s NewStateController) = []"
  "receivedBuffer (Work_start s NewStateController) = []" "curSet (Work_start s NewStateController) = s"
  "DataEncoding example_client \<noteq> Encode1251" "DataEncoding example_server \<noteq> Encode1251"
  by (simp_all add: well_set_def Work_start_def NewStateController_def sent_def delivered_def example_defs Encode1251_def)

lemma example_fits:
  "\<forall>m \<in> controls (Work_start example_client NewStateController) \<union> {\<lparr>msgType = Operational, msgText = ''(FPL)''\<rparr>}.
     sendable (on_wire example_env (Work_start example_client NewStateController) m)"
  "on_wire example_env (Work_start example_client NewStateController) m = m"
  "read_message example_env (DataEncoding example_server) m = m"
  by (simp_all add: controls_def on_wire_def wire_message_def read_message_def example_controllers message_defs
      sendable_def Work_start_def CreateIdentificationMessage_def example_defs Encode1251_def)

definition example_inputs :: "sc_input list" where
  "example_inputs = [TcpConnected True, FromChief (operational ''(FPL)''), TransportEvent LSetup]"

definition example_received :: "sc_input list" where
  "example_received =
     [StateTick, ReceivedData (concat (packets_sent (sc_run example_env example_inputs (Work_start example_client NewStateController)))),
      TimerFired TiId]"

lemma example_traffic [simp]:
  "chief_messages example_inputs = [operational ''(FPL)'']"
  "chunks_in example_received =
     map concat [packets_sent (sc_run example_env example_inputs (Work_start example_client NewStateController))]"
  by (simp_all add: example_inputs_def example_received_def)

lemma example_delivered:
  "delivered (sc_run example_env example_received (Work_start example_server NewStateController)) = [operational ''(FPL)'']"
  using controller_way [where a = "Work_start example_client NewStateController" and way = "[]"
      and b = "Work_start example_server NewStateController" and env = example_env and env' = example_env
      and chunks = "[packets_sent (sc_run example_env example_inputs (Work_start example_client NewStateController))]"
      and js = example_received and ins = example_inputs] example_fits
  by (simp add: example_controllers operational_def is_data_def del: sc_run.simps)

theorem controller_to_controller_witness:
  "let a = Work_start example_client NewStateController; b = Work_start example_server NewStateController
    in \<exists>unread. delivered (sc_run example_env example_received b) @ unread = filter is_data (chief_messages example_inputs) \<and>
         length unread \<le> length ([] :: byte list list)"
  unfolding Let_def
  by (rule controller_to_controller [where
        chunks = "[packets_sent (sc_run example_env example_inputs (Work_start example_client NewStateController))]"
      and a = "Work_start example_client NewStateController" and env = example_env])
    (use example_fits in \<open>simp_all add: example_controllers operational_def del: sc_run.simps\<close>)


definition example_doc :: "json \<Rightarrow> ws_data" where
  "example_doc j = \<lparr>wsText = [], wsDoc = Some j\<rparr>"

definition example_up :: ChiefChannelServer where
  "example_up = example_srv\<lparr>wsClients := [1 \<mapsto> Some 5], chStates := [(1, \<lparr>chState = example_state, chTime = 0\<rparr>)]\<rparr>"

lemma example_channel_up: "channel_up 1 (Some 5) example_up"
proof -
  have "FmtpState_ToString DataReady = ''data_ready''" by (simp add: table_defs)
  then show ?thesis
    by (simp add: channel_up_def example_up_def example_state_def int64_def int_min_def int_max_def)
qed


end
