(* ===== verification/Channel_System.thy ===== *)
theory Channel_System
  imports Gateways Tcp_Runs
begin

text \<open>
  A channel as a whole: the state controller and its TCP transport, over the Go channels between
  them. The two are goroutines that wait for each other: \<open>toSendDataChan\<close> and
  \<open>receivedDataChan\<close> have room for 1024, \<open>logMessageChan\<close> for 10, and the settings, the states of
  the connection, the events after sending and the signals to reconnect are handed over when both
  sides are there. What a goroutine has still to hand over before it goes on is a list, and so a
  goroutine that waits is one with a list that is not empty.

  The transport is either of the two of \<open>tcp_transport\<close>: \<open>channel_step\<close> is over the steps of any
  transport, and the interface they share is the locale \<open>tcp_interface\<close>. What the controller gives to
  the rest of the program of its channel (journal, received messages, its state) is taken at once. A step
  of the transport changes its state when its case is taken, and what it hands over follows.
\<close>

section \<open>State\<close>

text \<open>A goroutine of the transport: \<open>Work\<close>, a loop of a connection, or a listener of the server.\<close>

datatype goroutine = InWork | InLoop nat | InListener nat

text \<open>What a goroutine does next: hand over an effect, or start the loops of a new connection.\<close>

datatype pending = Perform tcp_effect | StartLoops

record 'x channel_sys =
  chCtl :: StateController
  chStarted :: bool
  ctlTodo :: "effect list"
  ctlIns :: "sc_input list"
  chTr :: "'x transport_scheme"
  workTodo :: "pending list"
  loopTodo :: "pending list option list"
  listenerTodo :: "nat \<Rightarrow> pending list"
  recvChan :: "byte list list"
  logChan :: "LogMessage list"
  reconnects :: nat

text \<open>The entry of a loop that is not started yet is \<open>None\<close>. \<open>ctlIns\<close> is the history of what the
  controller has taken. \<open>reconnects\<close> counts the goroutines of \<open>IdleStateEnter\<close> that wait for the
  time to reconnect or for \<open>Work\<close> to take their signal.\<close>

definition data_capacity :: nat where "data_capacity = 1024"
definition log_capacity :: nat where "log_capacity = 10"

definition channel_start :: "ChannelSettings \<Rightarrow> 'x transport_scheme \<Rightarrow> 'x channel_sys" where
  "channel_start settings transport =
     \<lparr>chCtl = Work_start settings NewStateController, chStarted = False, ctlTodo = [], ctlIns = [],
      chTr = transport, workTodo = [], loopTodo = [], listenerTodo = (\<lambda>j. []), recvChan = [],
      logChan = [], reconnects = 0\<rparr>"

definition todo_of :: "goroutine \<Rightarrow> 'x channel_sys \<Rightarrow> pending list option" where
  "todo_of g s =
     (case g of InWork \<Rightarrow> Some (workTodo s)
      | InLoop i \<Rightarrow> if i < length (loopTodo s) then loopTodo s ! i else None
      | InListener j \<Rightarrow> Some (listenerTodo s j))"

definition set_todo :: "goroutine \<Rightarrow> pending list \<Rightarrow> 'x channel_sys \<Rightarrow> 'x channel_sys" where
  "set_todo g ps s =
     (case g of InWork \<Rightarrow> s\<lparr>workTodo := ps\<rparr>
      | InLoop i \<Rightarrow> s\<lparr>loopTodo := (loopTodo s)[i := Some ps]\<rparr>
      | InListener j \<Rightarrow> s\<lparr>listenerTodo := (listenerTodo s)(j := ps)\<rparr>)"

section \<open>The transport\<close>

text \<open>What a step of a transport meets the controller with, the goroutines that take part, the
  one that goes on from there first, and the loop that ends.\<close>

datatype partner = FromController TcpTransportSettings | Reconnection | Queue | Nobody

record 'a wiring =
  takesFrom :: "'a \<Rightarrow> partner"
  stepOf :: "'a \<Rightarrow> goroutine list"
  endedBy :: "'a \<Rightarrow> nat option"

fun client_takes :: "client_action \<Rightarrow> partner" where
  "client_takes (CSettings st d k) = FromController st"
| "client_takes (CReconnect d k) = Reconnection"
| "client_takes (CPush d) = Queue"
| "client_takes _ = Nobody"

fun client_goroutines :: "client_action \<Rightarrow> goroutine list" where
  "client_goroutines (CTakeError i) = [InWork, InLoop i]"
| "client_goroutines (CTakeCancel i e) = [InWork, InLoop i]"
| "client_goroutines (CPoll i) = [InLoop i]"
| "client_goroutines (CRead i r) = [InLoop i]"
| "client_goroutines (CSend i e) = [InLoop i]"
| "client_goroutines _ = [InWork]"

fun client_ends :: "client_action \<Rightarrow> nat option" where
  "client_ends (CTakeError i) = Some i"
| "client_ends (CTakeCancel i e) = Some i"
| "client_ends _ = None"

definition client_wiring :: "client_action wiring" where
  "client_wiring = \<lparr>takesFrom = client_takes, stepOf = client_goroutines, endedBy = client_ends\<rparr>"

lemma client_wiring_simps [simp]:
  "takesFrom client_wiring = client_takes" "stepOf client_wiring = client_goroutines" "endedBy client_wiring = client_ends"
  by (simp_all add: client_wiring_def)

fun server_takes :: "server_action \<Rightarrow> partner" where
  "server_takes (SSettings st) = FromController st"
| "server_takes SReconnect = Reconnection"
| "server_takes (SPush d) = Queue"
| "server_takes _ = Nobody"

fun server_goroutines :: "server_action \<Rightarrow> goroutine list" where
  "server_goroutines (SListen j e) = [InListener j]"
| "server_goroutines (SAccept j c) = [InListener j]"
| "server_goroutines (STakeError i) = [InWork, InLoop i]"
| "server_goroutines (STakeCancel i e) = [InWork, InLoop i]"
| "server_goroutines (SPoll i) = [InLoop i]"
| "server_goroutines (SRead i r) = [InLoop i]"
| "server_goroutines (SSend i e) = [InLoop i]"
| "server_goroutines _ = [InWork]"

fun server_ends :: "server_action \<Rightarrow> nat option" where
  "server_ends (STakeError i) = Some i"
| "server_ends (STakeCancel i e) = Some i"
| "server_ends _ = None"

definition server_wiring :: "server_action wiring" where
  "server_wiring = \<lparr>takesFrom = server_takes, stepOf = server_goroutines, endedBy = server_ends\<rparr>"

lemma server_wiring_simps [simp]:
  "takesFrom server_wiring = server_takes" "stepOf server_wiring = server_goroutines" "endedBy server_wiring = server_ends"
  by (simp_all add: server_wiring_def)

text \<open>Writing to the connection and closing it need nobody else.\<close>

fun handed :: "tcp_effect \<Rightarrow> bool" where
  "handed (Written bs) = False" | "handed Closed = False" | "handed _ = True"

definition without_loop :: "nat option \<Rightarrow> 'b list \<Rightarrow> 'b list" where
  "without_loop gone xs = (case gone of None \<Rightarrow> xs | Some i \<Rightarrow> take i xs @ drop (Suc i) xs)"

text \<open>A step of the transport: none of the goroutines in it waits; the first has to hand over what
  the step puts out, and then starts the loops of the connection the step has opened.\<close>

definition acted ::
  "'a wiring \<Rightarrow> 'a \<Rightarrow> 'x transport_scheme \<Rightarrow> 'x channel_sys \<Rightarrow> 'x channel_sys" where
  "acted wiring a t s =
     (let left = without_loop (endedBy wiring a) (loopTodo s);
          effects = filter handed (drop (length (trOut (chTr s))) (trOut t));
          todo = map Perform effects @ (if length left < length (loops t) then [StartLoops] else []);
          s = s\<lparr>chTr := t, loopTodo := left @ replicate (length (loops t) - length left) None\<rparr>
      in if todo = [] then s else set_todo (hd (stepOf wiring a)) todo s)"

definition transport_acts ::
  "('a \<Rightarrow> 'x transport_scheme \<Rightarrow> 'x transport_scheme option) \<Rightarrow> 'a wiring \<Rightarrow> 'a \<Rightarrow>
   'x channel_sys \<Rightarrow> 'x channel_sys option" where
  "transport_acts step wiring a s =
     (if \<not> list_all (\<lambda>g. todo_of g s = Some []) (stepOf wiring a) then None
      else case step a (chTr s) of None \<Rightarrow> None | Some t \<Rightarrow> Some (acted wiring a t s))"

definition transport_moves ::
  "('a \<Rightarrow> 'x transport_scheme \<Rightarrow> 'x transport_scheme option) \<Rightarrow> 'a wiring \<Rightarrow> 'a \<Rightarrow>
   'x channel_sys \<Rightarrow> 'x channel_sys option" where
  "transport_moves step wiring a s =
     (case takesFrom wiring a of
        FromController st \<Rightarrow>
          if chStarted s \<or> st \<noteq> transport_settings (curSet (chCtl s)) then None
          else transport_acts step wiring a (s\<lparr>chStarted := True\<rparr>)
      | Reconnection \<Rightarrow>
          if reconnects s = 0 then None else transport_acts step wiring a (s\<lparr>reconnects := reconnects s - 1\<rparr>)
      | Queue \<Rightarrow> None
      | Nobody \<Rightarrow> transport_acts step wiring a s)"

text \<open>A goroutine hands over to a channel with room, or starts the loops.\<close>

definition goroutine_goes :: "goroutine \<Rightarrow> 'x channel_sys \<Rightarrow> 'x channel_sys option" where
  "goroutine_goes g s =
     (case todo_of g s of
        Some (Perform (TrLog l) # ps) \<Rightarrow>
          if length (logChan s) < log_capacity then Some (set_todo g ps (s\<lparr>logChan := logChan s @ [l]\<rparr>)) else None
      | Some (Perform (Received bs) # ps) \<Rightarrow>
          if length (recvChan s) < data_capacity then Some (set_todo g ps (s\<lparr>recvChan := recvChan s @ [bs]\<rparr>)) else None
      | Some (StartLoops # ps) \<Rightarrow>
          Some (set_todo g ps (s\<lparr>loopTodo := map (\<lambda>t. case t of None \<Rightarrow> Some [] | Some qs \<Rightarrow> Some qs) (loopTodo s)\<rparr>))
      | _ \<Rightarrow> None)"

section \<open>The controller\<close>

text \<open>The controller is at its \<open>select\<close> when it has nothing left to do of the last iteration.\<close>

definition at_select :: "'x channel_sys \<Rightarrow> bool" where
  "at_select s \<longleftrightarrow> chStarted s \<and> ctlTodo s = []"

definition ctl_takes_input :: "sc_env \<Rightarrow> sc_input \<Rightarrow> 'x channel_sys \<Rightarrow> 'x channel_sys" where
  "ctl_takes_input env i s =
     (let c = sc_step env i (chCtl s)
      in s\<lparr>chCtl := c, ctlTodo := drop (length (out (chCtl s))) (out c), ctlIns := ctlIns s @ [i]\<rparr>)"

text \<open>The inputs that do not come from the transport.\<close>

fun own_input :: "sc_input \<Rightarrow> StateController \<Rightarrow> bool" where
  "own_input (FromChief m) c = True"
| "own_input (TimerFired t) c = timer_running t c"
| "own_input (TimerStale t) c = True"
| "own_input StateTick c = True"
| "own_input _ c = False"

definition ctl_takes_from :: "sc_env \<Rightarrow> goroutine \<Rightarrow> 'x channel_sys \<Rightarrow> 'x channel_sys option" where
  "ctl_takes_from env g s =
     (if \<not> at_select s then None
      else case todo_of g s of
        Some (Perform (TrEvent e) # ps) \<Rightarrow> Some (ctl_takes_input env (TransportEvent e) (set_todo g ps s))
      | Some (Perform (ConnState b) # ps) \<Rightarrow> Some (ctl_takes_input env (TcpConnected b) (set_todo g ps s))
      | _ \<Rightarrow> None)"

definition ctl_goes :: "'x channel_sys \<Rightarrow> 'x channel_sys option" where
  "ctl_goes s =
     (case ctlTodo s of
        [] \<Rightarrow> None
      | SendData d # es \<Rightarrow>
          if length (toSendData (chTr s)) < data_capacity
          then Some (s\<lparr>chTr := push_data d (chTr s), ctlTodo := es\<rparr>) else None
      | ReconnectAfter t # es \<Rightarrow> Some (s\<lparr>reconnects := reconnects s + 1, ctlTodo := es\<rparr>)
      | _ # es \<Rightarrow> Some (s\<lparr>ctlTodo := es\<rparr>))"

section \<open>The channel\<close>

datatype 'a channel_action =
  Transport 'a
| Goes goroutine
| CtlTakes sc_input
| CtlTakesData
| CtlTakesLog
| CtlTakesFrom goroutine
| CtlGoes

fun channel_move ::
  "sc_env \<Rightarrow> ('a \<Rightarrow> 'x transport_scheme \<Rightarrow> 'x transport_scheme option) \<Rightarrow> 'a wiring \<Rightarrow>
   'a channel_action \<Rightarrow> 'x channel_sys \<Rightarrow> 'x channel_sys option" where
  "channel_move env step wiring (Transport a) s = transport_moves step wiring a s"
| "channel_move env step wiring (Goes g) s = goroutine_goes g s"
| "channel_move env step wiring (CtlTakes i) s =
     (if at_select s \<and> own_input i (chCtl s) then Some (ctl_takes_input env i s) else None)"
| "channel_move env step wiring CtlTakesData s =
     (case recvChan s of
        [] \<Rightarrow> None
      | bs # rest \<Rightarrow>
          if at_select s then Some (ctl_takes_input env (ReceivedData bs) (s\<lparr>recvChan := rest\<rparr>)) else None)"
| "channel_move env step wiring CtlTakesLog s =
     (case logChan s of
        [] \<Rightarrow> None
      | l # rest \<Rightarrow>
          if at_select s then Some (ctl_takes_input env (TransportLog l) (s\<lparr>logChan := rest\<rparr>)) else None)"
| "channel_move env step wiring (CtlTakesFrom g) s = ctl_takes_from env g s"
| "channel_move env step wiring CtlGoes s = ctl_goes s"

text \<open>A panic of the transport ends the whole program.\<close>

definition channel_step ::
  "sc_env \<Rightarrow> ('a \<Rightarrow> 'x transport_scheme \<Rightarrow> 'x transport_scheme option) \<Rightarrow> 'a wiring \<Rightarrow>
   'a channel_action \<Rightarrow> 'x channel_sys \<Rightarrow> 'x channel_sys option" where
  "channel_step env step wiring m s = (if panicked (chTr s) then None else channel_move env step wiring m s)"

abbreviation client_channel ::
  "sc_env \<Rightarrow> (nat \<Rightarrow> string) \<Rightarrow> client_action channel_action list \<Rightarrow> ChannelSettings \<Rightarrow> _" where
  "client_channel env clk ms settings \<equiv>
     run_steps (channel_step env (client_step clk) client_wiring) ms (channel_start settings NewFmtpTcpClient)"

abbreviation server_channel ::
  "sc_env \<Rightarrow> (nat \<Rightarrow> string) \<Rightarrow> server_action channel_action list \<Rightarrow> ChannelSettings \<Rightarrow> _" where
  "server_channel env clk ms settings \<equiv>
     run_steps (channel_step env (server_step clk) server_wiring) ms (channel_start settings NewFmtpTcpServer)"

end
