(* ===== verification/Channel_Ways.thy ===== *)
theory Channel_Ways
  imports Channel_System Controller_Outputs
begin

text \<open>
  What goes through a channel as a whole. What the controller sends is what its transport has
  written, then what waits in the queue, then what the controller holds, in this order; and whatever
  the controller takes, its transport has put out before. Both hold for any transport with the
  interface \<open>tcp_interface\<close>, and so for the client and for the server.
\<close>

section \<open>Iterations add to what is put out\<close>

definition grows :: "sc_env \<Rightarrow> StateController \<Rightarrow> StateController \<Rightarrow> bool" where
  "grows env c d \<longleftrightarrow> (\<exists>es. out d = out c @ es)"

interpretation grows: handler_relation grows
  by unfold_locales (auto simp: grows_def sendPacket_def log_STDT_def Let_def)

lemma step_grows: "\<exists>es. out (sc_step env i c) = out c @ es"
proof (cases "\<exists>m. i = FromChief m")
  case True
  then show ?thesis by (auto simp: sendPacket_def log_STDT_def Let_def)
next
  case False
  then show ?thesis using grows.step_keeps [of i env c] by (auto simp: grows_def)
qed

definition packets_in :: "effect list \<Rightarrow> DataAndEvent list" where
  "packets_in es = concat (map sending es)"

lemma packets_in_simps [simp]:
  "packets_in [] = []" "packets_in (e # es) = sending e @ packets_in es"
  "packets_in (es @ fs) = packets_in es @ packets_in fs"
  by (simp_all add: packets_in_def)

lemma sent_packets: "sent c = packets_in (out c)"
  by (simp add: sent_def packets_in_def)

section \<open>The interface of a transport\<close>

locale tcp_interface =
  fixes step :: "'a \<Rightarrow> 'x transport_scheme \<Rightarrow> 'x transport_scheme option"
    and wiring :: "'a wiring"
    and lossy :: "'a \<Rightarrow> bool"
  assumes dead_stuck: "panicked t \<Longrightarrow> step a t = None"
    and puts_out: "step a s = Some t \<Longrightarrow> adds_output s t"
    and keeps_queue: "step a s = Some t \<Longrightarrow> takesFrom wiring a \<noteq> Queue \<Longrightarrow> set (toSendData t) \<subseteq> set (toSendData s)"
    and keeps_way: "step a s = Some t \<Longrightarrow> \<not> panicked t \<Longrightarrow> \<not> lossy a \<Longrightarrow> takesFrom wiring a \<noteq> Queue \<Longrightarrow>
      on_way t = on_way s"

definition lossless :: "('a \<Rightarrow> bool) \<Rightarrow> 'a channel_action \<Rightarrow> bool" where
  "lossless lossy m = (case m of Transport a \<Rightarrow> \<not> lossy a | _ \<Rightarrow> True)"

lemma lossless_simps [simp]:
  "lossless lossy (Transport a) = (\<not> lossy a)" "lossless lossy (Goes g)" "lossless lossy (CtlTakes i)"
  "lossless lossy CtlTakesData" "lossless lossy CtlTakesLog" "lossless lossy (CtlTakesFrom g)" "lossless lossy CtlGoes"
  by (simp_all add: lossless_def)

text \<open>What waits to be handed over by some goroutine.\<close>

definition waiting :: "'x channel_sys \<Rightarrow> pending set" where
  "waiting s = set (workTodo s) \<union> (\<Union>ps \<in> {ps. Some ps \<in> set (loopTodo s)}. set ps) \<union> (\<Union>j. set (listenerTodo s j))"

lemma waiting_of: "todo_of g s = Some ps \<Longrightarrow> set ps \<subseteq> waiting s"
  by (cases g) (auto simp: todo_of_def waiting_def split: if_splits dest: nth_mem)

lemma waiting_set_todo: "waiting (set_todo g ps s) \<subseteq> waiting s \<union> set ps"
proof (cases g)
  case (InLoop i)
  have "set ((loopTodo s)[i := Some ps]) \<subseteq> insert (Some ps) (set (loopTodo s))" by (rule set_update_subset_insert)
  then show ?thesis by (auto simp: InLoop set_todo_def waiting_def)
qed (auto simp: set_todo_def waiting_def split: if_splits)

lemma waiting_cong [simp]:
  "waiting (s\<lparr>chCtl := c\<rparr>) = waiting s" "waiting (s\<lparr>chStarted := b\<rparr>) = waiting s"
  "waiting (s\<lparr>ctlTodo := es\<rparr>) = waiting s" "waiting (s\<lparr>ctlIns := is\<rparr>) = waiting s"
  "waiting (s\<lparr>chTr := t\<rparr>) = waiting s" "waiting (s\<lparr>recvChan := bss\<rparr>) = waiting s"
  "waiting (s\<lparr>logChan := ls\<rparr>) = waiting s" "waiting (s\<lparr>reconnects := n\<rparr>) = waiting s"
  by (simp_all add: waiting_def)

lemma set_todo_frame [simp]:
  "chCtl (set_todo g ps s) = chCtl s" "chStarted (set_todo g ps s) = chStarted s"
  "ctlTodo (set_todo g ps s) = ctlTodo s" "ctlIns (set_todo g ps s) = ctlIns s"
  "chTr (set_todo g ps s) = chTr s" "recvChan (set_todo g ps s) = recvChan s"
  "logChan (set_todo g ps s) = logChan s" "reconnects (set_todo g ps s) = reconnects s"
  by (simp_all add: set_todo_def split: goroutine.split)

lemma set_without: "set (without_loop g xs) \<subseteq> set xs"
  by (auto simp: without_loop_def split: option.splits dest: in_set_takeD in_set_dropD)

section \<open>What the controller takes was put out before\<close>

fun source :: "sc_input \<Rightarrow> tcp_effect set" where
  "source (TcpConnected b) = {ConnState b}"
| "source (ReceivedData bs) = {Received bs}"
| "source (TransportLog l) = {TrLog l}"
| "source (TransportEvent e) = {TrEvent e}"
| "source _ = {}"

definition put_out :: "'x channel_sys \<Rightarrow> tcp_effect set" where
  "put_out s = set (trOut (chTr s))"

definition from_transport :: "'x channel_sys \<Rightarrow> tcp_effect set" where
  "from_transport s = {e. Perform e \<in> waiting s} \<union> Received ` set (recvChan s) \<union> TrLog ` set (logChan s) \<union>
     (\<Union>i \<in> set (ctlIns s). source i)"

definition history :: "sc_env \<Rightarrow> ChannelSettings \<Rightarrow> 'x channel_sys \<Rightarrow> bool" where
  "history env settings s \<longleftrightarrow>
     chCtl s = sc_run env (ctlIns s) (Work_start settings NewStateController) \<and>
     from_transport s \<subseteq> put_out s \<and>
     set (toSendData (chTr s)) \<union> set (packets_in (ctlTodo s)) \<subseteq> set (sent (chCtl s))"

text \<open>Everything the controller has sent, and where it is.\<close>

definition way_kept :: "'x channel_sys \<Rightarrow> bool" where
  "way_kept s \<longleftrightarrow> packets_sent (chCtl s) = on_way (chTr s) @ map DataToSend (packets_in (ctlTodo s))"

lemma start_history: "toSendData t = [] \<Longrightarrow> history env settings (channel_start settings t)"
  by (simp add: history_def channel_start_def from_transport_def waiting_def)

lemma start_way: "toSendData t = [] \<Longrightarrow> trOut t = [] \<Longrightarrow> way_kept (channel_start settings t)"
  by (simp add: way_kept_def channel_start_def on_way_def packets_sent_def example_controllers(3))

lemma input_kept:
  assumes "history env settings s" "source i \<subseteq> put_out s"
  shows "history env settings (ctl_takes_input env i s)"
proof -
  obtain es where es: "out (sc_step env i (chCtl s)) = out (chCtl s) @ es" using step_grows by blast
  have "chCtl (ctl_takes_input env i s) = sc_run env (ctlIns s @ [i]) (Work_start settings NewStateController)"
    "from_transport (ctl_takes_input env i s) = from_transport s \<union> source i"
    using assms(1) by (auto simp: history_def ctl_takes_input_def Let_def sc_run_append from_transport_def)
  then show ?thesis
    using assms es unfolding history_def
    by (auto simp: ctl_takes_input_def Let_def sent_packets put_out_def)
qed

lemma input_way:
  assumes "way_kept s" "ctlTodo s = []"
  shows "way_kept (ctl_takes_input env i s)"
proof -
  obtain es where "out (sc_step env i (chCtl s)) = out (chCtl s) @ es" using step_grows by blast
  then show ?thesis
    using assms by (simp add: way_kept_def ctl_takes_input_def Let_def packets_sent_def sent_packets)
qed




lemma history_same:
  assumes "history env settings s" "chCtl t = chCtl s" "ctlIns t = ctlIns s" "put_out s \<subseteq> put_out t"
    and "from_transport t \<subseteq> from_transport s \<union> put_out t"
    and "set (toSendData (chTr t)) \<union> set (packets_in (ctlTodo t)) \<subseteq>
      set (toSendData (chTr s)) \<union> set (packets_in (ctlTodo s))"
  shows "history env settings t"
proof -
  have "from_transport t \<subseteq> put_out t" "set (toSendData (chTr t)) \<union> set (packets_in (ctlTodo t)) \<subseteq> set (sent (chCtl t))"
    using assms unfolding history_def by (blast, metis subset_trans)
  then show ?thesis using assms(1-3) by (simp add: history_def)
qed

lemma acts_kept:
  assumes "transport_acts step wiring a s = Some t" "history env settings s"
    and "\<And>u v. step a u = Some v \<Longrightarrow> adds_output u v \<and> set (toSendData v) \<subseteq> set (toSendData u)"
  shows "history env settings t"
proof -
  obtain u where u: "step a (chTr s) = Some u" using assms(1) by (auto simp: transport_acts_def split: if_splits option.splits)
  obtain es where es: "trOut u = trOut (chTr s) @ es" using assms(3) [OF u] by (auto simp: adds_output_def)
  let ?left = "without_loop (endedBy wiring a) (loopTodo s)"
  let ?s = "s\<lparr>chTr := u, loopTodo := ?left @ replicate (length (loops u) - length ?left) None\<rparr>"
  let ?todo = "map Perform (filter handed es) @ (if length ?left < length (loops u) then [StartLoops] else [])"
  have t: "t = (if ?todo = [] then ?s else set_todo (hd (stepOf wiring a)) ?todo ?s)"
    using assms(1) u es by (simp add: transport_acts_def acted_def Let_def split: if_splits)
  have "waiting ?s \<subseteq> waiting s" using set_without [of "endedBy wiring a" "loopTodo s"] by (auto simp: waiting_def)
  then have "waiting t \<subseteq> waiting s \<union> set ?todo" using waiting_set_todo [of "hd (stepOf wiring a)" ?todo ?s] t by auto
  then have "{e. Perform e \<in> waiting t} \<subseteq> {e. Perform e \<in> waiting s} \<union> set es" by (auto split: if_splits)
  moreover have same: "chTr t = u" "recvChan t = recvChan s" "logChan t = logChan s" "ctlIns t = ctlIns s"
    "chCtl t = chCtl s" "ctlTodo t = ctlTodo s" by (simp_all add: t)
  ultimately have f: "from_transport t \<subseteq> from_transport s \<union> put_out t"
    by (auto simp: from_transport_def put_out_def es)
  show ?thesis
    by (rule history_same [OF assms(2) same(5,4) _ f]) (use same es assms(3) [OF u] in \<open>auto simp: put_out_def\<close>)
qed

lemma goes_kept:
  assumes "goroutine_goes g s = Some t" "history env settings s"
  shows "history env settings t"
proof -
  obtain p ps where todo: "todo_of g s = Some (p # ps)"
    using assms(1) by (auto simp: goroutine_goes_def split: option.splits list.splits)
  have w: "p \<in> waiting s" "set ps \<subseteq> waiting s" using waiting_of [OF todo] by auto
  have sub: "waiting (set_todo g ps u) \<subseteq> waiting s" if "waiting u \<subseteq> waiting s" for u
    using waiting_set_todo [of g ps u] that w(2) by blast
  define u where "u = s\<lparr>loopTodo := map (\<lambda>t. case t of None \<Rightarrow> Some [] | Some qs \<Rightarrow> Some qs) (loopTodo s)\<rparr>"
  have uw: "waiting u \<subseteq> waiting s" by (auto simp: waiting_def u_def split: option.splits)
  consider (log) l where "p = Perform (TrLog l)" "t = set_todo g ps (s\<lparr>logChan := logChan s @ [l]\<rparr>)"
    | (data) bs where "p = Perform (Received bs)" "t = set_todo g ps (s\<lparr>recvChan := recvChan s @ [bs]\<rparr>)"
    | (start) "t = set_todo g ps u"
    using assms(1) todo by (auto simp: goroutine_goes_def u_def split: pending.splits tcp_effect.splits if_splits)
  then show ?thesis
  proof cases
    case log
    have "from_transport t \<subseteq> from_transport s"
      using w(1) sub [of "s\<lparr>logChan := logChan s @ [l]\<rparr>"] by (auto simp: log from_transport_def)
    then show ?thesis by (intro history_same [OF assms(2)]) (auto simp: log put_out_def)
  next
    case data
    have "from_transport t \<subseteq> from_transport s"
      using w(1) sub [of "s\<lparr>recvChan := recvChan s @ [bs]\<rparr>"] by (auto simp: data from_transport_def)
    then show ?thesis by (intro history_same [OF assms(2)]) (auto simp: data put_out_def)
  next
    case start
    have "from_transport t \<subseteq> from_transport s"
      using sub [OF uw] by (auto simp: start from_transport_def u_def)
    then show ?thesis by (intro history_same [OF assms(2)]) (auto simp: start put_out_def u_def)
  qed
qed

lemma takes_from_cases:
  assumes "ctl_takes_from env g s = Some t"
  obtains e i ps where "at_select s" "todo_of g s = Some (Perform e # ps)" "source i = {e}"
    "t = ctl_takes_input env i (set_todo g ps s)" "e \<in> range TrEvent \<union> range ConnState"
proof -
  obtain e ps where e: "at_select s" "todo_of g s = Some (Perform e # ps)"
    using assms by (auto simp: ctl_takes_from_def split: option.splits list.splits if_splits pending.splits)
  with assms consider (ev) v where "e = TrEvent v" "t = ctl_takes_input env (TransportEvent v) (set_todo g ps s)"
    | (conn) b where "e = ConnState b" "t = ctl_takes_input env (TcpConnected b) (set_todo g ps s)"
    by (auto simp: ctl_takes_from_def split: tcp_effect.splits)
  then show ?thesis by cases (rule that [OF e], simp_all)+
qed

lemma takes_from_kept:
  assumes "ctl_takes_from env g s = Some t" "history env settings s"
  shows "history env settings t"
proof -
  obtain e i ps where t: "todo_of g s = Some (Perform e # ps)" "source i = {e}" "t = ctl_takes_input env i (set_todo g ps s)"
    by (rule takes_from_cases [OF assms(1)])
  have w: "Perform e \<in> waiting s" "set ps \<subseteq> waiting s" using waiting_of [OF t(1)] by auto
  then have "waiting (set_todo g ps s) \<subseteq> waiting s" using waiting_set_todo [of g ps s] by auto
  then have "from_transport (set_todo g ps s) \<subseteq> from_transport s" by (auto simp: from_transport_def)
  then have "history env settings (set_todo g ps s)"
    by (intro history_same [OF assms(2)]) (auto simp: put_out_def)
  moreover have "source i \<subseteq> put_out (set_todo g ps s)"
    using w(1) assms(2) t(2) by (auto simp: history_def from_transport_def put_out_def)
  ultimately show ?thesis unfolding t(3) by (rule input_kept)
qed

lemma ctl_goes_kept:
  assumes "ctl_goes s = Some t" "history env settings s"
  shows "history env settings t"
proof (rule history_same [OF assms(2)])
  show "chCtl t = chCtl s" "ctlIns t = ctlIns s" "put_out s \<subseteq> put_out t"
    "from_transport t \<subseteq> from_transport s \<union> put_out t"
    using assms(1)
    by (auto simp: ctl_goes_def from_transport_def put_out_def push_data_def split: list.splits effect.splits if_splits)
  show "set (toSendData (chTr t)) \<union> set (packets_in (ctlTodo t)) \<subseteq>
      set (toSendData (chTr s)) \<union> set (packets_in (ctlTodo s))"
    using assms(1) by (auto simp: ctl_goes_def push_data_def split: list.splits effect.splits if_splits)
qed

text \<open>A move of the transport, apart from what it takes from the controller.\<close>

lemma transport_moves_acts:
  assumes "transport_moves step wiring a s = Some t"
  obtains u where "transport_acts step wiring a u = Some t" "takesFrom wiring a \<noteq> Queue"
    "u = s\<lparr>chStarted := chStarted u, reconnects := reconnects u\<rparr>"
proof (cases "takesFrom wiring a")
  case (FromController st)
  with assms that [of "s\<lparr>chStarted := True\<rparr>"] show ?thesis by (simp add: transport_moves_def split: if_splits)
next
  case Reconnection
  with assms that [of "s\<lparr>reconnects := reconnects s - 1\<rparr>"] show ?thesis by (simp add: transport_moves_def split: if_splits)
next
  case Nobody
  with assms that [of s] show ?thesis by (simp add: transport_moves_def)
qed (use assms in \<open>simp add: transport_moves_def\<close>)

lemma acts_frame:
  assumes "transport_acts step wiring a s = Some t"
  shows "step a (chTr s) = Some (chTr t)" "chCtl t = chCtl s" "ctlTodo t = ctlTodo s" "ctlIns t = ctlIns s"
    "recvChan t = recvChan s" "logChan t = logChan s"
  using assms by (auto simp: transport_acts_def acted_def Let_def split: if_splits option.splits)

context tcp_interface
begin

lemma step_history:
  assumes "channel_step env step wiring m s = Some t" "history env settings s"
  shows "history env settings t"
proof -
  have move: "channel_move env step wiring m s = Some t" using assms(1) by (simp add: channel_step_def split: if_splits)
  show ?thesis
  proof (cases m)
    case (Transport a)
    then have "transport_moves step wiring a s = Some t" using move by simp
    then obtain u where u: "transport_acts step wiring a u = Some t" "takesFrom wiring a \<noteq> Queue"
      "u = s\<lparr>chStarted := chStarted u, reconnects := reconnects u\<rparr>" by (rule transport_moves_acts)
    have "history env settings (s\<lparr>chStarted := b, reconnects := n\<rparr>)" for b n
      by (rule history_same [OF assms(2)]) (auto simp: from_transport_def put_out_def)
    then have "history env settings u" by (subst u(3))
    with u(1,2) show ?thesis using puts_out keeps_queue by (blast intro: acts_kept)
  next
    case CtlTakesData
    then obtain bs rest where r: "recvChan s = bs # rest" "t = ctl_takes_input env (ReceivedData bs) (s\<lparr>recvChan := rest\<rparr>)"
      using move by (auto split: list.splits if_splits)
    have "history env settings (s\<lparr>recvChan := rest\<rparr>)"
      by (rule history_same [OF assms(2)]) (use r(1) in \<open>auto simp: from_transport_def put_out_def\<close>)
    moreover have "Received bs \<in> put_out s" using assms(2) r(1) by (auto simp: history_def from_transport_def)
    ultimately show ?thesis unfolding r(2) by (intro input_kept) (auto simp: put_out_def)
  next
    case CtlTakesLog
    then obtain l rest where r: "logChan s = l # rest" "t = ctl_takes_input env (TransportLog l) (s\<lparr>logChan := rest\<rparr>)"
      using move by (auto split: list.splits if_splits)
    have "history env settings (s\<lparr>logChan := rest\<rparr>)"
      by (rule history_same [OF assms(2)]) (use r(1) in \<open>auto simp: from_transport_def put_out_def\<close>)
    moreover have "TrLog l \<in> put_out s" using assms(2) r(1) by (auto simp: history_def from_transport_def)
    ultimately show ?thesis unfolding r(2) by (intro input_kept) (auto simp: put_out_def)
  next
    case (CtlTakes i)
    then have i: "own_input i (chCtl s)" "t = ctl_takes_input env i s" using move by (auto split: if_splits)
    from i(1) have "source i = {}" by (cases i) auto
    with assms(2) show ?thesis unfolding i(2) by (intro input_kept) simp_all
  qed (use move assms(2) goes_kept takes_from_kept ctl_goes_kept in \<open>auto\<close>)
qed

lemma run_history:
  "run_steps (channel_step env step wiring) ms s = Some t \<Longrightarrow> history env settings s \<Longrightarrow> history env settings t"
  by (erule run_steps_invariant [rotated]) (auto intro: step_history)

lemma goes_way: "goroutine_goes g s = Some t \<Longrightarrow> way_kept s \<Longrightarrow> way_kept t"
  by (auto simp: goroutine_goes_def way_kept_def split: option.splits list.splits pending.splits tcp_effect.splits if_splits)

lemma ctl_goes_way: "ctl_goes s = Some t \<Longrightarrow> way_kept s \<Longrightarrow> way_kept t"
  by (auto simp: ctl_goes_def way_kept_def on_way_def push_data_def split: list.splits effect.splits if_splits)

lemma way_set_todo [simp]: "way_kept (set_todo g ps s) = way_kept s"
  by (simp add: way_kept_def)

lemma takes_from_way: "ctl_takes_from env g s = Some t \<Longrightarrow> way_kept s \<Longrightarrow> way_kept t"
  by (erule takes_from_cases) (simp add: input_way at_select_def)

lemma step_way:
  assumes "channel_step env step wiring m s = Some t" "way_kept s" "\<not> panicked (chTr t)" "lossless lossy m"
  shows "way_kept t"
proof -
  have move: "channel_move env step wiring m s = Some t" using assms(1) by (simp add: channel_step_def split: if_splits)
  have recv: "way_kept (s\<lparr>recvChan := r, logChan := l\<rparr>)" for r l using assms(2) by (simp add: way_kept_def)
  show ?thesis
  proof (cases m)
    case (Transport a)
    then have "transport_moves step wiring a s = Some t" using move by simp
    then obtain u where u: "transport_acts step wiring a u = Some t" "takesFrom wiring a \<noteq> Queue"
      "u = s\<lparr>chStarted := chStarted u, reconnects := reconnects u\<rparr>" by (rule transport_moves_acts)
    have "way_kept (s\<lparr>chStarted := b, reconnects := n\<rparr>)" for b n using assms(2) by (simp add: way_kept_def)
    then have "way_kept u" by (subst u(3))
    moreover have "on_way (chTr t) = on_way (chTr u)"
      using keeps_way [OF acts_frame(1) [OF u(1)] assms(3) _ u(2)] assms(4) Transport by simp
    ultimately show ?thesis by (simp add: way_kept_def acts_frame [OF u(1)])
  next
    case CtlTakesData
    then show ?thesis using move input_way [OF recv [where l = "logChan s"]]
      by (auto simp: at_select_def split: list.splits if_splits)
  next
    case CtlTakesLog
    then show ?thesis using move input_way [OF recv [where r = "recvChan s"]]
      by (auto simp: at_select_def split: list.splits if_splits)
  next
    case (CtlTakes i)
    then show ?thesis using move input_way [OF assms(2)] by (auto simp: at_select_def split: if_splits)
  qed (use move assms(2) goes_way takes_from_way ctl_goes_way in \<open>auto\<close>)
qed

lemma run_way:
  assumes "run_steps (channel_step env step wiring) ms s = Some t" "\<not> panicked (chTr t)" "list_all (lossless lossy) ms"
  shows "way_kept s \<Longrightarrow> way_kept t"
  using assms
proof (induction ms arbitrary: s)
  case (Cons m ms)
  then obtain u where u: "channel_step env step wiring m s = Some u" "run_steps (channel_step env step wiring) ms u = Some t"
    by (auto split: option.splits)
  have "\<not> panicked (chTr u)"
  proof
    assume d: "panicked (chTr u)"
    with u(2) have "u = t" by (cases ms) (auto simp: channel_step_def)
    with d Cons.prems show False by simp
  qed
  with Cons step_way [OF u(1)] u(2) show ?case by simp
qed simp

end

interpretation client_tcp: tcp_interface "client_step clk" client_wiring client_lossy for clk
proof
  have none: "takesFrom client_wiring a \<noteq> Queue \<Longrightarrow> client_pushed a = []" for a by (cases a) simp_all
  show "client_step clk a s = Some t \<Longrightarrow> takesFrom client_wiring a \<noteq> Queue \<Longrightarrow> set (toSendData t) \<subseteq> set (toSendData s)" for a s t
    using client_keeps_queue [of clk a s t] none by simp
  show "client_step clk a s = Some t \<Longrightarrow> \<not> panicked t \<Longrightarrow> \<not> client_lossy a \<Longrightarrow> takesFrom client_wiring a \<noteq> Queue \<Longrightarrow>
      on_way t = on_way s" for a s t
    using client_keeps_way [of clk a s t] none by simp
qed (auto simp: client_step_def intro: client_adds_output)

interpretation server_tcp: tcp_interface "server_step clk" server_wiring server_lossy for clk
proof
  have none: "takesFrom server_wiring a \<noteq> Queue \<Longrightarrow> server_pushed a = []" for a by (cases a) simp_all
  show "server_step clk a s = Some t \<Longrightarrow> takesFrom server_wiring a \<noteq> Queue \<Longrightarrow> set (toSendData t) \<subseteq> set (toSendData s)" for a s t
    using server_keeps_queue [of clk a s t] none by simp
  show "server_step clk a s = Some t \<Longrightarrow> \<not> panicked t \<Longrightarrow> \<not> server_lossy a \<Longrightarrow> takesFrom server_wiring a \<noteq> Queue \<Longrightarrow>
      on_way t = on_way s" for a s t
    using server_keeps_way [of clk a s t] none by simp
qed (auto simp: server_step_def intro: server_adds_output)

end
