(* ===== verification/Channel_Wire.thy ===== *)
theory Channel_Wire
  imports Channel_Ways
begin

text \<open>
  Channels on the connection: what a client channel has written and read once its data flow, and a
  client channel joined with a server channel, from what the chief of the one hands over to what the
  controller of the other delivers.
\<close>

section \<open>The events after sending\<close>

text \<open>The events \<open>RSetup\<close> and \<open>LStartup\<close> are asked for with one packet each.\<close>

definition well_marked :: "sc_env \<Rightarrow> StateController \<Rightarrow> DataAndEvent \<Rightarrow> bool" where
  "well_marked env c d \<longleftrightarrow>
     EventAfterSend d \<in> {NoneEvent, RSetup, LStartup, LData} \<and>
     (EventAfterSend d = RSetup \<longrightarrow> DataToSend d = MakeFmtpPacket (on_wire env c (ownIdentificationMsg c))) \<and>
     (EventAfterSend d = LStartup \<longrightarrow> DataToSend d = MakeFmtpPacket (on_wire env c StartupMessage))"

definition marks :: "sc_env \<Rightarrow> StateController \<Rightarrow> StateController \<Rightarrow> bool" where
  "marks env c d \<longleftrightarrow> curSet d = curSet c \<and> ownIdentificationMsg d = ownIdentificationMsg c \<and>
     (\<exists>ds. sent d = sent c @ ds \<and> list_all (well_marked env c) ds)"

lemma well_marked_cong:
  "curSet d = curSet c \<Longrightarrow> ownIdentificationMsg d = ownIdentificationMsg c \<Longrightarrow> well_marked env d = well_marked env c"
  by (intro ext) (simp add: well_marked_def on_wire_def)

lemma marks_trans:
  assumes cd: "marks env c d" and de: "marks env d e" shows "marks env c e"
proof -
  have "well_marked env d = well_marked env c" using cd by (intro well_marked_cong) (simp_all add: marks_def)
  moreover obtain ds es where "sent d = sent c @ ds" "list_all (well_marked env c) ds"
    "sent e = sent d @ es" "list_all (well_marked env d) es" using cd de unfolding marks_def by blast
  ultimately show ?thesis using cd de by (simp add: marks_def)
qed

lemma marks_send:
  assumes "ev \<in> {NoneEvent, RSetup, LStartup, LData}" "ev = RSetup \<Longrightarrow> m = ownIdentificationMsg c" "ev = LStartup \<Longrightarrow> m = StartupMessage"
  shows "marks env c (sendPacket env m ev sv c)"
  using assms by (auto simp: marks_def well_marked_def on_wire_def)

lemma marks_silent:
  "sent d = sent c \<Longrightarrow> curSet d = curSet c \<Longrightarrow> ownIdentificationMsg d = ownIdentificationMsg c \<Longrightarrow> marks env c d"
  by (simp add: marks_def)

lemma control_packet_events:
  "(m, ev) \<in> control_packets c \<Longrightarrow> ev \<in> {NoneEvent, RSetup, LStartup, LData}"
  by (auto simp: control_packets_def)

interpretation marks: handler_relation marks
proof
  show "(m, ev) \<in> control_packets c \<Longrightarrow> marks env c (sendPacket env m ev sv c)" for m ev c env sv
    using control_packet_kinds(2,3) control_packet_events by (intro marks_send) blast+
  show "marks env c d \<Longrightarrow> marks env d e \<Longrightarrow> marks env c e" for env c d e by (rule marks_trans)
qed (simp_all add: marks_silent sent_def)

lemma step_marks: "marks env c (sc_step env i c)"
proof (cases "\<exists>m. i = FromChief m")
  case True
  then show ?thesis by (auto intro: marks_send)
qed (auto intro: marks.step_keeps)

lemma run_marks: "marks env c (sc_run env is c)"
  by (induction "is" arbitrary: c) (simp add: marks_silent, simp, blast intro: marks_trans step_marks)

lemma sent_marked:
  "d \<in> set (sent (sc_run env is (Work_start settings NewStateController))) \<Longrightarrow>
   well_marked env (Work_start settings NewStateController) d"
  using run_marks [of env "Work_start settings NewStateController" "is"]
  by (auto simp: marks_def example_controllers(3) list_all_iff)

section \<open>What a client channel has written and read\<close>

text \<open>An event after sending was preceded by its packet.\<close>

definition events_written :: "'x channel_sys \<Rightarrow> bool" where
  "events_written s \<longleftrightarrow> (\<forall>e. TrEvent e \<in> put_out s \<longrightarrow>
     (\<exists>d \<in> set (sent (chCtl s)). EventAfterSend d = e \<and> Written (DataToSend d) \<in> put_out s))"

lemma sent_step: "set (sent c) \<subseteq> set (sent (sc_step env i c))"
  using step_marks [of env c i] by (auto simp: marks_def)

lemma input_frame [simp]:
  "chTr (ctl_takes_input env i s) = chTr s" "chCtl (ctl_takes_input env i s) = sc_step env i (chCtl s)"
  "ctlIns (ctl_takes_input env i s) = ctlIns s @ [i]" "put_out (ctl_takes_input env i s) = put_out s"
  by (simp_all add: ctl_takes_input_def Let_def put_out_def)

lemma events_input:
  "events_written s \<Longrightarrow> chTr t = chTr s \<Longrightarrow> chCtl t = chCtl s \<or> (\<exists>i. chCtl t = sc_step env i (chCtl s)) \<Longrightarrow>
   events_written t"
  using sent_step by (fastforce simp: events_written_def put_out_def)

lemma events_step:
  assumes "channel_step env (client_step clk) client_wiring m s = Some t" "history env settings s" "events_written s"
  shows "events_written t"
proof -
  have move: "channel_move env (client_step clk) client_wiring m s = Some t"
    using assms(1) by (simp add: channel_step_def split: if_splits)
  have taken: "events_written t" if "chTr t = chTr s" "chCtl t = chCtl s \<or> (\<exists>i. chCtl t = sc_step env i (chCtl s))"
    using events_input [OF assms(3) that] .
  show ?thesis
  proof (cases m)
    case (Transport a)
    then have "transport_moves (client_step clk) client_wiring a s = Some t" using move by simp
    then obtain u where u: "transport_acts (client_step clk) client_wiring a u = Some t" "takesFrom client_wiring a \<noteq> Queue"
      "u = s\<lparr>chStarted := chStarted u, reconnects := reconnects u\<rparr>" by (rule transport_moves_acts)
    note f = acts_frame [OF u(1)]
    have s: "chTr u = chTr s" "chCtl t = chCtl s" unfolding f(2) by (subst u(3), simp)+
    have queue: "set (toSendData (chTr s)) \<subseteq> set (sent (chCtl s))" using assms(2) unfolding history_def by blast
    have kept: "put_out s \<subseteq> put_out t"
      using client_adds_output [OF f(1)] s(1) by (auto simp: adds_output_def put_out_def)
    show ?thesis
      unfolding events_written_def
    proof (intro allI impI)
      fix e
      assume "TrEvent e \<in> put_out t"
      then consider "TrEvent e \<in> put_out s"
        | "\<exists>d \<in> set (toSendData (chTr s)). EventAfterSend d = e \<and> Written (DataToSend d) \<in> put_out t"
        using client_event_written [OF f(1)] s(1) by (auto simp: put_out_def)
      then show "\<exists>d \<in> set (sent (chCtl t)). EventAfterSend d = e \<and> Written (DataToSend d) \<in> put_out t"
        using assms(3) kept queue unfolding events_written_def s(2) by cases blast+
    qed
  next
    case (Goes g)
    then have "chTr t = chTr s \<and> chCtl t = chCtl s" using move
      by (auto simp: goroutine_goes_def split: option.splits list.splits pending.splits tcp_effect.splits if_splits)
    then show ?thesis using taken by blast
  next
    case (CtlTakesFrom g)
    then have "ctl_takes_from env g s = Some t" using move by simp
    then show ?thesis by (rule takes_from_cases) (rule taken, auto)
  next
    case CtlGoes
    then show ?thesis using move assms(3)
      by (auto simp: ctl_goes_def events_written_def put_out_def push_data_def
          split: list.splits effect.splits if_splits)
  next
    case CtlTakesData
    show ?thesis
      by (rule taken) (use move CtlTakesData in \<open>auto simp del: sc_step.simps split: list.splits if_splits\<close>)
  next
    case CtlTakesLog
    show ?thesis
      by (rule taken) (use move CtlTakesLog in \<open>auto simp del: sc_step.simps split: list.splits if_splits\<close>)
  next
    case (CtlTakes i)
    show ?thesis
      by (rule taken) (use move CtlTakes in \<open>auto simp del: sc_step.simps split: if_splits\<close>)
  qed
qed

lemma client_channel_facts:
  assumes "client_channel env clk ms settings = Some s"
  shows "history env settings s \<and> events_written s"
proof (rule run_steps_invariant [OF _ assms])
  show "history env settings (channel_start settings NewFmtpTcpClient) \<and>
      events_written (channel_start settings NewFmtpTcpClient)"
    using start_history [of NewFmtpTcpClient env settings]
    by (simp add: NewFmtpTcpClient_def events_written_def put_out_def channel_start_def)
qed (auto intro: client_tcp.step_history events_step)

lemma input_of_event:
  assumes "e \<in> set (run_events_of settings is)"
  obtains i where "i \<in> set is"
    "e \<in> set (input_events (remoteIdentificationMsg (Work_start settings NewStateController)) i)"
  using assms by (auto simp: run_events_of_def)

lemma event_of_message:
  "e \<in> set (msg_events expected ms) \<longleftrightarrow> (\<exists>m \<in> set ms. msg_event expected m = Some e)"
  by (force simp: msg_events_def List.map_filter_def)

lemma message_of_event:
  "msg_event (CreateIdentificationMessage a b False) m = Some RIdValid \<Longrightarrow> m = CreateIdentificationMessage a b False"
  "msg_event expected m = Some RStartup \<Longrightarrow> m = StartupMessage"
  "msg_event expected m \<noteq> Some RSetup" "msg_event expected m \<noteq> Some LStartup"
  by (cases m; auto simp: msg_event_def message_defs CreateIdentificationMessage_def packet_type_defs split: if_splits)+

lemma timer_event_kinds [simp]:
  "timer_event t \<noteq> RSetup" "timer_event t \<noteq> LStartup" "timer_event t \<noteq> RIdValid" "timer_event t \<noteq> RStartup"
  by (cases t; simp)+

text \<open>Where an event of the controller came from: the transport reports events after sending only.\<close>

lemma reported_events:
  assumes "history env settings s" "events_written s" "TrEvent e \<in> put_out s"
  shows "e \<in> {NoneEvent, RSetup, LStartup, LData}"
    and "e = RSetup \<Longrightarrow> Written (MakeFmtpPacket (on_wire env (Work_start settings NewStateController)
      (CreateIdentificationMessage (LocalATC settings) (RemoteATC settings) True))) \<in> put_out s"
    and "e = LStartup \<Longrightarrow>
      Written (MakeFmtpPacket (on_wire env (Work_start settings NewStateController) StartupMessage)) \<in> put_out s"
proof -
  obtain d where d: "d \<in> set (sent (chCtl s))" "EventAfterSend d = e" "Written (DataToSend d) \<in> put_out s"
    using assms(2,3) unfolding events_written_def by blast
  have "chCtl s = sc_run env (ctlIns s) (Work_start settings NewStateController)" using assms(1) by (simp add: history_def)
  with d(1) have "well_marked env (Work_start settings NewStateController) d" using sent_marked by simp
  moreover have "ownIdentificationMsg (Work_start settings NewStateController) =
      CreateIdentificationMessage (LocalATC settings) (RemoteATC settings) True" by (simp add: Work_start_def)
  ultimately show "e \<in> {NoneEvent, RSetup, LStartup, LData}"
    "e = RSetup \<Longrightarrow> Written (MakeFmtpPacket (on_wire env (Work_start settings NewStateController)
      (CreateIdentificationMessage (LocalATC settings) (RemoteATC settings) True))) \<in> put_out s"
    "e = LStartup \<Longrightarrow>
      Written (MakeFmtpPacket (on_wire env (Work_start settings NewStateController) StartupMessage)) \<in> put_out s"
    using d by (auto simp: well_marked_def)
qed

lemma event_came:
  assumes "history env settings s" "events_written s" "e \<in> set (run_events_of settings (ctlIns s))"
  shows "e \<in> {RSetup, LStartup} \<Longrightarrow> TrEvent e \<in> put_out s"
    and "e \<in> {RIdValid, RStartup} \<Longrightarrow> \<exists>bs m. Received bs \<in> put_out s \<and> m \<in> set (messages bs) \<and>
      msg_event (CreateIdentificationMessage (LocalATC settings) (RemoteATC settings) False) m = Some e"
proof -
  obtain i where i: "i \<in> set (ctlIns s)"
    "e \<in> set (input_events (remoteIdentificationMsg (Work_start settings NewStateController)) i)"
    using input_of_event [OF assms(3)] .
  have src: "source i \<subseteq> put_out s" using assms(1) i(1) by (auto simp: history_def from_transport_def)
  show "TrEvent e \<in> put_out s" if "e \<in> {RSetup, LStartup}"
    using i(2) src that message_of_event(3,4) by (cases i) (auto simp: event_of_message split: if_splits)
  have none: "e \<in> {RIdValid, RStartup} \<Longrightarrow> TrEvent e \<notin> put_out s" using reported_events(1) [OF assms(1,2)] by auto
  show "\<exists>bs m. Received bs \<in> put_out s \<and> m \<in> set (messages bs) \<and>
      msg_event (CreateIdentificationMessage (LocalATC settings) (RemoteATC settings) False) m = Some e"
    if "e \<in> {RIdValid, RStartup}"
    using i(2) src that none by (cases i) (auto simp: event_of_message split: if_splits)
qed

lemma data_ready_reported:
  assumes "client_channel env clk ms settings = Some s" "NetRole settings = ''client''"
    and "currentState (chCtl s) = DataReady"
  shows "{RSetup, RIdValid, LStartup, RStartup} \<subseteq> set (run_events_of settings (ctlIns s))"
proof -
  have "history env settings s" using client_channel_facts [OF assms(1)] by simp
  then have "currentState (sc_run env (ctlIns s) (Work_start settings NewStateController)) = DataReady"
    using assms(3) by (simp add: history_def)
  then have sub: "subseq [LSetup, RSetup, RIdValid, LStartup, RStartup] (run_events_of settings (ctlIns s))"
    using assms(2) by (intro client_machine.run_passes_keys [of Idle]) (simp_all add: started_run)
  have "set [LSetup, RSetup, RIdValid, LStartup, RStartup] \<subseteq> set (run_events_of settings (ctlIns s))"
    using list_emb_set [OF sub] by blast
  then show ?thesis by simp
qed

end
