(* ===== verification/Channel_Runs.thy ===== *)
theory Channel_Runs
  imports Channel_Wire
begin

text \<open>
  Runs of a client channel. Where there is room in the queue the controller gets done what an
  iteration has put out (\<open>taken_settles\<close>), so that its next \<open>select\<close> is reached; with the two loops of
  a connection waiting, a packet is written with its event taken (\<open>writes_next\<close>) and a chunk is read
  (\<open>reads_chunk\<close>). Put together these bring a channel up.
\<close>

section \<open>Getting done\<close>

text \<open>A run in which no write fails leads from one state to another.\<close>

definition leads ::
  "('a \<Rightarrow> bool) \<Rightarrow> sc_env \<Rightarrow> ('a \<Rightarrow> 'x transport_scheme \<Rightarrow> 'x transport_scheme option) \<Rightarrow> 'a wiring \<Rightarrow>
   'x channel_sys \<Rightarrow> 'x channel_sys \<Rightarrow> bool" where
  "leads lossy env step wiring s t \<longleftrightarrow>
     (\<exists>ms. run_steps (channel_step env step wiring) ms s = Some t \<and> list_all (lossless lossy) ms)"

abbreviation client_leads where
  "client_leads env clk \<equiv> leads client_lossy env (client_step clk) client_wiring"

abbreviation server_leads where
  "server_leads env clk \<equiv> leads server_lossy env (server_step clk) server_wiring"

lemma leads_refl [simp]: "leads l env step w s s"
  unfolding leads_def by (rule exI [of _ "[]"]) simp

lemma leads_trans:
  assumes "leads l env step w s t" "leads l env step w t u"
  shows "leads l env step w s u"
proof -
  obtain ms ns where "run_steps (channel_step env step w) ms s = Some t" "list_all (lossless l) ms"
    "run_steps (channel_step env step w) ns t = Some u" "list_all (lossless l) ns"
    using assms unfolding leads_def by blast
  then show ?thesis unfolding leads_def by (intro exI [of _ "ms @ ns"]) (simp add: run_steps_append)
qed

lemma leads_run:
  "run_steps (channel_step env step w) ms s = Some t \<and> list_all (lossless l) ms \<Longrightarrow> leads l env step w s t"
  unfolding leads_def by blast

definition reconnection :: "effect \<Rightarrow> bool" where
  "reconnection e = (case e of ReconnectAfter t \<Rightarrow> True | _ \<Rightarrow> False)"

definition settled :: "'x channel_sys \<Rightarrow> 'x channel_sys" where
  "settled s = s\<lparr>ctlTodo := [],
     chTr := (chTr s)\<lparr>toSendData := toSendData (chTr s) @ packets_in (ctlTodo s)\<rparr>,
     reconnects := reconnects s + length (filter reconnection (ctlTodo s))\<rparr>"

lemma controller_settles:
  "\<not> panicked (chTr s) \<Longrightarrow> length (toSendData (chTr s)) + length (packets_in (ctlTodo s)) \<le> data_capacity \<Longrightarrow>
   leads l env step w s (settled s)"
proof (induction "ctlTodo s" arbitrary: s)
  case Nil
  then have "settled s = s" by (cases s, cases "chTr s", simp add: settled_def)
  then show ?case by simp
next
  case (Cons e es)
  define u where "u = (s\<lparr>ctlTodo := es, chTr := (chTr s)\<lparr>toSendData := toSendData (chTr s) @ sending e\<rparr>,
    reconnects := reconnects s + (if reconnection e then 1 else 0)\<rparr>)"
  have todo: "ctlTodo s = e # es" using Cons.hyps(2) by simp
  have "channel_step env step w CtlGoes s = Some u"
    using Cons.prems unfolding channel_step_def
    by (cases e) (simp_all add: ctl_goes_def todo u_def push_data_def reconnection_def)
  then have "leads l env step w s u" by (intro leads_run [of _ _ _ "[CtlGoes]"]) simp
  moreover have "leads l env step w u (settled u)"
    by (rule Cons.hyps(1)) (use Cons.prems todo in \<open>simp_all add: u_def\<close>)
  moreover have "settled u = settled s" by (simp add: settled_def u_def todo)
  ultimately show ?case by (metis leads_trans)
qed

section \<open>One iteration\<close>

definition new_packets :: "sc_env \<Rightarrow> sc_input \<Rightarrow> StateController \<Rightarrow> DataAndEvent list" where
  "new_packets env i c = packets_in (drop (length (out c)) (out (sc_step env i c)))"

lemma new_packets_sent: "sent (sc_step env i c) = sent c @ ps \<Longrightarrow> new_packets env i c = ps"
  using step_grows [of env i c] by (auto simp: new_packets_def sent_packets)

text \<open>The state after an iteration that got done.\<close>

definition iterated :: "sc_env \<Rightarrow> sc_input \<Rightarrow> 'x channel_sys \<Rightarrow> 'x channel_sys" where
  "iterated env i s = settled (ctl_takes_input env i s)"

lemma taken_settles:
  "\<not> panicked (chTr s) \<Longrightarrow> length (toSendData (chTr s)) + length (new_packets env i (chCtl s)) \<le> data_capacity \<Longrightarrow>
   leads l env step w (ctl_takes_input env i s) (iterated env i s)"
  unfolding iterated_def by (rule controller_settles) (simp_all add: ctl_takes_input_def new_packets_def Let_def)

lemma iterated_frame [simp]:
  "chCtl (iterated env i s) = sc_step env i (chCtl s)" "ctlTodo (iterated env i s) = []"
  "ctlIns (iterated env i s) = ctlIns s @ [i]" "chStarted (iterated env i s) = chStarted s"
  "workTodo (iterated env i s) = workTodo s" "loopTodo (iterated env i s) = loopTodo s"
  "listenerTodo (iterated env i s) = listenerTodo s" "recvChan (iterated env i s) = recvChan s"
  "logChan (iterated env i s) = logChan s"
  "chTr (iterated env i s) = (chTr s)\<lparr>toSendData := toSendData (chTr s) @ new_packets env i (chCtl s)\<rparr>"
  by (simp_all add: iterated_def settled_def ctl_takes_input_def Let_def new_packets_def)

text \<open>Everything is at its \<open>select\<close>, and a connection is open or not.\<close>

definition calm :: "'x channel_sys \<Rightarrow> bool" where
  "calm s \<longleftrightarrow> at_select s \<and> workTodo s = [] \<and> recvChan s = [] \<and> \<not> panicked (chTr s) \<and> workPc (chTr s) = WorkSelect"

definition joined :: "'x channel_sys \<Rightarrow> bool" where
  "joined s \<longleftrightarrow> calm s \<and> tcpOpen (chTr s) \<and> loops (chTr s) = [RecvSelect, SendSelect] \<and> loopTodo s = [Some [], Some []]"

definition room_for :: "nat \<Rightarrow> 'x channel_sys \<Rightarrow> bool" where
  "room_for n s \<longleftrightarrow> length (toSendData (chTr s)) + n \<le> data_capacity"

definition putting :: "tcp_effect list \<Rightarrow> 'x channel_sys \<Rightarrow> 'x channel_sys" where
  "putting es s = s\<lparr>chTr := (chTr s)\<lparr>trOut := trOut (chTr s) @ es\<rparr>\<rparr>"

lemma putting_frame [simp]:
  "chCtl (putting es s) = chCtl s" "chTr (putting es s) = (chTr s)\<lparr>trOut := trOut (chTr s) @ es\<rparr>"
  "ctlTodo (putting es s) = ctlTodo s" "loopTodo (putting es s) = loopTodo s" "workTodo (putting es s) = workTodo s"
  "recvChan (putting es s) = recvChan s" "chStarted (putting es s) = chStarted s" "ctlIns (putting es s) = ctlIns s"
  "logChan (putting es s) = logChan s"
  by (simp_all add: putting_def)

definition popped :: "'x channel_sys \<Rightarrow> 'x channel_sys" where
  "popped s = s\<lparr>chTr := (chTr s)\<lparr>toSendData := tl (toSendData (chTr s))\<rparr>\<rparr>"

lemma popped_frame [simp]:
  "chCtl (popped s) = chCtl s" "chTr (popped s) = (chTr s)\<lparr>toSendData := tl (toSendData (chTr s))\<rparr>"
  "ctlTodo (popped s) = ctlTodo s" "loopTodo (popped s) = loopTodo s" "workTodo (popped s) = workTodo s"
  "recvChan (popped s) = recvChan s" "chStarted (popped s) = chStarted s" "ctlIns (popped s) = ctlIns s"
  "logChan (popped s) = logChan s"
  by (simp_all add: popped_def)

lemmas channel_run_simps =
  channel_step_def transport_moves_def transport_acts_def acted_def todo_of_def without_loop_def
  set_todo_def goroutine_goes_def ctl_takes_from_def at_select_def client_step_def loop_at_def tr_defs Let_def

lemma writes_silent:
  assumes "joined s" "toSendData (chTr s) = d # rest" "EventAfterSend d = NoneEvent"
  shows "client_leads env clk s (putting [Written (DataToSend d)] (popped s))"
  by (rule leads_run [of _ _ _ "[Transport (CSend 1 None)]"])
    (use assms in \<open>simp add: channel_run_simps joined_def calm_def send_next_def putting_def popped_def\<close>)

lemma writes_next:
  assumes "joined s" "toSendData (chTr s) = d # rest" "EventAfterSend d = e" "e \<noteq> NoneEvent"
    and "length rest + length (new_packets env (TransportEvent e) (chCtl s)) \<le> data_capacity"
  shows "client_leads env clk s
    (iterated env (TransportEvent e) (putting [Written (DataToSend d), TrEvent e] (popped s)))"
proof (rule leads_trans)
  show "client_leads env clk s
      (ctl_takes_input env (TransportEvent e) (putting [Written (DataToSend d), TrEvent e] (popped s)))"
    by (rule leads_run [of _ _ _ "[Transport (CSend 1 None), CtlTakesFrom (InLoop 1)]"])
      (use assms in \<open>cases s, cases "chTr s", simp add: channel_run_simps joined_def calm_def send_next_def putting_def popped_def\<close>)
  show "client_leads env clk
      (ctl_takes_input env (TransportEvent e) (putting [Written (DataToSend d), TrEvent e] (popped s)))
      (iterated env (TransportEvent e) (putting [Written (DataToSend d), TrEvent e] (popped s)))"
    by (rule taken_settles) (use assms in \<open>simp_all add: joined_def calm_def\<close>)
qed

lemma reads_chunk:
  assumes "joined s" "bs \<noteq> []" "length bs \<le> 1024"
    and "room_for (length (new_packets env (ReceivedData bs) (chCtl s))) s"
  shows "client_leads env clk s (iterated env (ReceivedData bs) (putting [Received bs] s))"
proof (rule leads_trans)
  show "client_leads env clk s (ctl_takes_input env (ReceivedData bs) (putting [Received bs] s))"
    by (rule leads_run [of _ _ _ "[Transport (CPoll 0), Transport (CRead 0 (Inr bs)), Goes (InLoop 0), CtlTakesData]"])
      (use assms in \<open>cases s, cases "chTr s", simp add: channel_run_simps joined_def calm_def recv_poll_def recv_read_def putting_def data_capacity_def\<close>)
  show "client_leads env clk (ctl_takes_input env (ReceivedData bs) (putting [Received bs] s))
      (iterated env (ReceivedData bs) (putting [Received bs] s))"
    by (rule taken_settles) (use assms in \<open>simp_all add: joined_def calm_def room_for_def\<close>)
qed

lemma own_settles:
  assumes "calm s" "own_input i (chCtl s)" "room_for (length (new_packets env i (chCtl s))) s"
  shows "leads l env step w s (iterated env i s)"
proof (rule leads_trans)
  show "leads l env step w s (ctl_takes_input env i s)"
    by (rule leads_run [of _ _ _ "[CtlTakes i]"]) (use assms in \<open>simp add: channel_step_def calm_def\<close>)
  show "leads l env step w (ctl_takes_input env i s) (iterated env i s)"
    by (rule taken_settles) (use assms in \<open>simp_all add: calm_def room_for_def\<close>)
qed

lemma calm_kept [simp]:
  "calm (iterated env i s) \<longleftrightarrow> chStarted s \<and> workTodo s = [] \<and> recvChan s = [] \<and> \<not> panicked (chTr s) \<and> workPc (chTr s) = WorkSelect"
  "calm (putting es s) = calm s" "calm (popped s) = calm s"
  by (auto simp: calm_def at_select_def)

lemma joined_kept [simp]:
  "joined s \<Longrightarrow> joined (iterated env i s)" "joined (putting es s) = joined s" "joined (popped s) = joined s"
  by (auto simp: joined_def calm_def at_select_def)

section \<open>A channel comes up\<close>

text \<open>An iteration for one event, with the packets of the transition.\<close>

definition reacts_to :: "sc_env \<Rightarrow> FmtpEvent \<Rightarrow> StateController \<Rightarrow> DataAndEvent list" where
  "reacts_to env e c = map (ctl_packet env c) (transition_sends (NetRole (curSet c)) (currentState c) e)"

lemma reaction_packets: "well_set c \<Longrightarrow> stands_for i e c \<Longrightarrow> new_packets env i c = reacts_to env e c"
  unfolding reacts_to_def by (rule new_packets_sent) (rule reaction(2))

text \<open>The changes of the connection among what a transport has put out.\<close>

fun connection_change :: "tcp_effect \<Rightarrow> bool" where
  "connection_change (ConnState b) = True" | "connection_change Closed = True" | "connection_change _ = False"

text \<open>Where a client channel is: its connection, the state of its controller, what waits in the queue,
  and what was written and read.\<close>

definition standing ::
  "ChannelSettings \<Rightarrow> 'x channel_sys \<Rightarrow> FmtpState \<Rightarrow> DataAndEvent list \<Rightarrow> byte list list \<Rightarrow> byte list list \<Rightarrow>
   FmtpMessage list \<Rightarrow> bool" where
  "standing settings s st queue wr rd ms \<longleftrightarrow>
     joined s \<and> well_set (chCtl s) \<and> curSet (chCtl s) = settings \<and> currentState (chCtl s) = st \<and>
     toSendData (chTr s) = queue \<and> written_data (trOut (chTr s)) = wr \<and> received_chunks (trOut (chTr s)) = rd \<and>
     filter connection_change (trOut (chTr s)) = [ConnState True] \<and> length (logChan s) = 1 \<and>
     chief_messages (ctlIns s) = ms"

definition sends_on :: "sc_env \<Rightarrow> ChannelSettings \<Rightarrow> FmtpState \<Rightarrow> FmtpEvent \<Rightarrow> DataAndEvent list" where
  "sends_on env settings st e =
     map (kind_packet env (DataEncoding settings) (own_id settings)) (transition_sends (NetRole settings) st e)"

lemma sends_few: "length (sends_on env settings st e) \<le> 2"
proof -
  have "length (exit_sends r st e) \<le> 1" "length (enter_sends r s') \<le> 1" for r s'
    by (cases st; simp) (cases s'; simp)
  from add_mono [OF this(1) [of "NetRole settings"] this(2) [of "NetRole settings" "nextState (NetRole settings) st e"]]
  show ?thesis by (simp add: sends_on_def transition_sends_def)
qed

lemma chief_messages_snoc [simp]:
  "chief_messages (is @ [i]) = chief_messages is @ (case i of FromChief m \<Rightarrow> [m] | _ \<Rightarrow> [])"
  by (simp add: chief_messages_def)

lemma standing_reacts:
  assumes "standing settings s st queue wr rd ms" "stands_for i e (chCtl s)"
  shows "new_packets env i (chCtl s) = sends_on env settings st e"
    and "standing settings (iterated env i s) (move (NetRole settings) st e) (queue @ sends_on env settings st e) wr rd ms"
proof -
  have w: "well_set (chCtl s)" "curSet (chCtl s) = settings" "currentState (chCtl s) = st"
    using assms(1) by (simp_all add: standing_def)
  have other: "(case i of FromChief m \<Rightarrow> [m] | _ \<Rightarrow> []) = []"
    using assms(2) by (auto simp: stands_for_def split: sc_input.split)
  show new: "new_packets env i (chCtl s) = sends_on env settings st e"
    unfolding reaction_packets [OF w(1) assms(2)] by (simp add: reacts_to_def sends_on_def well_setD(2) [OF w(1)] w)
  show "standing settings (iterated env i s) (move (NetRole settings) st e) (queue @ sends_on env settings st e) wr rd ms"
    using assms(1) step_well_set [OF w(1), of env i] reaction(1) [OF w(1) assms(2), of env] new other
    by (simp add: standing_def w)
qed

lemma standing_writes:
  assumes "standing settings s st (d # rest) wr rd ms" "EventAfterSend d = NoneEvent"
  shows "\<exists>t. client_leads env clk s t \<and>
    standing settings t st rest (wr @ [DataToSend d]) rd ms"
proof (intro exI conjI)
  show "client_leads env clk s (putting [Written (DataToSend d)] (popped s))"
    using assms by (intro writes_silent) (simp_all add: standing_def)
  show "standing settings (putting [Written (DataToSend d)] (popped s)) st rest (wr @ [DataToSend d]) rd ms"
    using assms by (simp add: standing_def)
qed

lemma standing_writes_event:
  assumes "standing settings s st (d # rest) wr rd ms" "EventAfterSend d = e" "e \<noteq> NoneEvent" "length rest \<le> 1000"
  shows "\<exists>t. client_leads env clk s t \<and>
    standing settings t (move (NetRole settings) st e) (rest @ sends_on env settings st e) (wr @ [DataToSend d]) rd ms"
proof -
  let ?u = "putting [Written (DataToSend d), TrEvent e] (popped s)"
  have u: "standing settings ?u st rest (wr @ [DataToSend d]) rd ms" using assms(1) by (simp add: standing_def)
  have i: "stands_for (TransportEvent e) e (chCtl ?u)" by (simp add: stands_for_def)
  note r = standing_reacts [OF u i, of env]
  have "length rest + length (sends_on env settings st e) \<le> data_capacity"
    using assms(4) sends_few [of env settings st e] by (simp add: data_capacity_def)
  then have "client_leads env clk s (iterated env (TransportEvent e) ?u)"
    using assms r(1) by (intro writes_next) (simp_all add: standing_def)
  with r(2) show ?thesis by blast
qed

lemma standing_reads:
  assumes "standing settings s st queue wr rd ms" "sendable m" "length (msgText m) \<le> 1019"
    and "msg_event (expected_id settings) m = Some e" "length queue \<le> 1000"
  shows "\<exists>t. client_leads env clk s t \<and>
    standing settings t (move (NetRole settings) st e) (queue @ sends_on env settings st e) wr
      (rd @ [MakeFmtpPacket m]) ms"
proof -
  let ?bs = "MakeFmtpPacket m"
  let ?u = "putting [Received ?bs] s"
  have u: "standing settings ?u st queue wr (rd @ [?bs]) ms" using assms(1) by (simp add: standing_def)
  have i: "stands_for (ReceivedData ?bs) e (chCtl s)" using assms by (auto simp: stands_for_def standing_def)
  then have i': "stands_for (ReceivedData ?bs) e (chCtl ?u)" by simp
  note r = standing_reacts [OF u i', of env]
  have "length queue + length (sends_on env settings st e) \<le> data_capacity"
    using assms(5) sends_few [of env settings st e] by (simp add: data_capacity_def)
  then have room: "room_for (length (new_packets env (ReceivedData ?bs) (chCtl s))) s"
    using assms(1) standing_reacts(1) [OF assms(1) i, of env] by (simp add: standing_def room_for_def)
  have len: "length ?bs = 5 + length (msgText m)" by (simp add: MakeFmtpPacket_eq)
  then have "?bs \<noteq> []" by (cases ?bs) simp_all
  then have "client_leads env clk s (iterated env (ReceivedData ?bs) ?u)"
    using assms(1,3) room len by (intro reads_chunk) (simp_all add: standing_def)
  with r(2) show ?thesis by blast
qed

lemma chief_packet:
  "new_packets env (FromChief m) c = [\<lparr>DataToSend = MakeFmtpPacket (on_wire env c m), EventAfterSend = LData\<rparr>]"
  by (rule new_packets_sent) (simp add: on_wire_def)

lemma standing_chief:
  assumes "standing settings s st queue wr rd ms" "length queue \<le> 1000"
  shows "\<exists>t. client_leads env clk s t \<and> standing settings t st
    (queue @ [\<lparr>DataToSend = MakeFmtpPacket (wire_message env (DataEncoding settings) m), EventAfterSend = LData\<rparr>]) wr rd (ms @ [m])"
proof (intro exI conjI)
  have w: "well_set (chCtl s)" "curSet (chCtl s) = settings" using assms(1) by (simp_all add: standing_def)
  show "client_leads env clk s (iterated env (FromChief m) s)"
    by (rule own_settles) (use assms in \<open>simp_all add: standing_def joined_def room_for_def chief_packet data_capacity_def\<close>)
  show "standing settings (iterated env (FromChief m) s) st
    (queue @ [\<lparr>DataToSend = MakeFmtpPacket (wire_message env (DataEncoding settings) m), EventAfterSend = LData\<rparr>]) wr rd (ms @ [m])"
    using assms(1) step_well_set [OF w(1), of env "FromChief m"] w(2)
    by (simp add: standing_def chief_packet on_wire_def)
qed

lemma client_connects:
  assumes "transport_settings settings \<noteq> zeroTcpSettings" "NetRole settings = ''client''"
  shows "\<exists>s. client_leads env clk (channel_start settings NewFmtpTcpClient) s \<and>
    standing settings s ConPending (sends_on env settings Idle LSetup) [] [] []"
proof -
  let ?c = "Work_start settings NewStateController"
  let ?s = "channel_start settings NewFmtpTcpClient"
  let ?l = "LogChannelST (clk 0) SeverityDebug ((ru ''Ustanovleno '') @ ''TCP '' @ (ru ''soedinenie '') @ ''FMTP '' @ (ru ''kanala.''))"
  define tr where "tr = NewFmtpTcpClient\<lparr>trCurSett := transport_settings settings, tcpOpen := True,
    loops := [RecvSelect, SendSelect], trOut := [TrLog ?l, ConnState True]\<rparr>"
  define u where "u = ?s\<lparr>chStarted := True, chTr := tr, workTodo := [StartLoops], loopTodo := [None, None], logChan := [?l]\<rparr>"
  have w: "well_set ?c" by (rule start_well_set)
  have i: "stands_for (TcpConnected True) LSetup ?c" by (auto simp: stands_for_def)
  have new: "new_packets env (TcpConnected True) ?c = sends_on env settings Idle LSetup"
    unfolding reaction_packets [OF w i] by (simp add: reacts_to_def sends_on_def well_setD(2) [OF w])
  have few: "length (sends_on env settings Idle LSetup) \<le> data_capacity"
    using sends_few [of env settings Idle LSetup] by (simp add: data_capacity_def)
  have "client_leads env clk ?s (ctl_takes_input env (TcpConnected True) u)"
    by (rule leads_run [of _ _ _ "[Transport (CSettings (transport_settings settings) None None), Goes InWork, CtlTakesFrom InWork]"])
      (use assms in \<open>simp add: channel_run_simps u_def tr_def channel_start_def NewFmtpTcpClient_def startClient_def
        zeroTcpSettings_def log_capacity_def\<close>)
  moreover have "client_leads env clk (ctl_takes_input env (TcpConnected True) u) (iterated env (TcpConnected True) u)"
    by (rule taken_settles) (use new few in \<open>simp_all add: u_def tr_def NewFmtpTcpClient_def channel_start_def\<close>)
  moreover define t where "t = (iterated env (TcpConnected True) u)\<lparr>workTodo := [], loopTodo := [Some [], Some []]\<rparr>"
  have "client_leads env clk (iterated env (TcpConnected True) u) t"
    by (rule leads_run [of _ _ _ "[Goes InWork]"])
      (simp add: channel_step_def goroutine_goes_def todo_of_def set_todo_def u_def tr_def NewFmtpTcpClient_def t_def)
  ultimately have "client_leads env clk ?s t" by (metis leads_trans)
  moreover have "standing settings t ConPending (sends_on env settings Idle LSetup) [] [] []"
    using step_well_set [OF w, of env "TcpConnected True"] reaction(1) [OF w i, of env] new assms(2)
    by (simp add: standing_def joined_def calm_def at_select_def t_def u_def tr_def channel_start_def NewFmtpTcpClient_def
        move_def nextState_protocol del: sc_step.simps)
  ultimately show ?thesis by blast
qed

text \<open>The run of a client channel that brings it up: its own identification, acceptance and startup are
  written, and the identification and the startup of the peer read.\<close>

definition client_wrote :: "sc_env \<Rightarrow> ChannelSettings \<Rightarrow> byte list list" where
  "client_wrote env settings =
     map (\<lambda>m. MakeFmtpPacket (wire_message env (DataEncoding settings) m)) [own_id settings, AcceptMessage, StartupMessage]"

lemma sends_on_way:
  assumes "NetRole settings = ''client''"
  shows "sends_on env settings Idle LSetup = [kind_packet env (DataEncoding settings) (own_id settings) (KId, RSetup)]"
    "sends_on env settings ConPending RSetup = []"
    "sends_on env settings IdPending RIdValid =
      [kind_packet env (DataEncoding settings) (own_id settings) (KAccept, NoneEvent),
       kind_packet env (DataEncoding settings) (own_id settings) (KStartup, LStartup)]"
    "sends_on env settings Ready LStartup = []"
    "sends_on env settings AssPending RStartup =
      [kind_packet env (DataEncoding settings) (own_id settings) (KStartup, LStartup)]"
  using assms by (simp_all add: sends_on_def transition_sends_def nextState_protocol TcpClientText_def)

lemma client_establishes:
  assumes "transport_settings settings \<noteq> zeroTcpSettings" "NetRole settings = ''client''"
    and "length (LocalATC settings) + length (RemoteATC settings) \<le> 1000"
  shows "\<exists>ms s. client_channel env clk ms settings = Some s \<and> currentState (chCtl s) = DataReady \<and>
    written_data (trOut (chTr s)) = client_wrote env settings \<and>
    received_chunks (trOut (chTr s)) = map MakeFmtpPacket [expected_id settings, StartupMessage]"
proof -
  let ?lead = "client_leads env clk"
  note sends = sends_on_way [OF assms(2)]
  have moves: "move (NetRole settings) ConPending RSetup = IdPending" "move (NetRole settings) IdPending RIdValid = Ready"
    "move (NetRole settings) Ready LStartup = AssPending" "move (NetRole settings) AssPending RStartup = DataReady"
    by (simp_all add: assms(2) move_def nextState_protocol)
  have id: "sendable (expected_id settings)" "length (msgText (expected_id settings)) \<le> 1019"
    "msg_event (expected_id settings) (expected_id settings) = Some RIdValid"
    using assms(3) id_text_not_answer [of "LocalATC settings" "RemoteATC settings" False]
    by (simp_all add: expected_id_def CreateIdentificationMessage_def sendable_def msg_event_def)
  have startup: "sendable StartupMessage" "length (msgText StartupMessage) \<le> 1019"
    "msg_event (expected_id settings) StartupMessage = Some RStartup"
    by (simp_all add: message_defs sendable_def msg_event_def)
  obtain s1 where s1: "?lead (channel_start settings NewFmtpTcpClient) s1"
    "standing settings s1 ConPending (sends_on env settings Idle LSetup) [] [] []"
    using client_connects [OF assms(1,2)] by blast
  obtain s2 where s2: "?lead s1 s2" "standing settings s2 IdPending [] [MakeFmtpPacket (wire_message env (DataEncoding settings) (own_id settings))] [] []"
    using standing_writes_event [OF s1(2) [unfolded sends], of RSetup] by (auto simp: kind_packet_def sends moves)
  obtain s3 where s3: "?lead s2 s3" "standing settings s3 Ready (sends_on env settings IdPending RIdValid)
      [MakeFmtpPacket (wire_message env (DataEncoding settings) (own_id settings))] [MakeFmtpPacket (expected_id settings)] []"
    using standing_reads [OF s2(2) id] by (auto simp: moves)
  obtain s4 where s4: "?lead s3 s4" "standing settings s4 Ready
      [kind_packet env (DataEncoding settings) (own_id settings) (KStartup, LStartup)]
      (take 2 (client_wrote env settings)) [MakeFmtpPacket (expected_id settings)] []"
    using standing_writes [OF s3(2) [unfolded sends]] by (auto simp: kind_packet_def client_wrote_def)
  obtain s5 where s5: "?lead s4 s5" "standing settings s5 AssPending [] (client_wrote env settings) [MakeFmtpPacket (expected_id settings)] []"
    using standing_writes_event [OF s4(2), of LStartup] by (auto simp: kind_packet_def sends moves client_wrote_def)
  obtain s6 where s6: "?lead s5 s6" "standing settings s6 DataReady (sends_on env settings AssPending RStartup) (client_wrote env settings)
      [MakeFmtpPacket (expected_id settings), MakeFmtpPacket StartupMessage] []"
    using standing_reads [OF s5(2) startup] by (auto simp: moves)
  have "?lead (channel_start settings NewFmtpTcpClient) s6"
    using s1(1) s2(1) s3(1) s4(1) s5(1) s6(1) by (blast intro: leads_trans)
  then show ?thesis using s6(2) by (auto simp: leads_def standing_def)
qed

text \<open>A message of the chief is passed on, after the identification.\<close>

lemma client_passes:
  assumes "transport_settings settings \<noteq> zeroTcpSettings" "NetRole settings = ''client''"
  shows "\<exists>acts s. client_channel env clk acts settings = Some s \<and> list_all (lossless client_lossy) acts \<and>
    \<not> panicked (chTr s) \<and> chief_messages (ctlIns s) = [m] \<and> toSendData (chTr s) = [] \<and> ctlTodo s = [] \<and>
    written_data (trOut (chTr s)) =
      map (\<lambda>m. MakeFmtpPacket (wire_message env (DataEncoding settings) m)) [own_id settings, m]"
proof -
  let ?lead = "client_leads env clk"
  let ?data = "\<lparr>DataToSend = MakeFmtpPacket (wire_message env (DataEncoding settings) m), EventAfterSend = LData\<rparr>"
  note sends = sends_on_way [OF assms(2)]
  have none: "sends_on env settings IdPending LData = []"
    by (simp add: sends_on_def transition_sends_def assms(2) nextState_protocol)
  obtain s1 where s1: "?lead (channel_start settings NewFmtpTcpClient) s1"
    "standing settings s1 ConPending (sends_on env settings Idle LSetup) [] [] []"
    using client_connects [OF assms(1,2)] by blast
  obtain s2 where s2: "?lead s1 s2" "standing settings s2 ConPending
      [kind_packet env (DataEncoding settings) (own_id settings) (KId, RSetup), ?data] [] [] [m]"
    using standing_chief [OF s1(2) [unfolded sends], of env clk m] by auto
  obtain s3 where s3: "?lead s2 s3" "standing settings s3 IdPending [?data]
      [MakeFmtpPacket (wire_message env (DataEncoding settings) (own_id settings))] [] [m]"
    using standing_writes_event [OF s2(2), of RSetup env clk]
    by (auto simp: kind_packet_def sends assms(2) move_def nextState_protocol)
  obtain s4 where s4: "?lead s3 s4" "standing settings s4 Idle []
      (map (\<lambda>m. MakeFmtpPacket (wire_message env (DataEncoding settings) m)) [own_id settings, m]) [] [m]"
    using standing_writes_event [OF s3(2), of LData env clk] none by (auto simp: assms(2) move_def nextState_protocol)
  have "?lead (channel_start settings NewFmtpTcpClient) s4" using s1(1) s2(1) s3(1) s4(1) by (blast intro: leads_trans)
  then obtain acts where "client_channel env clk acts settings = Some s4" "list_all (lossless client_lossy) acts"
    by (auto simp: leads_def)
  then show ?thesis
    using s4(2) by (intro exI [of _ acts] exI [of _ s4]) (simp add: standing_def joined_def calm_def at_select_def)
qed

section \<open>A server channel reads\<close>

text \<open>Where a server channel is: it listens, and has read and handed to its controller the same chunks.\<close>

definition listening ::
  "ChannelSettings \<Rightarrow> 'x TcpTransportServer_ext channel_sys \<Rightarrow> FmtpState \<Rightarrow> byte list list \<Rightarrow> bool" where
  "listening settings s st rd \<longleftrightarrow> calm s \<and> listenerTodo s = (\<lambda>j. []) \<and> listeners (chTr s) = [Accepting] \<and>
     trCurSett (chTr s) = transport_settings settings \<and> length (logChan s) \<le> 2 \<and>
     well_set (chCtl s) \<and> curSet (chCtl s) = settings \<and> currentState (chCtl s) = st \<and> toSendData (chTr s) = [] \<and>
     received_chunks (trOut (chTr s)) = rd \<and> chunks_in (ctlIns s) = rd"

lemma chunks_in_append [simp]: "chunks_in (is @ js) = chunks_in is @ chunks_in js"
  by (simp add: chunks_in_def)

lemma no_listeners: "(\<lambda>j. if j = 0 then [] else (if j = 0 then ps else [])) = (\<lambda>j. [])" "(\<lambda>j. []) (0 := []) = (\<lambda>j. [])"
  by auto

lemma server_listens:
  assumes "transport_settings settings \<noteq> zeroTcpSettings" "NetRole settings = ''server''"
  shows "\<exists>s. server_leads env clk (channel_start settings NewFmtpTcpServer) s \<and> listening settings s Idle [] \<and>
    \<not> tcpOpen (chTr s) \<and> loops (chTr s) = [] \<and> loopTodo s = [] \<and> length (logChan s) = 1"
proof -
  let ?c = "Work_start settings NewStateController"
  let ?s = "channel_start settings NewFmtpTcpServer"
  let ?lead = "server_leads env clk"
  let ?up = "TcpConnected True"
  have w: "well_set ?c" by (rule start_well_set)
  have i: "stands_for ?up LSetup ?c" by (auto simp: stands_for_def)
  have new: "new_packets env ?up ?c = []"
    unfolding reaction_packets [OF w i] by (simp add: reacts_to_def transition_sends_def assms(2) nextState_protocol)
  define l where "l = LogChannelST (clk 1) SeverityInfo ((ru ''Zapuqen '') @ ''TCP '' @ (ru ''server '') @ ''FMTP '' @ (ru ''kanala.''))"
  define tr where "tr = NewFmtpTcpServer\<lparr>trCurSett := transport_settings settings, listeners := [Accepting],
    trOut := [ConnState True, TrLog l]\<rparr>"
  define u where "u = ?s\<lparr>chStarted := True, chTr := tr, listenerTodo := (\<lambda>j. []) (0 := [Perform (TrLog l)])\<rparr>"
  define t where "t = (iterated env ?up u)\<lparr>listenerTodo := (\<lambda>j. []) (0 := []), logChan := [l]\<rparr>"
  have "?lead ?s (ctl_takes_input env ?up u)"
    by (rule leads_run [of _ _ _ "[Transport (SSettings (transport_settings settings)), Transport (SListen 0 None), CtlTakesFrom (InListener 0)]"])
      (use assms in \<open>simp add: channel_run_simps server_step_def server_listen_def listener_at_def u_def tr_def l_def
        channel_start_def NewFmtpTcpServer_def zeroTcpSettings_def\<close>)
  moreover have "?lead (ctl_takes_input env ?up u) (iterated env ?up u)"
    by (rule taken_settles) (use new in \<open>simp_all add: u_def tr_def NewFmtpTcpServer_def channel_start_def\<close>)
  moreover have "?lead (iterated env ?up u) t"
    by (rule leads_run [of _ _ _ "[Goes (InListener 0)]"])
      (simp add: channel_step_def goroutine_goes_def todo_of_def set_todo_def t_def u_def tr_def NewFmtpTcpServer_def
        log_capacity_def channel_start_def)
  ultimately have "?lead ?s t" by (blast intro: leads_trans)
  moreover have "listening settings t Idle [] \<and> \<not> tcpOpen (chTr t) \<and> loops (chTr t) = [] \<and> loopTodo t = [] \<and> length (logChan t) = 1"
    using new step_well_set [OF w, of env ?up] reaction(1) [OF w i, of env] assms(2)
    by (simp add: listening_def calm_def at_select_def t_def u_def tr_def NewFmtpTcpServer_def channel_start_def no_listeners
        move_def nextState_protocol del: sc_step.simps)
  ultimately show ?thesis by blast
qed

lemma server_joins:
  assumes "listening settings s Idle rd" "\<not> tcpOpen (chTr s)" "loops (chTr s) = []" "loopTodo s = []" "length (logChan s) = 1"
    and "NetRole settings = ''server''"
  shows "\<exists>t. server_leads env clk s t \<and> listening settings t SysIdPending rd \<and> joined t"
proof -
  let ?lead = "server_leads env clk"
  let ?up = "TcpConnected True" and ?ev = "TransportEvent RSetup"
  let ?addr = "RemoteAddress settings"
  note s = assms(1) [unfolded listening_def]
  define l where "l = LogChannelST (clk (length (trOut (chTr s)))) SeverityInfo
    ((ru ''Uspewnoe podkl04enie klienta k '') @ ''TCP '' @ (ru ''serveru '') @ ''FMTP '' @ (ru ''kanala. '') @
     (ru ''Adres podkl04ennogo klienta: '' @ ''<'') @ ?addr @ ''>'')"
  define tr where "tr = (chTr s)\<lparr>tcpOpen := True, trOut := trOut (chTr s) @ [TrLog l, ConnState True, TrEvent RSetup],
    loops := [RecvSelect, SendSelect]\<rparr>"
  define u where "u = s\<lparr>chTr := tr, loopTodo := [None, None], logChan := logChan s @ [l],
    listenerTodo := (\<lambda>j. []) (0 := [Perform (TrEvent RSetup), StartLoops])\<rparr>"
  define u' where "u' = (iterated env ?up u)\<lparr>listenerTodo := (\<lambda>j. []) (0 := [StartLoops])\<rparr>"
  define t where "t = (iterated env ?ev u')\<lparr>listenerTodo := (\<lambda>j. []) (0 := []), loopTodo := [Some [], Some []]\<rparr>"
  define c where "c = sc_step env ?up (chCtl s)"
  have w: "well_set (chCtl s)" "well_set c" "curSet (chCtl s) = settings" "curSet c = settings"
    using s step_well_set by (simp_all add: c_def del: sc_step.simps)
  have i: "stands_for ?up LSetup (chCtl s)" "stands_for ?ev RSetup c" by (auto simp: stands_for_def)
  have st: "currentState c = Idle" "currentState (sc_step env ?ev c) = SysIdPending"
    using reaction(1) [OF w(1) i(1), of env] reaction(1) [OF w(2) i(2), of env] s assms(6) w(3,4)
    by (simp_all add: c_def move_def nextState_protocol del: sc_step.simps)
  have new: "new_packets env ?up (chCtl s) = []" "new_packets env ?ev c = []"
    unfolding reaction_packets [OF w(1) i(1)] reaction_packets [OF w(2) i(2)]
    using s by (simp_all add: reacts_to_def transition_sends_def assms(6) w(3,4) st nextState_protocol)
  have "?lead s (ctl_takes_input env ?up u)"
    by (rule leads_run [of _ _ _ "[Transport (SAccept 0 (Inr ?addr)), Goes (InListener 0), CtlTakesFrom (InListener 0)]"])
      (use s assms in \<open>simp add: channel_run_simps calm_def server_step_def server_accept_def listener_at_def u_def tr_def l_def
        transport_settings_def TcpClientText_def log_capacity_def numeral_2_eq_2\<close>)
  moreover have "?lead (ctl_takes_input env ?up u) (iterated env ?up u)"
    by (rule taken_settles) (use new s in \<open>simp_all add: u_def tr_def calm_def\<close>)
  moreover have "?lead (iterated env ?up u) (ctl_takes_input env ?ev u')"
    by (rule leads_run [of _ _ _ "[CtlTakesFrom (InListener 0)]"])
      (use s in \<open>simp add: channel_run_simps u'_def u_def tr_def calm_def\<close>)
  moreover have "?lead (ctl_takes_input env ?ev u') (iterated env ?ev u')"
    by (rule taken_settles) (use new s in \<open>simp_all add: u'_def u_def tr_def calm_def c_def\<close>)
  moreover have "?lead (iterated env ?ev u') t"
    by (rule leads_run [of _ _ _ "[Goes (InListener 0)]"])
      (use s in \<open>simp add: channel_step_def goroutine_goes_def todo_of_def set_todo_def t_def u'_def u_def tr_def calm_def\<close>)
  ultimately have "?lead s t" by (blast intro: leads_trans)
  moreover have "listening settings t SysIdPending rd \<and> joined t"
    using s new st w step_well_set [OF w(2), of env ?ev] assms(5)
    by (simp add: listening_def joined_def calm_def at_select_def t_def u'_def u_def tr_def no_listeners c_def del: sc_step.simps)
  ultimately show ?thesis by blast
qed

lemma server_reads:
  assumes "transport_settings settings \<noteq> zeroTcpSettings" "NetRole settings = ''server''"
    and "bs \<noteq> []" "length bs \<le> 8192"
  shows "\<exists>acts t. server_channel env clk acts settings = Some t \<and> received_chunks (trOut (chTr t)) = [bs] \<and>
    chunks_in (ctlIns t) = [bs]"
proof -
  obtain s1 where s1: "server_leads env clk (channel_start settings NewFmtpTcpServer) s1" "listening settings s1 Idle []"
    "\<not> tcpOpen (chTr s1)" "loops (chTr s1) = []" "loopTodo s1 = []" "length (logChan s1) = 1"
    using server_listens [OF assms(1,2)] by blast
  obtain s2 where s2: "server_leads env clk s1 s2" "listening settings s2 SysIdPending []" "joined s2"
    using server_joins [OF s1(2-6) assms(2)] by blast
  let ?t = "ctl_takes_input env (ReceivedData bs) (putting [Received bs] s2)"
  have "server_leads env clk s2 ?t"
    by (rule leads_run [of _ _ _ "[Transport (SPoll 0), Transport (SRead 0 (Inr bs)), Goes (InLoop 0), CtlTakesData]"])
      (use assms s2(3) in \<open>cases s2, cases "chTr s2", simp add: channel_run_simps server_step_def recv_poll_def recv_read_def
        joined_def calm_def putting_def data_capacity_def\<close>)
  with s1(1) s2(1) have "server_leads env clk (channel_start settings NewFmtpTcpServer) ?t" by (blast intro: leads_trans)
  moreover have "received_chunks (trOut (chTr ?t)) = [bs]" "chunks_in (ctlIns ?t) = [bs]"
    using s2(2) by (simp_all add: listening_def)
  ultimately show ?thesis unfolding leads_def by blast
qed

section \<open>Properties\<close>

lemma example_settings:
  "transport_settings example_client \<noteq> zeroTcpSettings" "NetRole example_client = ''client''"
  "length (LocalATC example_client) + length (RemoteATC example_client) \<le> 1000"
  "transport_settings example_server \<noteq> zeroTcpSettings" "NetRole example_server = ''server''"
  by (simp_all add: example_defs transport_settings_def zeroTcpSettings_def TcpClientText_def)



text \<open>C5: A client channel whose data flow has been through the handshake on the connection itself,
  whatever the schedule of its goroutines: its own identification and its startup were written, and the
  identification that is expected of the peer and its startup were read.\<close>

theorem data_ready_on_wire:
  assumes "client_channel env clk ms settings = Some s" and "NetRole settings = ''client''"
    and "currentState (chCtl s) = DataReady"
  shows "{Written (MakeFmtpPacket (on_wire env (Work_start settings NewStateController) m)) | m.
       m \<in> {CreateIdentificationMessage (LocalATC settings) (RemoteATC settings) True, StartupMessage}} \<subseteq> set (trOut (chTr s)) \<and>
    (\<forall>m \<in> {CreateIdentificationMessage (LocalATC settings) (RemoteATC settings) False, StartupMessage}.
       \<exists>bs. Received bs \<in> set (trOut (chTr s)) \<and> m \<in> set (messages bs))"
proof -
  have h: "history env settings s" "events_written s" using client_channel_facts [OF assms(1)] by simp_all
  note e = data_ready_reported [OF assms]
  let ?own = "CreateIdentificationMessage (LocalATC settings) (RemoteATC settings) True"
  let ?remote = "CreateIdentificationMessage (LocalATC settings) (RemoteATC settings) False"
  let ?wire = "\<lambda>m. Written (MakeFmtpPacket (on_wire env (Work_start settings NewStateController) m))"
  have "?wire ?own \<in> put_out s" by (rule reported_events(2) [OF h event_came(1) [OF h]]) (use e in simp_all)
  moreover have "?wire StartupMessage \<in> put_out s"
    by (rule reported_events(3) [OF h event_came(1) [OF h]]) (use e in simp_all)
  moreover have "\<exists>bs. Received bs \<in> put_out s \<and> ?remote \<in> set (messages bs)"
    using event_came(2) [OF h, of RIdValid] e message_of_event(1) by (metis insertI1 insert_subset)
  moreover have "\<exists>bs. Received bs \<in> put_out s \<and> StartupMessage \<in> set (messages bs)"
    using event_came(2) [OF h, of RStartup] e message_of_event(2) by (metis insertI1 insert_commute insert_subset)
  ultimately show ?thesis unfolding put_out_def by blast
qed

theorem data_ready_on_wire_witness:
  "\<exists>ms s. client_channel example_env (\<lambda>n. []) ms example_client = Some s \<and> currentState (chCtl s) = DataReady \<and>
    {Written (MakeFmtpPacket (on_wire example_env (Work_start example_client NewStateController) m)) | m.
       m \<in> {CreateIdentificationMessage (LocalATC example_client) (RemoteATC example_client) True, StartupMessage}} \<subseteq> set (trOut (chTr s)) \<and>
    (\<forall>m \<in> {CreateIdentificationMessage (LocalATC example_client) (RemoteATC example_client) False, StartupMessage}.
       \<exists>bs. Received bs \<in> set (trOut (chTr s)) \<and> m \<in> set (messages bs))"
proof -
  obtain ms s where s: "client_channel example_env (\<lambda>n. []) ms example_client = Some s" "currentState (chCtl s) = DataReady"
    using client_establishes [OF example_settings(1-3), of example_env "\<lambda>n. []"] by blast
  from data_ready_on_wire [OF s(1) example_settings(2) s(2)] s show ?thesis by blast
qed

text \<open>C11: A client channel can come up: with the connection made and the identification and the
  startup of the peer coming in, its goroutines get the data flow ready without waiting for each other,
  and what they write is the own identification, the acceptance and the startup, in this order.\<close>

theorem channel_establishes:
  assumes "transport_settings settings \<noteq> zeroTcpSettings" and "NetRole settings = ''client''"
    and "length (LocalATC settings) + length (RemoteATC settings) \<le> 1000"
  shows "\<exists>ms s. client_channel env clk ms settings = Some s \<and> currentState (chCtl s) = DataReady \<and>
    written_data (trOut (chTr s)) = map (\<lambda>m. MakeFmtpPacket (wire_message env (DataEncoding settings) m))
      [CreateIdentificationMessage (LocalATC settings) (RemoteATC settings) True, AcceptMessage, StartupMessage] \<and>
    received_chunks (trOut (chTr s)) =
      map MakeFmtpPacket [CreateIdentificationMessage (LocalATC settings) (RemoteATC settings) False, StartupMessage]"
  using client_establishes [OF assms] by (simp add: client_wrote_def own_id_def expected_id_def)

theorem channel_establishes_witness:
  "\<exists>ms s. client_channel example_env (\<lambda>n. []) ms example_client = Some s \<and> currentState (chCtl s) = DataReady \<and>
    written_data (trOut (chTr s)) = map (\<lambda>m. MakeFmtpPacket (wire_message example_env (DataEncoding example_client) m))
      [CreateIdentificationMessage (LocalATC example_client) (RemoteATC example_client) True, AcceptMessage, StartupMessage] \<and>
    received_chunks (trOut (chTr s)) =
      map MakeFmtpPacket [CreateIdentificationMessage (LocalATC example_client) (RemoteATC example_client) False, StartupMessage]"
  by (rule channel_establishes [OF example_settings(1-3)])

end
