(* ===== verification/Channel_Blocks.thy ===== *)
theory Channel_Blocks
  imports Channel_Runs
begin

text \<open>
  Where a client channel does not come back. A backlog of more packets than \<open>toSendDataChan\<close> has
  room for makes the controller wait for the transport, and the transport, which starts its loops
  only when the controller has taken the state of the connection, waits for the controller. And each
  way into the idle state asks for a connection of its own, whether or not one was asked for before.
\<close>

section \<open>A backlog that stays\<close>

definition sender_waits :: "loop_pc \<Rightarrow> pending list option \<Rightarrow> bool" where
  "sender_waits pc wt \<longleftrightarrow> StartLoops \<notin> (case wt of None \<Rightarrow> {} | Some ps \<Rightarrow> set ps) \<and>
     (pc = SendSelect \<longrightarrow> wt = None \<or> (\<exists>e ps. wt = Some (Perform (TrEvent e) # ps)))"

fun connects_first :: "pending list \<Rightarrow> bool" where
  "connects_first [] = True"
| "connects_first (StartLoops # ps) = False"
| "connects_first (Perform (ConnState b) # ps) = True"
| "connects_first (Perform e # ps) = connects_first ps"

definition stuck :: "'x channel_sys \<Rightarrow> bool" where
  "stuck s \<longleftrightarrow> chStarted s \<and> (\<exists>d es. ctlTodo s = SendData d # es) \<and> data_capacity \<le> length (toSendData (chTr s)) \<and>
     list_all2 sender_waits (loops (chTr s)) (loopTodo s) \<and> connects_first (workTodo s) \<and> (\<forall>j. listenerTodo s j = [])"

lemma sender_waits_simps [simp]:
  "sender_waits pc None" "sender_waits SendSelect (Some []) = False"
  "pc \<noteq> SendSelect \<Longrightarrow> sender_waits pc (Some []) = True"
  "StartLoops \<notin> set ps \<Longrightarrow> pc \<noteq> SendSelect \<Longrightarrow> sender_waits pc (Some ps) = True"
  by (auto simp: sender_waits_def)

lemma waits_without:
  "list_all2 sender_waits ls ts \<Longrightarrow> list_all2 sender_waits (take i ls @ drop (Suc i) ls) (take i ts @ drop (Suc i) ts)"
  by (intro list_all2_appendI list_all2_takeI list_all2_dropI)

lemma waits_update:
  "list_all2 sender_waits ls ts \<Longrightarrow> pc \<noteq> SendSelect \<Longrightarrow> StartLoops \<notin> set ps \<Longrightarrow>
   list_all2 sender_waits (ls[i := pc]) (ts[i := Some ps])"
  by (intro list_all2_update_cong) auto

lemma waits_update_loop:
  "list_all2 sender_waits ls ts \<Longrightarrow> pc \<noteq> SendSelect \<Longrightarrow> i < length ls \<Longrightarrow> ts ! i = Some [] \<Longrightarrow>
   list_all2 sender_waits (ls[i := pc]) ts"
  using waits_update [of ls ts pc "[]" i] list_update_id [of ts i] by simp

text \<open>What stays as it is.\<close>

definition same_state :: "'x channel_sys \<Rightarrow> 'x channel_sys \<Rightarrow> bool" where
  "same_state s t \<longleftrightarrow> chCtl t = chCtl s \<and> ctlIns t = ctlIns s \<and> ctlTodo t = ctlTodo s \<and>
     toSendData (chTr t) = toSendData (chTr s) \<and> written_data (trOut (chTr t)) = written_data (trOut (chTr s))"

lemma idle_sender:
  assumes "stuck s" "todo_of (InLoop i) s = Some []" "loop_at i SendSelect (chTr s)"
  shows False
  using assms list_all2_nthD [of sender_waits "loops (chTr s)" "loopTodo s" i]
  by (auto simp: stuck_def todo_of_def loop_at_def split: if_splits)

lemma acts_view:
  assumes "transport_acts step w a s = Some t"
  obtains u where "step a (chTr s) = Some u" "list_all (\<lambda>g. todo_of g s = Some []) (stepOf w a)" "t = acted w a u s"
  using assms by (auto simp: transport_acts_def split: if_splits option.splits)

lemma connects_first_conn: "ConnState b \<in> set es \<Longrightarrow> connects_first (map Perform (filter handed es) @ ps)"
proof (induction es)
  case (Cons e es)
  then show ?case by (cases e) auto
qed simp

lemma conn_handed: "ConnState b \<in> set es \<Longrightarrow> filter handed es \<noteq> []"
  by (force simp: filter_empty_conv)

text \<open>What the steps of the client do to its loops and its queue.\<close>

lemma reconnect_view:
  assumes "client_step clk (CReconnect d k) tr = Some u"
  shows "toSendData u = toSendData tr \<and> (loops u = loops tr \<or> loops u = loops tr @ [RecvSelect, SendSelect]) \<and>
    (\<exists>es. trOut u = trOut tr @ es \<and> written_data es = [] \<and> (\<exists>b. ConnState b \<in> set es))"
  using assms by (auto simp: client_step_def startClient_def tr_defs Let_def split: if_splits option.splits)

lemma cancel_view:
  assumes "client_step clk (CTakeCancel i e) tr = Some u"
  shows "toSendData u = toSendData tr \<and> loops u = take i (loops tr) @ drop (Suc i) (loops tr) \<and> i < length (loops tr) \<and>
    (\<exists>es. trOut u = trOut tr @ es \<and> written_data es = [] \<and> (\<exists>b. ConnState b \<in> set es))"
  using assms
  by (auto simp: client_step_def take_cancel_def client_stopped_def loop_at_def tr_defs Let_def
      split: if_splits option.splits)

lemma read_view:
  assumes "client_step clk (CRead i r) tr = Some u \<or> client_step clk (CPoll i) tr = Some u"
  shows "toSendData u = toSendData tr \<and> (\<exists>pc. loops u = (loops tr)[i := pc] \<and> pc \<noteq> SendSelect) \<and>
    (\<exists>es. trOut u = trOut tr @ es \<and> written_data es = [])"
proof -
  have same: "\<exists>pc. loops tr = (loops tr)[i := pc] \<and> pc \<noteq> SendSelect" if "loop_at i pc tr" "pc \<noteq> SendSelect" for pc
    using that by (intro exI [of _ pc]) (auto simp: loop_at_def)
  note same [of RecvRead, simplified] same [of RecvSelect, simplified]
  then show ?thesis
    using assms
    by (auto simp: client_step_def recv_poll_def recv_read_def tr_defs Let_def
        split: if_splits option.splits sum.splits)
qed

lemma stuck_work:
  assumes "stuck s" "toSendData u = toSendData (chTr s)" "trOut u = trOut (chTr s) @ es" "written_data es = []"
    and "list_all2 sender_waits (loops u) ts" "connects_first ps"
  shows "stuck (s\<lparr>chTr := u, loopTodo := ts, workTodo := ps\<rparr>) \<and> same_state s (s\<lparr>chTr := u, loopTodo := ts, workTodo := ps\<rparr>)"
  using assms by (simp add: stuck_def same_state_def)

lemma stuck_reads:
  assumes "stuck s" "t = acted client_wiring a u s" "a = CPoll i \<or> a = CRead i r"
    and "client_step clk a (chTr s) = Some u" "todo_of (InLoop i) s = Some []"
  shows "stuck t \<and> same_state s t"
proof -
  have all2: "list_all2 sender_waits (loops (chTr s)) (loopTodo s)" using assms(1) by (simp add: stuck_def)
  then have len: "length (loopTodo s) = length (loops (chTr s))" by (simp add: list_all2_lengthD)
  have "toSendData u = toSendData (chTr s) \<and> (\<exists>pc. loops u = (loops (chTr s))[i := pc] \<and> pc \<noteq> SendSelect) \<and>
      (\<exists>es. trOut u = trOut (chTr s) @ es \<and> written_data es = [])"
    using assms(3,4) by (intro read_view) auto
  then obtain pc es where u: "toSendData u = toSendData (chTr s)" "loops u = (loops (chTr s))[i := pc]" "pc \<noteq> SendSelect"
    "trOut u = trOut (chTr s) @ es" "written_data es = []" by blast
  have idle: "i < length (loopTodo s)" "loopTodo s ! i = Some []"
    using assms(5) by (auto simp: todo_of_def split: if_splits)
  define ps where "ps = map Perform (filter handed es)"
  have t: "t = s\<lparr>chTr := u, loopTodo := (loopTodo s)[i := Some ps]\<rparr>"
  proof (cases "ps = []")
    case True
    have "(loopTodo s)[i := Some []] = loopTodo s" using idle(2) by (metis list_update_id)
    moreover have "t = s\<lparr>chTr := u, loopTodo := loopTodo s\<rparr>"
      using True assms(2,3) by (auto simp: acted_def u without_loop_def len ps_def Let_def)
    ultimately show ?thesis using True by simp
  next
    case False
    then show ?thesis
      using assms(2,3) by (auto simp: acted_def u without_loop_def len ps_def set_todo_def Let_def)
  qed
  have "list_all2 sender_waits (loops u) ((loopTodo s)[i := Some ps])"
    unfolding u(2) by (rule waits_update [OF all2 u(3)]) (auto simp: ps_def)
  then show ?thesis using assms(1) unfolding t by (simp add: stuck_def same_state_def u)
qed

lemma stuck_acts:
  assumes "transport_acts (client_step clk) client_wiring a s = Some t" "stuck s" "client_takes a \<in> {Reconnection, Nobody}"
  shows "stuck t \<and> same_state s t"
proof -
  obtain u where v: "client_step clk a (chTr s) = Some u" "list_all (\<lambda>g. todo_of g s = Some []) (client_goroutines a)"
    "t = acted client_wiring a u s"
    by (rule acts_view [OF assms(1)]) simp
  have all2: "list_all2 sender_waits (loops (chTr s)) (loopTodo s)" using assms(2) by (simp add: stuck_def)
  then have len: "length (loopTodo s) = length (loops (chTr s))" by (simp add: list_all2_lengthD)
  show ?thesis
  proof (cases a)
    case (CReconnect d k)
    note r = reconnect_view [OF v(1) [unfolded CReconnect]]
    then obtain b es where es: "ConnState b \<in> set es" "trOut u = trOut (chTr s) @ es" "written_data es = []" by auto
    define ps where "ps = map Perform (filter handed es) @ (if length (loopTodo s) < length (loops u) then [StartLoops] else [])"
    define ts where "ts = loopTodo s @ replicate (length (loops u) - length (loopTodo s)) None"
    note conn_handed [OF es(1)]
    then have t: "t = s\<lparr>chTr := u, loopTodo := ts, workTodo := ps\<rparr>"
      by (simp add: v(3) acted_def es(2) CReconnect without_loop_def set_todo_def ps_def ts_def Let_def)
    have "list_all2 sender_waits (loops u) ts"
      using r all2 len by (auto simp: ts_def numeral_2_eq_2 intro!: list_all2_appendI)
    moreover have "connects_first ps" unfolding ps_def by (rule connects_first_conn [OF es(1)])
    ultimately show ?thesis unfolding t using r by (intro stuck_work [OF assms(2) _ es(2,3)]) simp_all
  next
    case (CTakeCancel i e)
    note r = cancel_view [OF v(1) [unfolded CTakeCancel]]
    then obtain b es where es: "ConnState b \<in> set es" "trOut u = trOut (chTr s) @ es" "written_data es = []" by auto
    define ts where "ts = take i (loopTodo s) @ drop (Suc i) (loopTodo s)"
    have all: "list_all2 sender_waits (loops u) ts" using r waits_without [OF all2, of i] by (simp add: ts_def)
    then have same: "length ts = length (loops u)" by (simp add: list_all2_lengthD)
    note conn_handed [OF es(1)]
    then have t: "t = s\<lparr>chTr := u, loopTodo := ts, workTodo := map Perform (filter handed es)\<rparr>"
      using same by (simp add: v(3) acted_def es(2) CTakeCancel without_loop_def set_todo_def ts_def [symmetric] Let_def)
    have "connects_first (map Perform (filter handed es))" using connects_first_conn [OF es(1), of "[]"] by simp
    then show ?thesis unfolding t using r by (intro stuck_work [OF assms(2) _ es(2,3) all]) simp_all
  next
    case (CTakeError i)
    define ts where "ts = take i (loopTodo s) @ drop (Suc i) (loopTodo s)"
    have u: "u = (end_loop i (chTr s))\<lparr>workPc := WorkCancel\<rparr>" "workTodo s = []"
      using v(1,2) by (auto simp: CTakeError client_step_def take_error_def todo_of_def split: if_splits)
    have out: "trOut u = trOut (chTr s)" "loops u = take i (loops (chTr s)) @ drop (Suc i) (loops (chTr s))"
      "toSendData u = toSendData (chTr s)" by (simp_all add: u(1) end_loop_def)
    have all: "list_all2 sender_waits (loops u) ts" using waits_without [OF all2, of i] by (simp add: out ts_def)
    then have "length ts = length (loops u)" by (simp add: list_all2_lengthD)
    then have "t = s\<lparr>chTr := u, loopTodo := ts\<rparr>"
      by (simp add: v(3) acted_def out CTakeError without_loop_def ts_def [symmetric] Let_def)
    moreover have "s\<lparr>chTr := u, loopTodo := ts\<rparr> = s\<lparr>chTr := u, loopTodo := ts, workTodo := []\<rparr>" using u(2) by (cases s) simp
    ultimately have t: "t = s\<lparr>chTr := u, loopTodo := ts, workTodo := []\<rparr>" by (rule trans)
    show ?thesis
      unfolding t by (rule stuck_work [OF assms(2) _ _ _ all, where es = "[]"]) (simp_all add: out)
  next
    case (CSend i e)
    have "loop_at i SendSelect (chTr s)"
      using v(1) by (auto simp: CSend client_step_def send_next_def split: if_splits)
    moreover have "todo_of (InLoop i) s = Some []" using v(2) by (simp add: CSend)
    ultimately show ?thesis using idle_sender [OF assms(2)] by blast
  next
    case (CPoll i)
    then show ?thesis using stuck_reads [OF assms(2) v(3)] v(1,2) by simp
  next
    case (CRead i r)
    then show ?thesis using stuck_reads [OF assms(2) v(3)] v(1,2) by simp
  qed (use assms(3) in auto)
qed

lemma stuck_goes:
  assumes "goroutine_goes g s = Some t" "stuck s"
  shows "stuck t \<and> same_state s t"
proof (cases g)
  case InWork
  show ?thesis
    using assms
    by (auto simp: InWork goroutine_goes_def todo_of_def set_todo_def stuck_def same_state_def
        split: list.splits pending.splits tcp_effect.splits if_splits)
next
  case (InListener j)
  then show ?thesis using assms by (simp add: goroutine_goes_def todo_of_def stuck_def)
next
  case (InLoop i)
  obtain p ps where p: "todo_of (InLoop i) s = Some (p # ps)"
    using assms(1) by (auto simp: InLoop goroutine_goes_def split: option.splits list.splits)
  then have at: "i < length (loopTodo s)" "loopTodo s ! i = Some (p # ps)" by (auto simp: todo_of_def split: if_splits)
  have all2: "list_all2 sender_waits (loops (chTr s)) (loopTodo s)" using assms(2) by (simp add: stuck_def)
  then have w: "sender_waits (loops (chTr s) ! i) (Some (p # ps))"
    using at list_all2_nthD2 by fastforce
  then have no: "StartLoops \<notin> set (p # ps)" by (simp add: sender_waits_def)
  have e: "(\<exists>l. p = Perform (TrLog l)) \<or> (\<exists>bs. p = Perform (Received bs))"
    using assms(1) p no by (auto simp: InLoop goroutine_goes_def split: pending.splits tcp_effect.splits)
  then have "loops (chTr s) ! i \<noteq> SendSelect" using w by (auto simp: sender_waits_def)
  then have "list_all2 sender_waits (loops (chTr s)) ((loopTodo s)[i := Some ps])"
    using waits_update [OF all2, of "loops (chTr s) ! i" ps i] no by simp
  then show ?thesis
    using assms e p
    by (auto simp: InLoop goroutine_goes_def set_todo_def stuck_def same_state_def split: if_splits)
qed

lemma stuck_step:
  assumes "channel_step env (client_step clk) client_wiring m s = Some t" "stuck s"
  shows "stuck t \<and> same_state s t"
proof -
  have move: "channel_move env (client_step clk) client_wiring m s = Some t"
    using assms(1) by (simp add: channel_step_def split: if_splits)
  have busy: "\<not> at_select s" "ctl_goes s = None" using assms(2) by (auto simp: stuck_def at_select_def ctl_goes_def)
  show ?thesis
  proof (cases m)
    case (Transport a)
    then have t: "transport_moves (client_step clk) client_wiring a s = Some t" using move by simp
    have started: "chStarted s" using assms(2) by (simp add: stuck_def)
    show ?thesis
    proof (cases "client_takes a")
      case Reconnection
      then have "transport_acts (client_step clk) client_wiring a (s\<lparr>reconnects := reconnects s - 1\<rparr>) = Some t"
        using t by (simp add: transport_moves_def split: if_splits)
      moreover have "stuck (s\<lparr>reconnects := reconnects s - 1\<rparr>)" using assms(2) by (simp add: stuck_def)
      ultimately have "stuck t \<and> same_state (s\<lparr>reconnects := reconnects s - 1\<rparr>) t"
        using stuck_acts Reconnection by blast
      then show ?thesis by (simp add: same_state_def)
    next
      case Nobody
      then show ?thesis using t stuck_acts [OF _ assms(2)] by (simp add: transport_moves_def)
    qed (use t started in \<open>simp_all add: transport_moves_def\<close>)
  next
    case (Goes g)
    then show ?thesis using move stuck_goes [OF _ assms(2)] by simp
  qed (use move busy in \<open>auto simp: ctl_takes_from_def split: list.splits if_splits\<close>)
qed

lemma stuck_for_ever:
  assumes "run_steps (channel_step env (client_step clk) client_wiring) ms s = Some t" "stuck s"
  shows "stuck t \<and> same_state s t"
proof (rule run_steps_invariant [OF _ assms(1)])
  show "stuck s \<and> same_state s s" using assms(2) by (simp add: same_state_def)
next
  fix m u v
  assume "stuck u \<and> same_state s u" "channel_step env (client_step clk) client_wiring m u = Some v"
  with stuck_step [of env clk m u v] show "stuck v \<and> same_state s v" by (simp add: same_state_def)
qed

section \<open>The backlog of a channel whose peer is away\<close>

text \<open>The first connection fails.\<close>

definition alone :: "ChannelSettings \<Rightarrow> 'x channel_sys \<Rightarrow> bool" where
  "alone settings s \<longleftrightarrow> calm s \<and> loops (chTr s) = [] \<and> loopTodo s = [] \<and> listenerTodo s = (\<lambda>j. []) \<and>
     well_set (chCtl s) \<and> curSet (chCtl s) = settings \<and> written_data (trOut (chTr s)) = []"

lemma client_refused:
  assumes "transport_settings settings \<noteq> zeroTcpSettings" "err \<noteq> ([] :: string)"
  shows "\<exists>s. client_leads env clk (channel_start settings NewFmtpTcpClient) s \<and>
    alone settings s \<and> toSendData (chTr s) = [] \<and> chief_messages (ctlIns s) = [] \<and> currentState (chCtl s) = Idle"
proof -
  let ?c = "Work_start settings NewStateController"
  let ?s = "channel_start settings NewFmtpTcpClient"
  define l where "l = LogChannelST (clk 0) SeverityError
    ((ru ''Pri ustanovke '') @ ''TCP '' @ (ru ''soedineni9 voznikla owibka. Owibka:'' @ ''<'') @ err @ ''>'')"
  define tr where "tr = NewFmtpTcpClient\<lparr>trCurSett := transport_settings settings, lastConnectError := err,
    trOut := [TrLog l, ConnState False]\<rparr>"
  define u where "u = ?s\<lparr>chStarted := True, chTr := tr, logChan := [l]\<rparr>"
  have w: "well_set ?c" by (rule start_well_set)
  have i: "stands_for (TcpConnected False) RDisconnect ?c" by (auto simp: stands_for_def)
  have new: "new_packets env (TcpConnected False) ?c = []"
    unfolding reaction_packets [OF w i] by (simp add: reacts_to_def transition_sends_def nextState_protocol)
  have "client_leads env clk ?s (ctl_takes_input env (TcpConnected False) u)"
    by (rule leads_run [of _ _ _ "[Transport (CSettings (transport_settings settings) (Some err) None), Goes InWork, CtlTakesFrom InWork]"])
      (use assms in \<open>simp add: channel_run_simps u_def tr_def l_def channel_start_def NewFmtpTcpClient_def startClient_def
        zeroTcpSettings_def log_capacity_def\<close>)
  moreover have "client_leads env clk (ctl_takes_input env (TcpConnected False) u) (iterated env (TcpConnected False) u)"
    by (rule taken_settles) (use new in \<open>simp_all add: u_def tr_def NewFmtpTcpClient_def channel_start_def\<close>)
  ultimately have "client_leads env clk ?s (iterated env (TcpConnected False) u)" by (rule leads_trans)
  moreover have "alone settings (iterated env (TcpConnected False) u) \<and> toSendData (chTr (iterated env (TcpConnected False) u)) = [] \<and>
      chief_messages (ctlIns (iterated env (TcpConnected False) u)) = [] \<and> currentState (chCtl (iterated env (TcpConnected False) u)) = Idle"
    using step_well_set [OF w, of env "TcpConnected False"] reaction(1) [OF w i, of env] new
    by (simp add: alone_def u_def tr_def channel_start_def NewFmtpTcpClient_def
        move_def nextState_protocol del: sc_step.simps)
  ultimately show ?thesis by blast
qed

lemma backlog_grows:
  "alone settings s \<Longrightarrow> length (toSendData (chTr s)) + length ms \<le> data_capacity \<Longrightarrow>
   \<exists>t. client_leads env clk s t \<and> alone settings t \<and>
     length (toSendData (chTr t)) = length (toSendData (chTr s)) + length ms \<and>
     chief_messages (ctlIns t) = chief_messages (ctlIns s) @ ms"
proof (induction ms arbitrary: s)
  case Nil
  then show ?case by (intro exI [of _ s]) simp
next
  case (Cons m ms)
  let ?u = "iterated env (FromChief m) s"
  have lead: "client_leads env clk s ?u"
    by (rule own_settles) (use Cons.prems in \<open>simp_all add: alone_def room_for_def chief_packet\<close>)
  have u: "alone settings ?u" "length (toSendData (chTr ?u)) = Suc (length (toSendData (chTr s)))"
    "chief_messages (ctlIns ?u) = chief_messages (ctlIns s) @ [m]"
    using Cons.prems(1) step_well_set [of "chCtl s" env "FromChief m"]
    by (simp_all add: alone_def calm_def at_select_def chief_packet chief_messages_def del: sc_step.simps)
  with Cons.IH [OF u(1)] Cons.prems(2) lead show ?case by (auto intro: leads_trans)
qed

lemma backlog_stuck:
  assumes "transport_settings settings \<noteq> zeroTcpSettings" "data_capacity < length ms"
  shows "\<exists>acts s. client_channel env clk acts settings = Some s \<and> stuck s \<and>
    chief_messages (ctlIns s) = take (Suc data_capacity) ms \<and> written_data (trOut (chTr s)) = [] \<and>
    length (toSendData (chTr s)) = data_capacity"
proof -
  let ?lead = "client_leads env clk"
  obtain s1 where s1: "?lead (channel_start settings NewFmtpTcpClient) s1" "alone settings s1" "toSendData (chTr s1) = []"
    "chief_messages (ctlIns s1) = []"
    using client_refused [OF assms(1), of "''refused''"] by auto
  have len: "length (take data_capacity ms) = data_capacity" using assms(2) by simp
  obtain s2 where s2: "?lead s1 s2" "alone settings s2" "length (toSendData (chTr s2)) = data_capacity"
    "chief_messages (ctlIns s2) = take data_capacity ms"
    using backlog_grows [OF s1(2), of "take data_capacity ms"] s1(3,4) len by auto
  define t where "t = ctl_takes_input env (FromChief (ms ! data_capacity)) s2"
  have "?lead s2 t"
    by (rule leads_run [of _ _ _ "[CtlTakes (FromChief (ms ! data_capacity))]"])
      (use s2(2) in \<open>simp add: channel_step_def alone_def calm_def t_def\<close>)
  with s1(1) s2(1) have "?lead (channel_start settings NewFmtpTcpClient) t" by (blast intro: leads_trans)
  moreover have "\<exists>d es. ctlTodo t = SendData d # es"
    by (simp add: t_def ctl_takes_input_def sendPacket_def log_STDT_def Let_def)
  then have "stuck t"
    using s2(2,3) by (simp add: stuck_def t_def alone_def calm_def at_select_def ctl_takes_input_def Let_def del: sc_step.simps)
  moreover have "chief_messages (ctlIns t) = take (Suc data_capacity) ms"
    using s2(4) assms(2) by (simp add: t_def chief_messages_def take_Suc_conv_app_nth)
  moreover have "written_data (trOut (chTr t)) = [] \<and> length (toSendData (chTr t)) = data_capacity"
    using s2(2,3) by (simp add: t_def alone_def)
  ultimately show ?thesis by (auto simp: leads_def)
qed

section \<open>Connections asked for twice\<close>

lemma enters_idle:
  assumes "stateMachine c = InitStateMachine (NetRole (curSet c))" "nextState (NetRole (curSet c)) (currentState c) e = Idle"
  shows "\<exists>es t. out (forceNewEvent env e c) = out c @ es @ [ReconnectAfter t]"
proof -
  have n: "GetNextState id (stateMachine c) (currentState c) e = Idle" using assms by (simp add: nextState_def)
  define c1 where "c1 = (if currentState c \<noteq> Idle then
      log_ST env SeverityInfo ((ru ''Smena '' @ ''FMTP '' @ ru ''sosto9ni9: '' @ ''<'') @ FmtpState_ToString (currentState c) @ ''> -> <'' @
        FmtpState_ToString Idle @ (''> '' @ ru ''po sobyti0 '' @ ''<'') @ FmtpEvent_ToString e @ ''>.'') c else c)"
  define c2 where "c2 = (run_func (initExitTransFuncMap (NetRole (curSet c1))) env e c1)\<lparr>currentState := Idle\<rparr>"
  have "grows env c c1" by (simp add: c1_def grows.refl grows.then_put)
  moreover have "grows env c1 c2" by (simp add: c2_def grows.run_func_maps_kept grows.then_field)
  ultimately obtain es where es: "out c2 = out c @ es" using grows.trans unfolding grows_def by blast
  have "forceNewEvent env e c = run_func (initEnterTransFuncMap (NetRole (curSet c2))) env e c2"
    by (simp add: forceNewEvent_def n Let_def c1_def c2_def)
  also have "\<dots> = emit (ReconnectAfter (seconds (ReconnectTimeout (curSet c2)))) c2"
    by (simp add: run_func_def initEnterTransFuncMap_def Let_def c2_def IdleStateEnter_def)
  finally show ?thesis using es by simp
qed

text \<open>How often an iteration asks for a connection.\<close>

definition asks :: "sc_env \<Rightarrow> sc_input \<Rightarrow> StateController \<Rightarrow> nat" where
  "asks env i c = length (filter reconnection (drop (length (out c)) (out (sc_step env i c))))"

lemma asks_at_end: "out (sc_step env i c) = out c @ es @ ReconnectAfter t # fs \<Longrightarrow> 0 < asks env i c"
  by (simp add: asks_def reconnection_def)

lemma iterated_reconnects: "reconnects (iterated env i s) = reconnects s + asks env i (chCtl s)"
  by (simp add: iterated_def settled_def ctl_takes_input_def Let_def asks_def)

lemma disconnect_asks:
  assumes "well_set c" "currentState c = Idle"
  shows "0 < asks env (TcpConnected False) c"
proof -
  obtain es t where "out (forceNewEvent env RDisconnect c) = out c @ es @ [ReconnectAfter t]"
    using enters_idle [of c RDisconnect env] assms well_setD(1) [OF assms(1)] by (auto simp: nextState_protocol)
  then have "\<exists>fs. out (sc_step env (TcpConnected False) c) = out c @ es @ ReconnectAfter t # fs"
    by (simp add: tcp_state_changed_def Let_def)
  then show ?thesis using asks_at_end by blast
qed

lemma reject_asks:
  assumes "well_set c" "currentState c = IdPending" "NetRole (curSet c) = ''client''"
  shows "0 < asks env (ReceivedData (MakeFmtpPacket RejectMessage)) c"
proof -
  have m: "messages (MakeFmtpPacket RejectMessage) = [RejectMessage]"
    using messages_packet [of RejectMessage "[]"] by (simp add: sendable_def message_defs)
  have p: "processFmtpMessage env RejectMessage d = processEventMessage env RReject RejectMessage SeverityInfo d" for d
    by (simp add: processFmtpMessage_def message_defs)
  define d where "d = set_buffer [] c"
  obtain c' where c': "processEventMessage env RReject RejectMessage SeverityInfo d = forceNewEvent env RReject c'"
    "grows env d c'" "curSet c' = curSet d" "stateMachine c' = stateMachine d" "currentState c' = currentState d"
    unfolding processEventMessage_def Let_def using grows.refl grows.then_put by (auto split: if_splits)
  obtain es t where "out (forceNewEvent env RReject c') = out c' @ es @ [ReconnectAfter t]"
    using enters_idle [of c' RReject env] assms well_setD(1) [OF assms(1)] c' by (auto simp: d_def nextState_protocol)
  moreover obtain fs where "out c' = out c @ fs" using c'(2) by (auto simp: grows_def d_def)
  ultimately show ?thesis
    by (intro asks_at_end [of _ _ _ "fs @ es" t "[]"])
      (simp add: receive_data_def read_packets_fold well_setD(4) [OF assms(1)] m p c'(1) d_def [symmetric])
qed

lemma client_dials:
  assumes "calm s" "reconnects s = Suc n" "None \<notin> set (loopTodo s)" "length (loopTodo s) = length (loops (chTr s))"
    and "length (logChan s) < log_capacity" "well_set (chCtl s)" "length (toSendData (chTr s)) \<le> 1000"
  shows "\<exists>t. client_leads env clk s t \<and> calm t \<and> n \<le> reconnects t \<and>
    loops (chTr t) = loops (chTr s) @ [RecvSelect, SendSelect] \<and> loopTodo t = loopTodo s @ [Some [], Some []] \<and>
    length (logChan t) = Suc (length (logChan s)) \<and> well_set (chCtl t) \<and>
    length (toSendData (chTr t)) \<le> length (toSendData (chTr s)) + 2 \<and>
    filter connection_change (trOut (chTr t)) = filter connection_change (trOut (chTr s)) @ [ConnState True] \<and>
    received_chunks (trOut (chTr t)) = received_chunks (trOut (chTr s))"
proof -
  let ?lead = "client_leads env clk"
  let ?i = "TcpConnected True"
  define l where "l = LogChannelST (clk (length (trOut (chTr s)))) SeverityDebug
    ((ru ''Ustanovleno '') @ ''TCP '' @ (ru ''soedinenie '') @ ''FMTP '' @ (ru ''kanala.''))"
  define tr where "tr = (chTr s)\<lparr>tcpOpen := True, loops := loops (chTr s) @ [RecvSelect, SendSelect],
    trOut := trOut (chTr s) @ [TrLog l, ConnState True]\<rparr>"
  define u where "u = s\<lparr>reconnects := n, chTr := tr, workTodo := [StartLoops], loopTodo := loopTodo s @ [None, None],
    logChan := logChan s @ [l]\<rparr>"
  have i: "stands_for ?i LSetup (chCtl s)" by (auto simp: stands_for_def)
  have new: "new_packets env ?i (chCtl s) = sends_on env (curSet (chCtl s)) (currentState (chCtl s)) LSetup"
    unfolding reaction_packets [OF assms(6) i] by (simp add: reacts_to_def sends_on_def well_setD(2) [OF assms(6)])
  note few = sends_few [of env "curSet (chCtl s)" "currentState (chCtl s)" LSetup]
  have "?lead s (ctl_takes_input env ?i u)"
    by (rule leads_run [of _ _ _ "[Transport (CReconnect None None), Goes InWork, CtlTakesFrom InWork]"])
      (use assms in \<open>cases s, cases "chTr s", simp add: channel_run_simps calm_def u_def tr_def l_def startClient_def numeral_2_eq_2\<close>)
  moreover have "?lead (ctl_takes_input env ?i u) (iterated env ?i u)"
    by (rule taken_settles) (use assms new few in \<open>simp_all add: u_def tr_def calm_def data_capacity_def\<close>)
  moreover define t where "t = (iterated env ?i u)\<lparr>workTodo := [], loopTodo := loopTodo s @ [Some [], Some []]\<rparr>"
  have "map (\<lambda>t. case t of None \<Rightarrow> Some [] | Some qs \<Rightarrow> Some qs) (loopTodo s) = loopTodo s"
  proof (rule map_idI)
    fix x
    assume "x \<in> set (loopTodo s)"
    with assms(3) show "(case x of None \<Rightarrow> Some [] | Some qs \<Rightarrow> Some qs) = x" by (cases x) auto
  qed
  then have "?lead (iterated env ?i u) t"
    by (intro leads_run [of _ _ _ "[Goes InWork]"])
      (use assms in \<open>simp add: channel_step_def goroutine_goes_def todo_of_def set_todo_def u_def tr_def t_def calm_def\<close>)
  ultimately have "?lead s t" by (blast intro: leads_trans)
  moreover have "calm t \<and> n \<le> reconnects t \<and> loops (chTr t) = loops (chTr s) @ [RecvSelect, SendSelect] \<and>
      loopTodo t = loopTodo s @ [Some [], Some []] \<and> length (logChan t) = Suc (length (logChan s)) \<and> well_set (chCtl t) \<and>
      length (toSendData (chTr t)) \<le> length (toSendData (chTr s)) + 2 \<and>
      filter connection_change (trOut (chTr t)) = filter connection_change (trOut (chTr s)) @ [ConnState True] \<and>
      received_chunks (trOut (chTr t)) = received_chunks (trOut (chTr s))"
    using assms step_well_set [OF assms(6), of env ?i] new few iterated_reconnects [of env ?i u]
    by (simp add: t_def u_def tr_def calm_def at_select_def del: sc_step.simps)
  ultimately show ?thesis by blast
qed

text \<open>The connection of a client is closed by the peer while both loops wait.\<close>

lemma client_loses:
  assumes "joined s" "well_set (chCtl s)" "currentState (chCtl s) = Idle" "length (logChan s) < log_capacity"
    and "length (toSendData (chTr s)) \<le> 1000"
  shows "\<exists>t. client_leads env clk s t \<and> calm t \<and> Suc (reconnects s) \<le> reconnects t \<and>
    loops (chTr t) = [] \<and> loopTodo t = [] \<and> length (logChan t) = Suc (length (logChan s)) \<and> well_set (chCtl t) \<and>
    toSendData (chTr t) = toSendData (chTr s) \<and>
    filter connection_change (trOut (chTr t)) = filter connection_change (trOut (chTr s)) @ [ConnState False, Closed] \<and>
    received_chunks (trOut (chTr t)) = received_chunks (trOut (chTr s))"
proof -
  let ?lead = "client_leads env clk"
  let ?i = "TcpConnected False"
  define l where "l = LogChannelST (clk (length (trOut (chTr s)) + 2)) SeverityError
    ((ru ''Zakryto '') @ ''TCP '' @ (ru ''soedinenie '') @ ''FMTP '' @ (ru ''kanala.''))"
  define tr where "tr = (chTr s)\<lparr>loops := [], trOut := trOut (chTr s) @ [ConnState False, Closed, TrLog l]\<rparr>"
  define u where "u = s\<lparr>chTr := tr, workTodo := [Perform (TrLog l)], loopTodo := []\<rparr>"
  have i: "stands_for ?i RDisconnect (chCtl s)" by (auto simp: stands_for_def)
  have new: "new_packets env ?i (chCtl s) = []"
    unfolding reaction_packets [OF assms(2) i]
    by (simp add: reacts_to_def transition_sends_def assms(3) nextState_protocol)
  have "?lead s (ctl_takes_input env ?i u)"
    by (rule leads_run [of _ _ _ "[Transport (CPoll 0), Transport (CRead 0 (Inl None)), Transport (CTakeError 0),
        Transport (CTakeCancel 0 None), CtlTakesFrom InWork]"])
      (use assms in \<open>cases s, cases "chTr s", simp add: channel_run_simps joined_def calm_def u_def tr_def l_def recv_poll_def
        recv_read_def take_error_def take_cancel_def client_stopped_def\<close>)
  moreover have "?lead (ctl_takes_input env ?i u) (iterated env ?i u)"
    by (rule taken_settles) (use assms new in \<open>simp_all add: u_def tr_def joined_def calm_def data_capacity_def\<close>)
  moreover define t where "t = (iterated env ?i u)\<lparr>workTodo := [], logChan := logChan s @ [l]\<rparr>"
  have "?lead (iterated env ?i u) t"
    by (rule leads_run [of _ _ _ "[Goes InWork]"])
      (use assms in \<open>simp add: channel_step_def goroutine_goes_def todo_of_def set_todo_def u_def tr_def t_def joined_def calm_def\<close>)
  ultimately have "?lead s t" by (blast intro: leads_trans)
  moreover have "calm t \<and> Suc (reconnects s) \<le> reconnects t \<and> loops (chTr t) = [] \<and> loopTodo t = [] \<and>
      length (logChan t) = Suc (length (logChan s)) \<and> well_set (chCtl t) \<and> toSendData (chTr t) = toSendData (chTr s) \<and>
      filter connection_change (trOut (chTr t)) = filter connection_change (trOut (chTr s)) @ [ConnState False, Closed] \<and>
      received_chunks (trOut (chTr t)) = received_chunks (trOut (chTr s))"
    using assms step_well_set [OF assms(2), of env ?i] new iterated_reconnects [of env ?i u]
      disconnect_asks [OF assms(2,3), of env]
    by (simp add: t_def u_def tr_def joined_def calm_def at_select_def del: sc_step.simps)
  ultimately show ?thesis by blast
qed

text \<open>A rejection and the loss of the connection after it.\<close>

lemma rejected_client:
  assumes "transport_settings settings \<noteq> zeroTcpSettings" "NetRole settings = ''client''"
  obtains s4 n where "client_leads env clk (channel_start settings NewFmtpTcpClient) s4" "calm s4"
    "reconnects s4 = Suc (Suc n)" "loops (chTr s4) = []" "loopTodo s4 = []"
    "length (logChan s4) = 2" "well_set (chCtl s4)" "toSendData (chTr s4) = []"
    "filter connection_change (trOut (chTr s4)) = [ConnState True, ConnState False, Closed]"
    "received_chunks (trOut (chTr s4)) = [MakeFmtpPacket RejectMessage]"
proof -
  let ?lead = "client_leads env clk"
  note sends = sends_on_way [OF assms(2)]
  have moves: "move (NetRole settings) ConPending RSetup = IdPending" "move (NetRole settings) IdPending RReject = Idle"
    by (simp_all add: assms(2) move_def nextState_protocol)
  obtain s1 where s1: "?lead (channel_start settings NewFmtpTcpClient) s1"
    "standing settings s1 ConPending (sends_on env settings Idle LSetup) [] [] []"
    using client_connects [OF assms] by blast
  obtain s2 wr where s2: "?lead s1 s2" "standing settings s2 IdPending [] wr [] []"
    using standing_writes_event [OF s1(2) [unfolded sends], of RSetup env clk] by (auto simp: kind_packet_def sends moves)
  let ?bs = "MakeFmtpPacket RejectMessage"
  let ?u = "putting [Received ?bs] s2"
  define s3 where "s3 = iterated env (ReceivedData ?bs) ?u"
  have u: "standing settings ?u IdPending [] wr [?bs] []" using s2(2) by (simp add: standing_def)
  have "sendable RejectMessage" "msg_event (expected_id (curSet (chCtl ?u))) RejectMessage = Some RReject"
    by (simp_all add: sendable_def message_defs msg_event_def)
  then have i: "stands_for (ReceivedData ?bs) RReject (chCtl ?u)" unfolding stands_for_def by blast
  have none: "sends_on env settings IdPending RReject = []"
    by (simp add: sends_on_def transition_sends_def assms(2) nextState_protocol)
  note r = standing_reacts [OF u i, of env]
  have "?lead s2 s3"
    unfolding s3_def
    by (rule reads_chunk) (use s2(2) r(1) none in \<open>simp_all add: standing_def room_for_def MakeFmtpPacket_eq message_defs\<close>)
  moreover have st: "standing settings s3 Idle [] wr [?bs] []" using r(2) none by (simp add: s3_def moves)
  have asked: "0 < reconnects s3"
    using iterated_reconnects [of env "ReceivedData ?bs" ?u] reject_asks [of "chCtl s2" env] s2(2) assms(2)
    by (simp add: s3_def standing_def)
  obtain s4 where s4: "?lead s3 s4" "calm s4" "Suc (reconnects s3) \<le> reconnects s4" "loops (chTr s4) = []" "loopTodo s4 = []"
    "length (logChan s4) = 2" "well_set (chCtl s4)" "toSendData (chTr s4) = []"
    "filter connection_change (trOut (chTr s4)) = [ConnState True, ConnState False, Closed]"
    "received_chunks (trOut (chTr s4)) = [?bs]"
    using client_loses [of s3 env clk] st by (auto simp: standing_def log_capacity_def)
  have "?lead (channel_start settings NewFmtpTcpClient) s4"
    using s1(1) s2(1) calculation s4(1) by (blast intro: leads_trans)
  moreover obtain n where "reconnects s4 = Suc (Suc n)" using asked s4(3) by (metis Suc_le_D Suc_le_mono less_eq_Suc_le)
  ultimately show ?thesis using that s4 by blast
qed

section \<open>Properties\<close>

text \<open>C19: A client channel whose peer is away is lost once its chief has handed over one message more
  than \<open>toSendDataChan\<close> has room for. The controller waits for room in it and takes nothing; the transport
  starts the loop that would make room only when the controller has taken the state of the connection.
  Whatever comes, a connection included, nothing is ever written and nothing taken again.\<close>

theorem backlog_blocks:
  assumes "transport_settings settings \<noteq> zeroTcpSettings" and "data_capacity < length ms"
  shows "\<exists>acts s. client_channel env clk acts settings = Some s \<and>
    chief_messages (ctlIns s) = take (Suc data_capacity) ms \<and>
    (\<forall>more t. run_steps (channel_step env (client_step clk) client_wiring) more s = Some t \<longrightarrow>
      written_data (trOut (chTr t)) = [] \<and> ctlIns t = ctlIns s \<and> chCtl t = chCtl s)"
proof -
  obtain acts s where s: "client_channel env clk acts settings = Some s" "stuck s"
    "chief_messages (ctlIns s) = take (Suc data_capacity) ms" "written_data (trOut (chTr s)) = []"
    using backlog_stuck [OF assms] by blast
  have "written_data (trOut (chTr t)) = [] \<and> ctlIns t = ctlIns s \<and> chCtl t = chCtl s"
    if "run_steps (channel_step env (client_step clk) client_wiring) more s = Some t" for more t
    using stuck_for_ever [OF that s(2)] s(4) by (simp add: same_state_def)
  with s(1,3) show ?thesis by blast
qed

theorem backlog_blocks_witness:
  "\<exists>acts s. client_channel example_env (\<lambda>n. []) acts example_client = Some s \<and>
    chief_messages (ctlIns s) = take (Suc data_capacity) (replicate 1025 (operational ''(FPL)'')) \<and>
    (\<forall>more t. run_steps (channel_step example_env (client_step (\<lambda>n. [])) client_wiring) more s = Some t \<longrightarrow>
      written_data (trOut (chTr t)) = [] \<and> ctlIns t = ctlIns s \<and> chCtl t = chCtl s)"
  by (rule backlog_blocks [OF example_settings(1)]) (simp add: data_capacity_def)

text \<open>C20: A client channel that is rejected dials twice: the rejection makes its controller ask
  for a connection while the rejected one is still open, and the end of that one makes it ask again. The
  second connection takes the place of the first one, which is neither served nor closed: of three
  connections opened one was closed, and four loops run where one connection has two.\<close>

theorem rejected_dials_twice:
  assumes "transport_settings settings \<noteq> zeroTcpSettings" and "NetRole settings = ''client''"
  shows "\<exists>acts s. client_channel env clk acts settings = Some s \<and>
    received_chunks (trOut (chTr s)) = [MakeFmtpPacket RejectMessage] \<and>
    filter connection_change (trOut (chTr s)) = [ConnState True, ConnState False, Closed, ConnState True, ConnState True] \<and>
    length (loops (chTr s)) = 4 \<and> None \<notin> set (loopTodo s) \<and> at_select s"
proof -
  let ?lead = "client_leads env clk" and ?bs = "MakeFmtpPacket RejectMessage"
  obtain s4 n where s4: "?lead (channel_start settings NewFmtpTcpClient) s4" "calm s4"
    "reconnects s4 = Suc (Suc n)" "loops (chTr s4) = []" "loopTodo s4 = []"
    "length (logChan s4) = 2" "well_set (chCtl s4)" "toSendData (chTr s4) = []"
    "filter connection_change (trOut (chTr s4)) = [ConnState True, ConnState False, Closed]"
    "received_chunks (trOut (chTr s4)) = [?bs]"
    using rejected_client [OF assms] by blast
  obtain s5 where s5: "?lead s4 s5" "calm s5" "Suc n \<le> reconnects s5" "loops (chTr s5) = [RecvSelect, SendSelect]"
    "loopTodo s5 = [Some [], Some []]" "length (logChan s5) = 3" "well_set (chCtl s5)" "length (toSendData (chTr s5)) \<le> 2"
    "filter connection_change (trOut (chTr s5)) = [ConnState True, ConnState False, Closed, ConnState True]"
    "received_chunks (trOut (chTr s5)) = [?bs]"
    using client_dials [of s4 "Suc n" env clk] s4 by (auto simp: log_capacity_def)
  obtain k where k: "reconnects s5 = Suc k" using s5(3) Suc_le_D by blast
  obtain s6 where s6: "?lead s5 s6" "calm s6" "loops (chTr s6) = [RecvSelect, SendSelect, RecvSelect, SendSelect]"
    "loopTodo s6 = [Some [], Some [], Some [], Some []]"
    "filter connection_change (trOut (chTr s6)) = [ConnState True, ConnState False, Closed, ConnState True, ConnState True]"
    "received_chunks (trOut (chTr s6)) = [?bs]"
    using client_dials [of s5 k env clk] s5 k by (auto simp: log_capacity_def)
  have "?lead (channel_start settings NewFmtpTcpClient) s6"
    using s4(1) s5(1) s6(1) by (blast intro: leads_trans)
  then obtain acts where "client_channel env clk acts settings = Some s6" by (auto simp: leads_def)
  then show ?thesis using s6 by (intro exI [of _ acts] exI [of _ s6]) (simp add: calm_def)
qed

theorem rejected_dials_twice_witness:
  "\<exists>acts s. client_channel example_env (\<lambda>n. []) acts example_client = Some s \<and>
    received_chunks (trOut (chTr s)) = [MakeFmtpPacket RejectMessage] \<and>
    filter connection_change (trOut (chTr s)) = [ConnState True, ConnState False, Closed, ConnState True, ConnState True] \<and>
    length (loops (chTr s)) = 4 \<and> None \<notin> set (loopTodo s) \<and> at_select s"
  by (rule rejected_dials_twice [OF example_settings(1,2)])

end
