(* ===== verification/Channel_Pair.thy ===== *)
theory Channel_Pair
  imports Channel_Runs
begin

text \<open>
  A client channel joined with a server channel. The server has one receiving loop at most, so that
  its controller gets the chunks in the order they were read; together with the way of the packets
  through the client this gives what arrives at the controller of the other side.
\<close>

section \<open>The receiving loop of the server\<close>

fun is_recv :: "loop_pc \<Rightarrow> bool" where
  "is_recv RecvSelect = True" | "is_recv RecvRead = True" | "is_recv RecvError = True"
| "is_recv SendSelect = False" | "is_recv SendError = False"

fun pending_chunk :: "pending \<Rightarrow> byte list list" where
  "pending_chunk (Perform (Received bs)) = [bs]" | "pending_chunk _ = []"

definition chunks_of :: "pending list \<Rightarrow> byte list list" where
  "chunks_of ps = concat (map pending_chunk ps)"

definition todo_chunks :: "pending list option \<Rightarrow> byte list list" where
  "todo_chunks t = (case t of None \<Rightarrow> [] | Some ps \<Rightarrow> chunks_of ps)"

definition held_chunks :: "pending list option list \<Rightarrow> byte list list" where
  "held_chunks ts = concat (map todo_chunks ts)"

lemma chunks_simps [simp]:
  "chunks_of [] = []" "chunks_of (p # ps) = pending_chunk p @ chunks_of ps" "chunks_of (ps @ qs) = chunks_of ps @ chunks_of qs"
  "todo_chunks None = []" "todo_chunks (Some ps) = chunks_of ps"
  "held_chunks [] = []" "held_chunks (t # ts) = todo_chunks t @ held_chunks ts"
  "held_chunks (ts @ us) = held_chunks ts @ held_chunks us"
  by (simp_all add: chunks_of_def todo_chunks_def held_chunks_def)

lemma chunks_performed: "chunks_of (map Perform (filter handed es)) = received_chunks es"
proof (induction es)
  case (Cons e es)
  then show ?case by (cases e) simp_all
qed simp

lemma held_none [simp]: "held_chunks (replicate n None) = []"
  by (induction n) simp_all

definition receivers_hold :: "bool list \<Rightarrow> pending list option list \<Rightarrow> bool" where
  "receivers_hold rs ts \<longleftrightarrow> list_all2 (\<lambda>r t. r \<or> todo_chunks t = []) rs ts \<and> length (filter (\<lambda>r. r) rs) \<le> 1"

lemma none_holds: "list_all2 (\<lambda>r t. r \<or> todo_chunks t = []) rs ts \<Longrightarrow> filter (\<lambda>r. r) rs = [] \<Longrightarrow> held_chunks ts = []"
  by (induction rule: list_all2_induct) (auto split: if_splits)

lemma one_holds:
  "list_all2 (\<lambda>r t. r \<or> todo_chunks t = []) rs ts \<Longrightarrow> length (filter (\<lambda>r. r) rs) \<le> 1 \<Longrightarrow> i < length ts \<Longrightarrow>
   rs ! i \<or> todo_chunks (ts ! i) \<noteq> [] \<Longrightarrow> held_chunks ts = todo_chunks (ts ! i)"
proof (induction arbitrary: i rule: list_all2_induct)
  case (Cons r rs t ts)
  show ?case
  proof (cases i)
    case 0
    with Cons.hyps(1) Cons.prems(3) have r by auto
    with Cons.prems(1) have "filter (\<lambda>r. r) rs = []" by simp
    with none_holds [OF Cons.hyps(2)] 0 show ?thesis by simp
  next
    case (Suc j)
    have j: "j < length ts" "rs ! j \<or> todo_chunks (ts ! j) \<noteq> []" using Cons.prems(2,3) by (simp_all add: Suc)
    have "filter (\<lambda>r. r) rs \<noteq> []"
    proof
      assume none: "filter (\<lambda>r. r) rs = []"
      have "held_chunks ts = []" by (rule none_holds [OF Cons.hyps(2) none])
      then have "todo_chunks (ts ! j) = []" using j(1) by (simp add: held_chunks_def)
      moreover have "j < length rs" using j(1) list_all2_lengthD [OF Cons.hyps(2)] by simp
      then have "rs ! j \<in> set rs" by (rule nth_mem)
      then have "\<not> rs ! j" using none unfolding filter_empty_conv by blast
      ultimately show False using j(2) by blast
    qed
    then have "\<not> r" using Cons.prems(1) by auto
    then have "todo_chunks t = []" using Cons.hyps(1) by blast
    moreover have "length (filter (\<lambda>r. r) rs) \<le> 1" using Cons.prems(1) by (simp split: if_splits)
    then have "held_chunks ts = todo_chunks (ts ! j)"
      by (rule Cons.IH) (use Cons.prems(2,3) Suc in simp_all)
    ultimately show ?thesis by (simp add: Suc)
  qed
qed simp

lemma held_update:
  assumes "receivers_hold rs ts" "i < length ts" "rs ! i"
  shows "held_chunks (ts[i := t]) = todo_chunks t"
proof -
  have "rs[i := True] = rs" using assms(3) by (metis list_update_id)
  then have "list_all2 (\<lambda>r t. r \<or> todo_chunks t = []) rs (ts[i := t])"
    using assms(1) list_all2_update_cong [of "\<lambda>r t. r \<or> todo_chunks t = []" rs ts True t i]
    by (simp add: receivers_hold_def)
  then show ?thesis using assms one_holds [of rs "ts[i := t]" i] by (simp add: receivers_hold_def)
qed

lemma held_same:
  assumes "todo_chunks t = todo_chunks (ts ! i)"
  shows "held_chunks (ts[i := t]) = held_chunks ts"
proof -
  have "map todo_chunks (ts[i := t]) = map todo_chunks ts"
    by (metis assms list_update_id map_update)
  then show ?thesis by (simp add: held_chunks_def)
qed

lemma receivers_update:
  "receivers_hold rs ts \<Longrightarrow> i < length ts \<Longrightarrow> rs ! i \<or> todo_chunks t = [] \<Longrightarrow> receivers_hold rs (ts[i := t])"
  using list_all2_update_cong [of "\<lambda>r t. r \<or> todo_chunks t = []" rs ts "rs ! i" t i]
  by (auto simp: receivers_hold_def)

lemma held_without:
  "i < length ts \<Longrightarrow> todo_chunks (ts ! i) = [] \<Longrightarrow> held_chunks (take i ts @ drop (Suc i) ts) = held_chunks ts"
  by (subst (3) id_take_nth_drop [of i ts]) simp_all

lemma receivers_without:
  assumes "receivers_hold rs ts"
  shows "receivers_hold (take i rs @ drop (Suc i) rs) (take i ts @ drop (Suc i) ts)"
proof -
  have "length (filter (\<lambda>r. r) (take i rs @ drop (Suc i) rs)) \<le> length (filter (\<lambda>r. r) (take i rs @ drop i rs))"
    by (cases "drop i rs") (simp_all add: drop_Suc flip: drop_tl tl_drop)
  then show ?thesis
    using assms by (auto simp: receivers_hold_def intro!: list_all2_appendI list_all2_takeI list_all2_dropI)
qed

text \<open>A step of the server, in the kinds of its loops and the chunks it reads.\<close>

lemma server_view:
  assumes "server_step clk a tr = Some u" "server_inv tr"
  shows "\<exists>es new. trOut u = trOut tr @ es \<and>
    map is_recv (loops u) = without_loop (server_ends a) (map is_recv (loops tr)) @ new \<and>
    (new = [] \<or> new = [True, False] \<and> loops tr = []) \<and>
    (received_chunks es = [] \<or>
      (\<exists>i bs. received_chunks es = [bs] \<and> server_goroutines a = [InLoop i] \<and> server_ends a = None \<and> new = [] \<and>
        i < length (loops tr) \<and> is_recv (loops tr ! i)))"
proof -
  have upd: "map is_recv ((loops tr)[i := pc]) = map is_recv (loops tr)" if "loop_at i pc' tr" "is_recv pc = is_recv pc'" for i pc pc'
    using that by (auto simp: loop_at_def map_update list_update_same_conv)
  show ?thesis
    using assms
    by (cases a)
      (auto simp: server_step_def server_listen_def server_accept_def server_stopped_def recv_poll_def recv_read_def
        send_next_def take_error_def take_cancel_def push_data_def tr_defs Let_def without_loop_def upd
        take_map drop_map server_inv_def loop_at_def
        split: if_splits option.splits sum.splits list.splits)
qed

section \<open>The chunks in their order\<close>

definition recv_ok :: "'x channel_sys \<Rightarrow> bool" where
  "recv_ok s \<longleftrightarrow> receivers_hold (map is_recv (loops (chTr s))) (loopTodo s) \<and>
     chunks_of (workTodo s) = [] \<and> (\<forall>j. chunks_of (listenerTodo s j) = []) \<and>
     received_chunks (trOut (chTr s)) = chunks_in (ctlIns s) @ recvChan s @ held_chunks (loopTodo s)"

lemma recv_length: "recv_ok s \<Longrightarrow> length (loopTodo s) = length (loops (chTr s))"
  by (auto simp: recv_ok_def receivers_hold_def dest: list_all2_lengthD)

lemma recv_input:
  "recv_ok s \<Longrightarrow> (\<And>bs. i \<noteq> ReceivedData bs) \<Longrightarrow> recv_ok (ctl_takes_input env i s)"
  by (cases i) (auto simp: recv_ok_def ctl_takes_input_def Let_def)

lemma recv_taken:
  "recv_ok s \<Longrightarrow> recvChan s = bs # rest \<Longrightarrow> recv_ok (ctl_takes_input env (ReceivedData bs) (s\<lparr>recvChan := rest\<rparr>))"
  by (simp add: recv_ok_def ctl_takes_input_def Let_def)

text \<open>A goroutine that hands over what is no chunk.\<close>

lemma recv_set_todo:
  assumes "recv_ok s" "todo_of g s = Some (p # ps)" "pending_chunk p = []"
  shows "recv_ok (set_todo g ps s)"
proof (cases g)
  case (InLoop i)
  have at: "i < length (loopTodo s)" "loopTodo s ! i = Some (p # ps)"
    using assms(2) by (auto simp: InLoop todo_of_def split: if_splits)
  have same: "todo_chunks (Some ps) = todo_chunks (loopTodo s ! i)" using at(2) assms(3) by simp
  have "map is_recv (loops (chTr s)) ! i \<or> todo_chunks (Some ps) = []"
    using assms(1) at list_all2_nthD2 [of _ "map is_recv (loops (chTr s))" "loopTodo s" i] same
    by (fastforce simp: recv_ok_def receivers_hold_def)
  then show ?thesis
    using assms(1) receivers_update [OF _ at(1)] held_same [OF same] by (simp add: InLoop set_todo_def recv_ok_def)
next
  case (InListener j)
  have "chunks_of (listenerTodo s j) = []" using assms(1) by (simp add: recv_ok_def)
  then show ?thesis using assms by (simp add: InListener todo_of_def set_todo_def recv_ok_def)
qed (use assms in \<open>auto simp: todo_of_def set_todo_def recv_ok_def\<close>)

lemma recv_goes:
  assumes "goroutine_goes g s = Some t" "recv_ok s"
  shows "recv_ok t"
proof -
  obtain p ps where p: "todo_of g s = Some (p # ps)"
    using assms(1) by (auto simp: goroutine_goes_def split: option.splits list.splits)
  show ?thesis
  proof (cases "\<exists>bs. p = Perform (Received bs)")
    case True
    then obtain bs where bs: "p = Perform (Received bs)" by blast
    then have t: "t = set_todo g ps (s\<lparr>recvChan := recvChan s @ [bs]\<rparr>)"
      using assms(1) p by (auto simp: goroutine_goes_def split: if_splits)
    have "chunks_of (listenerTodo s j) = []" "chunks_of (workTodo s) = []" for j using assms(2) by (simp_all add: recv_ok_def)
    then obtain i where g: "g = InLoop i"
      using p bs by (cases g) (auto simp: todo_of_def, metis chunks_simps(2) append_Cons list.discI pending_chunk.simps(1))
    have at: "i < length (loopTodo s)" "loopTodo s ! i = Some (p # ps)"
      using p by (auto simp: g todo_of_def split: if_splits)
    have all: "receivers_hold (map is_recv (loops (chTr s))) (loopTodo s)" using assms(2) by (simp add: recv_ok_def)
    then have "map is_recv (loops (chTr s)) ! i"
      using at list_all2_nthD2 [of _ "map is_recv (loops (chTr s))" "loopTodo s" i] bs
      by (fastforce simp: receivers_hold_def)
    note r = this
    have "held_chunks (loopTodo s) = bs # chunks_of ps"
      using held_update [OF all at(1) r, of "loopTodo s ! i", unfolded list_update_id] at(2) bs by simp
    then show ?thesis
      using assms(2) receivers_update [OF all at(1)] held_update [OF all at(1) r] r
      by (simp add: t g set_todo_def recv_ok_def)
  next
    case False
    note q = recv_set_todo [OF _ p]
    show ?thesis
    proof (cases p)
      case StartLoops
      let ?start = "\<lambda>t. case t of None \<Rightarrow> Some [] | Some qs \<Rightarrow> Some qs"
      have t: "t = set_todo g ps (s\<lparr>loopTodo := map ?start (loopTodo s)\<rparr>)"
        using assms(1) p StartLoops by (simp add: goroutine_goes_def)
      have c: "todo_chunks (?start x) = todo_chunks x" for x by (cases x) simp_all
      have "held_chunks (map ?start ts) = held_chunks ts" for ts by (induction ts) (simp_all add: c)
      moreover have "receivers_hold rs (map ?start ts) = receivers_hold rs ts" for rs ts
        by (simp add: receivers_hold_def list_all2_conv_all_nth c cong: conj_cong)
      ultimately have "recv_ok (s\<lparr>loopTodo := map ?start (loopTodo s)\<rparr>)" using assms(2) by (simp add: recv_ok_def)
      moreover have "todo_of g (s\<lparr>loopTodo := map ?start (loopTodo s)\<rparr>) = Some (p # ps)"
        using p by (cases g) (auto simp: todo_of_def split: if_splits)
      ultimately show ?thesis unfolding t by (rule recv_set_todo) (simp add: StartLoops)
    next
      case (Perform e)
      then obtain l where l: "e = TrLog l" "t = set_todo g ps (s\<lparr>logChan := logChan s @ [l]\<rparr>)"
        using assms(1) p False by (auto simp: goroutine_goes_def split: tcp_effect.splits if_splits)
      have "recv_ok (s\<lparr>logChan := logChan s @ [l]\<rparr>)" using assms(2) by (simp add: recv_ok_def)
      moreover have "todo_of g (s\<lparr>logChan := logChan s @ [l]\<rparr>) = Some (p # ps)"
        using p by (cases g) (simp_all add: todo_of_def split: if_splits)
      ultimately show ?thesis unfolding l(2) by (rule recv_set_todo) (simp add: Perform l(1))
    qed
  qed
qed

lemma server_push: "server_inv (push_data d tr) = server_inv tr" "loops (push_data d tr) = loops tr" "trOut (push_data d tr) = trOut tr"
  by (simp_all add: server_inv_def push_data_def)

lemma recv_acts:
  assumes "transport_acts (server_step clk) server_wiring a s = Some t" "recv_ok s" "server_inv (chTr s)"
  shows "recv_ok t"
proof -
  obtain u where v: "server_step clk a (chTr s) = Some u" "list_all (\<lambda>g. todo_of g s = Some []) (server_goroutines a)"
    "t = acted server_wiring a u s"
    using assms(1) by (auto simp: transport_acts_def split: if_splits option.splits)
  obtain es new where w: "trOut u = trOut (chTr s) @ es"
    "map is_recv (loops u) = without_loop (server_ends a) (map is_recv (loops (chTr s))) @ new"
    "new = [] \<or> new = [True, False] \<and> loops (chTr s) = []"
    "received_chunks es = [] \<or>
      (\<exists>i bs. received_chunks es = [bs] \<and> server_goroutines a = [InLoop i] \<and> server_ends a = None \<and> new = [] \<and>
        i < length (loops (chTr s)) \<and> is_recv (loops (chTr s) ! i))"
    using server_view [OF v(1) assms(3)] by blast
  let ?ts = "without_loop (server_ends a) (loopTodo s)"
  have len: "length (loopTodo s) = length (loops (chTr s))" by (rule recv_length [OF assms(2)])
  then have lent: "length ?ts = length (without_loop (server_ends a) (map is_recv (loops (chTr s))))"
    by (simp add: without_loop_def split: option.split)
  then have more: "length (loops u) = length ?ts + length new" using arg_cong [OF w(2), of length] by simp
  define ps where "ps = map Perform (filter handed es) @ (if new = [] then [] else [StartLoops])"
  define s' where "s' = s\<lparr>chTr := u, loopTodo := ?ts @ replicate (length new) None\<rparr>"
  have t: "t = (if ps = [] then s' else set_todo (hd (server_goroutines a)) ps s')"
    by (auto simp: v(3) acted_def w(1) more ps_def s'_def Let_def)
  have ps: "chunks_of ps = received_chunks es" by (simp add: ps_def chunks_performed)
  have all: "receivers_hold (map is_recv (loops (chTr s))) (loopTodo s)" using assms(2) by (simp add: recv_ok_def)
  have ended: "i < length (loopTodo s) \<and> loopTodo s ! i = Some []" if "server_ends a = Some i" for i
    using v(2) that by (cases a) (auto simp: todo_of_def split: if_splits)
  have held: "held_chunks (?ts @ replicate (length new) None) = held_chunks (loopTodo s)"
    using ended held_without by (simp add: without_loop_def split: option.split)
  have left: "receivers_hold (without_loop (server_ends a) (map is_recv (loops (chTr s)))) ?ts"
    using all receivers_without by (simp add: without_loop_def split: option.split)
  have "receivers_hold (map is_recv (loops u)) (?ts @ replicate (length new) None)"
  proof (cases "new = []")
    case False
    then have "new = [True, False]" "loops (chTr s) = []" using w(3) by auto
    with len show ?thesis unfolding w(2) by (simp add: without_loop_def receivers_hold_def numeral_2_eq_2 split: option.split)
  qed (use left w(2) in simp)
  note hold' = this
  show ?thesis
  proof (cases "received_chunks es = []")
    case True
    then have ok: "recv_ok s'"
      using assms(2) hold' held by (simp add: recv_ok_def s'_def w(1))
    show ?thesis
    proof (cases "ps = []")
      case False
      obtain g gs where g: "server_goroutines a = g # gs" by (cases a) auto
      have "recv_ok (set_todo g ps s')"
      proof (cases g)
        case (InLoop i)
        have at: "i < length (loopTodo s)" "loopTodo s ! i = Some []" using v(2) g InLoop by (auto simp: todo_of_def split: if_splits)
        have none: "server_ends a = None" using g InLoop by (cases a) auto
        have at': "i < length (loopTodo s')" "loopTodo s' ! i = Some []"
          using at none by (simp_all add: s'_def without_loop_def nth_append)
        show ?thesis
          using ok receivers_update [of _ "loopTodo s'" i "Some ps"] held_same [of "Some ps" "loopTodo s'" i] at' True
          by (simp add: InLoop set_todo_def recv_ok_def ps)
      qed (use ok True in \<open>auto simp: set_todo_def recv_ok_def ps\<close>)
      then show ?thesis by (simp add: t False g)
    qed (use ok t in simp)
  next
    case False
    then obtain i bs where i: "received_chunks es = [bs]" "server_goroutines a = [InLoop i]" "server_ends a = None" "new = []"
      "i < length (loops (chTr s))" "is_recv (loops (chTr s) ! i)" using w(4) by auto
    have at: "loopTodo s ! i = Some []" using v(2) i(2) by (auto simp: todo_of_def split: if_splits)
    have r: "map is_recv (loops (chTr s)) ! i" using i(5,6) by simp
    have "held_chunks (loopTodo s) = []"
      using held_update [OF all _ r, of "loopTodo s ! i", unfolded list_update_id] at i(5) len by simp
    moreover have "held_chunks ((loopTodo s)[i := Some ps]) = [bs]"
      using held_update [OF all _ r] i(1,5) len by (simp add: ps)
    moreover have "receivers_hold (map is_recv (loops (chTr s))) ((loopTodo s)[i := Some ps])"
      by (rule receivers_update [OF all]) (use i(5) r len in simp_all)
    moreover have "ps \<noteq> []" using ps i(1) by auto
    ultimately show ?thesis
      using assms(2) w(2) i by (simp add: t s'_def recv_ok_def set_todo_def without_loop_def w(1))
  qed
qed

lemma recv_step:
  assumes "channel_step env (server_step clk) server_wiring m s = Some t" "recv_ok s" "server_inv (chTr s)"
  shows "recv_ok t \<and> server_inv (chTr t)"
proof -
  have move: "channel_move env (server_step clk) server_wiring m s = Some t"
    using assms(1) by (simp add: channel_step_def split: if_splits)
  show ?thesis
  proof (cases m)
    case (Transport a)
    then have "transport_moves (server_step clk) server_wiring a s = Some t" using move by simp
    then obtain u where u: "transport_acts (server_step clk) server_wiring a u = Some t" "takesFrom server_wiring a \<noteq> Queue"
      "u = s\<lparr>chStarted := chStarted u, reconnects := reconnects u\<rparr>" by (rule transport_moves_acts)
    have "recv_ok (s\<lparr>chStarted := b, reconnects := n\<rparr>)" "server_inv (chTr (s\<lparr>chStarted := b, reconnects := n\<rparr>))" for b n
      using assms(2,3) by (simp_all add: recv_ok_def)
    then have ok: "recv_ok u" "server_inv (chTr u)" by (subst u(3), blast)+
    then show ?thesis using recv_acts [OF u(1)] server_inv_step acts_frame(1) [OF u(1)] by blast
  next
    case (Goes g)
    then have g: "goroutine_goes g s = Some t" using move by simp
    then have "chTr t = chTr s"
      by (auto simp: goroutine_goes_def split: option.splits list.splits pending.splits tcp_effect.splits if_splits)
    then show ?thesis using recv_goes [OF g assms(2)] assms(3) by simp
  next
    case (CtlTakes i)
    then have i: "own_input i (chCtl s)" "t = ctl_takes_input env i s" using move by (auto split: if_splits)
    then have "i \<noteq> ReceivedData bs" for bs by auto
    then show ?thesis using recv_input [OF assms(2)] assms(3) i(2) by simp
  next
    case CtlTakesData
    then show ?thesis using move recv_taken [OF assms(2)] assms(3) by (auto split: list.splits if_splits)
  next
    case CtlTakesLog
    then obtain l rest where t: "t = ctl_takes_input env (TransportLog l) (s\<lparr>logChan := rest\<rparr>)"
      using move by (auto split: list.splits if_splits)
    have "recv_ok (s\<lparr>logChan := rest\<rparr>)" using assms(2) by (simp add: recv_ok_def)
    from recv_input [OF this, of "TransportLog l" env] show ?thesis using assms(3) t by simp
  next
    case (CtlTakesFrom g)
    then have "ctl_takes_from env g s = Some t" using move by simp
    then obtain e i ps where t: "todo_of g s = Some (Perform e # ps)" "source i = {e}" "t = ctl_takes_input env i (set_todo g ps s)"
      "e \<in> range TrEvent \<union> range ConnState"
      by (rule takes_from_cases)
    have "pending_chunk (Perform e) = []" using t(4) by auto
    note ok = recv_set_todo [OF assms(2) t(1) this]
    have "i \<noteq> ReceivedData bs" for bs using t(2,4) by (cases e; cases i) (simp_all add: image_iff)
    from recv_input [OF ok this, where env = env] have "recv_ok t" unfolding t(3) .
    moreover have "chTr t = chTr s" unfolding t(3) by simp
    ultimately show ?thesis using assms(3) by simp
  next
    case CtlGoes
    then show ?thesis using move assms(2,3)
      by (auto simp: ctl_goes_def recv_ok_def server_push split: list.splits effect.splits if_splits)
  qed
qed

lemma server_channel_facts:
  assumes "server_channel env clk ms settings = Some s"
  shows "history env settings s" "received_chunks (trOut (chTr s)) = chunks_in (ctlIns s) @ recvChan s @ held_chunks (loopTodo s)"
proof -
  have "recv_ok s \<and> server_inv (chTr s)"
  proof (rule run_steps_invariant [OF _ assms])
    show "recv_ok (channel_start settings NewFmtpTcpServer) \<and> server_inv (chTr (channel_start settings NewFmtpTcpServer))"
      by (simp add: recv_ok_def receivers_hold_def channel_start_def NewFmtpTcpServer_def server_inv_def)
  qed (auto dest: recv_step)
  then show "received_chunks (trOut (chTr s)) = chunks_in (ctlIns s) @ recvChan s @ held_chunks (loopTodo s)"
    by (simp add: recv_ok_def)
  have "history env settings (channel_start settings NewFmtpTcpServer)" by (rule start_history) (simp add: NewFmtpTcpServer_def)
  then show "history env settings s" by (rule server_tcp.run_history [OF assms])
qed

section \<open>From chief to chief\<close>

section \<open>Properties\<close>



end
