(* ===== verification/Spec2Isabelle.thy ===== *)
theory Spec2Isabelle
  imports Association Tcp_Runs Chief_Client Oldi_Tcp Settings_Files Chief_Web Chief_Drains Journal_System Gateways
    Channel_Blocks Channel_Pair
begin

text \<open>
  A development about an FMTP gateway: the program that exchanges flight data messages with
  neighbouring control centres over the Flight Message Transfer Protocol (FMTP, a protocol
  on top of TCP) and hands them to flight data systems, the providers. The code is in Go,
  under \<open>src/\<close>. Its processes are the chief (\<open>chief\<close>, \<open>chief_channel\<close>), which holds the
  settings, starts one channel program per connection, passes messages between channels and
  providers, collects the states of the channels and writes the journal; the channel
  (\<open>channel\<close>, \<open>fmtp\<close>), one FMTP connection; and the logger (\<open>ora_logger\<close>), which reads the
  journal from a Redis stream and stores it in a database.

  Theories, in the order of their imports, and the code they model. A Go structure is a
  record with the names of its fields, an enumeration a datatype, a \<open>uint16\<close> or byte a
  word, an \<open>int\<close> an \<open>int\<close> (with its 64-bit range where text is read back), a string a list
  of 8-bit characters, a map a partial function or an association list. The event loop
  of a component (\<open>for { select { ... } }\<close>) is a step function from an input, one
  constructor per case of the \<open>select\<close>, and the state before it to the state after it; what
  it sends on channels, to the network, the journal and the web page is the list of its
  effects, in the order of the sends.

  \<^item> \<open>Fmtp_Prelude\<close>: bytes, Go strings, \<open>strconv\<close>, \<open>strings\<close>, runs of step functions.
  \<^item> \<open>Fmtp_Messages\<close>, \<open>Fmtp_Package\<close>, \<open>Fmtp_Machine\<close>: \<open>fmtp/\<close>, the messages, the packet and the
    table of the state machine. The names of the enumerations are read back; the header of
    a packet is read back from the packet, with the bounds of its length; the table is the
    relation the protocol means (\<open>lookup_is_protocol\<close>), for both roles.
  \<^item> \<open>Fmtp_Log\<close>, \<open>Channel_Settings\<close>: journal messages and their text form; the settings of a
    channel, their check, the states channels report.
  \<^item> \<open>Timer\<close>: \<open>channel/fmtp_states/timer.go\<close>, at two levels: the goroutines of the code as steps,
    and the timer a component relies on; the first refines the second when the goroutines
    run at once, and \<open>stop_overtaken\<close> is a schedule on which it does not.
  \<^item> \<open>State_Controller\<close>, \<open>Controller_Work\<close>: \<open>channel/fmtp_states/\<close>, the controller of an FMTP
    connection: transition functions, sending, the reading of packets, the event loop. It
    refines the protocol machine (\<open>controller_refines\<close>): the order of the messages, the
    handshakes of both roles and the return to Idle are proved from this.
  \<^item> \<open>Packet_Stream\<close>, \<open>Controller_Delivery\<close>, \<open>Controller_Timers\<close>, \<open>Association\<close>: what a controller
    reads from any segmentation of its input, which data it delivers, which timers run in
    which state, and how two controllers associate.
  \<^item> \<open>Tcp_Transport\<close>, \<open>Tcp_Runs\<close>: \<open>channel/tcp_transport/\<close>, the loops of the client and of the
    server as interleaved steps; order of the data sent, at most one client, deadlock.
  \<^item> \<open>Json\<close>, \<open>Chief_Protocol\<close>: the messages between chief and channel and their JSON texts.
  \<^item> \<open>Channel_Main\<close>, \<open>Chief_Client\<close>: the application of a channel and its connection to the chief.
  \<^item> \<open>Chief_Data\<close>, \<open>Chief_Server\<close>, \<open>Chief_Server_Runs\<close>: the settings and the state of the chief,
    its server for the channels with start, stop, restart and the relay of messages.
  \<^item> \<open>Batch_Queue\<close>, \<open>Oldi_Grpc\<close>: the queues sent in batches (a locale, of the provider over gRPC,
    of the journal and of the database), and \<open>chief/oldi/\<close> over gRPC: the service, its queue and
    its expiry, the controller with the starts and stops of its server. What the provider sends
    for known channels is handed on completely and in order (\<open>grpc_handed_on\<close>).
  \<^item> \<open>Oldi_Tcp\<close>: the same provider over TCP, \<open>chief/oldi/oldi_tcp_controller.go\<close> (which the worker does
    not start at present): listeners and connections as interleaved goroutines, with their
    well-formed states (\<open>oldi_tcp_typed\<close>) and the order of what a client gets.
  \<^item> \<open>Log_Pipeline\<close>, \<open>Chief_Log\<close>: the journal from the chief into Redis and out of it:
    \<open>chief/chief_logger/\<close> and \<open>ora_logger/redis_cntrl/\<close>; what is logged is in the stream, the queue or
    the channel before it (\<open>chief_log_chain\<close>), and what the reader hands on of a batch.
  \<^item> \<open>Logger_State\<close>, \<open>Ora_Cntrl\<close>, \<open>Ora_Runs\<close>: the writer of the logger to the database. \<open>Run\<close> may wait in
    the middle of a case, on a full channel, so that a case leaves the list of its operations
    (\<open>todo\<close>), each of which is a step; \<open>ora_case_ends\<close> bounds their number. What is written is what
    was received (\<open>ora_journal\<close>), the buffer empties while the database answers (\<open>ora_drains\<close>), and two
    theorems show what a failed connection leaves behind.
  \<^item> \<open>Logger_Main\<close>: the loop of the logger between its controllers, with the capacities of the
    channels; a send on a full channel is a step that is not possible. No message is lost or
    repeated between the reader and the writer (\<open>journal_stored\<close>).
  \<^item> \<open>Configurator\<close>, \<open>Chief_Worker\<close>: the exchange of the chief and of the logger with the configurator
    (\<open>configurator/\<close>), and what joins the parts of the chief: the worker, its metrics, the answer to
    the TKU and the lists of its web page. Settings the configurator answers are put in force by the
    server of the channels (\<open>answer_in_force\<close>).
  \<^item> \<open>Fdps_Imit\<close>: the imitator of a provider.
  \<^item> \<open>Json_Codec\<close>, \<open>Settings_Files\<close>: the files of the settings of the chief, the logger and the imitator and of
    the URLs. A locale states what a pair of encoder and decoder promises; it is interpreted on every
    structure that is saved. A restart without the configurator works with the settings of the last
    answer (\<open>restart_from_file\<close>, \<open>logger_restart\<close>), a first start with the defaults
    (\<open>defaults_written_once\<close>), which is also the start of the imitator.
  \<^item> \<open>Chief_Web\<close>: \<open>chief/chief_web/\<close> and the server of \<open>chief/tky/\<close>: the ports and their files, pages, paths and
    handlers; the form of the URLs and its way to the client of the configurator, which posts to what
    the form said last (\<open>urls_follow_form\<close>).
  \<^item> \<open>Chief_System\<close>: the calls of the provider, the gRPC controller, the worker and the server of the
    channels run at the same time, with the capacities of the channels between them. Nothing is lost,
    repeated or reordered between the provider and the channels (\<open>chief_ways\<close>), and there is a schedule
    on which the worker and the server wait for each other for ever (\<open>chief_deadlock\<close>). \<open>Chief_Drains\<close>: unless
    they are caught in the middle of a send, everything that is on the way can be handled
    (\<open>chief_drains\<close>).
  \<^item> \<open>Journal_System\<close>: the chief's logger, the Redis stream and the logger program run at the same time:
    what was logged is in the database or in one of the places before it, in order
    (\<open>journal_end_to_end\<close>).

  \<^item> \<open>Controller_Outputs\<close>, \<open>Gateways\<close>: what a controller sends besides the messages of its chief, and two
    gateways joined by an FMTP connection. Whatever the two controllers see and do, what
    the one delivers is a beginning of what the chief of the other has handed over
    (\<open>controller_to_controller\<close>), and messages of the provider on the one side are those the provider on
    the other side fetches (\<open>provider_to_provider\<close>).
  \<^item> \<open>Channel_System\<close>, \<open>Channel_Ways\<close>, \<open>Channel_Wire\<close>, \<open>Channel_Runs\<close>: a channel as a whole, its controller and
    its transport (either of the two) as goroutines over the Go channels between them, with their
    capacities. A goroutine that waits is one with something left to hand over. What the controller
    sends is what is written, what waits in the queue and what it still holds
    (\<open>client_channel_way\<close>); in the state data_ready the handshake was on the connection itself
    (\<open>data_ready_on_wire\<close>); and the goroutines can get there (\<open>channel_establishes\<close>).
  \<^item> \<open>Channel_Blocks\<close>: two schedules on which a channel is lost: a backlog while the peer is away makes
    controller and transport wait for each other (\<open>backlog_blocks\<close>), and a rejected connection is asked
    for again twice (\<open>rejected_dials_twice\<close>). \<open>Channel_Pair\<close>: a client channel and the server channel it
    is connected with, from chief to chief (\<open>channel_to_channel\<close>).

  This theory joins them further: the start of a channel, from the arguments of its process to its
  controller (\<open>channel_comes_up\<close>), from the provider to the connection, from the connection to the
  provider, and from the connection to the controller.

  Interfaces are locales, interpreted on the definitions of the code that provide them:
  name tables (\<open>Fmtp_Messages\<close>), machines whose states come in stages (\<open>Fmtp_Machine\<close>), the
  timer (\<open>Timer\<close>), the queue of data to send (\<open>Tcp_Runs\<close>), what the operations of a controller keep of
  its outputs (\<open>handler_relation\<close> of \<open>Controller_Outputs\<close>, interpreted for the packets and for the marks of the
  handshake), what a channel needs of its transport (\<open>tcp_interface\<close>, interpreted on the client and on the
  server), the batch queue (\<open>Batch_Queue\<close>, by
  \<open>redis_queue\<close>, \<open>grpc_queue\<close> and \<open>ora_queue\<close>) and the encoder with its decoder (\<open>json_codec\<close>, by the
  structures of \<open>Settings_Files\<close>).

  No fuel is used: every loop of the code is an event loop (one step per event) or a
  recursion on what is left of its input (\<open>read_packets\<close>, which reads at least five bytes a
  round or stops). Parameters of the model, because their code is not under \<open>src/\<close>:
  the conversion between Windows-1251 and UTF-8 (assumed to be inverse where a theorem
  says so), the JSON texts (the document a text is read as, and that printing a document keeps it),
  the clock, the file system (assumed to keep what was written, where a theorem says so), the paths
  and ports of the package \<open>utils\<close>, Docker, the operating system, Redis, the Oracle driver, Prometheus, gRPC, the
  configurator and the network: the results of their calls are inputs of the steps. The
  priority queue of the writer is a parameter with the behaviour its documentation promises
  (\<open>pq_lawful\<close>), which a list keeps (\<open>list_pq_lawful\<close>).

  In a channel as a whole, what its controller gives to the rest of the program (journal, messages
  received, its state) is taken at once, and the loops of the client read and write the connection that
  the network gives them: which connection that is does not appear in the model, only how many were
  opened and closed. A step of the transport changes its state when its case is taken, and what it
  hands over follows.

  Not modelled: the HTML of the web pages, the HTTP library and log files (I/O), two requests that
  change the form of the URLs at the same time, the replacement of invalid UTF-8 by the JSON
  encoder, what the JSON decoder finds in the elements of a slice it fills again, the panic
  of closing a channel twice when an identifier was started twice, the unsynchronised access to
  the map of TCP providers, the difference of nil and empty slices, generated gRPC code, and the
  JSON form of journal messages that only a test of the repository uses. What is left of the code
  are imports, declarations of channels and the set-up of the logging library.
\<close>

section \<open>The start of a channel\<close>

text \<open>While the web socket is not connected yet, the client asks for nothing.\<close>

definition not_yet_connected :: "(time \<times> client_input) list \<Rightarrow> bool" where
  "not_yet_connected xs \<longleftrightarrow>
     (\<forall>p \<in> set xs. snd p \<noteq> WsState ClientConnected \<and> (\<forall>st. snd p \<noteq> NewClientSetts st))"

lemma client_waits:
  "not_yet_connected xs \<Longrightarrow>
   let d = client_run clk xs c
   in chief_client.clSetts d = chief_client.clSetts c \<and> sendSettingsRequest d = sendSettingsRequest c \<and> Chief_Client.requests d = Chief_Client.requests c"
proof (induction xs arbitrary: c)
  case (Cons p xs)
  obtain t i where p: "p = (t, i)" by (cases p)
  have i: "i \<noteq> WsState ClientConnected" "\<And>st. i \<noteq> NewClientSetts st" "not_yet_connected xs"
    using Cons.prems by (auto simp: not_yet_connected_def p)
  have "chief_client.clSetts (chief_client_step clk t i c) = chief_client.clSetts c \<and>
      sendSettingsRequest (chief_client_step clk t i c) = sendSettingsRequest c \<and>
      Chief_Client.requests (chief_client_step clk t i c) = Chief_Client.requests c" if "\<not> (\<exists>j. i = SendToChief j)"
    using i(1,2) that by (cases i) (auto simp: ws_state_changed_def Let_def split: option.split)
  moreover have "chief_client.clSetts (chief_client_step clk t i c) = chief_client.clSetts c \<and>
      sendSettingsRequest (chief_client_step clk t i c) = sendSettingsRequest c \<and>
      Chief_Client.requests (chief_client_step clk t i c) = Chief_Client.requests c" if "\<exists>j. i = SendToChief j"
    using that by auto
  ultimately show ?case using Cons.IH [OF i(3), of "chief_client_step clk t i c"] by (auto simp: p Let_def)
qed simp

lemma client_asks:
  assumes "not_yet_connected xs" "ChiefAddress st \<noteq> []"
  shows "Chief_Client.requests (client_run clk ((t1, NewClientSetts st) # xs @ [(t2, WsState ClientConnected)]) NewChiefChannelClient) =
    [ClSend (marshal_request (CreateSettingsRequestMsg (clChannelID st)))]"
proof -
  let ?c = "chief_client_step clk t1 (NewClientSetts st) NewChiefChannelClient"
  have c: "chief_client.clSetts ?c = st" "\<not> sendSettingsRequest ?c" "Chief_Client.requests ?c = []"
    using assms(2) by (auto simp: NewChiefChannelClient_def Chief_Client.requests_def)
  show ?thesis
    using client_waits [OF assms(1), of clk ?c] c
    by (simp add: Let_def client_run_append ws_state_changed_def request_settings_def del: chief_client_step.simps(1))
qed

text \<open>C9: A channel the chief starts comes up with the settings the chief holds for it: the
  program reads its arguments, asks the chief for its settings once its web socket is connected, the server
  answers on that connection, and the program starts its controller with exactly these settings, with the
  initial state read from its text; the controller starts idle, its machine made for the role.\<close>

theorem channel_comes_up:
  assumes "rnSetts r = s" and "settings_ok s" and "settings_in_range s" and "int64 (ChPort (srvSetts cc))"
    and "find_setts (csId s) (ChSettings (srvSetts cc')) = Some s" and "not_yet_connected xs"
  shows "\<exists>args app st j k. StartProcess (filePath (rnBin r)) args \<in> set (srvOut (process_start senv r None cc)) \<and>
    mainStart (filePath (rnBin r) # args) = Inr app \<and> appOut app = [ClientStart st] \<and>
    Chief_Client.requests (client_run clk ((t1, NewClientSetts st) # xs @ [(t2, WsState ClientConnected)]) NewChiefChannelClient) =
      [ClSend j] \<and>
    (\<forall>d. wsDoc d = Some j \<longrightarrow> to_channels (ws_received senv tm sock d cc') = to_channels cc' @ [(k, Some sock)]) \<and>
    (\<forall>d. wsDoc d = Some k \<longrightarrow>
      (let app' = from_chief aenv d app;
           s' = s\<lparr>FmtpInitState := FmtpState_FromString (stateOrder aenv) (FmtpInitStateStr s)\<rparr>;
           c = Work_start s' NewStateController
       in channelSetts app' = s' \<and> started app' = [s'] \<and> well_set c \<and> currentState c = Idle \<and> out c = []))"
proof -
  let ?p = "filePath (rnBin r)" and ?st = "\<lparr>ChiefAddress = ''127.0.0.1'', ChiefPort = ChPort (srvSetts cc), clChannelID = csId s\<rparr>"
  let ?args = "tl (channel_args ?p (ChPort (srvSetts cc)) s)"
  let ?j = "marshal_request (CreateSettingsRequestMsg (csId s))" and ?k = "marshal_answer (CreateSettingsAnswerMsg s)"
  have r: "int64 (csId s)" "int64 (URLPort s)" using assms(3) by (simp_all add: settings_in_range_def)
  have "?p # ?args = channel_args ?p (ChPort (srvSetts cc)) s" by (simp add: channel_args_def)
  then obtain app where app: "mainStart (?p # ?args) = Inr app" "appOut app = [ClientStart ?st]"
    using mainStart_args [OF assms(4) r, of ?p] by auto
  have "StartProcess ?p ?args \<in> set (srvOut (process_start senv r None cc))"
    by (simp add: process_start_def set_running_def Let_def assms(1))
  moreover have "Chief_Client.requests (client_run clk ((t1, NewClientSetts ?st) # xs @ [(t2, WsState ClientConnected)])
      NewChiefChannelClient) = [ClSend ?j]"
    using client_asks [OF assms(6), of ?st clk t1 t2] by simp
  moreover have "to_channels (ws_received senv tm sock d cc') = to_channels cc' @ [(?k, Some sock)]" if "wsDoc d = Some ?j" for d
    by (rule known_channel_answer [OF r(1) assms(5) that])
  moreover have "well_set (Work_start x NewStateController)" "currentState (Work_start x NewStateController) = Idle"
    "out (Work_start x NewStateController) = []" for x
    by (simp_all add: well_set_def Work_start_def NewStateController_def)
  moreover have "started app = []" using app(2) by (simp add: started_def)
  ultimately show ?thesis
    using app answer_starts [OF assms(2,3), of _ aenv app]
    by (intro exI [of _ ?args] exI [of _ app] exI [of _ ?st] exI [of _ ?j] exI [of _ ?k]) (simp add: Let_def)
qed

theorem channel_comes_up_witness:
  "let r = example_runner; s = example_client; cc = example_srv; xs = [(0, WsState ClientDisconnected)] in
   \<exists>args app st j k. StartProcess (filePath (rnBin r)) args \<in> set (srvOut (process_start example_srv_env r None cc)) \<and>
    mainStart (filePath (rnBin r) # args) = Inr app \<and> appOut app = [ClientStart st] \<and>
    Chief_Client.requests (client_run (\<lambda>n. []) ((0, NewClientSetts st) # xs @ [(9, WsState ClientConnected)]) NewChiefChannelClient) =
      [ClSend j] \<and>
    (\<forall>d. wsDoc d = Some j \<longrightarrow> to_channels (ws_received example_srv_env 0 5 d cc) = to_channels cc @ [(k, Some 5)]) \<and>
    (\<forall>d. wsDoc d = Some k \<longrightarrow>
      (let app' = from_chief example_app_env d app;
           s' = s\<lparr>FmtpInitState := FmtpState_FromString (stateOrder example_app_env) (FmtpInitStateStr s)\<rparr>;
           c = Work_start s' NewStateController
       in channelSetts app' = s' \<and> started app' = [s'] \<and> well_set c \<and> currentState c = Idle \<and> out c = []))"
  unfolding Let_def [of example_runner] Let_def [of example_client] Let_def [of example_srv] Let_def [of "[_]"]
proof (rule channel_comes_up)
  show "rnSetts example_runner = example_client" by (simp add: example_runner_def)
  show "settings_ok example_client" by (rule examples_ok)
  show "settings_in_range example_client" by (rule examples_in_range)
  show "int64 (ChPort (srvSetts example_srv))"
    by (simp add: example_srv_defs int64_def int_min_def int_max_def)
  show "find_setts (csId example_client) (ChSettings (srvSetts example_srv)) = Some example_client"
    by (simp add: find_setts_def example_srv_defs)
qed (simp add: not_yet_connected_def)

section \<open>From the provider to the connection\<close>

text \<open>A message of the OLDI provider for a channel that has reported its data flow
  goes all the way to the connection: the server of the chief sends it to the client of the channel, the
  channel reads it as an operational message with the same text, and the controller of the channel sends
  its packet, whatever state it is in itself.\<close>

theorem provider_packet_sent:
  assumes "wsClients cc i = Some sock" and "map_of (chStates cc) i = Some st"
    and "stFmtpState (chState st) = FmtpState_ToString DataReady" and "int64 i"
  shows "\<exists>j. to_channels (ProcessOldiPacket \<lparr>PbMsg = pb, ChanId = i\<rparr> cc) = to_channels cc @ [(j, sock)] \<and>
    (let m = \<lparr>msgType = Operational, msgText = pbTxt pb\<rparr> in
      (\<forall>d. wsDoc d = Some j \<longrightarrow> to_controller (from_chief env d a) = to_controller a @ [m]) \<and>
      sent (sc_step senv (FromChief m) c) = sent c @
        [\<lparr>DataToSend = MakeFmtpPacket (wire_message senv (DataEncoding (curSet c)) m), EventAfterSend = LData\<rparr>])"
proof -
  let ?j = "marshal_data (CreateChiefDataMsg i (pbTxt pb))"
  have "to_channels (ProcessOldiPacket \<lparr>PbMsg = pb, ChanId = i\<rparr> cc) = to_channels cc @ [(?j, sock)]"
    using assms(1-3) by (simp add: provider_packet)
  moreover have "to_controller (from_chief env d a) =
      to_controller a @ [\<lparr>msgType = Operational, msgText = pbTxt pb\<rparr>]" if "wsDoc d = Some ?j" for d
    using chief_data_forwarded [OF assms(4) that, of env a] by (simp add: to_controller_def)
  ultimately show ?thesis by (intro exI [of _ ?j]) simp
qed

theorem provider_packet_sent_witness:
  "let cc = example_srv\<lparr>wsClients := [1 \<mapsto> Some 5], chStates := [(1, \<lparr>chState = example_state, chTime = 0\<rparr>)]\<rparr>;
       pb = zeroPbMsg\<lparr>pbCid := ''ULLL'', pbTxt := ''(FPL)''\<rparr>; c = Work_start example_client NewStateController
   in \<exists>j. to_channels (ProcessOldiPacket \<lparr>PbMsg = pb, ChanId = 1\<rparr> cc) = to_channels cc @ [(j, Some 5)] \<and>
    (let m = \<lparr>msgType = Operational, msgText = pbTxt pb\<rparr> in
      (\<forall>d. wsDoc d = Some j \<longrightarrow> to_controller (from_chief example_app_env d example_app) =
         to_controller example_app @ [m]) \<and>
      sent (sc_step example_env (FromChief m) c) = sent c @
        [\<lparr>DataToSend = MakeFmtpPacket (wire_message example_env (DataEncoding (curSet c)) m), EventAfterSend = LData\<rparr>])"
proof -
  have "FmtpState_ToString DataReady = ''data_ready''" by (simp add: table_defs)
  then show ?thesis
    unfolding Let_def
    by (intro provider_packet_sent [unfolded Let_def, where st = "\<lparr>chState = example_state, chTime = 0\<rparr>"])
      (simp_all add: example_state_def int64_def int_min_def int_max_def)
qed

section \<open>From the connection to the provider\<close>

text \<open>A data message that the controller of an OLDI channel delivers reaches the
  queue of the provider: the channel sends it to the chief, and the server of the chief reads it, finds
  the settings of the channel and hands the text on under the name of the remote side and the next
  identifier. It sets no time of reception.\<close>

theorem channel_data_to_provider:
  assumes "int64 (csId s)" and "find_setts (csId s) (ChSettings (srvSetts cc)) = Some s"
    and "csDataType s = OLDIProvider" and "csId (channelSetts a) = csId s"
  shows "\<exists>j a'. app_step env (ControllerData m) a = Inr a' \<and> to_chief a' = to_chief a @ [j] \<and>
    (\<forall>d. wsDoc d = Some j \<longrightarrow>
      to_fdps (ws_received senv tm sock d cc) = to_fdps cc @
        [\<lparr>pbCid = RemoteATC s, pbTp = [], pbTxt = msgText m, pbId = Itoa (oldiIdent cc),
          Rrtime = None, Rqtime = None\<rparr>])"
proof -
  let ?j = "marshal_data (CreateChannelDataMsg (csId s) m)"
  have "to_chief (app_emit (ToChief ?j) a) = to_chief a @ [?j]" by (simp add: to_chief_def)
  moreover have "to_fdps (ws_received senv tm sock d cc) = to_fdps cc @
        [\<lparr>pbCid = RemoteATC s, pbTp = [], pbTxt = msgText m, pbId = Itoa (oldiIdent cc),
          Rrtime = None, Rqtime = None\<rparr>]" if "wsDoc d = Some ?j" for d
    using channel_message(1) [OF assms(1-3) that, of senv tm sock] by (simp add: zeroPbMsg_def)
  ultimately show ?thesis using assms(4) by auto
qed

theorem channel_data_to_provider_witness:
  "let cc = example_srv; a = example_app\<lparr>channelSetts := example_client\<rparr>;
       m = \<lparr>msgType = Operational, msgText = ''(FPL)''\<rparr>
   in \<exists>j a'. app_step example_app_env (ControllerData m) a = Inr a' \<and> to_chief a' = to_chief a @ [j] \<and>
    (\<forall>d. wsDoc d = Some j \<longrightarrow>
      to_fdps (ws_received example_srv_env 0 5 d cc) = to_fdps cc @
        [\<lparr>pbCid = RemoteATC example_client, pbTp = [], pbTxt = msgText m, pbId = Itoa (oldiIdent cc),
          Rrtime = None, Rqtime = None\<rparr>])"
  unfolding Let_def
  by (rule channel_data_to_provider)
    (simp_all add: find_setts_def example_srv_defs example_defs OLDIProvider_def int64_def int_min_def int_max_def)

section \<open>From the connection to the controller\<close>

lemma client_chunk_step:
  assumes "client_step clk a s = Some t"
  shows "\<exists>bss. received_chunks (trOut t) = received_chunks (trOut s) @ bss \<and> (\<forall>bs \<in> set bss. length bs \<le> 1024)"
proof -
  have "\<exists>es. trOut t = trOut s @ es \<and> (\<forall>bs. Received bs \<in> set es \<longrightarrow> length bs \<le> 1024)"
    using assms
    by (cases a)
      (auto simp: client_step_def startClient_def client_stopped_def recv_poll_def recv_read_def
        send_next_def take_error_def take_cancel_def push_data_def tr_defs Let_def
        split: if_splits option.splits sum.splits list.splits)
  then obtain es where es: "trOut t = trOut s @ es" "\<forall>bs. Received bs \<in> set es \<longrightarrow> length bs \<le> 1024"
    by blast
  have "\<forall>bs \<in> set (received_chunks es). length bs \<le> 1024"
    using es(2) by (auto simp: received_chunks_def split: tcp_effect.splits)
  with es(1) show ?thesis by auto
qed

lemma client_chunks_small:
  "run_steps (client_step clk) as s = Some t \<Longrightarrow> \<forall>bs \<in> set (received_chunks (trOut s)). length bs \<le> 1024 \<Longrightarrow>
   \<forall>bs \<in> set (received_chunks (trOut t)). length bs \<le> 1024"
proof (induction "as" arbitrary: s)
  case (Cons a "as")
  then obtain u where u: "client_step clk a s = Some u" "run_steps (client_step clk) as u = Some t"
    by (auto split: option.splits)
  from client_chunk_step [OF u(1)] Cons.prems(2)
  have "\<forall>bs \<in> set (received_chunks (trOut u)). length bs \<le> 1024" by auto
  with Cons.IH [OF u(2)] show ?case by blast
qed simp

text \<open>C23: A client channel never receives a message longer than 1019 bytes whole, however
  the network behaves: its transport reads at most 1024 bytes at a time, and from the chunk that ends
  inside the packet the controller delivers a text cut short and filled up with zero bytes.\<close>

theorem client_reads_cut:
  assumes "run_steps (client_step clk) as NewFmtpTcpClient = Some t"
    and "received_chunks (trOut t) = chunk # chunks" and "5 < length chunk"
    and "concat (chunk # chunks) = MakeFmtpPacket m @ rest"
    and "sendable m" and "is_data m" and "1019 < length (msgText m)" and "receivedBuffer c = []"
  shows "\<exists>more. length chunk \<le> 1024 \<and>
    delivered (sc_run env (map ReceivedData (received_chunks (trOut t))) c) = delivered c @
      read_message env (DataEncoding (curSet c))
        (m\<lparr>msgText := take (length chunk - 5) (msgText m) @
             string_of (replicate (length (msgText m) - (length chunk - 5)) 0)\<rparr>) # more"
proof -
  have "received_chunks (trOut NewFmtpTcpClient) = []"
    by (simp add: NewFmtpTcpClient_def received_chunks_def)
  then have small: "length chunk \<le> 1024"
    using client_chunks_small [OF assms(1)] assms(2) by simp
  then have le: "length chunk \<le> length (MakeFmtpPacket m)" using assms(7) by simp
  have "chunk = take (length chunk) (MakeFmtpPacket m @ rest)"
    using assms(4) by (metis append_eq_conv_conj concat.simps(2))
  then have ck: "chunk = take (length chunk) (MakeFmtpPacket m)" using le by simp
  have "messages chunk = [m\<lparr>msgText := take (length chunk - 5) (msgText m) @
             string_of (replicate (length (msgText m) - (length chunk - 5)) 0)\<rparr>]"
    using messages_cut_text [OF assms(5,3) le] ck by simp
  then have "received_of (ReceivedData chunk) = [m\<lparr>msgText := take (length chunk - 5) (msgText m) @
             string_of (replicate (length (msgText m) - (length chunk - 5)) 0)\<rparr>]"
    using assms(6) by (simp add: is_data_def)
  then show ?thesis using small by (simp add: run_delivers [OF assms(8)] assms(2) del: sc_run.simps)
qed

definition long_message :: FmtpMessage where
  "long_message = \<lparr>msgType = Operational, msgText = replicate 2000 (CHR ''A'')\<rparr>"

lemma packet_neq_Nil [simp]: "MakeFmtpPacket m \<noteq> []"
  using length_MakeFmtpPacket [of m] by (metis add_is_0 list.size(3) zero_neq_numeral)

lemma long_message_reads:
  "received_chunks (trOut (the (run_steps (client_step (\<lambda>n. []))
      [CSettings example_transport None None, CPoll 0, CRead 0 (Inr (take 1024 (MakeFmtpPacket long_message))),
       CPoll 0, CRead 0 (Inr (drop 1024 (MakeFmtpPacket long_message)))] NewFmtpTcpClient))) =
     [take 1024 (MakeFmtpPacket long_message), drop 1024 (MakeFmtpPacket long_message)]"
  "run_steps (client_step (\<lambda>n. []))
      [CSettings example_transport None None, CPoll 0, CRead 0 (Inr (take 1024 (MakeFmtpPacket long_message))),
       CPoll 0, CRead 0 (Inr (drop 1024 (MakeFmtpPacket long_message)))] NewFmtpTcpClient \<noteq> None"
  by (simp_all add: client_step_def NewFmtpTcpClient_def example_transport_def zeroTcpSettings_def
      startClient_def recv_poll_def recv_read_def loop_at_def tr_defs Let_def received_chunks_def
      long_message_def)

theorem client_reads_cut_witness:
  "let as = [CSettings example_transport None None, CPoll 0, CRead 0 (Inr (take 1024 (MakeFmtpPacket long_message))),
             CPoll 0, CRead 0 (Inr (drop 1024 (MakeFmtpPacket long_message)))];
       t = the (run_steps (client_step (\<lambda>n. [])) as NewFmtpTcpClient);
       c = Work_start example_client NewStateController
   in \<exists>more. length (take 1024 (MakeFmtpPacket long_message)) \<le> 1024 \<and>
    delivered (sc_run example_env (map ReceivedData (received_chunks (trOut t))) c) = delivered c @
      read_message example_env (DataEncoding (curSet c))
        (long_message\<lparr>msgText := take (length (take 1024 (MakeFmtpPacket long_message)) - 5) (msgText long_message) @
             string_of (replicate (length (msgText long_message) -
               (length (take 1024 (MakeFmtpPacket long_message)) - 5)) 0)\<rparr>) # more"
  unfolding Let_def
  by (rule client_reads_cut [where rest = "[]", OF option.collapse [OF long_message_reads(2), symmetric] long_message_reads(1)])
    (simp_all add: sendable_def is_data_def long_message_def Work_start_def NewStateController_def)

end
